(* ===== verification/JsPrelude.thy ===== *)
theory JsPrelude
  imports Complex_Main "HOL-Library.Multiset"
begin

text \<open>
  What the components share: JavaScript values as they appear in a table cell, exceptions as
  values, the array operations of the language the sources use (\<open>findIndex\<close>, \<open>slice\<close>,
  \<open>Array.prototype.sort\<close>), and the two interface locales of the library: comparators that
  \<open>sort\<close> may be given, and the slices of the NgRx store with their invariants.

  JavaScript numbers are \<^typ>\<open>int\<close> where the code only counts, and \<^typ>\<open>rat\<close> where it divides or
  reads decimal data; the rounding of binary64 is not modelled. NaN is \<^term>\<open>None\<close> in a number
  option. Strings are lists of characters.
\<close>

named_theorems js_simps \<open>unfoldings of the language helpers\<close>
named_theorems reducer_simps \<open>unfoldings of reducers and of the functions they call\<close>
named_theorems slice_intros \<open>preservation facts of slice invariants\<close>

declare Let_def [simp]

section \<open>Values and errors\<close>

text \<open>An exception of the language, or an \<open>Error\<close> thrown by the source with its message.\<close>

datatype jserror = TypeError string | SyntaxError string | ErrorMsg string

type_synonym 'a result = "jserror + 'a"

definition js_bind :: "'a result \<Rightarrow> ('a \<Rightarrow> 'b result) \<Rightarrow> 'b result" where
  "js_bind r f = (case r of Inl e \<Rightarrow> Inl e | Inr x \<Rightarrow> f x)"

lemma js_bind_simps [simp, js_simps]:
  "js_bind (Inl e) f = Inl e"
  "js_bind (Inr x) f = f x"
  by (simp_all add: js_bind_def)

lemma js_bind_Inr_iff:
  "js_bind r f = Inr y \<longleftrightarrow> (\<exists>x. r = Inr x \<and> f x = Inr y)"
  by (cases r) simp_all

text \<open>\<open>Array.prototype.map\<close> with a callback that may throw: the first exception ends the call.\<close>

fun js_mapM :: "('a \<Rightarrow> 'b result) \<Rightarrow> 'a list \<Rightarrow> 'b list result" where
  "js_mapM f [] = Inr []"
| "js_mapM f (x # xs) = js_bind (f x) (\<lambda>y. js_bind (js_mapM f xs) (\<lambda>ys. Inr (y # ys)))"

lemma js_mapM_total:
  "(\<And>x. x \<in> set xs \<Longrightarrow> f x = Inr (g x)) \<Longrightarrow> js_mapM f xs = Inr (map g xs)"
  by (induction xs) simp_all

lemma js_mapM_length: "js_mapM f xs = Inr ys \<Longrightarrow> length ys = length xs"
  by (induction xs arbitrary: ys) (auto simp: js_bind_Inr_iff)

lemma js_mapM_Inr: "js_mapM f xs = Inr ys \<longleftrightarrow> list_all2 (\<lambda>x y. f x = Inr y) xs ys"
proof (induction xs arbitrary: ys)
  case (Cons x xs)
  then show ?case by (cases ys) (auto simp: js_bind_Inr_iff)
qed auto

text \<open>
  A property value of a table row. \<open>JObj\<close> stands for a plain object, whose conversion to a
  number is NaN.
\<close>

datatype jsval = JUndefined | JNull | JNum rat | JNaN | JStr string | JBool bool | JObj

fun nullish :: "jsval \<Rightarrow> bool" where
  "nullish JUndefined = True"
| "nullish JNull = True"
| "nullish _ = False"

fun js_truthy :: "jsval \<Rightarrow> bool" where
  "js_truthy JUndefined = False"
| "js_truthy JNull = False"
| "js_truthy (JNum r) = (r \<noteq> 0)"
| "js_truthy JNaN = False"
| "js_truthy (JStr s) = (s \<noteq> [])"
| "js_truthy (JBool b) = b"
| "js_truthy JObj = True"

text \<open>A field that the code compares with both \<open>undefined\<close> and \<open>null\<close>.\<close>

datatype 'a js = Undefined | Null | Val 'a

text \<open>Truthiness of an optional number, and a number field without its \<open>null\<close>.\<close>

definition truthy_int :: "int option \<Rightarrow> bool" where
  "truthy_int x \<longleftrightarrow> (\<exists>i. x = Some i \<and> i \<noteq> 0)"

lemma truthy_int_code [code]: "truthy_int x = (case x of None \<Rightarrow> False | Some i \<Rightarrow> i \<noteq> 0)"
  by (auto simp: truthy_int_def split: option.splits)

lemma truthy_int_simps [simp]: "\<not> truthy_int None" "truthy_int (Some i) \<longleftrightarrow> i \<noteq> 0"
  by (simp_all add: truthy_int_def)

fun js_id :: "int js \<Rightarrow> int option" where
  "js_id (Val i) = Some i"
| "js_id _ = None"

text \<open>The wrappers the components use to turn optional fields into cells.\<close>

definition of_num :: "rat option \<Rightarrow> jsval" where
  "of_num x = (case x of None \<Rightarrow> JUndefined | Some r \<Rightarrow> JNum r)"

definition of_int_opt :: "int option \<Rightarrow> jsval" where
  "of_int_opt x = (case x of None \<Rightarrow> JUndefined | Some i \<Rightarrow> JNum (of_int i))"

definition of_str :: "string option \<Rightarrow> jsval" where
  "of_str x = (case x of None \<Rightarrow> JUndefined | Some s \<Rightarrow> JStr s)"

abbreviation of_i :: "int \<Rightarrow> jsval" where
  "of_i i \<equiv> JNum (of_int i)"

text \<open>\<open>Number.MAX_VALUE\<close>, the largest finite binary64 number.\<close>

definition MAX_VALUE :: rat where
  "MAX_VALUE = 2 ^ 1024 - 2 ^ 971"

text \<open>
  The language's conversion of a string to a number: white space is trimmed, the empty string is
  0, then a decimal literal with optional sign, fraction and exponent, or an unsigned literal in
  base 2, 8 or 16; anything else is NaN. (The literal \<open>Infinity\<close> has no value here.)
\<close>

definition js_space :: "char \<Rightarrow> bool" where
  "js_space c \<longleftrightarrow> c \<in> {CHR 0x20, CHR 0x09, CHR 0x0A, CHR 0x0B, CHR 0x0C, CHR 0x0D, CHR 0xA0}"

definition js_trim :: "string \<Rightarrow> string" where
  "js_trim s = rev (dropWhile js_space (rev (dropWhile js_space s)))"

definition char_code :: "char \<Rightarrow> nat" where
  "char_code c = of_char c"

definition is_digit :: "char \<Rightarrow> bool" where
  "is_digit c \<longleftrightarrow> 48 \<le> char_code c \<and> char_code c \<le> 57"

definition digit_in :: "nat \<Rightarrow> char \<Rightarrow> nat option" where
  "digit_in base c = (let n = char_code c;
      d = (if 48 \<le> n \<and> n \<le> 57 then n - 48
           else if 97 \<le> n \<and> n \<le> 122 then n - 87
           else if 65 \<le> n \<and> n \<le> 90 then n - 55 else 99)
    in if d < base then Some d else None)"

fun read_base :: "nat \<Rightarrow> nat \<Rightarrow> string \<Rightarrow> nat option" where
  "read_base base acc [] = Some acc"
| "read_base base acc (c # cs) = (case digit_in base c of None \<Rightarrow> None
     | Some d \<Rightarrow> read_base base (acc * base + d) cs)"

definition read_digits :: "nat \<Rightarrow> string \<Rightarrow> nat option" where
  "read_digits base cs = (if cs = [] then None else read_base base 0 cs)"

definition read_signed :: "(string \<Rightarrow> 'a option) \<Rightarrow> ('a \<Rightarrow> 'a) \<Rightarrow> string \<Rightarrow> 'a option" where
  "read_signed rd neg s = (case s of
      c # cs \<Rightarrow> if c = CHR ''-'' then map_option neg (rd cs)
                else if c = CHR ''+'' then rd cs else rd s
    | [] \<Rightarrow> rd s)"

definition read_exponent :: "string \<Rightarrow> int option" where
  "read_exponent s = (case s of
      [] \<Rightarrow> Some 0
    | c # cs \<Rightarrow> if c = CHR ''e'' \<or> c = CHR ''E''
        then read_signed (\<lambda>t. map_option int (read_digits 10 t)) uminus cs else None)"

definition read_decimal :: "string \<Rightarrow> rat option" where
  "read_decimal s = (let ip = takeWhile is_digit s; r = dropWhile is_digit s;
      fp = (case r of c # cs \<Rightarrow> if c = CHR ''.'' then takeWhile is_digit cs else [] | [] \<Rightarrow> []);
      r' = (case r of c # cs \<Rightarrow> if c = CHR ''.'' then dropWhile is_digit cs else r | [] \<Rightarrow> [])
    in case (read_digits 10 (ip @ fp), read_exponent r') of
        (Some n, Some e) \<Rightarrow> Some (of_nat n * 10 powi (e - int (length fp)))
      | _ \<Rightarrow> None)"

definition js_string_to_number :: "string \<Rightarrow> rat option" where
  "js_string_to_number s0 = (let s = js_trim s0 in
     if s = [] then Some 0
     else if take 2 s = ''0x'' \<or> take 2 s = ''0X'' then map_option of_nat (read_digits 16 (drop 2 s))
     else if take 2 s = ''0o'' \<or> take 2 s = ''0O'' then map_option of_nat (read_digits 8 (drop 2 s))
     else if take 2 s = ''0b'' \<or> take 2 s = ''0B'' then map_option of_nat (read_digits 2 (drop 2 s))
     else read_signed read_decimal uminus s)"

fun js_to_number :: "jsval \<Rightarrow> rat option" where
  "js_to_number JUndefined = None"
| "js_to_number JNull = Some 0"
| "js_to_number (JNum r) = Some r"
| "js_to_number JNaN = None"
| "js_to_number (JStr s) = js_string_to_number s"
| "js_to_number (JBool b) = Some (if b then 1 else 0)"
| "js_to_number JObj = None"

text \<open>\<open>BigInt(s)\<close> on a decimal string.\<close>

definition js_BigInt :: "string \<Rightarrow> int result" where
  "js_BigInt s0 = (let s = js_trim s0 in
     if s = [] then Inr 0
     else case read_signed (\<lambda>t. map_option int (read_digits 10 t)) uminus s of
        Some i \<Rightarrow> Inr i | None \<Rightarrow> Inl (SyntaxError s0))"

text \<open>\<open>reduce\<close> without an initial value throws on an empty array.\<close>

definition js_reduce1 :: "('a \<Rightarrow> 'a \<Rightarrow> 'a) \<Rightarrow> 'a list \<Rightarrow> 'a result" where
  "js_reduce1 f xs = (case xs of [] \<Rightarrow> Inl (TypeError ''reduce'') | x # ys \<Rightarrow> Inr (foldl f x ys))"

text \<open>\<open>Array.from(new Set(xs))\<close>: the distinct elements, in the order of their first occurrence.\<close>

definition js_unique :: "'a list \<Rightarrow> 'a list" where
  "js_unique xs = rev (remdups (rev xs))"

lemma js_unique [simp]: "set (js_unique xs) = set xs" "distinct (js_unique xs)"
  by (simp_all add: js_unique_def)

text \<open>The decimal rendering of an integer, as a template literal prints it.\<close>

fun nat_to_string :: "nat \<Rightarrow> string" where
  "nat_to_string n = (if n < 10 then [char_of (48 + n)]
     else nat_to_string (n div 10) @ [char_of (48 + n mod 10)])"

declare nat_to_string.simps [simp del]

definition int_to_string :: "int \<Rightarrow> string" where
  "int_to_string i = (if i < 0 then CHR ''-'' # nat_to_string (nat (- i)) else nat_to_string (nat i))"

text \<open>\<open>Number(x.toFixed(n))\<close>: the nearest multiple of \<open>10 ^ -n\<close>, the larger magnitude on a tie.\<close>

definition js_toFixed :: "nat \<Rightarrow> rat \<Rightarrow> rat" where
  "js_toFixed n x = (if x < 0 then - (of_int \<lfloor>- x * 10 ^ n + 1 / 2\<rfloor> / 10 ^ n)
     else of_int \<lfloor>x * 10 ^ n + 1 / 2\<rfloor> / 10 ^ n)"

text \<open>The fraction of a number with \<open>c\<close> hundredths, without trailing zeros; \<open>toFixed(2)\<close> keeps them.\<close>

definition fraction_text :: "nat \<Rightarrow> string" where
  "fraction_text c = (if c = 0 then [] else CHR ''.'' #
     (if c mod 10 = 0 then nat_to_string (c div 10) else nat_to_string (c div 10) @ nat_to_string (c mod 10)))"

definition fixed2_text :: "rat \<Rightarrow> string" where
  "fixed2_text r = (let h = nat \<lfloor>\<bar>r\<bar> * 100 + 1 / 2\<rfloor>
     in (if r < 0 then ''-'' else []) @ nat_to_string (h div 100) @ CHR ''.'' #
        nat_to_string (h mod 100 div 10) @ nat_to_string (h mod 10))"

fun js_join :: "string \<Rightarrow> string list \<Rightarrow> string" where
  "js_join sep [] = []"
| "js_join sep [s] = s"
| "js_join sep (s # t # ts) = s @ sep @ js_join sep (t # ts)"

text \<open>\<open>x - y\<close> on values, and a comparator's result as \<open>sort\<close> reads it: NaN counts as 0.\<close>

definition js_sub :: "jsval \<Rightarrow> jsval \<Rightarrow> rat option" where
  "js_sub x y = (case (js_to_number x, js_to_number y) of
      (Some a, Some b) \<Rightarrow> Some (a - b) | _ \<Rightarrow> None)"

definition js_order :: "rat option \<Rightarrow> rat" where
  "js_order r = (case r of None \<Rightarrow> 0 | Some q \<Rightarrow> q)"

section \<open>Array operations of the language\<close>

fun js_findIndex :: "('a \<Rightarrow> bool) \<Rightarrow> 'a list \<Rightarrow> int" where
  "js_findIndex p [] = - 1"
| "js_findIndex p (x # xs) = (if p x then 0 else
     (let i = js_findIndex p xs in if i = - 1 then - 1 else i + 1))"

text \<open>\<open>toLowerCase\<close> on the Latin-1 code units a \<^typ>\<open>char\<close> can hold.\<close>

definition js_lower_char :: "char \<Rightarrow> char" where
  "js_lower_char c = (let n = char_code c in
     if 65 \<le> n \<and> n \<le> 90 \<or> 192 \<le> n \<and> n \<le> 222 \<and> n \<noteq> 215 then char_of (n + 32) else c)"

definition js_toLowerCase :: "string \<Rightarrow> string" where
  "js_toLowerCase s = map js_lower_char s"

text \<open>\<open>replace\<close> of a single space by the empty string removes the first one.\<close>

fun js_remove_space :: "string \<Rightarrow> string" where
  "js_remove_space [] = []"
| "js_remove_space (c # cs) = (if c = CHR '' '' then cs else c # js_remove_space cs)"

text \<open>\<open>s.split(c)[0]\<close>.\<close>

definition js_split_first :: "char \<Rightarrow> string \<Rightarrow> string" where
  "js_split_first c s = takeWhile (\<lambda>d. d \<noteq> c) s"

text \<open>\<open>s.split(c)\<close>: never empty, the empty text gives one empty part.\<close>

fun js_split :: "char \<Rightarrow> string \<Rightarrow> string list" where
  "js_split c [] = [[]]"
| "js_split c (d # ds) = (if d = c then [] # js_split c ds
     else (case js_split c ds of [] \<Rightarrow> [[d]] | w # ws \<Rightarrow> (d # w) # ws))"

definition js_slice_index :: "int \<Rightarrow> 'a list \<Rightarrow> nat" where
  "js_slice_index i xs = nat (if i < 0 then max (int (length xs) + i) 0 else min i (int (length xs)))"

definition js_slice :: "int \<Rightarrow> int \<Rightarrow> 'a list \<Rightarrow> 'a list" where
  "js_slice a b xs = drop (js_slice_index a xs) (take (js_slice_index b xs) xs)"

text \<open>\<open>xs.slice(a)\<close> with no end, and \<open>xs[i]\<close>, which is \<open>undefined\<close> out of range.\<close>

definition js_slice_from :: "int \<Rightarrow> 'a list \<Rightarrow> 'a list" where
  "js_slice_from a xs = drop (js_slice_index a xs) xs"

definition js_nth :: "'a list \<Rightarrow> int \<Rightarrow> 'a option" where
  "js_nth xs i = (if 0 \<le> i \<and> i < int (length xs) then Some (xs ! nat i) else None)"

lemma js_split_no_sep: "c \<notin> set s \<Longrightarrow> js_split c s = [s]"
  by (induction s) auto

lemma js_split_sep: "c \<notin> set s \<Longrightarrow> js_split c (s @ c # t) = s # js_split c t"
  by (induction s) auto

lemma js_split_join:
  "xs \<noteq> [] \<Longrightarrow> list_all (\<lambda>s. c \<notin> set s) xs \<Longrightarrow> js_split c (js_join [c] xs) = xs"
  by (induction "[c]" xs rule: js_join.induct) (auto simp: js_split_no_sep js_split_sep)

lemma js_join_Nil: "js_join [c] xs = [] \<longleftrightarrow> xs = [] \<or> xs = [[]]"
  by (induction "[c]" xs rule: js_join.induct) auto

lemma find_by_key: "distinct (map k xs) \<Longrightarrow> x \<in> set xs \<Longrightarrow> List.find (\<lambda>y. k y = k x) xs = Some x"
  by (induction xs) auto

lemma js_nth_mem: "js_nth xs i = Some x \<Longrightarrow> x \<in> set xs"
  by (auto simp: js_nth_def split: if_splits)

lemma js_findIndex_bounds:
  "js_findIndex p xs = - 1 \<or> 0 \<le> js_findIndex p xs \<and> js_findIndex p xs < int (length xs)"
  by (induction xs) (auto simp: Let_def)

lemma js_findIndex_neg_iff: "js_findIndex p xs = - 1 \<longleftrightarrow> (\<forall>x \<in> set xs. \<not> p x)"
proof (induction xs)
  case (Cons x xs)
  then show ?case using js_findIndex_bounds [of p xs] by (auto simp: Let_def)
qed simp

lemma js_findIndex_append:
  "\<forall>x \<in> set ys. \<not> p x \<Longrightarrow> p x \<Longrightarrow> js_findIndex p (ys @ x # zs) = int (length ys)"
  by (induction ys) (auto simp: Let_def)

lemma js_slice_nat [simp, js_simps]: "js_slice 0 (int n) xs = take n xs"
  by (auto simp: js_slice_def js_slice_index_def min_def)

lemma js_slice_from_nat [simp, js_simps]: "js_slice_from (int n) xs = drop n xs"
  by (auto simp: js_slice_from_def js_slice_index_def min_def)

section \<open>Reading back printed numbers\<close>

lemma char_code_digit [simp]: "n < 10 \<Longrightarrow> char_code (char_of (48 + n)) = 48 + n"
  by (simp add: char_code_def)

lemma digit_in_digit [simp]: "n < 10 \<Longrightarrow> digit_in 10 (char_of (48 + n)) = Some n"
  by (simp add: digit_in_def)

lemma read_base_append:
  "read_base b acc (s @ t) = Option.bind (read_base b acc s) (\<lambda>a. read_base b a t)"
  by (induction s arbitrary: acc) (auto split: option.splits)

lemma read_nat_to_string:
  "read_base 10 acc (nat_to_string n) = Some (acc * 10 ^ length (nat_to_string n) + n)"
proof (induction n arbitrary: acc rule: less_induct)
  case (less n)
  show ?case
  proof (cases "n < 10")
    case True
    then show ?thesis by (simp add: nat_to_string.simps [of n])
  next
    case False
    then have "n div 10 < n" by simp
    from less [OF this, of acc] False show ?thesis
      by (simp add: nat_to_string.simps [of n] read_base_append algebra_simps)
  qed
qed

lemma nat_to_string_nonempty [simp]: "nat_to_string n \<noteq> []"
  by (subst nat_to_string.simps) simp

lemma nat_to_string_digits: "c \<in> set (nat_to_string n) \<Longrightarrow> \<exists>d < 10. c = char_of (48 + d :: nat)"
proof (induction n rule: less_induct)
  case (less n)
  show ?case
  proof (cases "n < 10")
    case True
    then show ?thesis using less.prems by (auto simp: nat_to_string.simps [of n])
  next
    case False
    then show ?thesis using less.prems less.IH [of "n div 10"]
      by (auto simp: nat_to_string.simps [of n] intro: exI [of _ "n mod 10"])
  qed
qed

lemma nat_to_string_length: "n < 10 ^ k \<Longrightarrow> 0 < k \<Longrightarrow> length (nat_to_string n) \<le> k"
proof (induction k arbitrary: n)
  case (Suc k)
  show ?case
  proof (cases "n < 10")
    case False
    then have "k \<noteq> 0" using Suc.prems by (cases k) auto
    moreover have "n div 10 < 10 ^ k" using Suc.prems by (simp add: less_mult_imp_div_less mult.commute)
    ultimately show ?thesis using Suc.IH [of "n div 10"] False by (simp add: nat_to_string.simps [of n])
  qed (simp add: nat_to_string.simps [of n])
qed simp

definition digits_only :: "string \<Rightarrow> bool" where
  "digits_only s \<longleftrightarrow> (\<forall>c \<in> set s. \<exists>d < 10. c = char_of (48 + d :: nat))"

lemma digit_not_space:
  assumes "\<exists>d < 10. c = char_of (48 + d :: nat)"
  shows "\<not> js_space c \<and> c \<noteq> CHR ''-'' \<and> c \<noteq> CHR ''+''"
proof -
  have "char_code c \<ge> 48 \<and> char_code c \<le> 57" using assms by auto
  then show ?thesis by (auto simp: js_space_def char_code_def)
qed

lemma js_trim_digits: "digits_only s \<Longrightarrow> js_trim s = s"
proof -
  assume "digits_only s"
  then have ns: "\<forall>c \<in> set s. \<not> js_space c" using digit_not_space by (auto simp: digits_only_def)
  have "dropWhile js_space t = t" if "set t \<subseteq> set s" for t
    using ns that by (cases t) auto
  then have "dropWhile js_space s = s" "dropWhile js_space (rev s) = rev s"
    by simp_all
  then show ?thesis by (simp add: js_trim_def)
qed

lemma js_BigInt_digits:
  assumes "digits_only s" "s \<noteq> []" "read_base 10 0 s = Some n"
  shows "js_BigInt s = Inr (int n)"
proof -
  obtain c cs where s: "s = c # cs" using assms(2) by (cases s) auto
  have "c \<noteq> CHR ''-''" "c \<noteq> CHR ''+''"
    using assms(1) digit_not_space [of c] s by (auto simp: digits_only_def)
  then have "read_signed (\<lambda>t. map_option int (read_digits 10 t)) uminus s = Some (int n)"
    using assms(3) by (simp add: read_signed_def read_digits_def s)
  then show ?thesis by (simp add: js_BigInt_def js_trim_digits [OF assms(1)] assms(2))
qed

lemma digits_only_simps [simp]:
  "digits_only (s @ t) \<longleftrightarrow> digits_only s \<and> digits_only t"
  "digits_only (nat_to_string n)"
  "digits_only (replicate k (CHR ''0''))"
proof -
  have "(of_char (CHR ''0'') :: nat) = 48 + 0" by simp
  then have "CHR ''0'' = char_of (48 + 0 :: nat)" by (metis char_of_char)
  then show "digits_only (replicate k (CHR ''0''))"
    unfolding digits_only_def by (intro ballI exI [of _ 0]) auto
qed (auto simp: digits_only_def nat_to_string_digits)

lemma read_zeros: "read_base 10 acc (replicate k (CHR ''0'') @ s) = read_base 10 (acc * 10 ^ k) s"
proof (induction k arbitrary: acc)
  case (Suc k)
  have "digit_in 10 (CHR ''0'') = Some 0" by (simp add: digit_in_def char_code_def)
  then show ?case using Suc by (simp add: algebra_simps)
qed simp

lemma read_zeros_only [simp]: "read_base 10 acc (replicate k (CHR ''0'')) = Some (acc * 10 ^ k)"
  using read_zeros [of acc k "[]"] by simp

end
