(* ===== verification/JsSort.thy ===== *)
theory JsSort
  imports JsPrelude
begin

text \<open>
  \<open>Array.prototype.sort\<close> with a comparator. The language promises a stable permutation that the
  comparator orders whenever the comparator is consistent; \<open>js_sort\<close> computes it by insertion, and
  the locale \<open>consistent_comparator\<close> is the contract a comparator has to meet, on the values of a
  carrier set, for those promises to hold. Two sublocales give it from simpler contracts: a
  comparator by a linearly ordered key, and the comparison of strings by a collation
  (\<open>String.prototype.localeCompare\<close> is implementation-defined, so it is a parameter of the model).
\<close>

fun js_insert :: "('a \<Rightarrow> 'a \<Rightarrow> rat) \<Rightarrow> 'a \<Rightarrow> 'a list \<Rightarrow> 'a list" where
  "js_insert cmp x [] = [x]"
| "js_insert cmp x (y # ys) = (if cmp x y \<le> 0 then x # y # ys else y # js_insert cmp x ys)"

fun js_sort :: "('a \<Rightarrow> 'a \<Rightarrow> rat) \<Rightarrow> 'a list \<Rightarrow> 'a list" where
  "js_sort cmp [] = []"
| "js_sort cmp (x # xs) = js_insert cmp x (js_sort cmp xs)"

lemma mset_js_insert [simp]: "mset (js_insert cmp x xs) = add_mset x (mset xs)"
  by (induction xs) auto

lemma mset_js_sort [simp]: "mset (js_sort cmp xs) = mset xs"
  by (induction xs) auto

lemma set_js_insert [simp]: "set (js_insert cmp x xs) = insert x (set xs)"
  by (induction xs) auto

lemma set_js_sort [simp]: "set (js_sort cmp xs) = set xs"
  by (induction xs) auto

lemma length_js_sort [simp]: "length (js_sort cmp xs) = length xs"
  by (metis mset_js_sort size_mset)

lemma distinct_js_sort [simp]: "distinct (js_sort cmp xs) = distinct xs"
  by (metis mset_eq_imp_distinct_iff mset_js_sort)

lemma js_sort_map:
  "js_sort cmp (map f xs) = map f (js_sort (\<lambda>x y. cmp (f x) (f y)) xs)"
proof -
  have "js_insert cmp (f x) (map f ys) = map f (js_insert (\<lambda>x y. cmp (f x) (f y)) x ys)" for x ys
    by (induction ys) auto
  then show ?thesis by (induction xs) auto
qed

locale consistent_comparator =
  fixes cmp :: "'a \<Rightarrow> 'a \<Rightarrow> rat" and A :: "'a set"
  assumes cmp_anti: "x \<in> A \<Longrightarrow> y \<in> A \<Longrightarrow> cmp x y \<le> 0 \<longleftrightarrow> 0 \<le> cmp y x"
    and cmp_trans: "x \<in> A \<Longrightarrow> y \<in> A \<Longrightarrow> z \<in> A \<Longrightarrow> cmp x y \<le> 0 \<Longrightarrow> cmp y z \<le> 0 \<Longrightarrow> cmp x z \<le> 0"
begin

lemma cmp_total: "x \<in> A \<Longrightarrow> y \<in> A \<Longrightarrow> \<not> cmp x y \<le> 0 \<Longrightarrow> cmp y x \<le> 0"
  using cmp_anti [of x y] by linarith

lemma cmp_eq_iff: "x \<in> A \<Longrightarrow> y \<in> A \<Longrightarrow> cmp x y = 0 \<longleftrightarrow> cmp x y \<le> 0 \<and> cmp y x \<le> 0"
  using cmp_anti [of x y] cmp_anti [of y x] by linarith

lemma js_insert_sorted:
  "x \<in> A \<Longrightarrow> set xs \<subseteq> A \<Longrightarrow> sorted_wrt (\<lambda>x y. cmp x y \<le> 0) xs \<Longrightarrow>
   sorted_wrt (\<lambda>x y. cmp x y \<le> 0) (js_insert cmp x xs)"
proof (induction xs)
  case (Cons y ys)
  have "cmp x z \<le> 0" if "cmp x y \<le> 0" "z \<in> set ys" for z
    using that Cons.prems by (intro cmp_trans [of x y z]) auto
  moreover have "cmp y x \<le> 0" if "\<not> cmp x y \<le> 0"
    using that Cons.prems by (intro cmp_total) auto
  ultimately show ?case using Cons by simp
qed simp

theorem js_sort_sorted: "set xs \<subseteq> A \<Longrightarrow> sorted_wrt (\<lambda>x y. cmp x y \<le> 0) (js_sort cmp xs)"
  by (induction xs) (auto simp: js_insert_sorted)

lemma js_insert_stable:
  "x \<in> A \<Longrightarrow> a \<in> A \<Longrightarrow> set xs \<subseteq> A \<Longrightarrow>
   filter (\<lambda>y. cmp y a = 0) (js_insert cmp x xs) = filter (\<lambda>y. cmp y a = 0) (x # xs)"
proof (induction xs)
  case (Cons y ys)
  have "cmp x y \<le> 0" if "cmp x a = 0" "cmp y a = 0"
    using that Cons.prems cmp_eq_iff [of y a] by (intro cmp_trans [of x a y]) auto
  then show ?case using Cons by auto
qed simp

theorem js_sort_stable:
  "set xs \<subseteq> A \<Longrightarrow> a \<in> A \<Longrightarrow>
   filter (\<lambda>y. cmp y a = 0) (js_sort cmp xs) = filter (\<lambda>y. cmp y a = 0) xs"
  by (induction xs) (simp_all add: js_insert_stable)

lemma js_insert_least:
  "(\<And>y. y \<in> set xs \<Longrightarrow> cmp x y \<le> 0) \<Longrightarrow> js_insert cmp x xs = x # xs"
  by (cases xs) auto

theorem js_sort_fixed:
  "sorted_wrt (\<lambda>x y. cmp x y \<le> 0) xs \<Longrightarrow> js_sort cmp xs = xs"
  by (induction xs) (auto simp: js_insert_least)

corollary js_sort_idem: "set xs \<subseteq> A \<Longrightarrow> js_sort cmp (js_sort cmp xs) = js_sort cmp xs"
  by (simp add: js_sort_fixed js_sort_sorted)

text \<open>Filtering commutes with sorting: the kept rows stay in the order of the whole table.\<close>

lemma js_insert_filter:
  "x \<in> A \<Longrightarrow> set xs \<subseteq> A \<Longrightarrow> sorted_wrt (\<lambda>x y. cmp x y \<le> 0) xs \<Longrightarrow>
   filter p (js_insert cmp x xs) = (if p x then js_insert cmp x (filter p xs) else filter p xs)"
proof (induction xs)
  case (Cons y ys)
  have "js_insert cmp x (filter p ys) = x # filter p ys" if "cmp x y \<le> 0"
    using that Cons.prems by (intro js_insert_least) (auto intro: cmp_trans [of x y])
  then show ?case using Cons by auto
qed simp

theorem js_sort_filter:
  "set xs \<subseteq> A \<Longrightarrow> filter p (js_sort cmp xs) = js_sort cmp (filter p xs)"
  by (induction xs) (auto simp: js_insert_filter js_sort_sorted)

text \<open>The promises of the language determine the result: a stable sorted permutation is unique.\<close>

lemma sorted_head_least:
  "sorted_wrt (\<lambda>x y. cmp x y \<le> 0) (x # xs) \<Longrightarrow> x \<in> A \<Longrightarrow> y \<in> set (x # xs) \<Longrightarrow> cmp x y \<le> 0"
  using cmp_eq_iff [of x x] cmp_total [of x x] by auto

theorem stable_sorted_unique:
  assumes "set xs \<subseteq> A" "mset xs = mset ys"
    and "sorted_wrt (\<lambda>x y. cmp x y \<le> 0) xs" "sorted_wrt (\<lambda>x y. cmp x y \<le> 0) ys"
    and "\<And>a. a \<in> A \<Longrightarrow> filter (\<lambda>y. cmp y a = 0) xs = filter (\<lambda>y. cmp y a = 0) ys"
  shows "xs = ys"
  using assms
proof (induction xs arbitrary: ys)
  case Nil
  show ?case using Nil.prems(2) by simp
next
  case (Cons x xs)
  obtain y ys' where ys: "ys = y # ys'"
    using Cons.prems(2) by (cases ys) auto
  have sets: "set (x # xs) = set ys" using Cons.prems(2) mset_eq_setD by blast
  have xA: "x \<in> A" and yA: "y \<in> A" using Cons.prems(1) sets ys by auto
  have "y \<in> set (x # xs)" "x \<in> set (y # ys')" using sets ys by auto
  then have "cmp x y \<le> 0" "cmp y x \<le> 0"
    using sorted_head_least Cons.prems(3,4) xA yA ys by blast+
  then have "cmp y x = 0" "cmp x x = 0"
    using cmp_eq_iff [of y x] cmp_eq_iff [of x x] xA yA cmp_total [of x x] by auto
  then have "x = y" using Cons.prems(5) [OF xA] ys by simp
  moreover have "xs = ys'"
  proof (rule Cons.IH)
    show "filter (\<lambda>y. cmp y a = 0) xs = filter (\<lambda>y. cmp y a = 0) ys'" if "a \<in> A" for a
      using Cons.prems(5) [OF that] ys \<open>x = y\<close> by (auto split: if_splits)
  qed (use Cons.prems(1-4) ys \<open>x = y\<close> in simp_all)
  ultimately show ?case using ys by simp
qed

end

text \<open>A comparator that orders by a key into a linear order.\<close>

locale key_comparator =
  fixes cmp :: "'a \<Rightarrow> 'a \<Rightarrow> rat" and key :: "'a \<Rightarrow> 'k :: linorder" and A :: "'a set"
  assumes cmp_key: "x \<in> A \<Longrightarrow> y \<in> A \<Longrightarrow> cmp x y \<le> 0 \<longleftrightarrow> key x \<le> key y"
    and cmp_key_ge: "x \<in> A \<Longrightarrow> y \<in> A \<Longrightarrow> 0 \<le> cmp x y \<longleftrightarrow> key y \<le> key x"

sublocale key_comparator \<subseteq> consistent_comparator cmp A
  by unfold_locales (auto simp: cmp_key cmp_key_ge)

context key_comparator
begin

lemma js_sort_sorted_key: "set xs \<subseteq> A \<Longrightarrow> sorted (map key (js_sort cmp xs))"
proof -
  assume xs: "set xs \<subseteq> A"
  have "sorted_wrt (\<lambda>x y. key x \<le> key y) (js_sort cmp xs)"
    by (rule sorted_wrt_mono_rel [OF _ js_sort_sorted [OF xs]]) (use xs cmp_key in auto)
  then show ?thesis by (simp add: sorted_map)
qed

end

text \<open>
  \<open>String.prototype.localeCompare\<close>: ECMA-402 asks for a consistent comparator on all strings and
  fixes nothing else that the sources use.
\<close>

locale collation =
  fixes localeCompare :: "string \<Rightarrow> string \<Rightarrow> rat"
  assumes lc_anti: "localeCompare s t \<le> 0 \<longleftrightarrow> 0 \<le> localeCompare t s"
    and lc_trans: "localeCompare s t \<le> 0 \<Longrightarrow> localeCompare t u \<le> 0 \<Longrightarrow> localeCompare s u \<le> 0"

text \<open>The comparison by code units, the collation of a runtime without locale data.\<close>

fun code_unit_compare :: "string \<Rightarrow> string \<Rightarrow> rat" where
  "code_unit_compare [] [] = 0"
| "code_unit_compare [] (_ # _) = - 1"
| "code_unit_compare (_ # _) [] = 1"
| "code_unit_compare (c # cs) (d # ds) =
     (if char_code c < char_code d then - 1
      else if char_code d < char_code c then 1 else code_unit_compare cs ds)"

lemma code_unit_compare_anti: "code_unit_compare s t = - code_unit_compare t s"
  by (induction s t rule: code_unit_compare.induct) auto

lemma code_unit_compare_trans:
  "code_unit_compare s t \<le> 0 \<Longrightarrow> code_unit_compare t u \<le> 0 \<Longrightarrow> code_unit_compare s u \<le> 0"
proof (induction s t arbitrary: u rule: code_unit_compare.induct)
  case (1 u) then show ?case by simp
next
  case (2 d ds u) then show ?case by (cases u) auto
next
  case (3 c cs u) then show ?case by simp
next
  case (4 c cs d ds u)
  show ?case
  proof (cases u)
    case (Cons e es)
    then show ?thesis using 4(1) [of es] 4(2,3) by (simp split: if_splits)
  qed (use 4(3) in simp)
qed

lemma code_unit_compare_le_iff: "code_unit_compare s t \<le> 0 \<longleftrightarrow> 0 \<le> code_unit_compare t s"
  by (subst code_unit_compare_anti) simp

interpretation code_units: collation code_unit_compare
  by unfold_locales (rule code_unit_compare_le_iff, rule code_unit_compare_trans)

text \<open>The default order of \<open>sort()\<close> with no comparator on strings.\<close>

definition js_sort_strings :: "string list \<Rightarrow> string list" where
  "js_sort_strings = js_sort code_unit_compare"

end
