(* ===== verification/ArrayHelper.thy ===== *)
theory ArrayHelper
  imports JsSort
begin

text \<open>
  The shared helpers of \<open>frontend/vendor/mina-rust-shared/src/lib/helpers\<close>: the table sort every
  feature calls, \<open>toggleItem\<close> behind every filter chip, \<open>lastItem\<close>, \<open>removeLast\<close>, \<open>hasValue\<close>
  and \<open>nanOrElse\<close>. A row's property access \<open>e[sortProperty]\<close> is the function \<open>get\<close> from a
  column and a row to a cell. The locale \<open>table_columns\<close> is what the sort relies on in a
  feature's rows; each feature interprets it for its own columns.
\<close>

datatype SortDirection = ASC | DSC

record 'c TableSort =
  sortBy :: 'c
  sortDirection :: SortDirection

text \<open>
  The keys of the two comparators: \<open>o[p] || ''\<close> and \<open>o[p] ?? Number.MAX_VALUE\<close>. A column named
  in \<open>strings\<close> holds strings or nothing (\<open>table_columns\<close>), so every truthy cell of it is a string.
\<close>

definition stringKey :: "jsval \<Rightarrow> string" where
  "stringKey v = (if js_truthy v then (case v of JStr s \<Rightarrow> s | _ \<Rightarrow> []) else [])"

definition numberKey :: "jsval \<Rightarrow> jsval" where
  "numberKey v = (if nullish v then JNum MAX_VALUE else v)"

definition stringSort ::
  "(string \<Rightarrow> string \<Rightarrow> rat) \<Rightarrow> SortDirection \<Rightarrow> ('a \<Rightarrow> jsval) \<Rightarrow> 'a \<Rightarrow> 'a \<Rightarrow> rat" where
  "stringSort localeCompare dir g o1 o2 =
    (let s2 = stringKey (g o2); s1 = stringKey (g o1)
     in if dir = DSC then localeCompare s2 s1 else localeCompare s1 s2)"

definition numberSort :: "SortDirection \<Rightarrow> ('a \<Rightarrow> jsval) \<Rightarrow> 'a \<Rightarrow> 'a \<Rightarrow> rat" where
  "numberSort dir g o1 o2 =
    (let o2Sort = numberKey (g o2); o1Sort = numberKey (g o1)
     in js_order (if dir = DSC then js_sub o2Sort o1Sort else js_sub o1Sort o2Sort))"

definition sort ::
  "(string \<Rightarrow> string \<Rightarrow> rat) \<Rightarrow> ('c \<Rightarrow> 'a \<Rightarrow> jsval) \<Rightarrow> 'a list \<Rightarrow> 'c TableSort \<Rightarrow> 'c list \<Rightarrow> bool
    \<Rightarrow> 'a list" where
  "sort localeCompare get inpArray srt strings sortNulls =
    (let sortProperty = sortBy srt;
         isStringSorting = sortProperty \<in> set strings;
         g = get sortProperty;
         toBeSorted = (if sortNulls then inpArray
                       else if isStringSorting then inpArray
                       else filter (\<lambda>e. \<not> nullish (g e)) inpArray);
         toNotBeSorted = (if sortNulls then []
                          else if isStringSorting then []
                          else filter (\<lambda>e. nullish (g e)) inpArray)
     in (if isStringSorting then js_sort (stringSort localeCompare (sortDirection srt) g) toBeSorted
         else js_sort (numberSort (sortDirection srt) g) toBeSorted) @ toNotBeSorted)"

definition lastItem :: "'a list \<Rightarrow> 'a option" where
  "lastItem array = js_nth array (int (length array) - 1)"

definition toggleItem :: "'a list \<Rightarrow> 'a \<Rightarrow> ('a \<Rightarrow> bool) \<Rightarrow> 'a list" where
  "toggleItem array item comparator =
    (let index = js_findIndex comparator array
     in if index \<noteq> - 1 then js_slice 0 index array @ js_slice_from (index + 1) array
        else array @ [item])"

abbreviation toggle :: "'a list \<Rightarrow> 'a \<Rightarrow> 'a list" where
  "toggle array item \<equiv> toggleItem array item (\<lambda>curr. curr = item)"

definition removeLast :: "'a list \<Rightarrow> 'a list" where
  "removeLast arr = js_slice 0 (int (length arr) - 1) arr"

definition hasValue :: "jsval \<Rightarrow> bool" where
  "hasValue v \<longleftrightarrow> v \<noteq> JUndefined \<and> v \<noteq> JNull"

definition nanOrElse :: "rat option \<Rightarrow> 'a \<Rightarrow> (rat \<Rightarrow> 'a) \<Rightarrow> 'a" where
  "nanOrElse v replacement wrap = (case v of None \<Rightarrow> replacement | Some r \<Rightarrow> wrap r)"

section \<open>The comparators meet the sort's contract\<close>

definition numeric :: "jsval \<Rightarrow> bool" where
  "numeric v \<longleftrightarrow> js_to_number v \<noteq> None"

definition num_of :: "jsval \<Rightarrow> rat" where
  "num_of v = js_order (js_to_number v)"

lemma num_of_JNum [simp]: "num_of (JNum r) = r"
  by (simp add: num_of_def js_order_def)

lemma numeric_JNum [simp]: "numeric (JNum r)"
  by (simp add: numeric_def)

lemma js_sub_numeric: "numeric a \<Longrightarrow> numeric b \<Longrightarrow> js_order (js_sub a b) = num_of a - num_of b"
  by (auto simp: numeric_def num_of_def js_sub_def js_order_def)

text \<open>\<open>numberSort\<close> orders by the number, negated for a descending sort.\<close>

definition dir_num :: "SortDirection \<Rightarrow> rat \<Rightarrow> rat" where
  "dir_num dir r = (if dir = DSC then - r else r)"

interpretation number_sort: key_comparator "numberSort dir g"
    "\<lambda>x. dir_num dir (num_of (numberKey (g x)))" "{x. numeric (numberKey (g x))}" for dir g
  by unfold_locales (auto simp: numberSort_def js_sub_numeric dir_num_def)

context collation
begin

lemma stringSort_comparator: "consistent_comparator (stringSort localeCompare dir g) UNIV"
proof unfold_locales
  fix x y z
  show "stringSort localeCompare dir g x y \<le> 0 \<longleftrightarrow> 0 \<le> stringSort localeCompare dir g y x"
    by (simp add: stringSort_def Let_def) (metis lc_anti)
  show "stringSort localeCompare dir g x z \<le> 0"
    if "stringSort localeCompare dir g x y \<le> 0" "stringSort localeCompare dir g y z \<le> 0"
    using that lc_trans by (fastforce simp: stringSort_def Let_def split: if_splits)
qed

end

text \<open>
  What \<open>sort\<close> relies on in a feature's table: the columns it sorts as strings hold a string,
  \<open>undefined\<close> or \<open>null\<close>.
\<close>

locale table_columns =
  fixes get :: "'c \<Rightarrow> 'a \<Rightarrow> jsval" and strings :: "'c list"
  assumes string_columns: "c \<in> set strings \<Longrightarrow> nullish (get c x) \<or> (\<exists>s. get c x = JStr s)"
begin

text \<open>The receiver \<open>o[p] || ''\<close> of \<open>localeCompare\<close> is a string, so the call never throws.\<close>

lemma receiver_is_string:
  "c \<in> set strings \<Longrightarrow> (if js_truthy (get c x) then get c x else JStr []) = JStr (stringKey (get c x))"
  using string_columns [of c x] by (auto simp: stringKey_def elim: nullish.elims)

end

section \<open>What the sort promises\<close>

definition sortable :: "('c \<Rightarrow> 'a \<Rightarrow> jsval) \<Rightarrow> 'c list \<Rightarrow> 'c \<Rightarrow> 'a list \<Rightarrow> bool" where
  "sortable get strings c xs \<longleftrightarrow>
     c \<in> set strings \<or> (\<forall>x \<in> set xs. nullish (get c x) \<or> numeric (get c x))"

definition row_le ::
  "(string \<Rightarrow> string \<Rightarrow> rat) \<Rightarrow> ('c \<Rightarrow> 'a \<Rightarrow> jsval) \<Rightarrow> 'c list \<Rightarrow> 'c TableSort \<Rightarrow> 'a \<Rightarrow> 'a \<Rightarrow> rat" where
  "row_le lc get strings srt =
     (if sortBy srt \<in> set strings then stringSort lc (sortDirection srt) (get (sortBy srt))
      else numberSort (sortDirection srt) (get (sortBy srt)))"

definition movable :: "('c \<Rightarrow> 'a \<Rightarrow> jsval) \<Rightarrow> 'c list \<Rightarrow> 'c TableSort \<Rightarrow> bool \<Rightarrow> 'a \<Rightarrow> bool" where
  "movable get strings srt sortNulls x \<longleftrightarrow>
     sortNulls \<or> sortBy srt \<in> set strings \<or> \<not> nullish (get (sortBy srt) x)"

lemma sort_split:
  "sort lc get xs srt strings sn =
     js_sort (row_le lc get strings srt) (filter (movable get strings srt sn) xs)
     @ filter (\<lambda>x. \<not> movable get strings srt sn x) xs"
proof -
  have "filter (\<lambda>x. True) xs = xs" "filter (\<lambda>x. False) xs = []" by simp_all
  then show ?thesis by (auto simp: sort_def row_le_def movable_def [abs_def] Let_def)
qed

lemma mset_sort [simp]: "mset (sort lc get xs srt strings sn) = mset xs"
  by (simp add: sort_split)

lemma set_sort [simp]: "set (sort lc get xs srt strings sn) = set xs"
  by (metis mset_sort set_mset_mset)

lemma length_sort [simp]: "length (sort lc get xs srt strings sn) = length xs"
  by (metis mset_sort size_mset)

lemma distinct_map_sort [simp]:
  "distinct (map f (sort lc get xs srt strings sn)) = distinct (map f xs)"
  by (metis mset_eq_imp_distinct_iff mset_map mset_sort)

lemma sort_Nil [simp]: "sort lc get [] srt strings sn = []"
  by (simp add: sort_split)

context collation
begin

lemma row_le_comparator:
  "sortable get strings (sortBy srt) xs \<Longrightarrow>
   consistent_comparator (row_le localeCompare get strings srt) (set xs)"
proof (cases "sortBy srt \<in> set strings")
  case True
  then show ?thesis
    using stringSort_comparator [of "sortDirection srt" "get (sortBy srt)"]
    by (simp add: row_le_def consistent_comparator_def) blast
next
  case False
  assume "sortable get strings (sortBy srt) xs"
  with False have "set xs \<subseteq> {x. numeric (numberKey (get (sortBy srt) x))}"
    by (auto simp: sortable_def numberKey_def)
  moreover have "consistent_comparator (numberSort (sortDirection srt) (get (sortBy srt)))
      {x. numeric (numberKey (get (sortBy srt) x))}"
    by (rule number_sort.consistent_comparator_axioms)
  ultimately show ?thesis using False
    by (simp add: row_le_def consistent_comparator_def) blast
qed

lemma sort_movable_sorted:
  "sortable get strings (sortBy srt) xs \<Longrightarrow>
   sorted_wrt (\<lambda>x y. row_le localeCompare get strings srt x y \<le> 0)
     (js_sort (row_le localeCompare get strings srt) (filter p xs))"
  by (rule consistent_comparator.js_sort_sorted [OF row_le_comparator]) auto

lemma sort_filter:
  assumes "sortable get strings (sortBy srt) xs"
  shows "filter p (sort localeCompare get xs srt strings sn)
    = sort localeCompare get (filter p xs) srt strings sn"
proof -
  have "filter p (js_sort (row_le localeCompare get strings srt) (filter q xs))
      = js_sort (row_le localeCompare get strings srt) (filter p (filter q xs))" for q
    by (rule consistent_comparator.js_sort_filter [OF row_le_comparator [OF assms]]) auto
  then show ?thesis by (simp add: sort_split conj_commute)
qed

lemma sort_idem:
  assumes "sortable get strings (sortBy srt) xs"
  shows "sort localeCompare get (sort localeCompare get xs srt strings sn) srt strings sn
    = sort localeCompare get xs srt strings sn" (is "?S (?S xs) = _")
proof -
  let ?le = "row_le localeCompare get strings srt" and ?m = "movable get strings srt sn"
  have "sortable get strings (sortBy srt) (?S xs)"
    using assms by (simp add: sortable_def)
  have "filter ?m (js_sort ?le (filter ?m xs)) = js_sort ?le (filter ?m xs)"
    "filter (\<lambda>x. \<not> ?m x) (js_sort ?le (filter ?m xs)) = []"
    by (auto simp: filter_id_conv filter_empty_conv)
  moreover have "js_sort ?le (js_sort ?le (filter ?m xs)) = js_sort ?le (filter ?m xs)"
    using consistent_comparator.js_sort_fixed [OF row_le_comparator [OF assms]]
      sort_movable_sorted [OF assms] by blast
  ultimately show ?thesis by (simp add: sort_split)
qed

end

text \<open>
  C9: sorting a table by a column of numbers puts the rows with a value first, in the order of the
  requested direction and stable among equal values, and the rows without a value last, in their
  original order; no row is lost or duplicated.
\<close>

theorem sort_numeric:
  assumes "sortBy srt \<notin> set strings"
    and "\<forall>x \<in> set xs. nullish (get (sortBy srt) x) \<or> numeric (get (sortBy srt) x)"
  shows "\<exists>ys. sort lc get xs srt strings False = ys @ filter (\<lambda>x. nullish (get (sortBy srt) x)) xs
    \<and> mset ys = mset (filter (\<lambda>x. \<not> nullish (get (sortBy srt) x)) xs)
    \<and> sorted (map (\<lambda>x. dir_num (sortDirection srt) (num_of (get (sortBy srt) x))) ys)
    \<and> (\<forall>r. filter (\<lambda>x. num_of (get (sortBy srt) x) = r) ys
          = filter (\<lambda>x. \<not> nullish (get (sortBy srt) x) \<and> num_of (get (sortBy srt) x) = r) xs)"
proof -
  let ?g = "get (sortBy srt)" and ?dir = "sortDirection srt"
  let ?xs = "filter (\<lambda>x. \<not> nullish (?g x)) xs"
  let ?ys = "js_sort (numberSort ?dir ?g) ?xs"
  have num: "set ?xs \<subseteq> {x. numeric (numberKey (?g x))}"
    and key: "\<And>x. x \<in> set ?xs \<Longrightarrow> numberKey (?g x) = ?g x \<and> numeric (?g x)"
    using assms(2) by (auto simp: numberKey_def)
  have "map (\<lambda>x. dir_num ?dir (num_of (numberKey (?g x)))) ?ys = map (\<lambda>x. dir_num ?dir (num_of (?g x))) ?ys"
    using key by auto
  then have "sorted (map (\<lambda>x. dir_num ?dir (num_of (?g x))) ?ys)"
    using number_sort.js_sort_sorted_key [OF num, of ?dir] by (rule subst)
  moreover have "filter (\<lambda>x. num_of (?g x) = r) ?ys = filter (\<lambda>x. num_of (?g x) = r) ?xs" for r
  proof (cases "\<exists>a \<in> set ?xs. num_of (?g a) = r")
    case True
    then obtain a where a: "a \<in> set ?xs" "num_of (?g a) = r" by blast
    have eq: "numberSort ?dir ?g y a = 0 \<longleftrightarrow> num_of (?g y) = r" if "y \<in> set ?xs" for y
      using key [OF that] key [OF a(1)] a(2) by (auto simp: numberSort_def js_sub_numeric)
    have F: "filter (\<lambda>y. numberSort ?dir ?g y a = 0) zs = filter (\<lambda>x. num_of (?g x) = r) zs"
      if "set zs \<subseteq> set ?xs" for zs
      using that eq by (intro filter_cong) auto
    have "filter (\<lambda>y. numberSort ?dir ?g y a = 0) ?ys = filter (\<lambda>y. numberSort ?dir ?g y a = 0) ?xs"
      by (rule number_sort.js_sort_stable [OF num]) (use num a(1) in blast)
    then show ?thesis unfolding F [OF order_refl] by (subst (asm) F) simp_all
  qed (auto simp: filter_empty_conv)
  moreover have "sort lc get xs srt strings False = ?ys @ filter (\<lambda>x. nullish (?g x)) xs"
    using assms(1) by (simp add: sort_def)
  ultimately show ?thesis by (intro exI [of _ ?ys]) (simp add: conj_commute)
qed

theorem sort_numeric_witness:
  "\<exists>ys. sort code_unit_compare (\<lambda>_ x. x) [JNum 3, JUndefined, JNum 7, JNull, JNum 3]
        \<lparr>sortBy = (), sortDirection = DSC\<rparr> [] False = ys @ [JUndefined, JNull]
      \<and> sorted (map (\<lambda>x. - num_of x) ys)"
  using sort_numeric [of "\<lparr>sortBy = (), sortDirection = DSC\<rparr>" "[]"
    "[JNum 3, JUndefined, JNum 7, JNull, JNum 3]" "\<lambda>_ x. x" code_unit_compare]
  by (auto simp: dir_num_def)

text \<open>
  sorting a table by a string column gives the rows in the order of the runtime's collation
  (reversed for a descending sort), keeps the original order of rows the collation does not
  distinguish, and loses no row.
\<close>

theorem sort_strings:
  assumes "collation lc" and "sortBy srt \<in> set strings"
  shows "mset (sort lc get xs srt strings sn) = mset xs
    \<and> sorted_wrt (\<lambda>x y. (let s = stringKey (get (sortBy srt) x); t = stringKey (get (sortBy srt) y)
        in if sortDirection srt = DSC then lc t s else lc s t) \<le> 0) (sort lc get xs srt strings sn)
    \<and> (\<forall>a. filter (\<lambda>x. lc (stringKey (get (sortBy srt) x)) (stringKey (get (sortBy srt) a)) = 0)
              (sort lc get xs srt strings sn)
          = filter (\<lambda>x. lc (stringKey (get (sortBy srt) x)) (stringKey (get (sortBy srt) a)) = 0) xs)"
proof -
  let ?c = "stringSort lc (sortDirection srt) (get (sortBy srt))"
  have cc: "consistent_comparator ?c UNIV"
    by (rule collation.stringSort_comparator [OF assms(1)])
  have srt: "sort lc get xs srt strings sn = js_sort ?c xs"
    using assms(2) by (simp add: sort_def Let_def)
  have eq0: "?c x a = 0 \<longleftrightarrow> lc (stringKey (get (sortBy srt) x)) (stringKey (get (sortBy srt) a)) = 0"
    for x a
    using collation.lc_anti [OF assms(1)] by (simp add: stringSort_def Let_def) (metis order_antisym order_refl)
  have "sorted_wrt (\<lambda>x y. ?c x y \<le> 0) (js_sort ?c xs)"
    by (rule consistent_comparator.js_sort_sorted [OF cc]) simp
  moreover have "filter (\<lambda>x. ?c x a = 0) (js_sort ?c xs) = filter (\<lambda>x. ?c x a = 0) xs" for a
    by (rule consistent_comparator.js_sort_stable [OF cc]) simp_all
  ultimately show ?thesis unfolding srt eq0 by (simp add: stringSort_def Let_def)
qed

theorem sort_strings_witness:
  "sort code_unit_compare (\<lambda>_ s. JStr s) [''b'', ''a''] \<lparr>sortBy = (), sortDirection = ASC\<rparr> [()] False
     = [''a'', ''b'']
   \<and> mset (sort code_unit_compare (\<lambda>_ s. JStr s) [''b'', ''a'']
       \<lparr>sortBy = (), sortDirection = ASC\<rparr> [()] False) = mset [''b'', ''a'']"
  using sort_strings [OF code_units.collation_axioms, of "\<lparr>sortBy = (), sortDirection = ASC\<rparr>" "[()]"
    "\<lambda>_ s. JStr s" "[''b'', ''a'']" False]
  by (simp add: sort_def stringSort_def stringKey_def char_code_def)

section \<open>Toggling and trimming lists\<close>

lemma toggleItem_absent: "\<forall>x \<in> set xs. \<not> p x \<Longrightarrow> toggleItem xs a p = xs @ [a]"
  using js_findIndex_neg_iff [of p xs] by (simp add: toggleItem_def)

lemma toggleItem_present:
  assumes "\<forall>x \<in> set ys. \<not> p x" "p x"
  shows "toggleItem (ys @ x # zs) a p = ys @ zs"
proof -
  have i: "js_findIndex p (ys @ x # zs) = int (length ys)"
    using assms by (rule js_findIndex_append)
  have "js_slice_from (int (length ys) + 1) (ys @ x # zs) = zs"
    using js_slice_from_nat [of "Suc (length ys)" "ys @ x # zs"] by (simp add: add.commute)
  then show ?thesis by (simp add: toggleItem_def i)
qed

lemma toggle_cases:
  obtains "a \<notin> set xs" "toggle xs a = xs @ [a]"
  | ys zs where "xs = ys @ a # zs" "a \<notin> set ys" "toggle xs a = ys @ zs"
proof (cases "a \<in> set xs")
  case True
  then obtain ys zs where "xs = ys @ a # zs" "a \<notin> set ys" by (meson split_list_first)
  then show ?thesis using that(2) toggleItem_present [of ys "\<lambda>x. x = a" a zs a] by auto
next
  case False
  then show ?thesis by (intro that(1) toggleItem_absent) auto
qed

lemma removeLast_butlast: "removeLast xs = butlast xs"
proof (cases xs)
  case (Cons y ys)
  then have "int (length xs) - 1 = int (length xs - 1)" by simp
  then show ?thesis unfolding removeLast_def by (simp only: js_slice_nat butlast_conv_take)
qed (simp add: removeLast_def js_slice_def)

lemma lastItem_last: "lastItem xs = (if xs = [] then None else Some (last xs))"
  by (cases xs rule: rev_cases) (simp_all add: lastItem_def js_nth_def nth_append)

text \<open>
  toggling a filter chip changes the membership of that item only, keeps the list free of
  duplicates, and toggling an absent item twice restores the list.
\<close>

theorem toggleItem_toggles:
  assumes "distinct xs"
  shows "distinct (toggleItem xs a (\<lambda>x. x = a))
    \<and> set (toggleItem xs a (\<lambda>x. x = a)) = (if a \<in> set xs then set xs - {a} else insert a (set xs))
    \<and> (a \<notin> set xs \<longrightarrow> toggleItem (toggleItem xs a (\<lambda>x. x = a)) a (\<lambda>x. x = a) = xs)"
proof (cases rule: toggle_cases [of a xs])
  case 1
  then show ?thesis using assms toggleItem_present [of xs "\<lambda>x. x = a" a "[]" a] by auto
next
  case (2 ys zs)
  then show ?thesis using assms by auto
qed

theorem toggleItem_toggles_witness:
  "distinct [''a'', ''b''] \<and> set (toggleItem [''a'', ''b''] ''a'' (\<lambda>x. x = ''a'')) = {''b''}"
  using toggleItem_toggles [of "[''a'', ''b'']" "''a''"] by auto

end
