(* ===== verification/NgRx.thy ===== *)
theory NgRx
  imports JsPrelude
begin

text \<open>
  The store library as the features use it. A feature is a slice of the store: an initial state and
  a reducer. The locales state what it means that an invariant holds of every reachable state of a
  slice, for reducers that always return (\<open>slice\<close>), that may throw (\<open>partial_slice\<close>), and that may
  throw in general but never do on the reachable states (\<open>safe_slice\<close>).

  An effect is a machine over a gate: a busy flag of the effect class and the request its
  \<open>switchMap\<close> currently waits for. The locale \<open>request_gate\<close> is the discipline under which the
  flag never blocks the feature: it is up exactly while a request is awaited.
\<close>

section \<open>Slices of the store\<close>

fun run_reducer :: "('s \<Rightarrow> 'a \<Rightarrow> 's result) \<Rightarrow> 's \<Rightarrow> 'a list \<Rightarrow> 's result" where
  "run_reducer reduce s [] = Inr s"
| "run_reducer reduce s (a # as) = js_bind (reduce s a) (\<lambda>s'. run_reducer reduce s' as)"

lemma run_reducer_append:
  "run_reducer reduce s (as @ bs) = js_bind (run_reducer reduce s as) (\<lambda>s'. run_reducer reduce s' bs)"
  by (induction as arbitrary: s) (auto simp: js_bind_def split: sum.splits)

lemma run_reducer_total: "run_reducer (\<lambda>s a. Inr (reduce s a)) s as = Inr (foldl reduce s as)"
  by (induction as arbitrary: s) auto

locale partial_slice =
  fixes init :: 's and reduce :: "'s \<Rightarrow> 'a \<Rightarrow> 's result"
    and inv :: "'s \<Rightarrow> bool" and ok :: "'a \<Rightarrow> bool"
  assumes inv_init: "inv init"
    and inv_step: "inv s \<Longrightarrow> ok a \<Longrightarrow> reduce s a = Inr s' \<Longrightarrow> inv s'"
begin

lemma run_inv_from:
  "inv s \<Longrightarrow> list_all ok as \<Longrightarrow> run_reducer reduce s as = Inr s' \<Longrightarrow> inv s'"
  by (induction as arbitrary: s) (auto simp: js_bind_Inr_iff intro: inv_step)

lemma run_inv: "list_all ok as \<Longrightarrow> run_reducer reduce init as = Inr s' \<Longrightarrow> inv s'"
  using run_inv_from inv_init by blast

end

locale safe_slice = partial_slice +
  assumes no_throw: "inv s \<Longrightarrow> ok a \<Longrightarrow> \<exists>s'. reduce s a = Inr s'"
begin

lemma run_safe_from: "inv s \<Longrightarrow> list_all ok as \<Longrightarrow> \<exists>s'. run_reducer reduce s as = Inr s' \<and> inv s'"
proof (induction as arbitrary: s)
  case (Cons a as)
  obtain s1 where "reduce s a = Inr s1" using Cons.prems no_throw by auto
  moreover from this have "inv s1" using Cons.prems inv_step by auto
  ultimately show ?case using Cons.IH [of s1] Cons.prems by simp
qed simp

lemma run_safe: "list_all ok as \<Longrightarrow> \<exists>s'. run_reducer reduce init as = Inr s' \<and> inv s'"
  using run_safe_from inv_init by blast

end

locale slice =
  fixes init :: 's and reduce :: "'s \<Rightarrow> 'a \<Rightarrow> 's" and inv :: "'s \<Rightarrow> bool" and ok :: "'a \<Rightarrow> bool"
  assumes slice_init: "inv init"
    and slice_step: "inv s \<Longrightarrow> ok a \<Longrightarrow> inv (reduce s a)"

sublocale slice \<subseteq> lifted: safe_slice init "\<lambda>s a. Inr (reduce s a)" inv ok
  by unfold_locales (use slice_init slice_step in auto)

context slice
begin

lemma foldl_inv_from: "inv s \<Longrightarrow> list_all ok as \<Longrightarrow> inv (foldl reduce s as)"
  using lifted.run_inv_from [of s as] by (simp add: run_reducer_total)

lemma foldl_inv: "list_all ok as \<Longrightarrow> inv (foldl reduce init as)"
  using foldl_inv_from slice_init by blast

end

section \<open>Effects with a request in flight\<close>

record 'q gate =
  busy :: bool
  inflight :: "'q option"

definition idle_gate :: "'q gate" where
  "idle_gate = \<lparr>busy = False, inflight = None\<rparr>"

text \<open>
  An error as a subscriber sees it: \<open>Error\<close> has a message, \<open>HttpErrorResponse\<close> also a status and
  its text.
\<close>

record http_error =
  he_message :: string
  he_status :: "int option"
  he_statusText :: "string option"

definition plain_error :: "string \<Rightarrow> http_error" where
  "plain_error m = \<lparr>he_message = m, he_status = None, he_statusText = None\<rparr>"

text \<open>
  What an effect can see: a trigger is an action of its \<open>ofType\<close>; a reply and a failure are the
  answer of the service to the request in flight.
\<close>

datatype ('t, 'r) effect_event = Trigger 't | Reply 'r | Failure http_error

fun run_effect :: "('m \<Rightarrow> 'e \<Rightarrow> 'm \<times> 'o list) \<Rightarrow> 'm \<Rightarrow> 'e list \<Rightarrow> 'm \<times> 'o list" where
  "run_effect step m [] = (m, [])"
| "run_effect step m (e # es) =
     (case step m e of (m', out) \<Rightarrow> (case run_effect step m' es of (m'', out') \<Rightarrow> (m'', out @ out')))"

lemma run_effect_append:
  "run_effect step m (es @ fs) =
    (case run_effect step m es of (m', out) \<Rightarrow> (case run_effect step m' fs of (m'', out') \<Rightarrow> (m'', out @ out')))"
  by (induction es arbitrary: m) (auto split: prod.splits)

lemma fst_run_effect: "fst (run_effect step m es) = foldl (\<lambda>m e. fst (step m e)) m es"
  by (induction es arbitrary: m) (auto split: prod.splits, metis fst_conv)

locale request_gate =
  fixes step :: "'q gate \<Rightarrow> ('t, 'r) effect_event \<Rightarrow> 'q gate \<times> 'o list" and request :: "'t \<Rightarrow> 'q option"
  assumes idle_start: "\<not> busy g \<Longrightarrow> request t = Some q \<Longrightarrow>
      fst (step g (Trigger t)) = \<lparr>busy = True, inflight = Some q\<rparr>"
    and trigger_keeps: "busy g = (inflight g \<noteq> None) \<Longrightarrow> g' = fst (step g (Trigger t)) \<Longrightarrow>
      busy g' = (inflight g' \<noteq> None)"
    and settle: "inflight g \<noteq> None \<Longrightarrow> e = Reply r \<or> e = Failure err \<Longrightarrow> fst (step g e) = idle_gate"
    and unanswered: "inflight g = None \<Longrightarrow> e = Reply r \<or> e = Failure err \<Longrightarrow> fst (step g e) = g"
begin

lemma step_keeps:
  assumes "busy g = (inflight g \<noteq> None)"
  shows "busy (fst (step g e)) = (inflight (fst (step g e)) \<noteq> None)"
proof (cases e)
  case (Trigger t)
  then show ?thesis using trigger_keeps [OF assms refl] by simp
next
  case (Reply r)
  then show ?thesis using settle [of g e r] unanswered [of g e r] assms
    by (cases "inflight g") (auto simp: idle_gate_def)
next
  case (Failure err)
  then show ?thesis using settle [of g e _ err] unanswered [of g e _ err] assms
    by (cases "inflight g") (auto simp: idle_gate_def)
qed

lemma run_keeps_from:
  "busy g = (inflight g \<noteq> None) \<Longrightarrow>
   busy (fst (run_effect step g es)) = (inflight (fst (run_effect step g es)) \<noteq> None)"
  unfolding fst_run_effect by (induction es arbitrary: g) (simp_all add: step_keeps)

text \<open>The flag is up exactly while a request is awaited, after any sequence of events.\<close>

lemma busy_iff_inflight:
  "busy (fst (run_effect step idle_gate es)) = (inflight (fst (run_effect step idle_gate es)) \<noteq> None)"
  by (rule run_keeps_from) (simp add: idle_gate_def)

text \<open>Once the awaited request is answered, well or badly, the next trigger starts a new one.\<close>

lemma reopens:
  assumes "request t = Some q" "e = Reply r \<or> e = Failure err"
  shows "inflight (fst (run_effect step idle_gate (es @ [e, Trigger t]))) = Some q"
proof -
  let ?g = "fst (run_effect step idle_gate es)"
  have "\<not> busy (fst (step ?g e))"
    using settle [OF _ assms(2), of ?g] unanswered [OF _ assms(2), of ?g] busy_iff_inflight [of es]
    by (cases "inflight ?g") (auto simp: idle_gate_def)
  from idle_start [OF this assms(1)] show ?thesis by (simp add: fst_run_effect)
qed

end

text \<open>
  An effect that has stopped: a condition on its state under which a class of events keeps the
  condition and never makes the effect ask the service again.
\<close>

locale blocked_effect =
  fixes step :: "'m \<Rightarrow> 'e \<Rightarrow> 'm \<times> 'o list" and blocked :: "'m \<Rightarrow> bool"
    and quiet :: "'e \<Rightarrow> bool" and asks :: "'o \<Rightarrow> bool"
  assumes blocked_step: "blocked m \<Longrightarrow> quiet e \<Longrightarrow> blocked (fst (step m e))"
    and blocked_silent: "blocked m \<Longrightarrow> quiet e \<Longrightarrow> out \<in> set (snd (step m e)) \<Longrightarrow> \<not> asks out"
begin

lemma run_blocked:
  "blocked m \<Longrightarrow> list_all quiet es \<Longrightarrow>
   blocked (fst (run_effect step m es)) \<and> (\<forall>out \<in> set (snd (run_effect step m es)). \<not> asks out)"
proof (induction es arbitrary: m)
  case (Cons e es)
  obtain m1 o1 where s: "step m e = (m1, o1)" by force
  obtain m2 o2 where r: "run_effect step m1 es = (m2, o2)" by force
  have "blocked m1" "\<forall>out \<in> set o1. \<not> asks out"
    using Cons.prems blocked_step [of m e] blocked_silent [of m e] s by auto
  then show ?case using Cons.IH [of m1] Cons.prems s r by auto
qed simp

end

end
