(* ===== verification/LoadingError.thy ===== *)
theory LoadingError
  imports NgRx
begin

text \<open>
  The two slices every feature writes to: the loading indicator of the toolbar
  (\<open>layout/toolbar/loading.reducer.ts\<close>) and the error list (\<open>layout/error-preview\<close>), with the
  operators of \<open>shared/constants/store-functions.ts\<close> that feed them. The loading slice sees every
  action of the store, by its type string.
\<close>

section \<open>Action types\<close>

definition createType :: "string \<Rightarrow> string option \<Rightarrow> string \<Rightarrow> string" where
  "createType modul submodule actionName =
    ''['' @ modul @ (case submodule of Some t \<Rightarrow> (if t \<noteq> [] then '' '' @ t else []) | None \<Rightarrow> [])
      @ ''] '' @ actionName"

definition APP_PREFIX :: string where "APP_PREFIX = ''App''"
definition BLOCK_PRODUCTION_PREFIX :: string where "BLOCK_PRODUCTION_PREFIX = ''Block Production''"

definition app_type :: "string \<Rightarrow> string" where
  "app_type t = ''['' @ APP_PREFIX @ ''] '' @ t"

definition bp_type :: "string \<Rightarrow> string \<Rightarrow> string" where
  "bp_type sub t = ''['' @ BLOCK_PRODUCTION_PREFIX @ '' '' @ sub @ ''] '' @ t"

section \<open>The loading slice\<close>

type_synonym LoadingState = "string list"

text \<open>The second argument of \<open>remove\<close>: a type or an array of types.\<close>

datatype removal = One string | Many "string list"

definition loading_add :: "LoadingState \<Rightarrow> string \<Rightarrow> LoadingState" where
  "loading_add state type = type # state"

fun loading_remove :: "LoadingState \<Rightarrow> removal \<Rightarrow> LoadingState" where
  "loading_remove state (Many types) = filter (\<lambda>t. \<not> t \<in> set types) state"
| "loading_remove state (One type) = filter (\<lambda>t. t \<noteq> type) state"

text \<open>The cases of the switch that add their own type, in order.\<close>

definition loading_adds :: "string list" where
  "loading_adds =
    [app_type ''Init'',
     bp_type ''Overview'' ''Get Slots'', bp_type ''Won Slots'' ''Init'',
     ''STATE_ACTIONS_GET_EARLIEST_SLOT'', ''STATE_ACTIONS_GET_ACTIONS'',
     ''NODES_OVERVIEW_INIT'', ''NODES_BOOTSTRAP_INIT'', ''NODES_LIVE_INIT'',
     ''SNARKS_WORK_POOL_INIT'', ''SNARKS_WORK_POOL_GET_WORK_POOL_DETAIL'',
     ''SCAN_STATE_INIT'', ''MEMORY_RESOURCES_GET'',
     ''NETWORK_NODE_DHT_INIT'', ''NETWORK_BOOTSTRAP_STATS_INIT'',
     ''BENCHMARKS_WALLETS_GET_WALLETS'', ''BENCHMARKS_WALLETS_GET_ALL_TXS'']"

text \<open>The cases that remove, each with what it removes, in order.\<close>

definition loading_removes :: "(string \<times> removal) list" where
  "loading_removes =
    [(app_type ''Init Success'', One (app_type ''Init'')),
     (bp_type ''Overview'' ''Get Slots Success'', One (bp_type ''Overview'' ''Get Slots'')),
     (bp_type ''Overview'' ''Close'', Many [bp_type ''Overview'' ''Close'']),
     (bp_type ''Won Slots'' ''Get Slots Success'', One (bp_type ''Won Slots'' ''Init'')),
     (bp_type ''Won Slots'' ''Close'', One (bp_type ''Won Slots'' ''Init'')),
     (''STATE_ACTIONS_GET_EARLIEST_SLOT_SUCCESS'', One ''STATE_ACTIONS_GET_EARLIEST_SLOT''),
     (''STATE_ACTIONS_GET_ACTIONS_SUCCESS'', One ''STATE_ACTIONS_GET_ACTIONS''),
     (''STATE_ACTIONS_CLOSE'', Many [''STATE_ACTIONS_GET_EARLIEST_SLOT'', ''STATE_ACTIONS_GET_ACTIONS'']),
     (''NODES_OVERVIEW_GET_NODES_SUCCESS'', One ''NODES_OVERVIEW_INIT''),
     (''NODES_OVERVIEW_CLOSE'', Many [''NODES_OVERVIEW_INIT'']),
     (''NODES_BOOTSTRAP_GET_NODES_SUCCESS'', One ''NODES_BOOTSTRAP_INIT''),
     (''NODES_BOOTSTRAP_CLOSE'', Many [''NODES_BOOTSTRAP_INIT'']),
     (''NODES_LIVE_GET_NODES_SUCCESS'', One ''NODES_LIVE_INIT''),
     (''NODES_LIVE_CLOSE'', Many [''NODES_LIVE_INIT'']),
     (''SNARKS_WORK_POOL_GET_WORK_POOL_SUCCESS'', One ''SNARKS_WORK_POOL_INIT''),
     (''SNARKS_WORK_POOL_GET_WORK_POOL_DETAIL_SUCCESS'', One ''SNARKS_WORK_POOL_GET_WORK_POOL_DETAIL''),
     (''SNARKS_WORK_POOL_CLOSE'', Many [''SNARKS_WORK_POOL_INIT'', ''SNARKS_WORK_POOL_GET_WORK_POOL_DETAIL'']),
     (''SCAN_STATE_GET_BLOCK_SUCCESS'', One ''SCAN_STATE_INIT''),
     (''SCAN_STATE_CLOSE'', Many [''SCAN_STATE_INIT'']),
     (''MEMORY_RESOURCES_GET_SUCCESS'', One ''MEMORY_RESOURCES_GET''),
     (''MEMORY_RESOURCES_CLOSE'', Many [''MEMORY_RESOURCES_GET'']),
     (''NETWORK_NODE_DHT_GET_PEERS_SUCCESS'', One ''NETWORK_NODE_DHT_INIT''),
     (''NETWORK_NODE_DHT_CLOSE'', Many [''NETWORK_NODE_DHT_INIT'']),
     (''NETWORK_BOOTSTRAP_STATS_GET_BOOTSTRAP_STATS_SUCCESS'', One ''NETWORK_BOOTSTRAP_STATS_INIT''),
     (''NETWORK_BOOTSTRAP_STATS_CLOSE'', Many [''NETWORK_BOOTSTRAP_STATS_INIT'']),
     (''BENCHMARKS_WALLETS_GET_WALLETS_SUCCESS'', One ''BENCHMARKS_WALLETS_GET_WALLETS''),
     (''BENCHMARKS_WALLETS_GET_ALL_TXS_SUCCESS'', One ''BENCHMARKS_WALLETS_GET_ALL_TXS''),
     (''BENCHMARKS_WALLETS_CLOSE'', Many [''BENCHMARKS_WALLETS_GET_WALLETS'', ''BENCHMARKS_WALLETS_GET_ALL_TXS''])]"

definition loadingReducer :: "LoadingState \<Rightarrow> string \<Rightarrow> LoadingState" where
  "loadingReducer state type =
    (if type \<in> set loading_adds then loading_add state type
     else case map_of loading_removes type of
        Some r \<Rightarrow> loading_remove state r
      | None \<Rightarrow> state)"

definition selectLoadingStateLength :: "LoadingState \<Rightarrow> nat" where
  "selectLoadingStateLength = length"

section \<open>The error slice\<close>

datatype MinaErrorType = RUST | GENERIC | DEBUGGER

record MinaError =
  err_type :: MinaErrorType
  err_message :: string
  err_timestamp :: string
  err_seen :: bool
  err_status :: "string option"

record ErrorPreviewState =
  errors :: "MinaError list"

datatype ErrorPreviewActions = ADD_ERROR MinaError | MARK_ERRORS_AS_SEEN

definition initialState_error :: ErrorPreviewState where
  "initialState_error = \<lparr>errors = []\<rparr>"

fun errorReducer :: "ErrorPreviewState \<Rightarrow> ErrorPreviewActions \<Rightarrow> ErrorPreviewState" where
  "errorReducer state (ADD_ERROR payload) = state\<lparr>errors := payload # errors state\<rparr>"
| "errorReducer state MARK_ERRORS_AS_SEEN =
     state\<lparr>errors := map (\<lambda>e. e\<lparr>err_seen := True\<rparr>) (errors state)\<rparr>"

text \<open>\<open>toReadableDate\<close> formats with Angular and is a parameter.\<close>

definition addError ::
  "(int \<Rightarrow> string \<Rightarrow> string) \<Rightarrow> int \<Rightarrow> http_error \<Rightarrow> MinaErrorType \<Rightarrow> ErrorPreviewActions" where
  "addError toReadableDate now error type = ADD_ERROR
    \<lparr>err_type = type, err_message = he_message error,
     err_timestamp = toReadableDate now ''HH:mm:ss'', err_seen = False,
     err_status = (case he_status error of
        Some st \<Rightarrow> if st \<noteq> 0 then Some (int_to_string st @ '' ''
          @ (case he_statusText error of Some t \<Rightarrow> t | None \<Rightarrow> ''undefined'')) else None
      | None \<Rightarrow> None)\<rparr>"

text \<open>
  \<open>catchErrorAndRepeat\<close> and \<open>catchErrorAndRepeat2\<close>: what they emit in the place of an error; the
  source is then subscribed again.
\<close>

definition catchErrorAndRepeat ::
  "(int \<Rightarrow> string \<Rightarrow> string) \<Rightarrow> int \<Rightarrow> MinaErrorType \<Rightarrow> 'a \<Rightarrow> http_error \<Rightarrow> (ErrorPreviewActions + 'a) list" where
  "catchErrorAndRepeat toReadableDate now errType action error =
    [Inl (addError toReadableDate now error errType), Inr action]"

definition catchErrorAndRepeat2 ::
  "(int \<Rightarrow> string \<Rightarrow> string) \<Rightarrow> int \<Rightarrow> MinaErrorType \<Rightarrow> 'a \<Rightarrow> http_error \<Rightarrow> (ErrorPreviewActions + 'a) list" where
  "catchErrorAndRepeat2 toReadableDate now errType action error =
    [Inl (addError toReadableDate now error errType), Inr action]"

section \<open>Correctness\<close>

text \<open>For every type that raises the indicator, the action that reports the result.\<close>

definition loading_success :: "(string \<times> string) list" where
  "loading_success =
    [(app_type ''Init'', app_type ''Init Success''),
     (bp_type ''Overview'' ''Get Slots'', bp_type ''Overview'' ''Get Slots Success''),
     (bp_type ''Won Slots'' ''Init'', bp_type ''Won Slots'' ''Get Slots Success''),
     (''STATE_ACTIONS_GET_EARLIEST_SLOT'', ''STATE_ACTIONS_GET_EARLIEST_SLOT_SUCCESS''),
     (''STATE_ACTIONS_GET_ACTIONS'', ''STATE_ACTIONS_GET_ACTIONS_SUCCESS''),
     (''NODES_OVERVIEW_INIT'', ''NODES_OVERVIEW_GET_NODES_SUCCESS''),
     (''NODES_BOOTSTRAP_INIT'', ''NODES_BOOTSTRAP_GET_NODES_SUCCESS''),
     (''NODES_LIVE_INIT'', ''NODES_LIVE_GET_NODES_SUCCESS''),
     (''SNARKS_WORK_POOL_INIT'', ''SNARKS_WORK_POOL_GET_WORK_POOL_SUCCESS''),
     (''SNARKS_WORK_POOL_GET_WORK_POOL_DETAIL'', ''SNARKS_WORK_POOL_GET_WORK_POOL_DETAIL_SUCCESS''),
     (''SCAN_STATE_INIT'', ''SCAN_STATE_GET_BLOCK_SUCCESS''),
     (''MEMORY_RESOURCES_GET'', ''MEMORY_RESOURCES_GET_SUCCESS''),
     (''NETWORK_NODE_DHT_INIT'', ''NETWORK_NODE_DHT_GET_PEERS_SUCCESS''),
     (''NETWORK_BOOTSTRAP_STATS_INIT'', ''NETWORK_BOOTSTRAP_STATS_GET_BOOTSTRAP_STATS_SUCCESS''),
     (''BENCHMARKS_WALLETS_GET_WALLETS'', ''BENCHMARKS_WALLETS_GET_WALLETS_SUCCESS''),
     (''BENCHMARKS_WALLETS_GET_ALL_TXS'', ''BENCHMARKS_WALLETS_GET_ALL_TXS_SUCCESS'')]"

definition success_wired :: "string \<times> string \<Rightarrow> bool" where
  "success_wired p = (case p of (t, u) \<Rightarrow>
     t \<in> set loading_adds \<and> u \<notin> set loading_adds \<and> map_of loading_removes u = Some (One t))"

lemma loading_success_wired: "list_all success_wired loading_success \<and> map fst loading_success = loading_adds"
  by code_simp

text \<open>
  every request that raises the loading indicator is taken down by its success action, and by
  nothing else of that pair: the other entries stay as they were.
\<close>

theorem loading_success_clears:
  assumes "t \<in> set loading_adds"
  shows "\<exists>u. map_of loading_success t = Some u
    \<and> loadingReducer s t = t # s
    \<and> loadingReducer (loadingReducer s t) u = filter (\<lambda>x. x \<noteq> t) s"
proof -
  have "t \<in> fst ` set loading_success"
    using assms loading_success_wired by (metis list.set_map)
  then obtain u where u: "map_of loading_success t = Some u"
    by (metis (no_types) domD dom_map_of_conv_image_fst)
  then have "success_wired (t, u)"
    using loading_success_wired map_of_SomeD by (fastforce simp: list_all_iff)
  then show ?thesis using u
    by (auto simp: success_wired_def loadingReducer_def loading_add_def)
qed

theorem loading_success_clears_witness:
  "\<exists>u. loadingReducer (loadingReducer [''x''] ''SCAN_STATE_INIT'') u = [''x'']"
proof -
  have "''SCAN_STATE_INIT'' \<in> set loading_adds" by code_simp
  from loading_success_clears [OF this, of "[''x'']"] show ?thesis by auto
qed

text \<open>
  closing the block production overview while its slots are loading leaves the loading
  indicator up: the close action removes its own type, which is never added, instead of the type
  of the request.
\<close>

theorem overview_close_keeps_loading:
  "loadingReducer (loadingReducer s (bp_type ''Overview'' ''Get Slots'')) (bp_type ''Overview'' ''Close'')
     = bp_type ''Overview'' ''Get Slots'' # filter (\<lambda>t. t \<noteq> bp_type ''Overview'' ''Close'') s"
proof -
  have "bp_type ''Overview'' ''Get Slots'' \<in> set loading_adds"
    "bp_type ''Overview'' ''Close'' \<notin> set loading_adds"
    "map_of loading_removes (bp_type ''Overview'' ''Close'') = Some (Many [bp_type ''Overview'' ''Close''])"
    "bp_type ''Overview'' ''Get Slots'' \<noteq> bp_type ''Overview'' ''Close''"
    by code_simp+
  then show ?thesis by (simp add: loadingReducer_def loading_add_def)
qed

text \<open>After the errors are marked, every error is seen; new errors are unseen and come first.\<close>

definition unseen :: "ErrorPreviewState \<Rightarrow> nat" where
  "unseen s = length (filter (\<lambda>e. \<not> err_seen e) (errors s))"

lemma error_list_laws:
  "unseen (errorReducer s MARK_ERRORS_AS_SEEN) = 0"
  "length (errors (errorReducer s MARK_ERRORS_AS_SEEN)) = length (errors s)"
  "unseen (errorReducer s (addError fmt now e t)) = Suc (unseen s)"
  by (simp_all add: unseen_def addError_def filter_empty_conv)

end
