(* ===== verification/AppShell.thy ===== *)
theory AppShell
  imports ArrayHelper LoadingError
begin

text \<open>
  The shell around the features: the feature configuration of a node
  (\<open>shared/constants/config.ts\<close>), the router between the HTTP node and the in-browser node
  (\<open>core/services/rust.service.ts\<close>), and the app slice with its service and effects
  (\<open>app.reducer.ts\<close>, \<open>app.service.ts\<close>, \<open>app.effects.ts\<close>). The browser's local storage is the two
  items the slice reads and writes, held as the value their JSON text denotes; outside a browser
  there is none.
\<close>

section \<open>Nodes and features\<close>

text \<open>
  A feature configuration is an object from feature names to lists of sub-features, with its keys
  in order; the code also accepts an array of feature names.
\<close>

datatype FeaturesConfig =
  FeaturesArray "string list"
| FeaturesObject "(string \<times> string list option) list"

record MinaNode =
  node_name :: string
  node_url :: "string option"
  node_memoryProfiler :: "string option"
  node_debugger :: "string option"
  node_features :: "FeaturesConfig option"
  node_isCustom :: "bool option"
  node_isWebNode :: "bool option"

record MinaEnv =
  env_production :: bool
  env_configs :: "MinaNode list"
  env_identifier :: "string option"
  env_hideToolbar :: "bool option"
  env_hideNodeStats :: "bool option"
  env_canAddNodes :: "bool option"
  env_showWebNodeLandingPage :: "bool option"
  env_hidePeersPill :: "bool option"
  env_hideTxPill :: "bool option"
  env_globalFeatures :: "FeaturesConfig option"
  env_globalGraphQL :: "string option"
  env_globalWebNodeSeedUrls :: "string list option"
  env_globalWebNodeBootNodes :: "string list option"

text \<open>The browser: its origin, and the platform's \<open>new URL(path, base).href\<close>.\<close>

record browser =
  isBrowser :: bool
  origin :: string
  href :: "string \<Rightarrow> string \<Rightarrow> string"

definition endsWith_slash :: "string \<Rightarrow> bool" where
  "endsWith_slash s \<longleftrightarrow> s \<noteq> [] \<and> last s = CHR ''/''"

definition getOrigin :: "browser \<Rightarrow> string" where
  "getOrigin b = (if isBrowser b then origin b else [])"

definition getURL :: "browser \<Rightarrow> string option \<Rightarrow> string option" where
  "getURL b pathOrUrl =
    (if isBrowser b then
       (case pathOrUrl of
          Some p \<Rightarrow> if p \<noteq> [] then
              (let h = href b p (getOrigin b)
               in Some (if endsWith_slash h then js_slice 0 (- 1) h else h))
            else pathOrUrl
        | None \<Rightarrow> pathOrUrl)
     else pathOrUrl)"

definition CONFIG :: "browser \<Rightarrow> MinaEnv \<Rightarrow> MinaEnv" where
  "CONFIG b environment = environment
    \<lparr>env_globalGraphQL := getURL b (env_globalGraphQL environment),
     env_configs := (if \<not> isBrowser b then []
       else map (\<lambda>config. config
          \<lparr>node_url := getURL b (node_url config),
           node_memoryProfiler := getURL b (node_memoryProfiler config),
           node_debugger := getURL b (node_debugger config)\<rparr>) (env_configs environment))\<rparr>"

text \<open>\<open>config?.features || CONFIG.globalConfig?.features\<close>; an object or array is truthy.\<close>

definition getFeaturesConfig :: "MinaEnv \<Rightarrow> MinaNode option \<Rightarrow> FeaturesConfig option" where
  "getFeaturesConfig cfg config =
    (if env_configs cfg = [] then env_globalFeatures cfg
     else case Option.bind config node_features of
        Some f \<Rightarrow> Some f | None \<Rightarrow> env_globalFeatures cfg)"

fun object_keys :: "FeaturesConfig \<Rightarrow> string list" where
  "object_keys (FeaturesArray fs) = map nat_to_string [0..<length fs]"
| "object_keys (FeaturesObject kvs) = map fst kvs"

text \<open>\<open>featuresConfig[feature]\<close>: on an array a feature name is no index.\<close>

fun feature_entry :: "FeaturesConfig \<Rightarrow> string \<Rightarrow> string list option" where
  "feature_entry (FeaturesArray fs) feature = None"
| "feature_entry (FeaturesObject kvs) feature = Option.bind (map_of kvs feature) id"

definition getAvailableFeatures :: "MinaEnv \<Rightarrow> MinaNode option \<Rightarrow> string list" where
  "getAvailableFeatures cfg config =
    (case getFeaturesConfig cfg config of None \<Rightarrow> [] | Some fc \<Rightarrow> object_keys fc)"

text \<open>The result is \<open>undefined\<close> when the list of names is empty; the default argument is the first node.\<close>

definition getFirstFeature :: "browser \<Rightarrow> MinaEnv \<Rightarrow> MinaNode option \<Rightarrow> string option" where
  "getFirstFeature b cfg arg =
    (let config = (case arg of Some c \<Rightarrow> Some c | None \<Rightarrow> js_nth (env_configs cfg) 0)
     in if \<not> isBrowser b then Some []
        else case Option.bind config node_features of
            Some (FeaturesArray fs) \<Rightarrow> js_nth fs 0
          | _ \<Rightarrow> (case getFeaturesConfig cfg config of
                None \<Rightarrow> Some [] | Some fc \<Rightarrow> js_nth (object_keys fc) 0))"

definition isFeatureEnabled :: "MinaEnv \<Rightarrow> MinaNode option \<Rightarrow> string \<Rightarrow> bool" where
  "isFeatureEnabled cfg config feature =
    (case Option.bind config node_features of
        Some (FeaturesArray fs) \<Rightarrow> js_nth fs 0 \<noteq> None
      | _ \<Rightarrow> (case getFeaturesConfig cfg config of
            None \<Rightarrow> False | Some fc \<Rightarrow> feature_entry fc feature \<noteq> None))"

definition isSubFeatureEnabled :: "MinaEnv \<Rightarrow> MinaNode option \<Rightarrow> string \<Rightarrow> string \<Rightarrow> bool" where
  "isSubFeatureEnabled cfg config feature subFeature =
    (case getFeaturesConfig cfg config of
        None \<Rightarrow> False
      | Some fc \<Rightarrow> (case feature_entry fc feature of None \<Rightarrow> False | Some subs \<Rightarrow> subFeature \<in> set subs))"

section \<open>Requests to the node\<close>

datatype MinaNetwork = MAINNET | DEVNET | UNKNOWN

definition getNetwork :: "string option \<Rightarrow> MinaNetwork" where
  "getNetwork chainId =
    (if chainId = Some ''a7351abc7ddf2ea92d1b38cc8e636c271c1dfd2c081c637f62ebc2af34eb7cc1'' then MAINNET
     else if chainId = Some ''29936104443aaf264a7f0192ac64b1c7173198c1ed404c1bcff5e562e05eb7f6'' then DEVNET
     else UNKNOWN)"

text \<open>Where a request goes: an HTTP method and address, or a stream of the web node service.\<close>

datatype request =
  HttpGet string
| HttpPost string
| WebStream string
| WebActions string

definition js_includes :: "string \<Rightarrow> string \<Rightarrow> bool" where
  "js_includes s pat \<longleftrightarrow> (\<exists>i \<in> set [0..<Suc (length s)]. take (length pat) (drop i s) = pat)"

record RustService =
  rust_node :: "MinaNode option"

definition changeRustNode :: "RustService \<Rightarrow> MinaNode option \<Rightarrow> RustService" where
  "changeRustNode r node = r\<lparr>rust_node := node\<rparr>"

definition activeNodeIsWebNode :: "RustService \<Rightarrow> bool" where
  "activeNodeIsWebNode r = (Option.bind (rust_node r) node_isWebNode = Some True)"

definition rust_URL :: "RustService \<Rightarrow> string" where
  "rust_URL r = (case Option.bind (rust_node r) node_url of Some u \<Rightarrow> u | None \<Rightarrow> [])"

definition rust_name :: "RustService \<Rightarrow> string" where
  "rust_name r = (case rust_node r of Some n \<Rightarrow> node_name n | None \<Rightarrow> [])"

definition web_streams :: "(string \<times> string) list" where
  "web_streams =
    [(''/status'', ''status$''), (''/state/peers'', ''peers$''),
     (''/state/message-progress'', ''messageProgress$''), (''/stats/sync?limit=1'', ''sync$''),
     (''/stats/block_producer'', ''blockProducerStats$''), (''/transaction-pool'', ''transactionPool$''),
     (''/accounts'', ''accounts$''), (''/best-chain-user-commands'', ''bestChainUserCommands$''),
     (''/build_env'', ''envBuildDetails$'')]"

definition unsupported :: "string \<Rightarrow> jserror" where
  "unsupported path = ErrorMsg (''Web node doesn'' @ [CHR 0x27] @ ''t support '' @ [CHR 0x22] @ path @ [CHR 0x22] @ '' path!'')"

definition getFromWebNode :: "string \<Rightarrow> request result" where
  "getFromWebNode path =
    (if js_includes path ''/stats/actions'' then Inr (WebActions path)
     else case map_of web_streams path of
        Some s \<Rightarrow> Inr (WebStream s) | None \<Rightarrow> Inl (unsupported path))"

definition postToWebNode :: "string \<Rightarrow> request result" where
  "postToWebNode path =
    (if path = ''/send-payment'' then Inr (WebStream ''sendPayment$'') else Inl (unsupported path))"

definition rust_get :: "RustService \<Rightarrow> string \<Rightarrow> request result" where
  "rust_get r path = (if activeNodeIsWebNode r then getFromWebNode path
     else Inr (HttpGet (rust_URL r @ path)))"

definition rust_post :: "RustService \<Rightarrow> string \<Rightarrow> request result" where
  "rust_post r path = (if activeNodeIsWebNode r then postToWebNode path
     else Inr (HttpPost (rust_URL r @ path)))"

definition getMemProfiler :: "RustService \<Rightarrow> string \<Rightarrow> request" where
  "getMemProfiler r path = HttpGet
    ((case Option.bind (rust_node r) node_memoryProfiler of Some u \<Rightarrow> u | None \<Rightarrow> []) @ path)"

section \<open>The app slice\<close>

datatype AppNodeStatus = PENDING | BOOTSTRAP | CATCHUP | SYNCED | OFFLINE

datatype BlockProductionWonSlotsStatus =
  Scheduled | StagedLedgerDiffCreatePending | StagedLedgerDiffCreateSuccess | Produced
| ProofCreatePending | ProofCreateSuccess | BlockApplyPending | BlockApplySuccess
| Committed | Discarded | Canonical | Orphaned

record AppNodeDetails =
  nd_status :: AppNodeStatus
  nd_blockHeight :: "int option"
  nd_blockTime :: "int option"
  nd_peersConnected :: int
  nd_peersDisconnected :: int
  nd_peersConnecting :: int
  nd_transactions :: int
  nd_snarks :: int
  nd_producingBlockAt :: "rat option"
  nd_producingBlockGlobalSlot :: "int option"
  nd_producingBlockStatus :: "BlockProductionWonSlotsStatus option"
  nd_chainId :: "string option"
  nd_network :: "MinaNetwork option"

record AppMenu =
  menu_collapsed :: bool
  menu_isMobile :: bool
  menu_open :: bool

text \<open>The build environment of a node is passed through whole, so its type is a parameter.\<close>

record 'b AppState =
  app_menu :: AppMenu
  app_nodes :: "MinaNode list"
  app_activeNode :: "MinaNode option"
  app_activeNodeDetails :: AppNodeDetails
  app_envBuild :: "'b option"

record storage =
  ls_menu_collapsed :: "bool option"
  ls_custom_nodes :: "MinaNode list option"

datatype 'b AppActions =
  app_init
| app_initSuccess "MinaNode option" "MinaNode list"
| app_changeActiveNode MinaNode
| app_getNodeDetails
| app_getNodeDetailsSuccess AppNodeDetails
| app_getNodeEnvBuild
| app_getNodeEnvBuildSuccess "'b option"
| app_deleteNode MinaNode
| app_addNode MinaNode
| app_changeMenuCollapsing bool
| app_changeSubMenus "string list"
| app_toggleMobile bool
| app_toggleMenuOpening

definition node_details_none :: "AppNodeStatus \<Rightarrow> AppNodeDetails" where
  "node_details_none status =
    \<lparr>nd_status = status, nd_blockHeight = None, nd_blockTime = None, nd_peersConnected = 0,
     nd_peersDisconnected = 0, nd_peersConnecting = 0, nd_transactions = 0, nd_snarks = 0,
     nd_producingBlockAt = None, nd_producingBlockGlobalSlot = None, nd_producingBlockStatus = None,
     nd_chainId = None, nd_network = None\<rparr>"

definition initialState_app :: "storage option \<Rightarrow> 'b AppState" where
  "initialState_app ls =
    \<lparr>app_menu = \<lparr>menu_collapsed = (Option.bind ls ls_menu_collapsed = Some True),
        menu_isMobile = False, menu_open = True\<rparr>,
     app_nodes = [], app_activeNode = None, app_activeNodeDetails = node_details_none PENDING,
     app_envBuild = None\<rparr>"

definition stored_nodes :: "storage option \<Rightarrow> MinaNode list" where
  "stored_nodes ls = (case Option.bind ls ls_custom_nodes of Some ns \<Rightarrow> ns | None \<Rightarrow> [])"

definition store_nodes :: "MinaNode list \<Rightarrow> storage option \<Rightarrow> storage option" where
  "store_nodes ns ls = map_option (\<lambda>l. l\<lparr>ls_custom_nodes := Some ns\<rparr>) ls"

fun appReducer :: "'b AppState \<times> storage option \<Rightarrow> 'b AppActions \<Rightarrow> 'b AppState \<times> storage option" where
  "appReducer (state, ls) (app_initSuccess activeNode nodes) =
     (state\<lparr>app_activeNode := activeNode, app_nodes := nodes\<rparr>, ls)"
| "appReducer (state, ls) (app_changeActiveNode node) = (state\<lparr>app_activeNode := Some node\<rparr>, ls)"
| "appReducer (state, ls) (app_getNodeDetailsSuccess details) =
     (state\<lparr>app_activeNodeDetails := details\<rparr>, ls)"
| "appReducer (state, ls) (app_changeMenuCollapsing isCollapsing) =
     (state\<lparr>app_menu := (app_menu state)\<lparr>menu_collapsed := isCollapsing\<rparr>\<rparr>,
      map_option (\<lambda>l. l\<lparr>ls_menu_collapsed := Some isCollapsing\<rparr>) ls)"
| "appReducer (state, ls) (app_toggleMobile isMobile) =
     (state\<lparr>app_menu := (app_menu state)\<lparr>menu_isMobile := isMobile, menu_open := \<not> isMobile\<rparr>\<rparr>, ls)"
| "appReducer (state, ls) app_toggleMenuOpening =
     (state\<lparr>app_menu := (app_menu state)\<lparr>menu_open := \<not> menu_open (app_menu state)\<rparr>\<rparr>, ls)"
| "appReducer (state, ls) (app_addNode node) =
     (state\<lparr>app_nodes := node # app_nodes state\<rparr>, store_nodes (node # stored_nodes ls) ls)"
| "appReducer (state, ls) (app_deleteNode node) =
     (let nodes = filter (\<lambda>n. node_name n \<noteq> node_name node) (app_nodes state)
      in (state\<lparr>app_nodes := nodes,
          app_activeNode := (if map_option node_name (app_activeNode state) = Some (node_name node)
             then js_nth nodes 0 else app_activeNode state)\<rparr>,
          store_nodes (filter (\<lambda>n. node_name n \<noteq> node_name node) (stored_nodes ls)) ls))"
| "appReducer (state, ls) (app_getNodeEnvBuildSuccess envBuild) = (state\<lparr>app_envBuild := envBuild\<rparr>, ls)"
| "appReducer (state, ls) _ = (state, ls)"

section \<open>The app service\<close>

text \<open>The \<open>node\<close> parameter of the page address, \<open>None\<close> when it is absent.\<close>

definition getActiveNode :: "string option \<Rightarrow> MinaNode list \<Rightarrow> MinaNode option" where
  "getActiveNode nodeName nodes =
    (case List.find (\<lambda>c. Some (node_name c) = nodeName) nodes of
       Some c \<Rightarrow> Some c | None \<Rightarrow> js_nth nodes 0)"

definition getNodes :: "MinaEnv \<Rightarrow> storage option \<Rightarrow> MinaNode list" where
  "getNodes cfg ls = env_configs cfg @ stored_nodes ls"

record WonSlot =
  ws_slot_time :: int
  ws_global_slot :: int
  ws_epoch :: int
  ws_delegator :: "string \<times> int"
  ws_value_with_threshold :: "rat list"

text \<open>Of the response and of a production attempt, the members the service reads.\<close>

record BlockProductionAttempt =
  bpa_won_slot :: WonSlot
  bpa_status :: BlockProductionWonSlotsStatus

record NodeDetailsResponse =
  ndr_phase :: string
  ndr_time :: "int option"
  ndr_best_tip_height :: "int option"
  ndr_connection_statuses :: "string list"
  ndr_snarks :: int
  ndr_transactions :: int
  ndr_chain_id :: "string option"
  ndr_current_attempt :: "BlockProductionAttempt option"
  ndr_previous_attempt :: "BlockProductionAttempt option"

record AppService =
  previousProducedBlock :: "BlockProductionAttempt option"

definition getStatus :: "NodeDetailsResponse \<Rightarrow> AppNodeStatus" where
  "getStatus data =
    (if ndr_phase data = ''Bootstrap'' then BOOTSTRAP
     else if ndr_phase data = ''Catchup'' then CATCHUP
     else if ndr_phase data = ''Synced'' then SYNCED else PENDING)"

definition count_peers :: "string \<Rightarrow> NodeDetailsResponse \<Rightarrow> int" where
  "count_peers st data = int (length (filter (\<lambda>p. p = st) (ndr_connection_statuses data)))"

definition getActiveNodeDetails :: "AppService \<Rightarrow> NodeDetailsResponse \<Rightarrow> AppService \<times> AppNodeDetails" where
  "getActiveNodeDetails svc data =
    (svc\<lparr>previousProducedBlock := ndr_previous_attempt data\<rparr>,
     \<lparr>nd_status = getStatus data,
      nd_blockHeight = ndr_best_tip_height data,
      nd_blockTime = ndr_time data,
      nd_peersConnected = count_peers ''Connected'' data,
      nd_peersDisconnected = count_peers ''Disconnected'' data,
      nd_peersConnecting = count_peers ''Connecting'' data,
      nd_transactions = ndr_transactions data,
      nd_snarks = ndr_snarks data,
      nd_producingBlockAt = nanOrElse
        (map_option (\<lambda>a. of_int (ws_slot_time (bpa_won_slot a)) / 1000000) (ndr_current_attempt data))
        None Some,
      nd_producingBlockGlobalSlot =
        map_option (\<lambda>a. ws_global_slot (bpa_won_slot a)) (ndr_current_attempt data),
      nd_producingBlockStatus = map_option bpa_status (ndr_current_attempt data),
      nd_chainId = ndr_chain_id data,
      nd_network = Some (getNetwork (ndr_chain_id data))\<rparr>)"

section \<open>The app effects\<close>

text \<open>\<open>init$\<close>: the service's node becomes the active one and the slice learns of it.\<close>

definition init_effect ::
  "MinaEnv \<Rightarrow> storage option \<Rightarrow> string option \<Rightarrow> RustService \<Rightarrow> RustService \<times> 'b AppActions list" where
  "init_effect cfg ls nodeName rust =
    (let nodes = getNodes cfg ls; activeNode = getActiveNode nodeName nodes
     in (changeRustNode rust activeNode, [app_initSuccess activeNode nodes]))"

text \<open>
  \<open>initSuccess$\<close>: reading \<open>isWebNode\<close> of an undefined node throws; otherwise the build is asked
  for, after the web node is loaded and started when there is one (\<open>webReady\<close>).
\<close>

definition initSuccess_effect :: "'b AppState \<Rightarrow> bool \<Rightarrow> 'b AppActions list result" where
  "initSuccess_effect state webReady =
    (case app_activeNode state of
       None \<Rightarrow> Inl (TypeError ''isWebNode'')
     | Some n \<Rightarrow> Inr (if node_isWebNode n = Some True \<and> \<not> webReady then [] else [app_getNodeEnvBuild]))"

text \<open>A navigation: to a page with the query parameter, or to the page of a feature.\<close>

datatype navigation = WithNode string | ToFeature "string option"

definition removeParamsFromURL :: "string \<Rightarrow> string" where
  "removeParamsFromURL path = takeWhile (\<lambda>c. c \<noteq> CHR ''?'') path"

text \<open>
  \<open>onNodeChange$\<close> is created as a non-dispatching effect: it changes the service's node and
  navigates, and the two actions at its end reach nobody. The page is the second segment of the
  router's address.
\<close>

definition onNodeChange_effect ::
  "browser \<Rightarrow> MinaEnv \<Rightarrow> string \<Rightarrow> 'b AppState \<Rightarrow> RustService
    \<Rightarrow> (RustService \<times> navigation list \<times> 'b AppActions list) result" where
  "onNodeChange_effect b cfg urlSegment state rust =
    (let rust' = changeRustNode rust (app_activeNode state);
         activePage = removeParamsFromURL urlSegment
     in case app_activeNode state of
          None \<Rightarrow> Inl (TypeError ''name'')
        | Some n \<Rightarrow> Inr (rust',
            WithNode (node_name n)
              # (if \<not> isFeatureEnabled cfg (Some n) activePage
                 then [ToFeature (getFirstFeature b cfg (Some n))] else []),
            []))"

text \<open>
  \<open>getNodeDetails$\<close>: the flag is reset behind \<open>catchErrorAndRepeat2\<close>, so an error resets it too.
\<close>

fun getNodeDetails_effect ::
  "(int \<Rightarrow> string \<Rightarrow> string) \<Rightarrow> int \<Rightarrow> unit gate \<Rightarrow> (unit, AppNodeDetails) effect_event
    \<Rightarrow> unit gate \<times> (ErrorPreviewActions + 'b AppActions) list" where
  "getNodeDetails_effect fmt now g (Trigger _) =
     (if busy g then (g, []) else (\<lparr>busy = True, inflight = Some ()\<rparr>, []))"
| "getNodeDetails_effect fmt now g (Reply details) =
     (if inflight g = None then (g, [])
      else (\<lparr>busy = False, inflight = None\<rparr>, [Inr (app_getNodeDetailsSuccess details)]))"
| "getNodeDetails_effect fmt now g (Failure e) =
     (if inflight g = None then (g, [])
      else (\<lparr>busy = False, inflight = None\<rparr>,
        catchErrorAndRepeat2 fmt now GENERIC (app_getNodeDetailsSuccess (node_details_none OFFLINE)) e))"

text \<open>
  \<open>getNodeEnvBuild$\<close>: requests run in parallel; an error ends the source, so it drops the others.
  The state is the number of requests in flight.
\<close>

fun getNodeEnvBuild_effect ::
  "(int \<Rightarrow> string \<Rightarrow> string) \<Rightarrow> int \<Rightarrow> nat \<Rightarrow> (unit, 'b) effect_event
    \<Rightarrow> nat \<times> (ErrorPreviewActions + 'b AppActions) list" where
  "getNodeEnvBuild_effect fmt now n (Trigger _) = (Suc n, [])"
| "getNodeEnvBuild_effect fmt now n (Reply b) =
     (if n = 0 then (n, []) else (n - 1, [Inr (app_getNodeEnvBuildSuccess (Some b))]))"
| "getNodeEnvBuild_effect fmt now n (Failure e) =
     (if n = 0 then (n, []) else (0,
        catchErrorAndRepeat2 fmt now RUST (app_getNodeEnvBuildSuccess None) e))"

section \<open>Correctness\<close>

interpretation node_details: request_gate "getNodeDetails_effect fmt now" "\<lambda>_. Some ()" for fmt now
proof unfold_locales
  fix g :: "unit gate" and e :: "(unit, AppNodeDetails) effect_event" and r err
  show "fst (getNodeDetails_effect fmt now g e) = idle_gate"
    if "inflight g \<noteq> None" "e = Reply r \<or> e = Failure err"
    using that by (auto simp: idle_gate_def)
  show "fst (getNodeDetails_effect fmt now g e) = g"
    if "inflight g = None" "e = Reply r \<or> e = Failure err"
    using that by auto
qed (auto split: if_splits)

text \<open>
  polling the node's status never gets stuck: whatever happened before, once the request in
  flight is answered or fails, the next poll sends a new request; and while one is in flight no
  second one is sent.
\<close>

theorem getNodeDetails_never_stuck:
  assumes "e = Reply d \<or> e = Failure err"
  shows "let run = (\<lambda>es. fst (run_effect (getNodeDetails_effect fmt now) idle_gate es))
    in inflight (run (es @ [e, Trigger ()])) = Some () \<and> busy (run es) = (inflight (run es) \<noteq> None)"
  using node_details.reopens [OF refl assms] node_details.busy_iff_inflight unfolding Let_def by blast

theorem getNodeDetails_never_stuck_witness:
  "inflight (fst (run_effect (getNodeDetails_effect (\<lambda>_ f. f) 0) idle_gate
     [Trigger (), Failure (plain_error ''timeout''), Trigger ()])) = Some ()"
  using getNodeDetails_never_stuck [of "Failure (plain_error ''timeout'')" undefined "plain_error ''timeout''"
    "\<lambda>_ f. f" 0 "[Trigger ()]"]
  unfolding Let_def append.simps by blast

subsection \<open>The node list and its storage\<close>

definition app_synced :: "MinaEnv \<Rightarrow> 'b AppState \<times> storage option \<Rightarrow> bool" where
  "app_synced cfg p = (set (app_nodes (fst p)) = set (getNodes cfg (snd p)) \<and> snd p \<noteq> None)"

fun app_edit :: "MinaEnv \<Rightarrow> 'b AppActions \<Rightarrow> bool" where
  "app_edit cfg (app_initSuccess _ _) = False"
| "app_edit cfg (app_deleteNode node) = (node_name node \<notin> node_name ` set (env_configs cfg))"
| "app_edit cfg _ = True"

definition app_loaded :: "MinaEnv \<Rightarrow> storage \<Rightarrow> string option \<Rightarrow> 'b AppState \<times> storage option" where
  "app_loaded cfg l nodeName = foldl appReducer (initialState_app (Some l), Some l)
     (snd (init_effect cfg (Some l) nodeName \<lparr>rust_node = None\<rparr>))"

lemma stored_store_nodes [simp]: "ls \<noteq> None \<Longrightarrow> stored_nodes (store_nodes ns ls) = ns"
  by (auto simp: stored_nodes_def store_nodes_def)

lemma store_nodes_None [simp]: "store_nodes ns ls = None \<longleftrightarrow> ls = None"
  by (simp add: store_nodes_def)

lemma stored_nodes_collapsed [simp]:
  "stored_nodes (map_option (\<lambda>l. l\<lparr>ls_menu_collapsed := v\<rparr>) ls) = stored_nodes ls"
  by (cases ls) (simp_all add: stored_nodes_def)

lemma app_synced_step: "app_synced cfg p \<Longrightarrow> app_edit cfg a \<Longrightarrow> app_synced cfg (appReducer p a)"
  by (cases p; cases a) (auto simp: app_synced_def getNodes_def, metis image_eqI)

interpretation app: slice "app_loaded cfg l nodeName" appReducer "app_synced cfg" "app_edit cfg"
  for cfg l nodeName
proof unfold_locales
  show "app_synced cfg (app_loaded cfg l nodeName)"
    by (simp add: app_loaded_def init_effect_def app_synced_def getNodes_def)
qed (rule app_synced_step)

text \<open>
  C16: adding and deleting custom nodes keeps the store and the browser's storage in step: after any
  sequence of actions that deletes no configured node, reloading the page finds exactly the nodes
  the store holds.
\<close>

theorem app_reload_finds_nodes:
  assumes "list_all (app_edit cfg) as"
    and "(state, ls) = foldl appReducer (app_loaded cfg l nodeName) as"
  shows "set (getNodes cfg ls) = set (app_nodes state)"
  using app.foldl_inv [OF assms(1), of l nodeName] assms(2) [symmetric] by (simp add: app_synced_def)

definition sample_node :: "string \<Rightarrow> MinaNode" where
  "sample_node n = \<lparr>node_name = n, node_url = None, node_memoryProfiler = None, node_debugger = None,
     node_features = None, node_isCustom = None, node_isWebNode = None\<rparr>"

definition sample_env :: "MinaNode list \<Rightarrow> MinaEnv" where
  "sample_env ns = \<lparr>env_production = False, env_configs = ns, env_identifier = None,
     env_hideToolbar = None, env_hideNodeStats = None, env_canAddNodes = None,
     env_showWebNodeLandingPage = None, env_hidePeersPill = None, env_hideTxPill = None,
     env_globalFeatures = None, env_globalGraphQL = None,
     env_globalWebNodeSeedUrls = None, env_globalWebNodeBootNodes = None\<rparr>"

lemma sample_env_configs [simp]: "env_configs (sample_env ns) = ns"
  by (simp add: sample_env_def)

theorem app_reload_finds_nodes_witness:
  "\<exists>state ls. (state, ls) = foldl appReducer
      (app_loaded (sample_env [sample_node ''a''])
        \<lparr>ls_menu_collapsed = None, ls_custom_nodes = None\<rparr> None)
      [app_addNode (sample_node ''b''), app_addNode (sample_node ''c''), app_deleteNode (sample_node ''b'')]
    \<and> node_name ` set (app_nodes (state :: unit AppState)) = {''a'', ''c''}
    \<and> set (getNodes (sample_env [sample_node ''a'']) ls)
        = set (app_nodes state)"
proof -
  let ?cfg = "sample_env [sample_node ''a'']"
  let ?as = "[app_addNode (sample_node ''b''), app_addNode (sample_node ''c''), app_deleteNode (sample_node ''b'')]"
  let ?l = "\<lparr>ls_menu_collapsed = None, ls_custom_nodes = None\<rparr>"
  let ?p = "foldl appReducer (app_loaded ?cfg ?l None) ?as :: unit AppState \<times> storage option"
  have ok: "list_all (app_edit ?cfg) ?as" by (simp add: sample_node_def)
  have "set (getNodes ?cfg (snd ?p)) = set (app_nodes (fst ?p))"
    by (rule app_reload_finds_nodes [OF ok, of "fst ?p" "snd ?p" ?l None]) (rule prod.collapse)
  moreover have "node_name ` set (app_nodes (fst ?p)) = {''a'', ''c''}"
    by (auto simp: app_loaded_def init_effect_def getNodes_def stored_nodes_def sample_node_def)
  ultimately show ?thesis by (intro exI [of _ "fst ?p"] exI [of _ "snd ?p"]) auto
qed

text \<open>
  deleting a node leaves no node of that name in the list and never leaves it active: the
  active node moves to the first remaining node, or to none when the list is empty.
\<close>

theorem deleteNode_active:
  assumes "\<forall>n. app_activeNode state = Some n \<longrightarrow> n \<in> set (app_nodes state)"
    and "(state', ls') = appReducer (state, ls) (app_deleteNode node)"
  shows "node_name node \<notin> node_name ` set (app_nodes state')
    \<and> (\<forall>n. app_activeNode state' = Some n \<longrightarrow> n \<in> set (app_nodes state') \<and> node_name n \<noteq> node_name node)
    \<and> (map_option node_name (app_activeNode state) = Some (node_name node)
        \<longrightarrow> app_activeNode state' = (case app_nodes state' of [] \<Rightarrow> None | n # _ \<Rightarrow> Some n))"
proof -
  let ?ns = "filter (\<lambda>n. node_name n \<noteq> node_name node) (app_nodes state)"
  have hd: "js_nth ?ns 0 = (case ?ns of [] \<Rightarrow> None | n # _ \<Rightarrow> Some n)"
    by (auto simp: js_nth_def split: list.splits)
  have mem: "js_nth ?ns 0 = Some n \<Longrightarrow> n \<in> set ?ns" for n
    by (rule js_nth_mem)
  have nodes': "app_nodes state' = ?ns"
    and active': "app_activeNode state' =
      (if map_option node_name (app_activeNode state) = Some (node_name node) then js_nth ?ns 0
       else app_activeNode state)"
    using assms(2) by simp_all
  have in_ns: "n \<in> set ?ns" if "app_activeNode state' = Some n" for n
  proof (cases "map_option node_name (app_activeNode state) = Some (node_name node)")
    case True
    then show ?thesis using that active' mem [of n] by simp
  next
    case False
    then have "app_activeNode state = Some n" using that unfolding active' if_not_P [OF False] by simp
    then show ?thesis using False assms(1) by simp
  qed
  show ?thesis
  proof (intro conjI allI impI)
    show "node_name node \<notin> node_name ` set (app_nodes state')" unfolding nodes' by auto
    show "n \<in> set (app_nodes state')" "node_name n \<noteq> node_name node" if "app_activeNode state' = Some n" for n
      using in_ns [OF that] unfolding nodes' by simp_all
    show "app_activeNode state' = (case app_nodes state' of [] \<Rightarrow> None | n # _ \<Rightarrow> Some n)"
      if "map_option node_name (app_activeNode state) = Some (node_name node)"
      unfolding active' if_P [OF that] nodes' by (rule hd)
  qed
qed

theorem deleteNode_active_witness:
  "\<exists>state' ls'. (state', ls') = appReducer
      ((initialState_app None :: unit AppState)\<lparr>app_nodes := [sample_node ''a'', sample_node ''b''],
         app_activeNode := Some (sample_node ''a'')\<rparr>, None) (app_deleteNode (sample_node ''a''))
    \<and> app_activeNode state' = Some (sample_node ''b'')"
proof -
  let ?s = "(initialState_app None :: unit AppState)\<lparr>app_nodes := [sample_node ''a'', sample_node ''b''],
      app_activeNode := Some (sample_node ''a'')\<rparr>"
  let ?p = "appReducer (?s, None) (app_deleteNode (sample_node ''a''))"
  have nodes: "app_nodes (fst ?p) = [sample_node ''b'']" by (simp add: sample_node_def)
  have "app_activeNode (fst ?p) = (case app_nodes (fst ?p) of [] \<Rightarrow> None | n # _ \<Rightarrow> Some n)"
    by (rule deleteNode_active [of ?s "fst ?p" "snd ?p" None "sample_node ''a''",
          THEN conjunct2, THEN conjunct2, THEN mp]) simp_all
  then have "app_activeNode (fst ?p) = Some (sample_node ''b'')" by (simp only: nodes list.case)
  then show ?thesis by (intro exI [of _ "fst ?p"] exI [of _ "snd ?p"]) simp
qed

subsection \<open>Feature configuration\<close>

text \<open>
  when the active node changes, the page the app moves to is one the new node offers: it stays
  where it is if that feature is enabled, and otherwise goes to the node's first feature, which is
  enabled.
\<close>

theorem onNodeChange_lands_enabled:
  assumes "isBrowser b" "app_activeNode state = Some n"
    and "node_features n = Some (FeaturesObject kvs)" "env_configs cfg \<noteq> []"
    and "kvs \<noteq> []" "\<forall>(k, v) \<in> set kvs. v \<noteq> None"
    and "onNodeChange_effect b cfg url state rust = Inr (rust', navs, acts)"
  shows "rust_node rust' = Some n \<and>
    (if isFeatureEnabled cfg (Some n) (removeParamsFromURL url) then navs = [WithNode (node_name n)]
     else \<exists>f. navs = [WithNode (node_name n), ToFeature (Some f)] \<and> isFeatureEnabled cfg (Some n) f)"
proof -
  obtain k v rest where kvs: "kvs = (k, v) # rest" using assms(5) by (metis list.exhaust surj_pair)
  have "getFirstFeature b cfg (Some n) = Some k"
    using assms(1,3,4) by (simp add: getFirstFeature_def getFeaturesConfig_def kvs js_nth_def)
  moreover have "isFeatureEnabled cfg (Some n) k"
    using assms(3,4,6) by (auto simp: isFeatureEnabled_def getFeaturesConfig_def kvs)
  ultimately show ?thesis using assms(2,7)
    by (auto simp: onNodeChange_effect_def changeRustNode_def)
qed

theorem onNodeChange_lands_enabled_witness:
  "\<exists>rust' navs acts. onNodeChange_effect \<lparr>isBrowser = True, origin = [], href = \<lambda>p _. p\<rparr>
      (sample_env [sample_node ''a'']) ''fuzzing?x=1''
      ((initialState_app None :: unit AppState)\<lparr>app_activeNode :=
         Some ((sample_node ''a'')\<lparr>node_features := Some (FeaturesObject [(''mempool'', Some [])])\<rparr>)\<rparr>)
      \<lparr>rust_node = None\<rparr> = Inr (rust', navs, acts)
    \<and> (\<exists>f. navs = [WithNode ''a'', ToFeature (Some f)])"
  using onNodeChange_lands_enabled [of "\<lparr>isBrowser = True, origin = [], href = \<lambda>p _. p\<rparr>"
      "(initialState_app None :: unit AppState)\<lparr>app_activeNode :=
         Some ((sample_node ''a'')\<lparr>node_features := Some (FeaturesObject [(''mempool'', Some [])])\<rparr>)\<rparr>"
      "(sample_node ''a'')\<lparr>node_features := Some (FeaturesObject [(''mempool'', Some [])])\<rparr>"
      "[(''mempool'', Some [])]"
      "sample_env [sample_node ''a'']"
      "''fuzzing?x=1''" "\<lparr>rust_node = None\<rparr>"]
  by (auto simp: onNodeChange_effect_def sample_node_def isFeatureEnabled_def getFeaturesConfig_def
      removeParamsFromURL_def changeRustNode_def)

text \<open>
  with an array of feature names, \<open>isFeatureEnabled\<close> does not look at the feature asked for:
  every feature counts as enabled as soon as the array is not empty.
\<close>

theorem isFeatureEnabled_array:
  assumes "node_features n = Some (FeaturesArray fs)"
  shows "isFeatureEnabled cfg (Some n) feature = (fs \<noteq> [])"
  using assms by (auto simp: isFeatureEnabled_def js_nth_def)

theorem isFeatureEnabled_array_witness:
  "isFeatureEnabled (sample_env [])
     (Some ((sample_node ''a'')\<lparr>node_features := Some (FeaturesArray [''mempool''])\<rparr>)) ''fuzzing''"
  using isFeatureEnabled_array [of "(sample_node ''a'')\<lparr>node_features := Some (FeaturesArray [''mempool''])\<rparr>"]
  by simp

lemma sub_feature_enabled:
  "isSubFeatureEnabled cfg config feature sub \<Longrightarrow>
   Option.bind config node_features = None \<or> (\<exists>kvs. Option.bind config node_features = Some (FeaturesObject kvs)) \<Longrightarrow>
   isFeatureEnabled cfg config feature"
  by (auto simp: isSubFeatureEnabled_def isFeatureEnabled_def split: option.splits)

end
