(* ===== verification/NetworkMessages.thy ===== *)
theory NetworkMessages
  imports ArrayHelper LoadingError
begin

text \<open>
  The network messages page (\<open>features/network/messages\<close>): the slice with its page bookkeeping, the
  service that builds the debugger's query and maps its answer, the paging buttons of the table
  footer, and the effects with the polling timer. Message ids and timestamps are whole numbers. The
  full content of a message and the formatting of dates are parameters.
\<close>

section \<open>State\<close>

datatype NetworkMessagesDirection = FORWARD | REVERSE

datatype NetworkMessagesFilterTypes = STREAM_KIND | MESSAGE_KIND | ADDRESS

datatype filter_value = FStr string | FNum int

record NetworkMessagesFilter =
  nf_type :: NetworkMessagesFilterTypes
  nf_display :: string
  nf_value :: filter_value
  nf_tooltip :: "string option"

record TimestampInterval =
  ti_from :: "int option"
  ti_to :: "int option"

text \<open>The debugger reports a message kind by name, or the counts of a decryption report.\<close>

datatype message_kind = KindName string | KindReport nat nat

record NetworkMessage =
  nm_id :: int
  nm_connectionId :: int
  nm_address :: string
  nm_size :: int
  nm_incoming :: string
  nm_timestamp :: string
  nm_streamKind :: string
  nm_messageKind :: message_kind
  nm_failedToDecryptPercentage :: "rat option"

record NetworkMessageConnection =
  nc_address :: string
  nc_pid :: int
  nc_fd :: int
  nc_incoming :: bool
  nc_timestamp :: string

record VirtualScrollActivePage =
  ap_id :: "int option"
  ap_numberOfRecords :: "nat option"
  ap_start :: "NetworkMessage option"
  ap_end :: "NetworkMessage option"
  ap_firstPageIdWithFilters :: "int js"
  ap_lastPageIdWithFilters :: "int js"
  ap_firstPageIdWithTimestamp :: "int js"
  ap_lastPageIdWithTimestamp :: "int js"

definition empty_page :: VirtualScrollActivePage where
  "empty_page = \<lparr>ap_id = None, ap_numberOfRecords = None, ap_start = None, ap_end = None,
     ap_firstPageIdWithFilters = Undefined, ap_lastPageIdWithFilters = Undefined,
     ap_firstPageIdWithTimestamp = Undefined, ap_lastPageIdWithTimestamp = Undefined\<rparr>"

text \<open>The payloads that may be an error text: the full message and the connection.\<close>

datatype 'm full_message = Body 'm | ErrText string

record 'm NetworkMessagesState =
  ms_messages :: "NetworkMessage list"
  ms_activeRow :: "NetworkMessage option"
  ms_activeRowFullMessage :: "'m full_message option"
  ms_activeRowHex :: "string option"
  ms_connection :: "(string + NetworkMessageConnection) option"
  ms_activeFilters :: "NetworkMessagesFilter list"
  ms_timestamp :: TimestampInterval
  ms_activeTab :: int
  ms_stream :: bool
  ms_limit :: int
  ms_direction :: "NetworkMessagesDirection option"
  ms_activePage :: VirtualScrollActivePage
  ms_pages :: "int option list"

definition initialState_messages :: "'m NetworkMessagesState" where
  "initialState_messages = \<lparr>ms_messages = [], ms_activeRow = None, ms_activeRowFullMessage = None,
     ms_activeRowHex = None, ms_connection = None, ms_activeFilters = [],
     ms_timestamp = \<lparr>ti_from = None, ti_to = None\<rparr>, ms_activeTab = 1, ms_stream = False,
     ms_limit = 1000, ms_direction = Some REVERSE, ms_activePage = empty_page, ms_pages = []\<rparr>"

section \<open>Actions\<close>

record page_request =
  pr_id :: "int option"
  pr_direction :: "NetworkMessagesDirection option"
  pr_timestamp :: "TimestampInterval option"

record filter_request =
  fr_filters :: "NetworkMessagesFilter list"
  fr_add :: bool
  fr_timestamp :: "TimestampInterval option"
  fr_direction :: "NetworkMessagesDirection option"

datatype 'm NetworkMessagesActions =
  NETWORK_INIT
| NETWORK_CLOSE
| NETWORK_GET_MESSAGES
| NETWORK_GET_MESSAGES_SUCCESS "NetworkMessage list"
| NETWORK_GET_PAGINATED_MESSAGES page_request
| NETWORK_TOGGLE_FILTER filter_request
| NETWORK_SET_TIMESTAMP_INTERVAL TimestampInterval "NetworkMessagesDirection option"
| NETWORK_SET_ACTIVE_ROW "NetworkMessage option"
| NETWORK_GO_LIVE
| NETWORK_PAUSE
| NETWORK_GET_FULL_MESSAGE int
| NETWORK_GET_FULL_MESSAGE_SUCCESS "'m full_message option"
| NETWORK_GET_MESSAGE_HEX int
| NETWORK_GET_MESSAGE_HEX_SUCCESS string
| NETWORK_GET_CONNECTION int
| NETWORK_GET_CONNECTION_SUCCESS "string + NetworkMessageConnection"
| NETWORK_CHANGE_TAB int
| NETWORK_GET_SPECIFIC_MESSAGE int filter_request

section \<open>Reducer\<close>

definition js_falsy_id :: "int js \<Rightarrow> bool" where
  "js_falsy_id x \<longleftrightarrow> \<not> truthy_int (js_id x)"

definition setActivePage :: "NetworkMessage list \<Rightarrow> 'm NetworkMessagesState \<Rightarrow> VirtualScrollActivePage" where
  "setActivePage messages state =
    (if messages = [] then empty_page
     else (let ap = ms_activePage state; from = ti_from (ms_timestamp state) in
      \<lparr>ap_id = Some (nm_id (last messages)),
       ap_numberOfRecords = Some (length messages),
       ap_start = Some (hd messages),
       ap_end = Some (last messages),
       ap_firstPageIdWithFilters = (if ap_firstPageIdWithFilters ap = Val (- 1)
          then Val (nm_id (hd messages)) else ap_firstPageIdWithFilters ap),
       ap_lastPageIdWithFilters = (if ap_lastPageIdWithFilters ap = Null
          then Val (nm_id (last messages)) else ap_lastPageIdWithFilters ap),
       ap_firstPageIdWithTimestamp = (if truthy_int from \<and> js_falsy_id (ap_firstPageIdWithTimestamp ap)
          then Val (nm_id (hd messages)) else ap_firstPageIdWithTimestamp ap),
       ap_lastPageIdWithTimestamp = (if truthy_int from \<and> js_falsy_id (ap_lastPageIdWithTimestamp ap)
          then Val (nm_id (last messages)) else ap_lastPageIdWithTimestamp ap)\<rparr>))"

text \<open>
  \<open>[...pages, id].sort((a, b) => a - b)\<close>: the language sorts \<open>undefined\<close> behind everything without
  asking the comparator.
\<close>

definition sort_pages :: "int option list \<Rightarrow> int option list" where
  "sort_pages ps = map Some (js_sort (\<lambda>a b. of_int (a - b)) (List.map_filter id ps))
     @ filter (\<lambda>p. p = None) ps"

text \<open>A comparison with \<open>undefined\<close> is false.\<close>

fun page_gt :: "int option \<Rightarrow> int option \<Rightarrow> bool" where
  "page_gt (Some a) (Some b) = (a > b)"
| "page_gt _ _ = False"

definition setPages :: "VirtualScrollActivePage \<Rightarrow> 'm NetworkMessagesState \<Rightarrow> int option list" where
  "setPages activePage state =
    (let currentPages = ms_pages state in
     if ap_id activePage \<in> set currentPages then currentPages
     else if page_gt (ap_id activePage) (Option.bind (lastItem currentPages) id) then [ap_id activePage]
     else sort_pages (currentPages @ [ap_id activePage]))"

definition same_value :: "NetworkMessagesFilter \<Rightarrow> NetworkMessagesFilter \<Rightarrow> bool" where
  "same_value f g \<longleftrightarrow> nf_value f = nf_value g"

definition new_filters :: "'m NetworkMessagesState \<Rightarrow> filter_request \<Rightarrow> NetworkMessagesFilter list" where
  "new_filters state payload =
    (if fr_add payload
     then ms_activeFilters state
       @ filter (\<lambda>f. \<not> list_ex (\<lambda>fi. same_value fi f) (ms_activeFilters state)) (fr_filters payload)
     else filter (\<lambda>f. \<not> list_ex (\<lambda>fi. same_value fi f) (fr_filters payload)) (ms_activeFilters state))"

text \<open>
  The case of the two filter actions. The new \<open>activePage\<close> spreads the whole slice instead of the
  old page, so the members of a page that are not listed become undefined. A given direction is a
  non-empty string, hence truthy, whichever it is.
\<close>

definition toggle_filter :: "'m NetworkMessagesState \<Rightarrow> filter_request \<Rightarrow> 'm NetworkMessagesState" where
  "toggle_filter state payload =
    (let activeFilters = new_filters state payload in
     state\<lparr>ms_activeFilters := activeFilters,
       ms_stream := False,
       ms_activePage := empty_page\<lparr>ap_firstPageIdWithFilters := Null, ap_lastPageIdWithFilters := Null,
          ap_firstPageIdWithTimestamp := Null, ap_lastPageIdWithTimestamp := Val (- 1)\<rparr>,
       ms_direction := (if (case fr_direction payload of Some _ \<Rightarrow> True
            | None \<Rightarrow> activeFilters = [] \<and> \<not> truthy_int (ti_from (ms_timestamp state)))
          then Some REVERSE else ms_direction state),
       ms_timestamp := (case fr_timestamp payload of None \<Rightarrow> ms_timestamp state
          | Some t \<Rightarrow> \<lparr>ti_from = ti_from t, ti_to = ti_to t\<rparr>),
       ms_pages := []\<rparr>)"

fun networkMessagesReducer :: "'m NetworkMessagesState \<Rightarrow> 'm NetworkMessagesActions \<Rightarrow> 'm NetworkMessagesState" where
  "networkMessagesReducer state NETWORK_GET_MESSAGES =
     state\<lparr>ms_activePage := (ms_activePage state)\<lparr>ap_firstPageIdWithFilters := Null\<rparr>\<rparr>"
| "networkMessagesReducer state (NETWORK_GET_MESSAGES_SUCCESS payload) =
     (let activePage = setActivePage payload state
      in state\<lparr>ms_messages := payload, ms_activePage := activePage, ms_pages := setPages activePage state\<rparr>)"
| "networkMessagesReducer state (NETWORK_GET_FULL_MESSAGE_SUCCESS payload) =
     state\<lparr>ms_activeRowFullMessage := payload\<rparr>"
| "networkMessagesReducer state (NETWORK_GET_MESSAGE_HEX_SUCCESS payload) =
     state\<lparr>ms_activeRowHex := Some payload\<rparr>"
| "networkMessagesReducer state (NETWORK_GET_CONNECTION_SUCCESS payload) =
     state\<lparr>ms_connection := Some payload\<rparr>"
| "networkMessagesReducer state (NETWORK_TOGGLE_FILTER payload) = toggle_filter state payload"
| "networkMessagesReducer state (NETWORK_GET_SPECIFIC_MESSAGE _ payload) = toggle_filter state payload"
| "networkMessagesReducer state (NETWORK_SET_ACTIVE_ROW payload) =
     state\<lparr>ms_activeRow := payload, ms_activeRowFullMessage := None, ms_activeRowHex := None,
       ms_connection := None\<rparr>"
| "networkMessagesReducer state NETWORK_INIT =
     state\<lparr>ms_stream := True, ms_activePage := (ms_activePage state)\<lparr>ap_firstPageIdWithFilters := Null\<rparr>\<rparr>"
| "networkMessagesReducer state NETWORK_GO_LIVE =
     state\<lparr>ms_stream := True, ms_activePage := (ms_activePage state)\<lparr>ap_firstPageIdWithFilters := Null\<rparr>\<rparr>"
| "networkMessagesReducer state NETWORK_PAUSE = state\<lparr>ms_stream := False\<rparr>"
| "networkMessagesReducer state (NETWORK_GET_PAGINATED_MESSAGES payload) =
     state\<lparr>ms_stream := False, ms_direction := pr_direction payload,
       ms_activePage := (ms_activePage state)
        \<lparr>ap_firstPageIdWithFilters := (if pr_id payload = Some 0 then Val (- 1)
            else ap_firstPageIdWithFilters (ms_activePage state)),
         ap_lastPageIdWithTimestamp :=
           (if truthy_int (Option.bind (pr_timestamp payload) ti_to)
               \<and> truthy_int (Option.bind (pr_timestamp payload) ti_from) then Null else Val (- 1))\<rparr>\<rparr>"
| "networkMessagesReducer state (NETWORK_SET_TIMESTAMP_INTERVAL timestamp direction) =
     state\<lparr>ms_stream := False,
       ms_timestamp := \<lparr>ti_from = ti_from timestamp, ti_to = ti_to timestamp\<rparr>,
       ms_direction := direction,
       ms_activePage := empty_page\<lparr>ap_firstPageIdWithTimestamp := Null,
          ap_lastPageIdWithTimestamp := Val (- 1)\<rparr>,
       ms_pages := []\<rparr>"
| "networkMessagesReducer state (NETWORK_CHANGE_TAB payload) = state\<lparr>ms_activeTab := payload\<rparr>"
| "networkMessagesReducer state NETWORK_CLOSE = initialState_messages"
| "networkMessagesReducer state _ = state"

section \<open>The page list\<close>

text \<open>
  The pages seen so far: strictly increasing ids of last messages, with at most one \<open>undefined\<close>, from
  an empty answer, at the end.
\<close>

definition pages_ok :: "int option list \<Rightarrow> bool" where
  "pages_ok ps \<longleftrightarrow> (\<exists>ns. sorted_wrt (<) ns \<and> (ps = map Some ns \<or> ps = map Some ns @ [None]))"

interpretation page_order: key_comparator "\<lambda>a b. of_int (a - b)" "id :: int \<Rightarrow> int" UNIV
  by unfold_locales auto

lemma map_filter_Some [simp]: "List.map_filter id (map Some xs) = xs"
  by (induction xs) (simp_all add: List.map_filter_simps)

lemma map_filter_append: "List.map_filter f (xs @ ys) = List.map_filter f xs @ List.map_filter f ys"
  by (simp add: List.map_filter_def)

lemma map_filter_single [simp]: "List.map_filter id [None] = []" "List.map_filter id [Some x] = [x]"
  by (simp_all add: List.map_filter_simps)

lemma sorted_pages:
  "distinct ns \<Longrightarrow> sorted_wrt (<) (js_sort (\<lambda>a b. of_int (a - b)) (ns :: int list))"
  using page_order.js_sort_sorted_key [of ns] by (simp add: strict_sorted_iff)

lemma sort_pages_ok:
  assumes "pages_ok ps" "p \<notin> set ps"
  shows "pages_ok (sort_pages (ps @ [p])) \<and> set (sort_pages (ps @ [p])) = insert p (set ps)"
proof -
  obtain ns where ns: "sorted_wrt (<) ns" "ps = map Some ns \<or> ps = map Some ns @ [None]"
    using assms(1) by (auto simp: pages_ok_def)
  then have d: "distinct ns" by (simp add: strict_sorted_iff)
  show ?thesis
  proof (cases p)
    case None
    then have ps: "ps = map Some ns" using ns(2) assms(2) by auto
    have "sort_pages (ps @ [p]) = map Some (js_sort (\<lambda>a b. of_int (a - b)) ns) @ [None]"
      by (simp add: sort_pages_def ps None map_filter_append filter_empty_conv)
    then show ?thesis using sorted_pages [OF d] None ps by (auto simp: pages_ok_def)
  next
    case (Some n)
    then have n: "distinct (ns @ [n])" using ns(2) assms(2) d by auto
    have "sort_pages (ps @ [p]) = map Some (js_sort (\<lambda>a b. of_int (a - b)) (ns @ [n]))
        @ (if ps = map Some ns then [] else [None])"
      using ns(2) by (auto simp: sort_pages_def Some map_filter_append filter_empty_conv)
    then show ?thesis using sorted_pages [OF n] Some ns(2) by (auto simp: pages_ok_def)
  qed
qed

lemma setPages_ok:
  assumes "pages_ok (ms_pages state)"
  shows "pages_ok (setPages ap state) \<and> ap_id ap \<in> set (setPages ap state)"
proof -
  have single: "pages_ok [p]" for p
    by (cases p) (auto simp: pages_ok_def intro: exI [of _ "[]"] exI [of _ "[the p]"])
  show ?thesis
    using assms sort_pages_ok [OF assms, of "ap_id ap"] single by (simp add: setPages_def)
qed

section \<open>The slice invariant\<close>

definition page_coherent :: "'m NetworkMessagesState \<Rightarrow> bool" where
  "page_coherent s =
    (let ap = ms_activePage s; msgs = ms_messages s in
     (ap_id ap = None \<and> ap_start ap = None \<and> ap_end ap = None \<and> ap_numberOfRecords ap = None)
     \<or> (msgs \<noteq> [] \<and> ap_id ap = Some (nm_id (last msgs)) \<and> ap_start ap = Some (hd msgs)
        \<and> ap_end ap = Some (last msgs) \<and> ap_numberOfRecords ap = Some (length msgs)))"

definition messages_inv :: "'m NetworkMessagesState \<Rightarrow> bool" where
  "messages_inv s \<longleftrightarrow> page_coherent s \<and> pages_ok (ms_pages s) \<and> ms_limit s = 1000"

lemma toggle_filter_inv: "messages_inv s \<Longrightarrow> messages_inv (toggle_filter s p)"
  by (auto simp: messages_inv_def page_coherent_def toggle_filter_def empty_page_def pages_ok_def)

lemma pages_ok_Nil [simp]: "pages_ok []"
  by (simp add: pages_ok_def)

lemma initial_messages_inv: "messages_inv initialState_messages"
  by (simp add: messages_inv_def page_coherent_def initialState_messages_def empty_page_def)

lemma success_inv:
  "messages_inv s \<Longrightarrow> messages_inv (networkMessagesReducer s (NETWORK_GET_MESSAGES_SUCCESS ms))"
  using setPages_ok [of s "setActivePage ms s"]
  by (simp add: messages_inv_def page_coherent_def setActivePage_def empty_page_def)

lemma messages_step_inv: "messages_inv s \<Longrightarrow> messages_inv (networkMessagesReducer s a)"
proof (cases a)
  case (NETWORK_GET_MESSAGES_SUCCESS ms)
  assume "messages_inv s"
  then show ?thesis unfolding NETWORK_GET_MESSAGES_SUCCESS by (rule success_inv)
qed (simp_all add: toggle_filter_inv initial_messages_inv,
     simp_all add: messages_inv_def page_coherent_def empty_page_def)

interpretation messages: slice initialState_messages networkMessagesReducer messages_inv "\<lambda>_. True"
  by unfold_locales (rule initial_messages_inv, rule messages_step_inv)

section \<open>How often a filter is active\<close>

text \<open>The requests of a run that add filters, and how often a value is among the filters of a list.\<close>

fun adding :: "'m NetworkMessagesActions \<Rightarrow> filter_request list" where
  "adding (NETWORK_TOGGLE_FILTER p) = (if fr_add p then [p] else [])"
| "adding (NETWORK_GET_SPECIFIC_MESSAGE _ p) = (if fr_add p then [p] else [])"
| "adding _ = []"

definition occurrences :: "NetworkMessagesFilter list \<Rightarrow> filter_value \<Rightarrow> nat" where
  "occurrences fs v = length (filter (\<lambda>f. nf_value f = v) fs)"

lemma occurrences_0: "occurrences fs v = 0 \<longleftrightarrow> v \<notin> nf_value ` set fs"
  by (auto simp: occurrences_def filter_empty_conv)

lemma occurrences_distinct: "(\<And>v. occurrences fs v \<le> 1) \<Longrightarrow> distinct (map nf_value fs)"
proof (induction fs)
  case (Cons f fs)
  have "occurrences fs (nf_value f) = 0" using Cons.prems [of "nf_value f"] by (simp add: occurrences_def)
  moreover have "occurrences fs v \<le> 1" for v
    using Cons.prems [of v] by (simp add: occurrences_def split: if_splits)
  ultimately show ?case using Cons.IH by (simp add: occurrences_0)
qed simp

lemma distinct_occurrences: "distinct (map nf_value fs) \<Longrightarrow> occurrences fs v \<le> 1"
  by (induction fs) (auto simp: occurrences_def filter_empty_conv image_iff)

lemma occurrences_new:
  "occurrences (new_filters s p) v =
    (if fr_add p then if occurrences (ms_activeFilters s) v = 0 then occurrences (fr_filters p) v
                      else occurrences (ms_activeFilters s) v
     else if occurrences (fr_filters p) v = 0 then occurrences (ms_activeFilters s) v else 0)"
proof -
  have drop: "filter (\<lambda>f. (\<forall>g\<in>set gs. nf_value g \<noteq> nf_value f) \<and> nf_value f = v) fs
      = (if v \<in> nf_value ` set gs then [] else filter (\<lambda>f. nf_value f = v) fs)" for fs gs
    by (induction fs) auto
  show ?thesis using occurrences_0 [of "ms_activeFilters s" v] occurrences_0 [of "fr_filters p" v]
    by (simp add: occurrences_def new_filters_def list_ex_iff same_value_def drop)
qed

text \<open>A value that is active is active as often as some request that added filters named it.\<close>

lemma active_from_request:
  "v \<in> nf_value ` set (ms_activeFilters (foldl networkMessagesReducer initialState_messages as)) \<Longrightarrow>
   \<exists>p \<in> set (concat (map adding as)).
     occurrences (ms_activeFilters (foldl networkMessagesReducer initialState_messages as)) v = occurrences (fr_filters p) v"
proof (induction as rule: rev_induct)
  case (snoc a as)
  let ?s = "foldl networkMessagesReducer initialState_messages as"
  let ?after = "ms_activeFilters (networkMessagesReducer ?s a)"
  have pos: "occurrences ?after v \<noteq> 0" using snoc.prems by (simp add: occurrences_0)
  then have "occurrences ?after v = occurrences (ms_activeFilters ?s) v \<and> occurrences (ms_activeFilters ?s) v \<noteq> 0
      \<or> (\<exists>p \<in> set (adding a). occurrences ?after v = occurrences (fr_filters p) v)"
    by (cases a) (simp_all add: toggle_filter_def initialState_messages_def occurrences_new occurrences_def [of "[]"] split: if_splits)
  then show ?case
  proof (elim disjE conjE)
    assume old: "occurrences ?after v = occurrences (ms_activeFilters ?s) v" "occurrences (ms_activeFilters ?s) v \<noteq> 0"
    then show ?thesis using snoc.IH by (auto simp: occurrences_0)
  qed auto
qed (simp add: initialState_messages_def)

lemma active_distinct:
  assumes "list_all (\<lambda>p. distinct (map nf_value (fr_filters p))) (concat (map adding as))"
  shows "distinct (map nf_value (ms_activeFilters (foldl networkMessagesReducer initialState_messages as)))"
proof (rule occurrences_distinct)
  fix v
  let ?fs = "ms_activeFilters (foldl networkMessagesReducer initialState_messages as)"
  show "occurrences ?fs v \<le> 1"
  proof (cases "occurrences ?fs v = 0")
    case False
    then obtain p where "p \<in> set (concat (map adding as))" "occurrences ?fs v = occurrences (fr_filters p) v"
      using active_from_request [of v as] by (auto simp: occurrences_0)
    then show ?thesis using assms distinct_occurrences [of "fr_filters p" v] by (auto simp: list_all_iff)
  qed simp
qed

text \<open>
  C17: in every state the messages page reaches, whatever it dispatches, the page markers are those of
  the messages shown (its id is the id of the last message, its bounds the first and last message, its
  count their number), or cleared; the known pages are strictly increasing with at most an undefined
  entry at the end; and a filter value that is active is active exactly as often as one request that
  added filters named it, hence once if no request names a value twice. The filters of a request are
  defined ones.
\<close>

theorem messages_reachable:
  "let s = foldl networkMessagesReducer initialState_messages as in
    page_coherent s \<and> ms_limit s = 1000
    \<and> (\<exists>ns. sorted_wrt (<) ns \<and> (ms_pages s = map Some ns \<or> ms_pages s = map Some ns @ [None]))
    \<and> (\<forall>v \<in> nf_value ` set (ms_activeFilters s). \<exists>p \<in> set (concat (map adding as)).
         occurrences (ms_activeFilters s) v = occurrences (fr_filters p) v)
    \<and> (list_all (\<lambda>p. distinct (map nf_value (fr_filters p))) (concat (map adding as))
         \<longrightarrow> distinct (map nf_value (ms_activeFilters s)))"
  using messages.foldl_inv [of as] active_from_request [of _ as] active_distinct [of as]
  unfolding Let_def by (simp add: messages_inv_def pages_ok_def list_all_iff)

definition sample_message :: "int \<Rightarrow> NetworkMessage" where
  "sample_message i = \<lparr>nm_id = i, nm_connectionId = 0, nm_address = [], nm_size = 0, nm_incoming = [],
     nm_timestamp = [], nm_streamKind = [], nm_messageKind = KindName [], nm_failedToDecryptPercentage = None\<rparr>"

definition sample_filter :: NetworkMessagesFilter where
  "sample_filter = \<lparr>nf_type = ADDRESS, nf_display = ''a'', nf_value = FStr ''a'', nf_tooltip = None\<rparr>"

definition sample_run :: "unit NetworkMessagesActions list" where
  "sample_run = [NETWORK_INIT,
     NETWORK_TOGGLE_FILTER \<lparr>fr_filters = [sample_filter], fr_add = True, fr_timestamp = None, fr_direction = None\<rparr>,
     NETWORK_GET_MESSAGES_SUCCESS [sample_message 3, sample_message 9],
     NETWORK_GET_MESSAGES_SUCCESS [sample_message 1, sample_message 2], NETWORK_GET_MESSAGES_SUCCESS []]"

theorem messages_reachable_witness:
  "let s = foldl networkMessagesReducer initialState_messages sample_run
   in ms_pages s = [Some 2, Some 9, None] \<and> ms_activeFilters s = [sample_filter]
    \<and> (\<exists>ns. sorted_wrt (<) ns \<and> (ms_pages s = map Some ns \<or> ms_pages s = map Some ns @ [None]))
    \<and> distinct (map nf_value (ms_activeFilters s))"
proof -
  have "list_all (\<lambda>p. distinct (map nf_value (fr_filters p))) (concat (map adding sample_run))"
    by (simp add: sample_run_def)
  then have "distinct (map nf_value (ms_activeFilters (foldl networkMessagesReducer initialState_messages sample_run)))"
    and "\<exists>ns. sorted_wrt (<) ns \<and> (ms_pages (foldl networkMessagesReducer initialState_messages sample_run) = map Some ns
      \<or> ms_pages (foldl networkMessagesReducer initialState_messages sample_run) = map Some ns @ [None])"
    using messages_reachable [of sample_run] unfolding Let_def by blast+
  moreover have "ms_pages (foldl networkMessagesReducer initialState_messages sample_run) = [Some 2, Some 9, None]"
    "ms_activeFilters (foldl networkMessagesReducer initialState_messages sample_run) = [sample_filter]"
    by (simp_all add: sample_run_def initialState_messages_def setActivePage_def setPages_def sort_pages_def sample_message_def
        lastItem_last empty_page_def List.map_filter_def toggle_filter_def new_filters_def)
  ultimately show ?thesis unfolding Let_def by blast
qed

text \<open>
  a filter request that asks for the forward direction (a link with a start time and filters)
  is answered with the reverse direction: any given direction counts as true and selects REVERSE.
\<close>

theorem toggle_filter_forces_reverse:
  assumes "fr_direction payload = Some d"
  shows "ms_direction (networkMessagesReducer state (NETWORK_TOGGLE_FILTER payload)) = Some REVERSE
    \<and> ms_direction (networkMessagesReducer state (NETWORK_GET_SPECIFIC_MESSAGE i payload)) = Some REVERSE"
  using assms by (simp add: toggle_filter_def)

theorem toggle_filter_forces_reverse_witness:
  "ms_direction (networkMessagesReducer (initialState_messages :: unit NetworkMessagesState)
     (NETWORK_TOGGLE_FILTER \<lparr>fr_filters = [], fr_add = True, fr_timestamp = None,
        fr_direction = Some FORWARD\<rparr>)) = Some REVERSE"
  using toggle_filter_forces_reverse [of "\<lparr>fr_filters = [], fr_add = True, fr_timestamp = None,
        fr_direction = Some FORWARD\<rparr>" FORWARD "initialState_messages :: unit NetworkMessagesState"]
  by simp

end
