(* ===== verification/MessagesService.thy ===== *)
theory MessagesService
  imports NetworkMessages
begin

text \<open>
  The debugger service, the paging buttons and the effects of the network messages page
  (\<open>network-messages.service.ts\<close>, \<open>network-messages-table-footer.component.ts\<close>,
  \<open>network-messages.effects.ts\<close>). The effects are a machine over the class's flags and its requests
  in flight; an action reaches them after the reducer has run.
\<close>

section \<open>Service\<close>

record message_query =
  q_limit :: int
  q_id :: "int option"
  q_direction :: "NetworkMessagesDirection option"
  q_filters :: "NetworkMessagesFilter list"
  q_from :: "int option"
  q_to :: "int option"

fun direction_text :: "NetworkMessagesDirection option \<Rightarrow> string" where
  "direction_text (Some FORWARD) = ''forward''"
| "direction_text (Some REVERSE) = ''reverse''"
| "direction_text None = ''undefined''"

fun filter_type_text :: "NetworkMessagesFilterTypes \<Rightarrow> string" where
  "filter_type_text STREAM_KIND = ''stream_kind''"
| "filter_type_text MESSAGE_KIND = ''message_kind''"
| "filter_type_text ADDRESS = ''addr''"

fun filter_value_text :: "filter_value \<Rightarrow> string" where
  "filter_value_text (FStr s) = s"
| "filter_value_text (FNum i) = int_to_string i"

definition filter_params :: "NetworkMessagesFilter list \<Rightarrow> string" where
  "filter_params fs = concat (map (\<lambda>t.
     if list_ex (\<lambda>f. nf_type f = t) fs
     then ''&'' @ filter_type_text t @ ''=''
       @ js_join '','' (map (\<lambda>f. filter_value_text (nf_value f)) (filter (\<lambda>f. nf_type f = t) fs))
     else []) [STREAM_KIND, MESSAGE_KIND, ADDRESS])"

definition opt_param :: "string \<Rightarrow> int option \<Rightarrow> string" where
  "opt_param key v = (case v of Some i \<Rightarrow> if i \<noteq> 0 then key @ int_to_string i else [] | None \<Rightarrow> [])"

definition getNetworkMessages_url :: "string \<Rightarrow> message_query \<Rightarrow> string" where
  "getNetworkMessages_url debugger q =
    debugger @ ''/messages?limit='' @ int_to_string (q_limit q) @ ''&direction='' @ direction_text (q_direction q)
    @ opt_param ''&id='' (q_id q) @ opt_param ''&timestamp='' (q_from q)
    @ opt_param ''&timestamp_limit='' (q_to q) @ filter_params (q_filters q)"

record raw_message =
  rm_id :: int
  rm_secs :: int
  rm_nanos :: int
  rm_incoming :: bool
  rm_connection_id :: int
  rm_remote_addr :: string
  rm_size :: int
  rm_stream_kind :: string
  rm_message :: message_kind

fun getFailedToDecryptPercentage :: "message_kind \<Rightarrow> rat option" where
  "getFailedToDecryptPercentage (KindReport total_failed total_decrypted) =
     (if total_failed \<noteq> 0
      then Some (js_toFixed 1 (of_nat (100 * total_failed) / of_nat (total_decrypted + total_failed)))
      else None)"
| "getFailedToDecryptPercentage (KindName _) = None"

definition map_message :: "(rat \<Rightarrow> string) \<Rightarrow> raw_message \<Rightarrow> NetworkMessage" where
  "map_message toReadableDate m =
    \<lparr>nm_id = rm_id m, nm_connectionId = rm_connection_id m, nm_address = rm_remote_addr m,
     nm_size = rm_size m, nm_incoming = (if rm_incoming m then ''Incoming'' else ''Outgoing''),
     nm_timestamp = toReadableDate (of_int (rm_secs m) * 1000 + of_int (rm_nanos m) / 1000000),
     nm_streamKind = rm_stream_kind m, nm_messageKind = rm_message m,
     nm_failedToDecryptPercentage = getFailedToDecryptPercentage (rm_message m)\<rparr>"

definition mapNetworkMessageResponse ::
  "(rat \<Rightarrow> string) \<Rightarrow> raw_message list \<Rightarrow> NetworkMessagesDirection option \<Rightarrow> NetworkMessage list" where
  "mapNetworkMessageResponse toReadableDate messages direction =
    map (map_message toReadableDate) (if direction = Some REVERSE then rev messages else messages)"

text \<open>
  The full message is read through the events of the request; more than 10 MiB announced ends the
  stream with the size as the error text. Every other event emits \<open>undefined\<close>.
\<close>

datatype 'm http_event = DownloadProgress "nat option" | HttpResponse 'm | OtherEvent

fun getNetworkFullMessage :: "'m http_event list \<Rightarrow> 'm full_message option list" where
  "getNetworkFullMessage [] = []"
| "getNetworkFullMessage (DownloadProgress tot # es) =
     (case tot of
        Some t \<Rightarrow> if t > 10485760 then [Some (ErrText (nat_to_string t))] else None # getNetworkFullMessage es
      | None \<Rightarrow> None # getNetworkFullMessage es)"
| "getNetworkFullMessage (HttpResponse m # es) = Some (Body m) # getNetworkFullMessage es"
| "getNetworkFullMessage (OtherEvent # es) = None # getNetworkFullMessage es"

record raw_connection =
  rc_addr :: string
  rc_pid :: int
  rc_fd :: int
  rc_incoming :: bool
  rc_secs :: int

definition mapNetworkConnectionResponse :: "(rat \<Rightarrow> string) \<Rightarrow> raw_connection \<Rightarrow> NetworkMessageConnection" where
  "mapNetworkConnectionResponse toReadableDate c =
    \<lparr>nc_address = rc_addr c, nc_pid = rc_pid c, nc_fd = rc_fd c, nc_incoming = rc_incoming c,
     nc_timestamp = toReadableDate (of_int (rc_secs c) * 1000)\<rparr>"

section \<open>The paging buttons\<close>

text \<open>The component keeps the interval in force, \<open>currentTimestamp\<close>.\<close>

definition previousPage :: "'m NetworkMessagesState \<Rightarrow> TimestampInterval option \<Rightarrow> page_request result" where
  "previousPage state currentTimestamp =
    (case ap_start (ms_activePage state) of
       None \<Rightarrow> Inl (TypeError ''id'')
     | Some start \<Rightarrow> Inr (case currentTimestamp of
          Some t \<Rightarrow> \<lparr>pr_id = Some (nm_id start - ms_limit state), pr_direction = Some FORWARD,
             pr_timestamp = Some \<lparr>ti_from = None, ti_to = ti_to t\<rparr>\<rparr>
        | None \<Rightarrow> \<lparr>pr_id = Some (nm_id start - 1), pr_direction = Some REVERSE, pr_timestamp = None\<rparr>))"

definition nextPage :: "'m NetworkMessagesState \<Rightarrow> TimestampInterval option \<Rightarrow> page_request result" where
  "nextPage state currentTimestamp =
    (case ap_end (ms_activePage state) of
       None \<Rightarrow> Inl (TypeError ''id'')
     | Some e \<Rightarrow> Inr \<lparr>pr_id = Some (nm_id e + 1), pr_direction = Some FORWARD,
          pr_timestamp = map_option (\<lambda>t. \<lparr>ti_from = None, ti_to = ti_to t\<rparr>) currentTimestamp\<rparr>)"

definition firstPage :: "'m NetworkMessagesState \<Rightarrow> TimestampInterval option \<Rightarrow> page_request" where
  "firstPage state currentTimestamp =
    (case currentTimestamp of
       Some t \<Rightarrow> \<lparr>pr_id = js_id (ap_firstPageIdWithTimestamp (ms_activePage state)),
          pr_direction = Some FORWARD, pr_timestamp = Some \<lparr>ti_from = None, ti_to = ti_to t\<rparr>\<rparr>
     | None \<Rightarrow> \<lparr>pr_id = Some 0, pr_direction = Some FORWARD, pr_timestamp = None\<rparr>)"

definition lastPage :: "'m NetworkMessagesState \<Rightarrow> TimestampInterval option \<Rightarrow> page_request" where
  "lastPage state currentTimestamp =
    (case currentTimestamp of
       Some t \<Rightarrow> \<lparr>pr_id = None, pr_direction = Some REVERSE,
          pr_timestamp = Some \<lparr>ti_from = ti_to t, ti_to = ti_from t\<rparr>\<rparr>
     | None \<Rightarrow> \<lparr>pr_id = Option.bind (lastItem (ms_pages state)) id, pr_direction = Some REVERSE,
          pr_timestamp = None\<rparr>)"

section \<open>Effects\<close>

record message_effects =
  fx_streamActive :: bool
  fx_waitingForServer :: bool
  fx_timer :: bool
  fx_messages :: "message_query option"
  fx_specific :: "(int \<times> message_query \<times> message_query) option"
  fx_full :: "int list"
  fx_hex :: "int option"
  fx_connection :: "int option"

definition effects_start :: message_effects where
  "effects_start = \<lparr>fx_streamActive = False, fx_waitingForServer = False, fx_timer = False,
     fx_messages = None, fx_specific = None, fx_full = [], fx_hex = None, fx_connection = None\<rparr>"

text \<open>The query of \<open>getMessages$\<close>: id and interval come from the action's payload.\<close>

definition query_of :: "'m NetworkMessagesState \<Rightarrow> int option \<Rightarrow> TimestampInterval option \<Rightarrow> message_query" where
  "query_of state i ts = \<lparr>q_limit = ms_limit state, q_id = i, q_direction = ms_direction state,
     q_filters = ms_activeFilters state, q_from = Option.bind ts ti_from, q_to = Option.bind ts ti_to\<rparr>"

fun messages_query :: "'m NetworkMessagesState \<Rightarrow> 'm NetworkMessagesActions \<Rightarrow> message_query option" where
  "messages_query state NETWORK_GET_MESSAGES = Some (query_of state None None)"
| "messages_query state NETWORK_GO_LIVE = Some (query_of state None None)"
| "messages_query state (NETWORK_GET_PAGINATED_MESSAGES p) = Some (query_of state (pr_id p) (pr_timestamp p))"
| "messages_query state (NETWORK_TOGGLE_FILTER p) = Some (query_of state None (fr_timestamp p))"
| "messages_query state (NETWORK_SET_TIMESTAMP_INTERVAL ts _) = Some (query_of state None (Some ts))"
| "messages_query state _ = None"

text \<open>The two queries of \<open>getSpecificMessage$\<close>; the limit of the slice is even.\<close>

definition specific_query ::
  "'m NetworkMessagesState \<Rightarrow> int \<Rightarrow> int \<Rightarrow> NetworkMessagesDirection \<Rightarrow> message_query" where
  "specific_query state limit i dir = \<lparr>q_limit = limit, q_id = Some i, q_direction = Some dir,
     q_filters = ms_activeFilters state, q_from = None, q_to = ti_to (ms_timestamp state)\<rparr>"

text \<open>
  The switch of \<open>setActiveRow$\<close>, on the members it reads of its argument, and what the argument is:
  the pair of action and state, which has none of these members.
\<close>

record 'm row_view =
  rv_activeTab :: "int option"
  rv_activeRow :: "NetworkMessage option"
  rv_full :: "'m full_message option"
  rv_hex :: "string option"
  rv_connection :: "(string + NetworkMessageConnection) option"

definition view_of_pair :: "'m row_view" where
  "view_of_pair = \<lparr>rv_activeTab = None, rv_activeRow = None, rv_full = None, rv_hex = None, rv_connection = None\<rparr>"

definition view_of_slice :: "'m NetworkMessagesState \<Rightarrow> 'm row_view" where
  "view_of_slice s = \<lparr>rv_activeTab = Some (ms_activeTab s), rv_activeRow = ms_activeRow s,
     rv_full = ms_activeRowFullMessage s, rv_hex = ms_activeRowHex s, rv_connection = ms_connection s\<rparr>"

definition row_member :: "(NetworkMessage \<Rightarrow> int) \<Rightarrow> 'm row_view \<Rightarrow> (int \<Rightarrow> 'm NetworkMessagesActions)
    \<Rightarrow> 'm NetworkMessagesActions list result" where
  "row_member f v act = (case rv_activeRow v of None \<Rightarrow> Inl (TypeError ''activeRow'') | Some r \<Rightarrow> Inr [act (f r)])"

definition row_request :: "'m row_view \<Rightarrow> 'm NetworkMessagesActions list result" where
  "row_request v =
    (if rv_activeTab v = Some 1 then
       (if rv_full v \<noteq> None \<and> rv_full v \<noteq> Some (ErrText []) then Inr [] else row_member nm_id v NETWORK_GET_FULL_MESSAGE)
     else if rv_activeTab v = Some 2 then
       (if rv_hex v \<noteq> None \<and> rv_hex v \<noteq> Some [] then Inr [] else row_member nm_id v NETWORK_GET_MESSAGE_HEX)
     else if rv_connection v \<noteq> None then Inr []
     else row_member nm_connectionId v NETWORK_GET_CONNECTION)"

definition setActiveRow_effect :: "'m NetworkMessagesState \<Rightarrow> 'm NetworkMessagesActions list result" where
  "setActiveRow_effect state = (if ms_activeRow state = None then Inr [] else row_request view_of_pair)"

text \<open>
  The reaction of the effect class to an action, given the slice after the reducer. What an effect
  that throws emits is nothing.
\<close>

definition start_messages :: "'m NetworkMessagesState \<Rightarrow> message_query \<Rightarrow> message_effects \<Rightarrow> message_effects" where
  "start_messages state q e = e\<lparr>fx_streamActive := ms_stream state, fx_waitingForServer := True, fx_messages := Some q\<rparr>"

fun on_action ::
  "'m NetworkMessagesState \<Rightarrow> 'm NetworkMessagesActions \<Rightarrow> message_effects
    \<Rightarrow> message_effects \<times> 'm NetworkMessagesActions list" where
  "on_action state NETWORK_INIT e = (e\<lparr>fx_streamActive := ms_stream state, fx_timer := True\<rparr>, [])"
| "on_action state NETWORK_GO_LIVE e =
     ((start_messages state (query_of state None None) e)\<lparr>fx_streamActive := True\<rparr>, [])"
| "on_action state (NETWORK_GET_PAGINATED_MESSAGES p) e =
     ((start_messages state (query_of state (pr_id p) (pr_timestamp p)) e)\<lparr>fx_streamActive := False\<rparr>, [])"
| "on_action state (NETWORK_GET_SPECIFIC_MESSAGE i p) e =
     (e\<lparr>fx_streamActive := ms_stream state,
        fx_specific := Some (i, specific_query state (ms_limit state div 2) i REVERSE,
          specific_query state (ms_limit state div 2 + 1) i FORWARD)\<rparr>, [])"
| "on_action state (NETWORK_SET_ACTIVE_ROW _) e =
     (e, case setActiveRow_effect state of Inl _ \<Rightarrow> [] | Inr as \<Rightarrow> as)"
| "on_action state (NETWORK_CHANGE_TAB _) e =
     (e, case setActiveRow_effect state of Inl _ \<Rightarrow> [] | Inr as \<Rightarrow> as)"
| "on_action state (NETWORK_GET_FULL_MESSAGE i) e = (e\<lparr>fx_full := fx_full e @ [i]\<rparr>, [])"
| "on_action state (NETWORK_GET_MESSAGE_HEX i) e = (e\<lparr>fx_hex := Some i\<rparr>, [])"
| "on_action state (NETWORK_GET_CONNECTION i) e = (e\<lparr>fx_connection := Some i\<rparr>, [])"
| "on_action state NETWORK_PAUSE e = (e\<lparr>fx_streamActive := False\<rparr>, [])"
| "on_action state NETWORK_CLOSE e = (e\<lparr>fx_streamActive := False, fx_timer := False\<rparr>, [])"
| "on_action state a e = (case messages_query state a of Some q \<Rightarrow> (start_messages state q e, []) | None \<Rightarrow> (e, []))"

text \<open>The answers of the service, and the timer.\<close>

datatype 'm message_answer =
  MessagesReply "raw_message list"
| MessagesFail http_error
| SpecificReply "raw_message list" "raw_message list"
| SpecificFail http_error
| FullReply "'m full_message option"
| HexReply string
| HexFail http_error
| ConnectionReply raw_connection
| ConnectionFail http_error
| TimerTick

definition specific_messages :: "(rat \<Rightarrow> string) \<Rightarrow> raw_message list \<Rightarrow> raw_message list \<Rightarrow> NetworkMessage list" where
  "specific_messages fmt before after =
    mapNetworkMessageResponse fmt before (Some REVERSE)
    @ js_slice_from 1 (mapNetworkMessageResponse fmt after (Some FORWARD))"

fun on_answer ::
  "(rat \<Rightarrow> string) \<Rightarrow> (int \<Rightarrow> string \<Rightarrow> string) \<Rightarrow> int \<Rightarrow> message_effects \<Rightarrow> 'm message_answer
    \<Rightarrow> message_effects \<times> (ErrorPreviewActions + 'm NetworkMessagesActions) list" where
  "on_answer fmt rd now e (MessagesReply ms) =
     (case fx_messages e of None \<Rightarrow> (e, [])
      | Some q \<Rightarrow> (e\<lparr>fx_waitingForServer := False, fx_messages := None\<rparr>,
          [Inr (NETWORK_GET_MESSAGES_SUCCESS (mapNetworkMessageResponse fmt ms (q_direction q)))]))"
| "on_answer fmt rd now e (MessagesFail err) =
     (case fx_messages e of None \<Rightarrow> (e, [])
      | Some q \<Rightarrow> (e\<lparr>fx_messages := None\<rparr>,
          catchErrorAndRepeat rd now DEBUGGER (NETWORK_GET_MESSAGES_SUCCESS []) err))"
| "on_answer fmt rd now e (SpecificReply before after) =
     (case fx_specific e of None \<Rightarrow> (e, [])
      | Some (i, _, _) \<Rightarrow> (let messages = specific_messages fmt before after in
          (e\<lparr>fx_specific := None\<rparr>,
           [Inr (NETWORK_GET_MESSAGES_SUCCESS messages),
            Inr (NETWORK_SET_ACTIVE_ROW (List.find (\<lambda>m. nm_id m = i) messages))])))"
| "on_answer fmt rd now e (SpecificFail err) =
     (case fx_specific e of None \<Rightarrow> (e, [])
      | Some _ \<Rightarrow> (e\<lparr>fx_specific := None\<rparr>,
          catchErrorAndRepeat rd now DEBUGGER (NETWORK_SET_ACTIVE_ROW None) err))"
| "on_answer fmt rd now e (FullReply m) =
     (if fx_full e = [] then (e, []) else (e, [Inr (NETWORK_GET_FULL_MESSAGE_SUCCESS m)]))"
| "on_answer fmt rd now e (HexReply h) =
     (case fx_hex e of None \<Rightarrow> (e, []) | Some _ \<Rightarrow> (e\<lparr>fx_hex := None\<rparr>, [Inr (NETWORK_GET_MESSAGE_HEX_SUCCESS h)]))"
| "on_answer fmt rd now e (HexFail err) =
     (case fx_hex e of None \<Rightarrow> (e, [])
      | Some _ \<Rightarrow> (e\<lparr>fx_hex := None\<rparr>,
          catchErrorAndRepeat rd now DEBUGGER (NETWORK_GET_MESSAGE_HEX_SUCCESS ''Error fetching hex'') err))"
| "on_answer fmt rd now e (ConnectionReply c) =
     (case fx_connection e of None \<Rightarrow> (e, [])
      | Some _ \<Rightarrow> (e\<lparr>fx_connection := None\<rparr>,
          [Inr (NETWORK_GET_CONNECTION_SUCCESS (Inr (mapNetworkConnectionResponse fmt c)))]))"
| "on_answer fmt rd now e (ConnectionFail err) =
     (case fx_connection e of None \<Rightarrow> (e, [])
      | Some _ \<Rightarrow> (e\<lparr>fx_connection := None\<rparr>,
          catchErrorAndRepeat rd now DEBUGGER (NETWORK_GET_CONNECTION_SUCCESS (Inl ''Error fetching connection'')) err))"
| "on_answer fmt rd now e TimerTick =
     (e, if fx_timer e \<and> fx_streamActive e \<and> \<not> fx_waitingForServer e then [Inr NETWORK_GET_MESSAGES] else [])"

section \<open>Correctness\<close>

subsection \<open>The polling timer after an error\<close>

definition poll_blocked :: "message_effects \<Rightarrow> bool" where
  "poll_blocked e \<longleftrightarrow> fx_waitingForServer e \<and> fx_messages e = None"

interpretation messages_poll: blocked_effect "on_answer fmt rd now" poll_blocked "\<lambda>_. True"
    "\<lambda>out. out = Inr NETWORK_GET_MESSAGES" for fmt rd now
proof unfold_locales
  fix e and a :: "'m message_answer" and out
  assume b: "poll_blocked e"
  show "poll_blocked (fst (on_answer fmt rd now e a))"
    using b by (cases a) (auto simp: poll_blocked_def split: option.splits prod.splits)
  show "out \<noteq> Inr NETWORK_GET_MESSAGES" if "out \<in> set (snd (on_answer fmt rd now e a))"
    using b that by (cases a) (auto simp: poll_blocked_def catchErrorAndRepeat_def split: option.splits prod.splits if_splits)
qed

text \<open>
  C18: when the request for messages fails, the page stops polling: the flag that a request is
  pending is reset only on a reply, so from then on no tick of the timer, and no answer of the
  service, makes the page ask for messages again.
\<close>

theorem messages_poll_stops_after_error:
  assumes "fx_messages e = Some q" "fx_waitingForServer e"
  shows "Inr NETWORK_GET_MESSAGES \<notin>
    set (snd (run_effect (on_answer fmt rd now) (fst (on_answer fmt rd now e (MessagesFail err))) as))"
  using messages_poll.run_blocked [of "fst (on_answer fmt rd now e (MessagesFail err))" as fmt rd now] assms
  by (auto simp: poll_blocked_def list_all_iff)

theorem messages_poll_stops_after_error_witness:
  "let e = fst (on_action (networkMessagesReducer (initialState_messages :: unit NetworkMessagesState) NETWORK_GO_LIVE)
       NETWORK_GO_LIVE (effects_start\<lparr>fx_timer := True\<rparr>))
   in fx_streamActive e \<and> fx_timer e \<and> Inr NETWORK_GET_MESSAGES \<notin>
     set (snd (run_effect (on_answer (\<lambda>_. []) (\<lambda>_ f. f) 0)
       (fst (on_answer (\<lambda>_. []) (\<lambda>_ f. f) 0 e (MessagesFail (plain_error ''x''))))
       [TimerTick, TimerTick :: unit message_answer]))"
proof -
  let ?e = "fst (on_action (networkMessagesReducer (initialState_messages :: unit NetworkMessagesState) NETWORK_GO_LIVE)
       NETWORK_GO_LIVE (effects_start\<lparr>fx_timer := True\<rparr>))"
  have "fx_messages ?e \<noteq> None" "fx_waitingForServer ?e" "fx_streamActive ?e" "fx_timer ?e"
    by (simp_all add: start_messages_def effects_start_def)
  then show ?thesis unfolding Let_def
    using messages_poll_stops_after_error [of ?e, where as = "[TimerTick, TimerTick :: unit message_answer]"] by auto
qed

subsection \<open>The details of the selected message\<close>

text \<open>
  selecting a message, or changing the tab while one is selected, never loads its details: the
  effect reads the tab and the row from the pair of action and state instead of the slice and
  throws, where the same switch on the slice would ask for the full message, the hex or the
  connection.
\<close>

theorem setActiveRow_always_throws:
  assumes "ms_activeRow state = Some row"
  shows "setActiveRow_effect state = Inl (TypeError ''activeRow'')
    \<and> (\<exists>as. row_request (view_of_slice state) = Inr as)
    \<and> snd (on_action state (NETWORK_CHANGE_TAB t) e) = []"
  using assms by (simp add: setActiveRow_effect_def row_request_def view_of_pair_def view_of_slice_def row_member_def)

theorem setActiveRow_always_throws_witness:
  "let s = networkMessagesReducer (initialState_messages :: unit NetworkMessagesState)
      (NETWORK_SET_ACTIVE_ROW (Some (sample_message 5)))
   in setActiveRow_effect s = Inl (TypeError ''activeRow'')
    \<and> row_request (view_of_slice s) = Inr [NETWORK_GET_FULL_MESSAGE 5]"
proof -
  let ?s = "networkMessagesReducer (initialState_messages :: unit NetworkMessagesState)
      (NETWORK_SET_ACTIVE_ROW (Some (sample_message 5)))"
  have "row_request (view_of_slice ?s) = Inr [NETWORK_GET_FULL_MESSAGE 5]"
    by (simp add: row_request_def view_of_slice_def row_member_def initialState_messages_def sample_message_def)
  then show ?thesis using setActiveRow_always_throws [of ?s "sample_message 5"] unfolding Let_def by simp
qed

subsection \<open>Jumping to a message\<close>

lemma nm_id_map_message [simp]: "nm_id (map_message fmt m) = rm_id m"
  by (simp add: map_message_def)

lemma map_id_mapNetworkMessageResponse:
  "map nm_id (mapNetworkMessageResponse fmt ms d) = map rm_id (if d = Some REVERSE then rev ms else ms)"
  by (simp add: mapNetworkMessageResponse_def)

lemma find_id_mem: "i \<in> nm_id ` set ms \<Longrightarrow> \<exists>m. List.find (\<lambda>m. nm_id m = i) ms = Some m \<and> nm_id m = i"
  by (induction ms) auto

text \<open>
  jumping to a message merges the half page before it and the half page after it into one page
  in increasing order of id without repeating the message, and selects exactly that message,
  provided the debugger answers a reverse query downwards from the id and a forward query upwards
  from it.
\<close>

theorem specific_message_page:
  assumes "sorted_wrt (>) (map rm_id before)" "before \<noteq> []" "rm_id (hd before) = i"
    and "sorted_wrt (<) (map rm_id after)" "after \<noteq> []" "rm_id (hd after) = i"
    and "fx_specific e = Some (i, q1, q2)"
  shows "\<exists>msgs row. snd (on_answer fmt rd now e (SpecificReply before after))
      = [Inr (NETWORK_GET_MESSAGES_SUCCESS msgs), Inr (NETWORK_SET_ACTIVE_ROW (Some row))]
    \<and> nm_id row = i \<and> sorted_wrt (<) (map nm_id msgs)
    \<and> length msgs = length before + length after - 1"
proof -
  obtain b bs where b: "before = b # bs" using assms(2) by (cases before) auto
  obtain a as where a: "after = a # as" using assms(5) by (cases after) auto
  let ?msgs = "specific_messages fmt before after"
  have one: "js_slice_from 1 (x # xs) = xs" for x :: NetworkMessage and xs
    using js_slice_from_nat [of 1 "x # xs"] by simp
  have ids: "map nm_id ?msgs = map rm_id (rev before) @ map rm_id as"
    by (simp add: specific_messages_def mapNetworkMessageResponse_def a one comp_def)
  have up: "sorted_wrt (<) (map rm_id (rev before))"
    using assms(1) unfolding rev_map [symmetric] sorted_wrt_rev by simp
  have le: "x \<le> i" if "x \<in> set (map rm_id before)" for x
    using that assms(1,3) b by auto
  have gt: "i < y" if "y \<in> set (map rm_id as)" for y
    using that assms(4,6) a by auto
  have "sorted_wrt (<) (map nm_id ?msgs)"
    unfolding ids using up assms(4) a le gt by (fastforce simp: sorted_wrt_append)
  moreover have "i \<in> nm_id ` set ?msgs"
  proof -
    have "i \<in> set (map nm_id ?msgs)" unfolding ids using assms(3) b by simp
    then show ?thesis by simp
  qed
  moreover have "length ?msgs = length before + length after - 1"
    using arg_cong [OF ids, of length] by (simp add: a)
  ultimately show ?thesis using find_id_mem [of i ?msgs] assms(7) by auto
qed

definition sample_raw :: "int \<Rightarrow> raw_message" where
  "sample_raw i = \<lparr>rm_id = i, rm_secs = 0, rm_nanos = 0, rm_incoming = True, rm_connection_id = 0,
     rm_remote_addr = [], rm_size = 0, rm_stream_kind = [], rm_message = KindName []\<rparr>"

definition sample_query :: message_query where
  "sample_query = \<lparr>q_limit = 500, q_id = Some 7, q_direction = Some REVERSE, q_filters = [],
     q_from = None, q_to = None\<rparr>"

lemma rm_id_sample_raw [simp]: "rm_id (sample_raw i) = i"
  by (simp add: sample_raw_def)

theorem specific_message_page_witness:
  "\<exists>msgs row. snd (on_answer (\<lambda>_. []) (\<lambda>_ f. f) 0
      (effects_start\<lparr>fx_specific := Some (7, sample_query, sample_query)\<rparr>)
      (SpecificReply [sample_raw 7, sample_raw 6] [sample_raw 7, sample_raw 8]))
      = [Inr (NETWORK_GET_MESSAGES_SUCCESS msgs), Inr (NETWORK_SET_ACTIVE_ROW (Some row)) :: _ + unit NetworkMessagesActions]
    \<and> nm_id row = 7 \<and> length msgs = 3"
  using specific_message_page [of "[sample_raw 7, sample_raw 6]" 7 "[sample_raw 7, sample_raw 8]"
      "effects_start\<lparr>fx_specific := Some (7, sample_query, sample_query)\<rparr>"
      sample_query sample_query "\<lambda>_. []" "\<lambda>_ f. f" 0]
  by auto

subsection \<open>Paging forth and back\<close>

text \<open>One press of a paging button: the request, and the debugger's answer to its query.\<close>

definition load_page ::
  "(message_query \<Rightarrow> raw_message list) \<Rightarrow> (rat \<Rightarrow> string) \<Rightarrow> 'm NetworkMessagesState \<Rightarrow> page_request
    \<Rightarrow> 'm NetworkMessagesState" where
  "load_page serve fmt s req =
    (let s1 = networkMessagesReducer s (NETWORK_GET_PAGINATED_MESSAGES req);
         q = query_of s1 (pr_id req) (pr_timestamp req)
     in networkMessagesReducer s1
          (NETWORK_GET_MESSAGES_SUCCESS (mapNetworkMessageResponse fmt (serve q) (q_direction q))))"

text \<open>
  The debugger's documented answer to a query for a given id without filters or interval, on a log
  of the messages 0 to N: upwards from the id, or downwards from it, at most the limit.
\<close>

definition serves :: "(message_query \<Rightarrow> raw_message list) \<Rightarrow> (int \<Rightarrow> raw_message) \<Rightarrow> int \<Rightarrow> bool" where
  "serves serve raw N \<longleftrightarrow> (\<forall>q i. q_id q = Some i \<and> i \<noteq> 0 \<and> q_filters q = [] \<and> q_from q = None \<and> q_to q = None \<longrightarrow>
     (q_direction q = Some FORWARD \<longrightarrow> serve q = map raw [i..min N (i + q_limit q - 1)]) \<and>
     (q_direction q = Some REVERSE \<longrightarrow> serve q = map raw (rev [max 0 (i - q_limit q + 1)..i])))"

lemma upto_ends: "a \<le> b \<Longrightarrow> hd [a..b] = a \<and> last [a..b] = b \<and> [a..b] \<noteq> []" for a b :: int
  using upto_rec1 [of a b] upto_rec2 [of a b] by (metis last_snoc list.distinct(1) list.sel(1))

lemma load_page_messages:
  assumes "serves serve raw N" "ms_activeFilters s = []" "pr_id req = Some i" "i \<noteq> 0" "pr_timestamp req = None"
    and "pr_direction req = Some d"
  shows "ms_messages (load_page serve fmt s req) = map (map_message fmt \<circ> raw)
      (if d = FORWARD then [i..min N (i + ms_limit s - 1)] else [max 0 (i - ms_limit s + 1)..i])
    \<and> ms_activeFilters (load_page serve fmt s req) = []
    \<and> ms_limit (load_page serve fmt s req) = ms_limit s"
  using assms
  by (cases d) (auto simp: load_page_def query_of_def serves_def mapNetworkMessageResponse_def rev_map)

lemma load_page_coherent:
  "ms_messages (load_page serve fmt s req) = msgs \<Longrightarrow> msgs \<noteq> [] \<Longrightarrow>
   ap_start (ms_activePage (load_page serve fmt s req)) = Some (hd msgs)
   \<and> ap_end (ms_activePage (load_page serve fmt s req)) = Some (last msgs)"
  by (auto simp: load_page_def setActivePage_def)

text \<open>
  C19: while no filter is active and the page was not asked for by a time interval, pressing next and
  then previous shows the same page again, whenever the debugger answers as documented and the page is a
  full one of a thousand messages that is not the last.
\<close>

theorem next_previous_roundtrip:
  assumes "serves serve raw N" "\<forall>i. rm_id (raw i) = i"
    and "ms_activeFilters s = []" "ms_limit s = 1000" "0 \<le> a" "a + 1000 \<le> N"
    and "ms_messages s = map (map_message fmt \<circ> raw) [a..a + 999]" "page_coherent s"
    and "ap_id (ms_activePage s) \<noteq> None"
  shows "\<exists>r1 r2. nextPage s None = Inr r1
    \<and> ms_messages (load_page serve fmt s r1) = map (map_message fmt \<circ> raw) [a + 1000..min N (1999 + a)]
    \<and> previousPage (load_page serve fmt s r1) None = Inr r2
    \<and> ms_messages (load_page serve fmt (load_page serve fmt s r1) r2) = ms_messages s"
proof -
  let ?r1 = "\<lparr>pr_id = Some (a + 1000), pr_direction = Some FORWARD, pr_timestamp = None\<rparr>"
  let ?s1 = "load_page serve fmt s ?r1"
  let ?r2 = "\<lparr>pr_id = Some (a + 999), pr_direction = Some REVERSE, pr_timestamp = None\<rparr>"
  have ends: "last [a..a + 999] = a + 999" using upto_ends [of a "a + 999"] by simp
  have "ap_end (ms_activePage s) = Some (last (ms_messages s))"
    using assms(8,9) by (auto simp: page_coherent_def)
  then have next_req: "nextPage s None = Inr ?r1"
    using assms(2,7) ends by (simp add: nextPage_def last_map)
  have s1: "ms_messages ?s1 = map (map_message fmt \<circ> raw) [a + 1000..min N (1999 + a)]"
    "ms_activeFilters ?s1 = []" "ms_limit ?s1 = 1000"
    using load_page_messages [OF assms(1,3), of ?r1 "a + 1000" FORWARD fmt] assms(4,5) by simp_all
  have "a + 1000 \<le> min N (1999 + a)" using assms(6) by simp
  from upto_ends [OF this] have "ap_start (ms_activePage ?s1) = Some (map_message fmt (raw (a + 1000)))"
    using load_page_coherent [OF s1(1)] by (simp add: hd_map)
  then have prev_req: "previousPage ?s1 None = Inr ?r2"
    using assms(2) by (simp add: previousPage_def)
  have "ms_messages (load_page serve fmt ?s1 ?r2) = ms_messages s"
    using load_page_messages [OF assms(1) s1(2), of ?r2 "a + 999" REVERSE fmt] s1(3) assms(5,7) by simp
  then show ?thesis using next_req prev_req s1(1) by blast
qed

definition sample_serve :: "message_query \<Rightarrow> raw_message list" where
  "sample_serve q = (case q_id q of None \<Rightarrow> [] | Some i \<Rightarrow>
     if q_direction q = Some FORWARD then map sample_raw [i..min 5000 (i + q_limit q - 1)]
     else map sample_raw (rev [max 0 (i - q_limit q + 1)..i]))"

theorem next_previous_roundtrip_witness:
  "let s = load_page sample_serve (\<lambda>_. []) (initialState_messages :: unit NetworkMessagesState)
      \<lparr>pr_id = Some 1000, pr_direction = Some FORWARD, pr_timestamp = None\<rparr>
   in \<exists>r1 r2. nextPage s None = Inr r1
    \<and> previousPage (load_page sample_serve (\<lambda>_. []) s r1) None = Inr r2
    \<and> ms_messages (load_page sample_serve (\<lambda>_. []) (load_page sample_serve (\<lambda>_. []) s r1) r2) = ms_messages s"
proof -
  let ?s = "\<lambda>a. load_page sample_serve (\<lambda>_. []) (initialState_messages :: unit NetworkMessagesState)
      \<lparr>pr_id = Some a, pr_direction = Some FORWARD, pr_timestamp = None\<rparr>"
  have sv: "serves sample_serve sample_raw 5000" by (simp add: serves_def sample_serve_def)
  have init: "ms_activeFilters (initialState_messages :: unit NetworkMessagesState) = []"
    "ms_limit (initialState_messages :: unit NetworkMessagesState) = 1000"
    by (simp_all add: initialState_messages_def)
  have "\<exists>r1 r2. nextPage (?s a) None = Inr r1
      \<and> previousPage (load_page sample_serve (\<lambda>_. []) (?s a) r1) None = Inr r2
      \<and> ms_messages (load_page sample_serve (\<lambda>_. []) (load_page sample_serve (\<lambda>_. []) (?s a) r1) r2)
          = ms_messages (?s a)"
    if a: "0 < a" "a + 1000 \<le> 5000" for a
  proof -
    let ?r = "\<lparr>pr_id = Some a, pr_direction = Some FORWARD, pr_timestamp = None\<rparr>"
    have "min 5000 (a + 1000 - 1) = a + 999" using a by simp
    with load_page_messages [OF sv init(1), of ?r a FORWARD "\<lambda>_. []"] a init(2)
    have s: "ms_messages (?s a) = map (map_message (\<lambda>_. []) \<circ> sample_raw) [a..a + 999]"
      "ms_activeFilters (?s a) = []" "ms_limit (?s a) = 1000"
      by (simp_all add: add.commute)
    have "messages_inv (?s a)"
      unfolding load_page_def Let_def by (intro messages_step_inv initial_messages_inv)
    then have "page_coherent (?s a)" by (simp add: messages_inv_def)
    moreover have "ap_id (ms_activePage (?s a)) \<noteq> None"
    proof -
      have "ms_messages (?s a) \<noteq> []" unfolding s(1) using upto_ends [of a "a + 999"] by simp
      then show ?thesis by (simp add: load_page_def setActivePage_def)
    qed
    ultimately show ?thesis
      using next_previous_roundtrip [OF sv _ s(2,3) _ a(2) s(1)] a(1) by auto
  qed
  from this [of 1000] show ?thesis unfolding Let_def by simp
qed

end
