(* ===== verification/MessagesFilters.thy ===== *)
theory MessagesFilters
  imports MessagesService
begin

text \<open>
  The filter panel and the table of the network messages page
  (\<open>network-messages-filters.component.ts\<close>, \<open>network-messages-table.component.ts\<close>): the filters on
  offer, the clicks that toggle them, the link the panel writes into the address bar and how the
  table reads such a link back.

  Two filter objects are the same object exactly if they are equal here, since no value is on offer
  twice. The query of a link is an association list of texts, each key at most once, as the router
  hands it over after decoding. The height of elements and the number of rows above the middle of
  the table come from the browser and are arguments.
\<close>

section \<open>Filters on offer\<close>

record NetworkMessagesFilterCategory =
  fc_name :: string
  fc_tooltip :: string
  fc_filters :: "NetworkMessagesFilter list"

definition filters_multiplexing :: "NetworkMessagesFilterCategory list" where
  \<open>filters_multiplexing =
    [\<lparr>fc_name = ''/multistream/1.0.0'',
      fc_tooltip = [],
      fc_filters =
       [\<lparr>nf_type = STREAM_KIND, nf_display = ''Multistream'', nf_value = FStr ''/multistream/1.0.0'',
        nf_tooltip = Some []\<rparr>]\<rparr>,
     \<lparr>fc_name = ''/coda/mplex/1.0.0'',
      fc_tooltip = [],
      fc_filters =
       [\<lparr>nf_type = STREAM_KIND, nf_display = ''Coda mplex'', nf_value = FStr ''/coda/mplex/1.0.0'',
        nf_tooltip = Some []\<rparr>]\<rparr>,
     \<lparr>fc_name = ''/coda/yamux/1.0.0'',
      fc_tooltip = [],
      fc_filters =
       [\<lparr>nf_type = STREAM_KIND, nf_display = ''Coda yamux'', nf_value = FStr ''/coda/yamux/1.0.0'',
        nf_tooltip = Some []\<rparr>]\<rparr>]\<close>

definition filters_noise_kad :: "NetworkMessagesFilterCategory list" where
  \<open>filters_noise_kad =
    [\<lparr>fc_name = ''/noise'',
      fc_tooltip = ''The Noise Protocol is a framework for building cryptographic protocols'',
      fc_filters =
       [\<lparr>nf_type = MESSAGE_KIND, nf_display = ''Handshake'', nf_value = FStr ''handshake_payload'',
        nf_tooltip = Some ''Every Noise connection begins with a handshake between an initiating peer and a responding peer.''\<rparr>,
        \<lparr>nf_type = MESSAGE_KIND, nf_display = ''Failed to decrypt'', nf_value = FStr ''failed_to_decrypt'',
        nf_tooltip = Some []\<rparr>]\<rparr>,
     \<lparr>fc_name = ''/coda/kad/1.0.0'',
      fc_tooltip = ''Used for peer discovery. The Kademlia Distributed Hash Table (DHT) is a DHT implementation largely based on the Kademlia whitepaper, augmented with notions from S/Kademlia, Coral and the BitTorrent DHT.'',
      fc_filters =
       [\<lparr>nf_type = MESSAGE_KIND, nf_display = ''Put Value'', nf_value = FStr ''put_value'',
        nf_tooltip = Some ''Value storage, Putting the value to the closest nodes.''\<rparr>,
        \<lparr>nf_type = MESSAGE_KIND, nf_display = ''Get Value'', nf_value = FStr ''get_value'',
        nf_tooltip = Some ''Value retrieval, Getting a value by its key from the nodes closest to that key.''\<rparr>,
        \<lparr>nf_type = MESSAGE_KIND, nf_display = ''Add Provider'', nf_value = FStr ''add_provider'',
        nf_tooltip = Some ''Adding oneself to the list of providers for a given key at the nodes closest to that key by finding the closest nodes.''\<rparr>,
        \<lparr>nf_type = MESSAGE_KIND, nf_display = ''Get Providers'', nf_value = FStr ''get_providers'',
        nf_tooltip = Some ''Getting providers for a given key from the nodes closest to that key.''\<rparr>,
        \<lparr>nf_type = MESSAGE_KIND, nf_display = ''Find Node'', nf_value = FStr ''find_node'',
        nf_tooltip = Some ''Finding the closest nodes to a given key.''\<rparr>,
        \<lparr>nf_type = MESSAGE_KIND, nf_display = ''Ping'', nf_value = FStr ''ping'',
        nf_tooltip = Some ''Deprecated. Message type replaced by the dedicated ping protocol.''\<rparr>]\<rparr>]\<close>

definition filters_exchange :: "NetworkMessagesFilterCategory list" where
  \<open>filters_exchange =
    [\<lparr>fc_name = ''/mina/peer-exchange'',
      fc_tooltip = ''Keeps the mesh connected when closing connections.'',
      fc_filters =
       [\<lparr>nf_type = STREAM_KIND, nf_display = ''Peer Exchange'', nf_value = FStr ''/mina/peer-exchange'',
        nf_tooltip = Some ''Keeps the mesh connected when closing connections.''\<rparr>]\<rparr>,
     \<lparr>fc_name = ''/mina/bitswap-exchange'',
      fc_tooltip = ''Bitswap is a module provided by libp2p that enables distributed data synchronization over a p2p network, somewhat comparable to how BitTorrent works.'',
      fc_filters =
       [\<lparr>nf_type = STREAM_KIND, nf_display = ''Bitswap Exchange'', nf_value = FStr ''/mina/bitswap-exchange'',
        nf_tooltip = Some ''Using BitSwap, Mina nodes can offset load from GossipSub by gossiping only the header of the block, Splitting the block body into parts and Downloading different parts of the block's body.''\<rparr>]\<rparr>,
     \<lparr>fc_name = ''/mina/node-status'',
      fc_tooltip = ''NodeStatus is maintained by libp2p_helper process, which is updated by main Mina process using SetNodeStatus call.'',
      fc_filters =
       [\<lparr>nf_type = STREAM_KIND, nf_display = ''Node Status'', nf_value = FStr ''/mina/node-status'',
        nf_tooltip = Some ''As soon as you open substream on this protocol, you will receive a json encoded NodeStatus.''\<rparr>]\<rparr>]\<close>

definition filters_identify :: "NetworkMessagesFilterCategory list" where
  \<open>filters_identify =
    [\<lparr>fc_name = ''/ipfs/id/1.0.0'',
      fc_tooltip = ''The identify protocol has the protocol id /ipfs/id/1.0.0 and it is used to query remote peers for their information.'',
      fc_filters =
       [\<lparr>nf_type = STREAM_KIND, nf_display = ''Identify'', nf_value = FStr ''/ipfs/id/1.0.0'',
        nf_tooltip = Some ''The protocol works by opening a stream to the remote peer you want to query. The peer being identified responds by returning an Identify message and closing the stream.''\<rparr>]\<rparr>,
     \<lparr>fc_name = ''/ipfs/id/push/1.0.0'',
      fc_tooltip = ''The identify/push protocol has the protocol id /ipfs/id/push/1.0.0 and it is used to inform known peers about changes that occur at runtime.'',
      fc_filters =
       [\<lparr>nf_type = STREAM_KIND, nf_display = ''IPFS Push'', nf_value = FStr ''/ipfs/id/push/1.0.0'',
        nf_tooltip = Some ''Responds to identify request by pushing the full identity info to the peer.''\<rparr>]\<rparr>,
     \<lparr>fc_name = ''/p2p/id/delta/1.0.0'',
      fc_tooltip = [],
      fc_filters =
       [\<lparr>nf_type = STREAM_KIND, nf_display = ''IPFS Delta'', nf_value = FStr ''/p2p/id/delta/1.0.0'',
        nf_tooltip = Some ''Used for providing changes (only diff) in the list of protocols that the peer supports.''\<rparr>]\<rparr>]\<close>

definition filters_meshsub :: "NetworkMessagesFilterCategory list" where
  \<open>filters_meshsub =
    [\<lparr>fc_name = ''/meshsub/1.1.0'',
      fc_tooltip = ''Mina GossipSub is a PubSub (Publish/Subscribe) protocol. Using gossipsub, different messages are published/gossiped through the network. This is used to provide peers with updates regarding the latest state of the blockchain or its network. Each node can, after handshaking and agreeing on this protocol with a peer, publish and subscribe to different topics.'',
      fc_filters =
       [\<lparr>nf_type = MESSAGE_KIND, nf_display = ''Subscribe'', nf_value = FStr ''subscribe'',
        nf_tooltip = Some ''Peers keep track of which topics their directly connected peers are subscribed to. Using this information each peer is able to build up a picture of the topics around them and which peers are subscribed to each topic.''\<rparr>,
        \<lparr>nf_type = MESSAGE_KIND, nf_display = ''Unsubscribe'', nf_value = FStr ''unsubscribe'',
        nf_tooltip = Some ''When a peer unsubscribes from a topic it will notify its full-message peers that their connection has been pruned at the same time as sending their unsubscribe messages.''\<rparr>,
        \<lparr>nf_type = MESSAGE_KIND, nf_display = ''iWant'', nf_value = FStr ''meshsub_iwant'',
        nf_tooltip = Some []\<rparr>,
        \<lparr>nf_type = MESSAGE_KIND, nf_display = ''iHave'', nf_value = FStr ''meshsub_ihave'',
        nf_tooltip = Some []\<rparr>,
        \<lparr>nf_type = MESSAGE_KIND, nf_display = ''Prune'', nf_value = FStr ''meshsub_prune'',
        nf_tooltip = Some []\<rparr>,
        \<lparr>nf_type = MESSAGE_KIND, nf_display = ''Graft'', nf_value = FStr ''meshsub_graft'',
        nf_tooltip = Some []\<rparr>,
        \<lparr>nf_type = MESSAGE_KIND, nf_display = ''Publish New State'', nf_value = FStr ''publish_new_state'',
        nf_tooltip = Some ''Broadcasts newly produced blocks throughout the network.''\<rparr>,
        \<lparr>nf_type = MESSAGE_KIND, nf_display = ''Publish Snark Pool Diff'', nf_value = FStr ''publish_snark_pool_diff'',
        nf_tooltip = Some ''Broadcasts snark work from mempools throughout the network. Snark coordinator's broadcast locally produced snarks on an interval for a period of time after creation, and all nodes rebroadcast externally produced snarks if they were relevant and could be added to the their mempool.''\<rparr>,
        \<lparr>nf_type = MESSAGE_KIND, nf_display = ''Publish Transaction Pool Diff'', nf_value = FStr ''publish_transaction_pool_diff'',
        nf_tooltip = Some ''Broadcasts transactions from mempools throughout the network. Nodes broadcast locally submitted transactions on an interval for a period of time after creation, as well as rebroadcast externally submitted transactions if they were relevant and could be added to the their mempool.''\<rparr>]\<rparr>]\<close>

definition filters_rpcs :: "NetworkMessagesFilterCategory list" where
  \<open>filters_rpcs =
    [\<lparr>fc_name = ''coda/rpcs/0.0.1'',
      fc_tooltip = ''RPC - Remote Procedure Call. In some scenarios, a node needs to obtain information from other nodes it is connected to. It makes a particular request to a peer over the P2P network and then expects a response from it.'',
      fc_filters =
       [\<lparr>nf_type = MESSAGE_KIND, nf_display = ''Get some initial peers'', nf_value = FStr ''get_some_initial_peers'',
        nf_tooltip = Some ''Returns known peers to the requester. Currently used to help nodes quickly connect to the network.''\<rparr>,
        \<lparr>nf_type = MESSAGE_KIND, nf_display = ''Get staged ledger aux and pending coinbases at hash'', nf_value = FStr ''get_staged_ledger_aux_and_pending_coinbases_at_hash'',
        nf_tooltip = Some ''Returns the staged ledger data associated with a particular block on the blockchain. This is requested by bootstrapping nodes and is used to construct the root staged ledger of the frontier. Subsequent staged ledgers are built from the root using the staged ledger diff information contained in blocks.''\<rparr>,
        \<lparr>nf_type = MESSAGE_KIND, nf_display = ''Answer sync ledger query'', nf_value = FStr ''answer_sync_ledger_query'',
        nf_tooltip = Some ''Serves merkle ledger information over a "sync ledger" protocol. The sync ledger protocol works by allowing nodes to request intermediate hashes and leaves of data in a target ledger they want to synchronize with. Using the protocol, requesters are able to determine which parts of their existing ledger need to be updated, and can avoid downloading data in the ledger which is already up to date. Requests are distributed to multiple peers to spread the load of serving sync ledgers throughout the network.''\<rparr>,
        \<lparr>nf_type = MESSAGE_KIND, nf_display = ''Get ancestry'', nf_value = FStr ''get_ancestry'',
        nf_tooltip = Some ''Returns the target block corresponding to the provided state hash along with the root block of the frontier, and a merkle proof that attests to the connection of blocks linking the target block to the root block.''\<rparr>,
        \<lparr>nf_type = MESSAGE_KIND, nf_display = ''Get best tip'', nf_value = FStr ''get_best_tip'',
        nf_tooltip = Some ''Returns the best tip block along with the root block of the frontier, and a merkle proof that attests to the connection of blocks linking the target block to the root block. If the root has been finalized, this proof will be of length k-1 to attest to the fact that the best tip block is k blocks on top of the root block.''\<rparr>,
        \<lparr>nf_type = MESSAGE_KIND, nf_display = ''Get node status'', nf_value = FStr ''get_node_status'',
        nf_tooltip = Some ''This acts as a telemetry RPC which asks a peer to provide information about their node status. Daemons do not have to respond to this request, and node operators may pass a command line flag to opt-out of responding to these node status requests.''\<rparr>,
        \<lparr>nf_type = MESSAGE_KIND, nf_display = ''Get transition chain proof'', nf_value = FStr ''get_transition_chain_proof'',
        nf_tooltip = Some ''Returns a transition chain proof for a specified block on the blockchain. A transition chain proof proves that, given some block b1, there exists a block b0 which is k blocks preceding b1. To prove this, a node receives H(b1), and returns H(b0) along with a merkle proof of all the intermediate "state body hashes" along the path b0 -> b1. The requester checks this proof by re-computing H(b1) from the provided merkle proof.''\<rparr>,
        \<lparr>nf_type = MESSAGE_KIND, nf_display = ''Get transition chain'', nf_value = FStr ''get_transition_chain'',
        nf_tooltip = Some ''Returns a bulk bulk set of blocks associated with a provided set of state hashes. This is used by the catchup routine when it is downloading old blocks to re synchronize with the network over short distances of missing information. At the current moment, the maximum number of blocks that can be requested in a single batch is 20 (requesting more than 20 will result in no response).''\<rparr>,
        \<lparr>nf_type = MESSAGE_KIND, nf_display = ''Get transition knowledge'', nf_value = FStr ''get_transition_knowledge'',
        nf_tooltip = Some ''Returns the a list of k state hashes of blocks from the root of the frontier (point of finality) up to the current best tip (most recent block on the canonical chain).''\<rparr>,
        \<lparr>nf_type = MESSAGE_KIND, nf_display = ''Get epoch ledger'', nf_value = FStr ''get_epoch_ledger'',
        nf_tooltip = Some ''Returns sparse ledger, or, in case of a failure, a string description.''\<rparr>,
        \<lparr>nf_type = MESSAGE_KIND, nf_display = ''Versioned rpc menu'', nf_value = FStr ''__Versioned_rpc.Menu'',
        nf_tooltip = Some []\<rparr>,
        \<lparr>nf_type = MESSAGE_KIND, nf_display = ''Ban notify'', nf_value = FStr ''ban_notify'',
        nf_tooltip = Some ''Notifies a peer that they have been banned. The request contains the time at which the requester banned the recipient.''\<rparr>]\<rparr>]\<close>

definition filters_unknown :: "NetworkMessagesFilterCategory list" where
  \<open>filters_unknown =
    [\<lparr>fc_name = ''unknown'',
      fc_tooltip = [],
      fc_filters =
       [\<lparr>nf_type = STREAM_KIND, nf_display = ''Unknown'', nf_value = FStr ''unknown'',
        nf_tooltip = Some []\<rparr>]\<rparr>]\<close>

definition networkAvailableFilters :: "NetworkMessagesFilterCategory list list" where
  "networkAvailableFilters = [filters_multiplexing, filters_noise_kad, filters_exchange, filters_identify,
     filters_meshsub, filters_rpcs, filters_unknown]"

section \<open>Filter panel\<close>

text \<open>
  The slice may hold \<open>undefined\<close> as a filter, from a link with a kind that is not on offer; reading its
  type throws. A bound of the interval that is missing stands for \<open>undefined\<close> and for NaN; both are
  left out of the link, as both read back as NaN.
\<close>

type_synonym link_query = "(string \<times> string) list"

definition of_type :: "NetworkMessagesFilterTypes \<Rightarrow> NetworkMessagesFilter list \<Rightarrow> NetworkMessagesFilter list" where
  "of_type t fs = filter (\<lambda>f. nf_type f = t) fs"

definition kind_text :: "NetworkMessagesFilterTypes \<Rightarrow> NetworkMessagesFilter list \<Rightarrow> string" where
  "kind_text t fs = js_join '','' (map (\<lambda>f. filter_value_text (nf_value f)) (of_type t fs))"

fun truthy_value :: "filter_value \<Rightarrow> bool" where
  "truthy_value (FStr s) = (s \<noteq> [])"
| "truthy_value (FNum i) = (i \<noteq> 0)"

definition link_of :: "NetworkMessagesFilter list \<Rightarrow> TimestampInterval \<Rightarrow> string option \<Rightarrow> link_query" where
  "link_of fs timestamp node =
    (let stream_kind = kind_text STREAM_KIND fs; message_kind = kind_text MESSAGE_KIND fs;
         addr = map_option nf_value (List.find (\<lambda>f. nf_type f = ADDRESS) fs)
     in (if stream_kind = [] then [] else [(''stream_kind'', stream_kind)])
      @ (if message_kind = [] then [] else [(''message_kind'', message_kind)])
      @ (case addr of None \<Rightarrow> [] | Some v \<Rightarrow> if truthy_value v then [(''addr'', filter_value_text v)] else [])
      @ (case ti_from timestamp of None \<Rightarrow> []
         | Some i \<Rightarrow> if i = 0 then [] else (''from'', int_to_string i)
             # (case ti_to timestamp of None \<Rightarrow> [] | Some j \<Rightarrow> [(''to'', int_to_string j)]))
      @ (case node of None \<Rightarrow> [] | Some n \<Rightarrow> if n = [] then [] else [(''node'', n)]))"

definition addFiltersToRoute ::
  "NetworkMessagesFilter option list \<Rightarrow> TimestampInterval \<Rightarrow> string option \<Rightarrow> link_query result" where
  "addFiltersToRoute activeFilters timestamp node =
    (if None \<in> set activeFilters then Inl (TypeError ''type'')
     else Inr (link_of (map the activeFilters) timestamp node))"

record FiltersPanel =
  fp_activeFilters :: "NetworkMessagesFilter option list"
  fp_filtersOpen :: bool
  fp_elementHeight :: "int option"
  fp_timestamp :: TimestampInterval
  fp_activeNodeName :: "string option"
  fp_skipped :: bool

datatype panel_event =
  PanelRoute link_query
| PanelFilters "NetworkMessagesFilter option list"
| PanelTimestamp TimestampInterval
| PanelToggle
| PanelResize int

datatype panel_output = Nothing | Navigate link_query | SizeChange

definition initial_panel :: FiltersPanel where
  "initial_panel = \<lparr>fp_activeFilters = [], fp_filtersOpen = False, fp_elementHeight = None,
     fp_timestamp = \<lparr>ti_from = None, ti_to = None\<rparr>, fp_activeNodeName = None, fp_skipped = False\<rparr>"

text \<open>The subscriptions of \<open>ngOnInit\<close> and the buttons; the first value of the filters is skipped.\<close>

fun filters_panel :: "FiltersPanel \<Rightarrow> panel_event \<Rightarrow> (FiltersPanel \<times> panel_output) result" where
  "filters_panel c (PanelRoute query) = Inr (c\<lparr>fp_activeNodeName := map_of query ''node''\<rparr>, Nothing)"
| "filters_panel c (PanelFilters fs) =
    (if \<not> fp_skipped c then Inr (c\<lparr>fp_skipped := True\<rparr>, Nothing)
     else js_bind (addFiltersToRoute fs (fp_timestamp c) (fp_activeNodeName c))
       (\<lambda>query. Inr (c\<lparr>fp_activeFilters := fs\<rparr>, Navigate query)))"
| "filters_panel c (PanelTimestamp t) = Inr (c\<lparr>fp_timestamp := t\<rparr>, Nothing)"
| "filters_panel c PanelToggle = Inr (c\<lparr>fp_filtersOpen := \<not> fp_filtersOpen c\<rparr>, Nothing)"
| "filters_panel c (PanelResize h) =
    (if fp_elementHeight c \<noteq> Some h then Inr (c\<lparr>fp_elementHeight := Some h\<rparr>, SizeChange) else Inr (c, Nothing))"

definition filter_action :: "NetworkMessagesFilter list \<Rightarrow> bool \<Rightarrow> filter_request" where
  "filter_action filters add = \<lparr>fr_filters = filters, fr_add = add, fr_timestamp = None, fr_direction = None\<rparr>"

definition toggleFilter :: "NetworkMessagesFilter list \<Rightarrow> NetworkMessagesFilter \<Rightarrow> filter_request" where
  "toggleFilter activeFilters f = filter_action [f] (f \<notin> set activeFilters)"

definition filterByCategory :: "NetworkMessagesFilter list \<Rightarrow> NetworkMessagesFilterCategory \<Rightarrow> filter_request" where
  "filterByCategory activeFilters category =
    filter_action (fc_filters category) (\<not> list_all (\<lambda>f. f \<in> set activeFilters) (fc_filters category))"

section \<open>Links\<close>

text \<open>
  \<open>Number(s)\<close> of an optional text, with NaN as \<^const>\<open>None\<close>: the empty text is 0 and the texts of whole
  numbers are read in decimal. Fractions, exponents, radix prefixes and blanks are not considered.
\<close>

fun read_digits :: "int \<Rightarrow> string \<Rightarrow> int option" where
  "read_digits acc [] = Some acc"
| "read_digits acc (c # cs) = (let n = char_code c in
     if 48 \<le> n \<and> n \<le> 57 then read_digits (10 * acc + (int n - 48)) cs else None)"

fun js_Number :: "string option \<Rightarrow> int option" where
  "js_Number None = None"
| "js_Number (Some []) = Some 0"
| "js_Number (Some (c # cs)) =
    (if c = CHR ''-'' then (if cs = [] then None else map_option uminus (read_digits 0 cs))
     else read_digits 0 (c # cs))"

record MergedRoute =
  rt_messageId :: "string option"
  rt_query :: link_query

definition availableFilters :: "NetworkMessagesFilter list" where
  "availableFilters = concat (map (\<lambda>row. concat (map fc_filters row)) networkAvailableFilters)"

text \<open>The parts of a text that name no filter on offer give \<open>undefined\<close>.\<close>

definition kinds_from :: "string option \<Rightarrow> NetworkMessagesFilter option list" where
  "kinds_from v = (case v of None \<Rightarrow> []
     | Some s \<Rightarrow> map (\<lambda>x. List.find (\<lambda>f. nf_value f = FStr x) availableFilters) (js_split (CHR '','') s))"

definition address_filter :: "string \<Rightarrow> NetworkMessagesFilter" where
  "address_filter a = \<lparr>nf_type = ADDRESS, nf_display = a, nf_value = FStr a, nf_tooltip = None\<rparr>"

definition getFiltersFromTheRoute :: "link_query \<Rightarrow> NetworkMessagesFilter option list" where
  "getFiltersFromTheRoute query =
    (case map_of query ''addr'' of None \<Rightarrow> [] | Some a \<Rightarrow> if a = [] then [] else [Some (address_filter a)])
    @ kinds_from (map_of query ''stream_kind'') @ kinds_from (map_of query ''message_kind'')"

section \<open>Table\<close>

record MessagesTable =
  tb_messages :: "NetworkMessage list"
  tb_activeFilters :: "NetworkMessagesFilter list"
  tb_attemptToGetMessagesFromRoute :: bool
  tb_idFromRoute :: "int option"
  tb_activeRow :: "NetworkMessage option"
  tb_stream :: bool
  tb_wheel :: "int option"
  tb_touch :: "int option"

definition initial_table :: MessagesTable where
  "initial_table = \<lparr>tb_messages = [], tb_activeFilters = [], tb_attemptToGetMessagesFromRoute = True,
     tb_idFromRoute = None, tb_activeRow = None, tb_stream = False, tb_wheel = None, tb_touch = None\<rparr>"

text \<open>The requests of the table, whose filters may be \<open>undefined\<close>, and the action if none is.\<close>

record link_request =
  lr_filters :: "NetworkMessagesFilter option list"
  lr_timestamp :: TimestampInterval
  lr_direction :: "NetworkMessagesDirection option"

datatype table_request =
  GetSpecificMessage int link_request
| AddFilters link_request
| SetTimestampInterval TimestampInterval "NetworkMessagesDirection option"
| GetMessages

definition link_filter_request :: "link_request \<Rightarrow> filter_request option" where
  "link_filter_request r = (if None \<in> set (lr_filters r) then None
     else Some \<lparr>fr_filters = map the (lr_filters r), fr_add = True, fr_timestamp = Some (lr_timestamp r),
       fr_direction = lr_direction r\<rparr>)"

fun request_action :: "table_request \<Rightarrow> 'm NetworkMessagesActions option" where
  "request_action (GetSpecificMessage i r) = map_option (NETWORK_GET_SPECIFIC_MESSAGE i) (link_filter_request r)"
| "request_action (AddFilters r) = map_option NETWORK_TOGGLE_FILTER (link_filter_request r)"
| "request_action (SetTimestampInterval t d) = Some (NETWORK_SET_TIMESTAMP_INTERVAL t d)"
| "request_action GetMessages = Some NETWORK_GET_MESSAGES"

definition listenToRouteChange :: "MessagesTable \<Rightarrow> MergedRoute \<Rightarrow> MessagesTable \<times> table_request" where
  "listenToRouteChange t route =
    (let query = rt_query route; idFromRoute = js_Number (rt_messageId route)
     in if tb_attemptToGetMessagesFromRoute t
          \<and> (idFromRoute \<noteq> None \<or> filter (\<lambda>k. k \<noteq> ''node'') (map fst query) \<noteq> [])
        then (let filters = getFiltersFromTheRoute query;
                  timestamp = \<lparr>ti_from = js_Number (map_of query ''from''), ti_to = js_Number (map_of query ''to'')\<rparr>;
                  direction = (case map_of query ''from'' of None \<Rightarrow> None
                     | Some s \<Rightarrow> if s = [] then None else Some FORWARD);
                  request = \<lparr>lr_filters = filters, lr_timestamp = timestamp, lr_direction = direction\<rparr>
          in case idFromRoute of
               Some i \<Rightarrow> (t\<lparr>tb_idFromRoute := Some i, tb_attemptToGetMessagesFromRoute := False\<rparr>,
                  GetSpecificMessage i request)
             | None \<Rightarrow> (t\<lparr>tb_attemptToGetMessagesFromRoute := False\<rparr>,
                  if filters \<noteq> [] then AddFilters request else SetTimestampInterval timestamp direction))
        else (t\<lparr>tb_attemptToGetMessagesFromRoute := False\<rparr>, GetMessages))"

text \<open>The subscriptions to the active row, the filters and the stream flag.\<close>

definition on_slice :: "MessagesTable \<Rightarrow> 'm NetworkMessagesState \<Rightarrow> MessagesTable" where
  "on_slice t s = t\<lparr>tb_activeRow := ms_activeRow s, tb_activeFilters := ms_activeFilters s, tb_stream := ms_stream s\<rparr>"

text \<open>
  \<open>scrollToElement\<close>: the index the table of the shared library scrolls to. An id of 0 counts as
  missing; with no rows the finder never runs.
\<close>

definition scroll_index :: "int \<Rightarrow> MessagesTable \<Rightarrow> int" where
  "scroll_index topElements t =
    js_findIndex (\<lambda>r. Some (nm_id r) = (if truthy_int (tb_idFromRoute t) then tb_idFromRoute t
      else map_option nm_id (lastItem (tb_messages t)))) (tb_messages t) - topElements"

definition on_messages :: "int \<Rightarrow> MessagesTable \<Rightarrow> NetworkMessage list \<Rightarrow> MessagesTable \<times> int" where
  "on_messages topElements t messages =
    (let t' = t\<lparr>tb_messages := messages\<rparr> in (t'\<lparr>tb_idFromRoute := None\<rparr>, scroll_index topElements t'))"

definition onRowClick :: "MessagesTable \<Rightarrow> NetworkMessage \<Rightarrow> (string list \<times> 'm NetworkMessagesActions) option" where
  "onRowClick t row = (if Some (nm_id row) \<noteq> map_option nm_id (tb_activeRow t)
     then Some ([''network'', ''messages'', int_to_string (nm_id row)], NETWORK_SET_ACTIVE_ROW (Some row)) else None)"

definition filterByAddress :: "MessagesTable \<Rightarrow> NetworkMessage \<Rightarrow> filter_request" where
  "filterByAddress t message = filter_action [address_filter (nm_address message)]
     (\<not> list_ex (\<lambda>f. nf_value f = FStr (nm_address message)) (tb_activeFilters t))"

definition clearFilters :: "MessagesTable \<Rightarrow> filter_request" where
  "clearFilters t = filter_action (tb_activeFilters t) False"

text \<open>
  Scrolling up while the table follows the stream pauses it. The throttle lets an event through if
  the last one it let through is at least 600 ms old.
\<close>

definition throttle :: "int \<Rightarrow> int option \<Rightarrow> bool" where
  "throttle now last_event = (case last_event of None \<Rightarrow> True | Some t \<Rightarrow> now - t \<ge> 600)"

definition on_wheel :: "int \<Rightarrow> int \<Rightarrow> MessagesTable \<Rightarrow> MessagesTable \<times> 'm NetworkMessagesActions option" where
  "on_wheel now deltaY t = (if throttle now (tb_wheel t)
     then (t\<lparr>tb_wheel := Some now\<rparr>, if tb_stream t \<and> deltaY < 0 then Some NETWORK_PAUSE else None) else (t, None))"

definition on_touch :: "int \<Rightarrow> MessagesTable \<Rightarrow> MessagesTable \<times> 'm NetworkMessagesActions option" where
  "on_touch now t = (if throttle now (tb_touch t)
     then (t\<lparr>tb_touch := Some now\<rparr>, if tb_stream t then Some NETWORK_PAUSE else None) else (t, None))"

section \<open>The table of filters\<close>

lemmas filter_table = availableFilters_def networkAvailableFilters_def filters_multiplexing_def filters_noise_kad_def
  filters_exchange_def filters_identify_def filters_meshsub_def filters_rpcs_def filters_unknown_def

definition available_texts :: "string list" where
  "available_texts =
    [''/multistream/1.0.0'', ''/coda/mplex/1.0.0'', ''/coda/yamux/1.0.0'', ''handshake_payload'',
     ''failed_to_decrypt'', ''put_value'', ''get_value'', ''add_provider'', ''get_providers'', ''find_node'',
     ''ping'', ''/mina/peer-exchange'', ''/mina/bitswap-exchange'', ''/mina/node-status'',
     ''/ipfs/id/1.0.0'', ''/ipfs/id/push/1.0.0'', ''/p2p/id/delta/1.0.0'', ''subscribe'', ''unsubscribe'',
     ''meshsub_iwant'', ''meshsub_ihave'', ''meshsub_prune'', ''meshsub_graft'', ''publish_new_state'',
     ''publish_snark_pool_diff'', ''publish_transaction_pool_diff'', ''get_some_initial_peers'',
     ''get_staged_ledger_aux_and_pending_coinbases_at_hash'', ''answer_sync_ledger_query'', ''get_ancestry'',
     ''get_best_tip'', ''get_node_status'', ''get_transition_chain_proof'', ''get_transition_chain'',
     ''get_transition_knowledge'', ''get_epoch_ledger'', ''__Versioned_rpc.Menu'', ''ban_notify'',
     ''unknown'']"

lemma available_values_eq: "map nf_value availableFilters = map FStr available_texts"
  by (simp add: filter_table available_texts_def)

lemma available_texts_ok: "distinct available_texts" "list_all (\<lambda>v. v \<noteq> [] \<and> CHR '','' \<notin> set v) available_texts"
  by (simp_all add: available_texts_def)

lemma available_types: "list_all (\<lambda>f. nf_type f \<noteq> ADDRESS) availableFilters"
  by (simp add: filter_table)

lemma available_values: "distinct (map nf_value availableFilters)"
  unfolding available_values_eq using available_texts_ok(1) by (simp add: distinct_map inj_on_def)

lemma available_text:
  assumes "f \<in> set availableFilters"
  obtains v where "nf_value f = FStr v" "v \<noteq> []" "CHR '','' \<notin> set v"
proof -
  have "nf_value f \<in> set (map nf_value availableFilters)" using assms by simp
  thus thesis using that available_texts_ok(2) unfolding available_values_eq by (auto simp: list_all_iff)
qed

lemma kinds_from_texts:
  assumes "fs \<noteq> []" "set fs \<subseteq> set availableFilters"
  defines "s \<equiv> js_join '','' (map (\<lambda>f. filter_value_text (nf_value f)) fs)"
  shows "s \<noteq> []" "kinds_from (Some s) = map Some fs"
proof -
  have texts: "\<exists>v. nf_value f = FStr v \<and> v \<noteq> [] \<and> CHR '','' \<notin> set v" if "f \<in> set fs" for f
    using that assms(2) available_text [of f] by blast
  hence "list_all (\<lambda>s. CHR '','' \<notin> set s) (map (\<lambda>f. filter_value_text (nf_value f)) fs)"
    by (fastforce simp: list_all_iff)
  hence split: "js_split (CHR '','') s = map (\<lambda>f. filter_value_text (nf_value f)) fs"
    unfolding s_def using assms(1) by (intro js_split_join) auto
  have "List.find (\<lambda>g. nf_value g = FStr (filter_value_text (nf_value f))) availableFilters = Some f" if "f \<in> set fs" for f
    using texts [OF that] find_by_key [OF available_values, of f] that assms(2) by auto
  thus "kinds_from (Some s) = map Some fs" by (simp add: kinds_from_def split)
  have "filter_value_text (nf_value (hd fs)) \<noteq> []"
    using texts [of "hd fs"] assms(1) by auto
  thus "s \<noteq> []" unfolding s_def js_join_Nil using assms(1) by (cases fs) auto
qed

section \<open>Links round trip\<close>

text \<open>
  What the page's buttons make active: filters on offer and addresses of rows, which are not empty and
  not the value of a filter on offer; no value twice.
\<close>

definition is_address :: "NetworkMessagesFilter \<Rightarrow> bool" where
  "is_address f = (case nf_value f of FStr a \<Rightarrow> a \<noteq> [] \<and> f = address_filter a
     \<and> FStr a \<notin> set (map nf_value availableFilters) | FNum _ \<Rightarrow> False)"

definition page_filters :: "NetworkMessagesFilter list \<Rightarrow> bool" where
  "page_filters fs \<longleftrightarrow> list_all (\<lambda>f. f \<in> set availableFilters \<or> is_address f) fs \<and> distinct (map nf_value fs)"

lemma is_addressE:
  assumes "is_address f"
  obtains a where "a \<noteq> []" "f = address_filter a" "FStr a \<notin> nf_value ` set availableFilters"
  using assms by (auto simp: is_address_def split: filter_value.splits)

lemma address_type [simp]: "nf_type (address_filter a) = ADDRESS" "nf_value (address_filter a) = FStr a"
  by (simp_all add: address_filter_def)

lemma is_address_type: "is_address f \<Longrightarrow> nf_type f = ADDRESS"
  by (auto elim: is_addressE)

lemma page_kinds: "page_filters fs \<Longrightarrow> t \<noteq> ADDRESS \<Longrightarrow> set (of_type t fs) \<subseteq> set availableFilters"
  by (auto simp: page_filters_def of_type_def list_all_iff dest!: is_address_type)

definition present :: "string \<Rightarrow> string option" where
  "present s = (if s = [] then None else Some s)"

lemma page_addresses: "page_filters fs \<Longrightarrow> f \<in> set (of_type ADDRESS fs) \<Longrightarrow> is_address f"
  using available_types by (auto simp: page_filters_def of_type_def list_all_iff)

lemma link_keys:
  "map_of (link_of fs ts n) ''stream_kind'' = present (kind_text STREAM_KIND fs)"
  "map_of (link_of fs ts n) ''message_kind'' = present (kind_text MESSAGE_KIND fs)"
  "map_of (link_of fs ts n) ''addr'' = (case List.find (\<lambda>f. nf_type f = ADDRESS) fs of None \<Rightarrow> None
     | Some f \<Rightarrow> if truthy_value (nf_value f) then Some (filter_value_text (nf_value f)) else None)"
  by (simp_all add: link_of_def present_def split: option.splits)

lemma kinds_from_link:
  assumes "page_filters fs" "t \<noteq> ADDRESS"
  shows "kinds_from (present (kind_text t fs)) = map Some (of_type t fs)"
proof (cases "of_type t fs = []")
  case True thus ?thesis by (simp add: kind_text_def kinds_from_def present_def)
next
  case False
  with kinds_from_texts [OF False page_kinds [OF assms]] show ?thesis
    by (simp add: kind_text_def present_def)
qed

lemma find_of_type: "List.find (\<lambda>f. nf_type f = t) fs = (case of_type t fs of [] \<Rightarrow> None | f # _ \<Rightarrow> Some f)"
  by (induction fs) (auto simp: of_type_def)

lemma filters_of_link:
  assumes "page_filters fs"
  shows "getFiltersFromTheRoute (link_of fs ts n)
    = map Some (take 1 (of_type ADDRESS fs) @ of_type STREAM_KIND fs @ of_type MESSAGE_KIND fs)"
proof (cases "of_type ADDRESS fs")
  case Nil
  thus ?thesis using assms
    by (simp add: getFiltersFromTheRoute_def link_keys kinds_from_link find_of_type)
next
  case (Cons f rest)
  then obtain a where "a \<noteq> []" "f = address_filter a"
    using page_addresses [OF assms, of f] by (auto elim: is_addressE)
  thus ?thesis using assms Cons
    by (simp add: getFiltersFromTheRoute_def link_keys kinds_from_link find_of_type)
qed

lemma mset_types: "mset (of_type ADDRESS fs @ of_type STREAM_KIND fs @ of_type MESSAGE_KIND fs) = mset fs"
proof (induction fs)
  case (Cons f fs) thus ?case by (cases "nf_type f") (simp_all add: of_type_def)
qed (simp add: of_type_def)

lemma link_key_present:
  "getFiltersFromTheRoute query \<noteq> [] \<Longrightarrow> filter (\<lambda>k. k \<noteq> ''node'') (map fst query) \<noteq> []"
proof (rule ccontr)
  assume "getFiltersFromTheRoute query \<noteq> []" "\<not> filter (\<lambda>k. k \<noteq> ''node'') (map fst query) \<noteq> []"
  hence "map_of query k = None" if "k \<noteq> ''node''" for k
    using that by (auto simp: filter_empty_conv map_of_eq_None_iff)
  with \<open>getFiltersFromTheRoute query \<noteq> []\<close> show False by (simp add: getFiltersFromTheRoute_def kinds_from_def)
qed

lemma added_to_initial: "fr_add p \<Longrightarrow> ms_activeFilters (toggle_filter initialState_messages p) = fr_filters p"
  by (simp add: toggle_filter_def new_filters_def initialState_messages_def)

text \<open>
  C14: the link of the filter panel keeps the filters. Whatever filters of the page are active, at most
  one of them an address, the panel writes a link without error; opening that link makes the table ask
  for filters that are all defined, and the fresh slice then has the same filters active.
\<close>

theorem reload_keeps_filters:
  assumes "page_filters fs" "fs \<noteq> []" "length (of_type ADDRESS fs) \<le> 1"
  shows "\<exists>query t r a. addFiltersToRoute (map Some fs) ts node = Inr query
    \<and> listenToRouteChange initial_table \<lparr>rt_messageId = None, rt_query = query\<rparr> = (t, AddFilters r)
    \<and> request_action (AddFilters r) = Some a
    \<and> mset (ms_activeFilters (networkMessagesReducer initialState_messages a)) = mset fs"
proof -
  let ?q = "link_of fs ts node"
  have add: "addFiltersToRoute (map Some fs) ts node = Inr ?q"
    by (auto simp: addFiltersToRoute_def comp_def)
  have read: "getFiltersFromTheRoute ?q = map Some (of_type ADDRESS fs @ of_type STREAM_KIND fs @ of_type MESSAGE_KIND fs)"
    using filters_of_link [OF assms(1)] assms(3) by simp
  have "of_type ADDRESS fs @ of_type STREAM_KIND fs @ of_type MESSAGE_KIND fs \<noteq> []"
    using mset_types [of fs] assms(2) by (metis mset_zero_iff)
  hence "getFiltersFromTheRoute ?q \<noteq> []" unfolding read by simp
  with link_key_present [OF this] have "\<exists>t r. listenToRouteChange initial_table \<lparr>rt_messageId = None, rt_query = ?q\<rparr> = (t, AddFilters r)
      \<and> lr_filters r = getFiltersFromTheRoute ?q"
    by (simp add: listenToRouteChange_def initial_table_def)
  then obtain t r where open_link: "listenToRouteChange initial_table \<lparr>rt_messageId = None, rt_query = ?q\<rparr> = (t, AddFilters r)"
    and r: "lr_filters r = getFiltersFromTheRoute ?q" by blast
  have "\<exists>p. link_filter_request r = Some p \<and> fr_add p
      \<and> fr_filters p = of_type ADDRESS fs @ of_type STREAM_KIND fs @ of_type MESSAGE_KIND fs"
    unfolding link_filter_request_def r read by (auto simp: comp_def)
  then obtain p where p: "link_filter_request r = Some p" "fr_add p"
      "fr_filters p = of_type ADDRESS fs @ of_type STREAM_KIND fs @ of_type MESSAGE_KIND fs" by blast
  have "mset (ms_activeFilters (networkMessagesReducer initialState_messages (NETWORK_TOGGLE_FILTER p))) = mset fs"
    by (simp add: added_to_initial [OF p(2)] p(3) mset_types [of fs, simplified])
  with add open_link p(1) show ?thesis by auto
qed

lemma second_address_lost:
  "a \<noteq> [] \<Longrightarrow> getFiltersFromTheRoute (link_of [address_filter a, address_filter b] ts n) = [Some (address_filter a)]"
  by (simp add: getFiltersFromTheRoute_def link_keys kind_text_def of_type_def present_def kinds_from_def)

lemma unknown_kind_throws:
  assumes "map_of query ''stream_kind'' = Some s" "v \<in> set (js_split (CHR '','') s)" "FStr v \<notin> nf_value ` set availableFilters"
  shows "addFiltersToRoute (getFiltersFromTheRoute query) ts n = Inl (TypeError ''type'')"
proof -
  have "List.find (\<lambda>f. nf_value f = FStr v) availableFilters = None"
    using assms(3) by (force simp: find_None_iff)
  hence "None \<in> set (getFiltersFromTheRoute query)"
    using assms(1,2) by (force simp: getFiltersFromTheRoute_def kinds_from_def)
  thus ?thesis by (simp add: addFiltersToRoute_def)
qed

text \<open>A link that names a kind of stream twice makes its filter active twice.\<close>

lemma repeated_kind_active_twice:
  assumes "f \<in> set availableFilters"
  shows "\<exists>query r p. getFiltersFromTheRoute query = [Some f, Some f] \<and> lr_filters r = getFiltersFromTheRoute query
    \<and> link_filter_request r = Some p
    \<and> ms_activeFilters (networkMessagesReducer initialState_messages (NETWORK_TOGGLE_FILTER p)) = [f, f]"
proof -
  let ?query = "[(''stream_kind'', js_join '','' (map (\<lambda>f. filter_value_text (nf_value f)) [f, f]))]"
  let ?r = "\<lparr>lr_filters = [Some f, Some f], lr_timestamp = \<lparr>ti_from = None, ti_to = None\<rparr>, lr_direction = None\<rparr>"
  have "getFiltersFromTheRoute ?query = [Some f, Some f]"
    using kinds_from_texts(2) [of "[f, f]"] assms by (simp add: getFiltersFromTheRoute_def kinds_from_def [of None])
  moreover have "\<exists>p. link_filter_request ?r = Some p \<and> fr_add p \<and> fr_filters p = [f, f]"
    by (simp add: link_filter_request_def)
  ultimately show ?thesis by (metis added_to_initial networkMessagesReducer.simps(6) link_request.select_convs(1))
qed

section \<open>Clicks\<close>

lemma page_value_eq:
  assumes "f \<in> set availableFilters \<or> is_address f" "g \<in> set availableFilters \<or> is_address g" "nf_value f = nf_value g"
  shows "f = g"
  using assms(1)
proof
  assume f: "f \<in> set availableFilters"
  hence "g \<in> set availableFilters" using assms(2,3) by (metis address_type(2) image_eqI is_addressE)
  with f show ?thesis using available_values assms(3) by (auto simp: distinct_map inj_on_def)
next
  assume f: "is_address f"
  hence "is_address g" using assms(2,3) by (metis address_type(2) image_eqI is_addressE)
  with f show ?thesis using assms(3) by (auto elim!: is_addressE)
qed

lemma new_filters_set:
  assumes "list_all (\<lambda>f. f \<in> set availableFilters \<or> is_address f) (ms_activeFilters s @ fs)"
  shows "set (new_filters s (filter_action fs True)) = set (ms_activeFilters s) \<union> set fs"
    and "set (new_filters s (filter_action fs False)) = set (ms_activeFilters s) - set fs"
proof -
  have eq: "f = g" if "f \<in> set (ms_activeFilters s) \<union> set fs" "g \<in> set (ms_activeFilters s) \<union> set fs" "nf_value f = nf_value g" for f g
    using that assms page_value_eq [of f g] by (auto simp: list_all_iff)
  have same: "list_ex (\<lambda>g. same_value g f) gs \<longleftrightarrow> f \<in> set gs"
    if "set gs \<subseteq> set (ms_activeFilters s) \<union> set fs" "f \<in> set (ms_activeFilters s) \<union> set fs" for f gs
    using that eq [of _ f] by (auto simp: same_value_def list_ex_iff)
  show "set (new_filters s (filter_action fs True)) = set (ms_activeFilters s) \<union> set fs"
    by (auto simp: new_filters_def filter_action_def same)
  show "set (new_filters s (filter_action fs False)) = set (ms_activeFilters s) - set fs"
    by (auto simp: new_filters_def filter_action_def same)
qed

text \<open>
  A click on a filter of the panel flips that filter and no other; a click on a category removes its
  filters if all of them are active and makes all of them active otherwise, keeping the others.
\<close>

theorem panel_click_toggles:
  assumes "page_filters (ms_activeFilters s)" "c \<in> set (concat networkAvailableFilters)" "f \<in> set (fc_filters c)"
  shows "set (ms_activeFilters (networkMessagesReducer s (NETWORK_TOGGLE_FILTER (toggleFilter (ms_activeFilters s) f))))
      = (if f \<in> set (ms_activeFilters s) then set (ms_activeFilters s) - {f} else insert f (set (ms_activeFilters s)))
    \<and> set (ms_activeFilters (networkMessagesReducer s (NETWORK_TOGGLE_FILTER (filterByCategory (ms_activeFilters s) c))))
      = (if set (fc_filters c) \<subseteq> set (ms_activeFilters s) then set (ms_activeFilters s) - set (fc_filters c)
         else set (ms_activeFilters s) \<union> set (fc_filters c))"
proof -
  have "set (fc_filters c) \<subseteq> set availableFilters" using assms(2) by (auto simp: availableFilters_def)
  hence ok: "list_all (\<lambda>f. f \<in> set availableFilters \<or> is_address f) (ms_activeFilters s @ fc_filters c)"
      "list_all (\<lambda>f. f \<in> set availableFilters \<or> is_address f) (ms_activeFilters s @ [f])"
    using assms(1,3) by (auto simp: page_filters_def list_all_iff)
  show ?thesis using new_filters_set [OF ok(1)] new_filters_set [OF ok(2)]
    by (auto simp: toggleFilter_def filterByCategory_def toggle_filter_def list_all_iff subset_eq)
qed

lemma address_click:
  assumes "tb_activeFilters t = ms_activeFilters s"
  shows "FStr (nm_address m) \<in> nf_value ` set (new_filters s (filterByAddress t m))
    \<longleftrightarrow> FStr (nm_address m) \<notin> nf_value ` set (ms_activeFilters s)"
proof (cases "FStr (nm_address m) \<in> nf_value ` set (ms_activeFilters s)")
  case True
  hence "list_ex (\<lambda>f. nf_value f = FStr (nm_address m)) (ms_activeFilters s)" by (force simp: list_ex_iff)
  thus ?thesis using True assms by (auto simp: filterByAddress_def filter_action_def new_filters_def same_value_def)
next
  case False
  hence "\<not> list_ex (\<lambda>f. nf_value f = FStr (nm_address m)) (ms_activeFilters s)" by (force simp: list_ex_iff)
  thus ?thesis using False assms
    by (simp add: filterByAddress_def filter_action_def new_filters_def same_value_def list_ex_iff)
qed

lemma clear_filters: "tb_activeFilters t = ms_activeFilters s \<Longrightarrow> new_filters s (clearFilters t) = []"
  by (auto simp: clearFilters_def filter_action_def new_filters_def same_value_def filter_empty_conv list_ex_iff)

section \<open>Witnesses\<close>

definition sample_filters :: "NetworkMessagesFilter list" where
  "sample_filters = [hd availableFilters, address_filter ''1.2.3.4:8302'']"

lemma available_first:
  "hd availableFilters = \<lparr>nf_type = STREAM_KIND, nf_display = ''Multistream'', nf_value = FStr ''/multistream/1.0.0'', nf_tooltip = Some []\<rparr>"
  "hd availableFilters \<in> set availableFilters"
  by (simp_all add: availableFilters_def networkAvailableFilters_def filters_multiplexing_def)

lemma sample_page_filters: "page_filters sample_filters"
  unfolding page_filters_def sample_filters_def is_address_def available_values_eq
  using available_first by (simp add: address_filter_def available_texts_def image_iff)

theorem reload_keeps_filters_witness:
  "\<exists>query t r a. addFiltersToRoute (map Some sample_filters) \<lparr>ti_from = Some 5, ti_to = Some 9\<rparr> (Some ''n'') = Inr query
    \<and> listenToRouteChange initial_table \<lparr>rt_messageId = None, rt_query = query\<rparr> = (t, AddFilters r)
    \<and> request_action (AddFilters r) = Some a
    \<and> mset (ms_activeFilters (networkMessagesReducer initialState_messages a)) = mset sample_filters"
  by (rule reload_keeps_filters [OF sample_page_filters])
    (simp_all add: sample_filters_def of_type_def address_filter_def available_first(1))

theorem panel_click_toggles_witness:
  "set (ms_activeFilters (networkMessagesReducer ((initialState_messages :: unit NetworkMessagesState)\<lparr>ms_activeFilters := sample_filters\<rparr>)
     (NETWORK_TOGGLE_FILTER (toggleFilter sample_filters (hd availableFilters))))) = {address_filter ''1.2.3.4:8302''}"
proof -
  have "hd filters_multiplexing \<in> set (concat networkAvailableFilters)" "hd availableFilters \<in> set (fc_filters (hd filters_multiplexing))"
    by (simp_all add: availableFilters_def networkAvailableFilters_def filters_multiplexing_def)
  from panel_click_toggles [of "(initialState_messages :: unit NetworkMessagesState)\<lparr>ms_activeFilters := sample_filters\<rparr>", OF _ this]
  show ?thesis using sample_page_filters by (auto simp: sample_filters_def available_first(1) address_filter_def)
qed

end
