(* ===== verification/NetworkBlocks.thy ===== *)
theory NetworkBlocks
  imports ArrayHelper LoadingError
begin

text \<open>
  The network blocks page (\<open>features/network/blocks\<close>): the debugger's block events with their
  latencies, the slice with its sort and hash filters, and the effects with the polling timer. The
  reducer may throw, so it returns a result.
\<close>

section \<open>State\<close>

record NetworkBlock =
  nb_messageKind :: string
  nb_producerId :: string
  nb_hash :: string
  nb_date :: string
  nb_timestamp :: string
  nb_sender :: string
  nb_receiver :: string
  nb_messageId :: int
  nb_height :: int
  nb_globalSlot :: int
  nb_incoming :: string
  nb_sentLatency :: "rat option"
  nb_receivedLatency :: "rat option"

datatype NetworkBlockKey =
  B_messageKind | B_producerId | B_hash | B_date | B_timestamp | B_sender | B_receiver | B_messageId
| B_height | B_globalSlot | B_incoming | B_sentLatency | B_receivedLatency

fun block_get :: "NetworkBlockKey \<Rightarrow> NetworkBlock \<Rightarrow> jsval" where
  "block_get B_messageKind b = JStr (nb_messageKind b)"
| "block_get B_producerId b = JStr (nb_producerId b)"
| "block_get B_hash b = JStr (nb_hash b)"
| "block_get B_date b = JStr (nb_date b)"
| "block_get B_timestamp b = JStr (nb_timestamp b)"
| "block_get B_sender b = JStr (nb_sender b)"
| "block_get B_receiver b = JStr (nb_receiver b)"
| "block_get B_messageId b = of_i (nb_messageId b)"
| "block_get B_height b = of_i (nb_height b)"
| "block_get B_globalSlot b = of_i (nb_globalSlot b)"
| "block_get B_incoming b = JStr (nb_incoming b)"
| "block_get B_sentLatency b = of_num (nb_sentLatency b)"
| "block_get B_receivedLatency b = of_num (nb_receivedLatency b)"

record NetworkBlocksState =
  bs_blocks :: "NetworkBlock list"
  bs_filteredBlocks :: "NetworkBlock list"
  bs_stream :: bool
  bs_sort :: "NetworkBlockKey TableSort"
  bs_openSidePanel :: bool
  bs_allFilters :: "string list"
  bs_activeFilters :: "string list"
  bs_activeBlock :: "int option"
  bs_earliestBlock :: "int option"

datatype NetworkBlocksActions =
  NETWORK_BLOCKS_INIT
| NETWORK_BLOCKS_CLOSE
| NETWORK_BLOCKS_GET_BLOCKS "int option"
| NETWORK_BLOCKS_GET_BLOCKS_SUCCESS "NetworkBlock list"
| NETWORK_BLOCKS_SORT "NetworkBlockKey TableSort"
| NETWORK_BLOCKS_TOGGLE_SIDE_PANEL
| NETWORK_BLOCKS_TOGGLE_FILTER string
| NETWORK_BLOCKS_SET_ACTIVE_BLOCK "int option" bool
| NETWORK_BLOCKS_GET_EARLIEST_BLOCK
| NETWORK_BLOCKS_SET_EARLIEST_BLOCK "int option"

definition initialState_blocks :: NetworkBlocksState where
  "initialState_blocks = \<lparr>bs_blocks = [], bs_filteredBlocks = [], bs_stream = True,
     bs_sort = \<lparr>sortBy = B_date, sortDirection = ASC\<rparr>, bs_openSidePanel = False,
     bs_allFilters = [], bs_activeFilters = [], bs_activeBlock = None, bs_earliestBlock = None\<rparr>"

section \<open>Reducer\<close>

definition getFilteredBlocks :: "NetworkBlock list \<Rightarrow> string list \<Rightarrow> NetworkBlock list" where
  "getFilteredBlocks allBlocks activeFilters =
    (if length activeFilters > 0 then filter (\<lambda>b. nb_hash b \<in> set activeFilters) allBlocks else allBlocks)"

definition block_strings :: "NetworkBlockKey list" where
  "block_strings = [B_date, B_hash, B_sender, B_receiver, B_messageKind]"

definition sortBlocks ::
  "(string \<Rightarrow> string \<Rightarrow> rat) \<Rightarrow> NetworkBlock list \<Rightarrow> NetworkBlockKey TableSort \<Rightarrow> NetworkBlock list" where
  "sortBlocks lc blocks tableSort = sort lc block_get blocks tableSort block_strings False"

definition min_time :: "int \<Rightarrow> int \<Rightarrow> int" where
  "min_time t1 t2 = (if t2 < t1 then t2 else t1)"

definition latency :: "int \<Rightarrow> int \<Rightarrow> rat" where
  "latency t fastestTime = of_int (t - fastestTime) / 1000000000"

definition applyNewLatencies :: "NetworkBlock list \<Rightarrow> NetworkBlock list result" where
  "applyNewLatencies blocks =
    js_bind (js_mapM (\<lambda>b. js_BigInt (nb_timestamp b)) blocks) (\<lambda>times.
    js_bind (js_reduce1 min_time times) (\<lambda>fastestTime.
    js_mapM (\<lambda>b. js_bind (js_BigInt (nb_timestamp b)) (\<lambda>t. Inr (b
      \<lparr>nb_receivedLatency := (if nb_receivedLatency b \<noteq> None then Some (latency t fastestTime) else None),
       nb_sentLatency := (if nb_sentLatency b \<noteq> None then Some (latency t fastestTime) else None)\<rparr>))) blocks))"

fun networkBlocksReducer ::
  "(string \<Rightarrow> string \<Rightarrow> rat) \<Rightarrow> NetworkBlocksState \<Rightarrow> NetworkBlocksActions \<Rightarrow> NetworkBlocksState result" where
  "networkBlocksReducer lc state (NETWORK_BLOCKS_GET_BLOCKS_SUCCESS payload) =
     (let blocks = sortBlocks lc payload (bs_sort state);
          filteredBlocks = getFilteredBlocks blocks (bs_activeFilters state)
      in js_bind (if length (bs_activeFilters state) > 0 then applyNewLatencies filteredBlocks
                  else Inr filteredBlocks) (\<lambda>filteredBlocks.
         Inr (state\<lparr>bs_blocks := blocks, bs_filteredBlocks := filteredBlocks,
           bs_allFilters := js_unique (map nb_hash payload)\<rparr>)))"
| "networkBlocksReducer lc state (NETWORK_BLOCKS_SORT payload) =
     Inr (state\<lparr>bs_filteredBlocks := sortBlocks lc (bs_filteredBlocks state) payload, bs_sort := payload\<rparr>)"
| "networkBlocksReducer lc state NETWORK_BLOCKS_TOGGLE_SIDE_PANEL =
     Inr (state\<lparr>bs_openSidePanel := \<not> bs_openSidePanel state\<rparr>)"
| "networkBlocksReducer lc state (NETWORK_BLOCKS_TOGGLE_FILTER payload) =
     (let activeFilters = (if payload \<in> set (bs_activeFilters state)
            then filter (\<lambda>f. f \<noteq> payload) (bs_activeFilters state) else bs_activeFilters state @ [payload]);
          filteredBlocks = getFilteredBlocks (bs_blocks state) activeFilters
      in js_bind (applyNewLatencies (sortBlocks lc filteredBlocks (bs_sort state))) (\<lambda>filteredBlocks.
         Inr (state\<lparr>bs_activeFilters := activeFilters, bs_filteredBlocks := filteredBlocks\<rparr>)))"
| "networkBlocksReducer lc state (NETWORK_BLOCKS_SET_ACTIVE_BLOCK height fetchNew) =
     Inr (state\<lparr>bs_activeBlock := height,
       bs_activeFilters := (if fetchNew then [] else bs_activeFilters state)\<rparr>)"
| "networkBlocksReducer lc state (NETWORK_BLOCKS_SET_EARLIEST_BLOCK height) =
     Inr (state\<lparr>bs_earliestBlock := height\<rparr>)"
| "networkBlocksReducer lc state NETWORK_BLOCKS_CLOSE = Inr initialState_blocks"
| "networkBlocksReducer lc state _ = Inr state"

section \<open>Service\<close>

record raw_block =
  rb_message_kind :: string
  rb_producer_id :: string
  rb_hash :: string
  rb_secs :: nat
  rb_nanos :: nat
  rb_sender_addr :: string
  rb_receiver_addr :: string
  rb_block_height :: int
  rb_global_slot :: int
  rb_message_id :: int
  rb_incoming :: bool

text \<open>The loop that pads the nanoseconds to nine digits.\<close>

function pad_nano :: "string \<Rightarrow> string" where
  "pad_nano newNano = (if length newNano < 9 then pad_nano (CHR ''0'' # newNano) else newNano)"
  by auto

termination pad_nano
  by (relation "measure (\<lambda>s. 9 - length s)") auto

declare pad_nano.simps [simp del]

definition getTimestamp :: "nat \<Rightarrow> nat \<Rightarrow> string" where
  "getTimestamp secs nano = nat_to_string secs @ pad_nano (nat_to_string nano)"

definition map_block :: "(rat \<Rightarrow> string) \<Rightarrow> int \<Rightarrow> raw_block \<Rightarrow> NetworkBlock result" where
  "map_block toReadableDate fastestTime b =
    (let ts = getTimestamp (rb_secs b) (rb_nanos b) in
     js_bind (js_BigInt ts) (\<lambda>t. Inr
      \<lparr>nb_messageKind = rb_message_kind b, nb_producerId = rb_producer_id b, nb_hash = rb_hash b,
       nb_date = toReadableDate (of_nat (rb_secs b) * 1000 + of_nat (rb_nanos b) / 1000000),
       nb_timestamp = ts, nb_sender = rb_sender_addr b, nb_receiver = rb_receiver_addr b,
       nb_messageId = rb_message_id b, nb_height = rb_block_height b, nb_globalSlot = rb_global_slot b,
       nb_incoming = (if rb_incoming b then ''Incoming'' else ''Outgoing''),
       nb_sentLatency = (if rb_incoming b then None else Some (latency t fastestTime)),
       nb_receivedLatency = (if rb_incoming b then Some (latency t fastestTime) else None)\<rparr>))"

text \<open>The debugger may answer with nothing (\<open>null\<close>).\<close>

definition mapBlocks :: "(rat \<Rightarrow> string) \<Rightarrow> raw_block list option \<Rightarrow> NetworkBlock list result" where
  "mapBlocks toReadableDate blocks = (case blocks of None \<Rightarrow> Inr []
    | Some events \<Rightarrow>
        js_bind (js_mapM (\<lambda>b. js_BigInt (getTimestamp (rb_secs b) (rb_nanos b))) events) (\<lambda>times.
        js_bind (js_reduce1 min_time times) (\<lambda>fastestTime.
        js_mapM (map_block toReadableDate fastestTime) events)))"

section \<open>Effects\<close>

record block_effects =
  bfx_streamActive :: bool
  bfx_waitingForServer :: bool
  bfx_timer :: bool
  bfx_blocks :: "int option option"
  bfx_earliest :: "int option option"

definition block_effects_start :: block_effects where
  "block_effects_start = \<lparr>bfx_streamActive = False, bfx_waitingForServer = False, bfx_timer = False,
     bfx_blocks = None, bfx_earliest = None\<rparr>"

text \<open>What the class emits: actions, error reports and navigations to the page of a height.\<close>

datatype block_out = BAct NetworkBlocksActions | BErr ErrorPreviewActions | BNav "int option"

definition or_height :: "int option \<Rightarrow> int option \<Rightarrow> int option" where
  "or_height a b = (if truthy_int a then a else b)"

definition report :: "(int \<Rightarrow> string \<Rightarrow> string) \<Rightarrow> int \<Rightarrow> NetworkBlocksActions \<Rightarrow> http_error \<Rightarrow> block_out list" where
  "report rd now a err = map (case_sum BErr BAct) (catchErrorAndRepeat rd now DEBUGGER a err)"

text \<open>
  An event is an action with the slice after the reducer, an answer of the service, or a tick. The
  value kept with the request for the latest height is the slice's active block when it was sent.
\<close>

datatype block_event =
  BlockAction NetworkBlocksState NetworkBlocksActions
| BlocksReply "raw_block list option"
| BlocksFail http_error
| EarliestReply "int option"
| EarliestFail http_error
| BlockTick

fun block_action :: "NetworkBlocksState \<Rightarrow> NetworkBlocksActions \<Rightarrow> block_effects \<Rightarrow> block_effects \<times> block_out list" where
  "block_action s NETWORK_BLOCKS_GET_EARLIEST_BLOCK e = (e\<lparr>bfx_earliest := Some (bs_activeBlock s)\<rparr>, [])"
| "block_action s NETWORK_BLOCKS_INIT e = (e\<lparr>bfx_timer := True\<rparr>, [])"
| "block_action s (NETWORK_BLOCKS_GET_BLOCKS h) e =
     (e\<lparr>bfx_streamActive := bs_stream s, bfx_waitingForServer := True,
        bfx_blocks := Some (or_height h (bs_activeBlock s))\<rparr>, [])"
| "block_action s (NETWORK_BLOCKS_SET_ACTIVE_BLOCK h fetchNew) e =
     (e, if fetchNew then [BAct (NETWORK_BLOCKS_GET_BLOCKS h)] else [])"
| "block_action s NETWORK_BLOCKS_CLOSE e = (e\<lparr>bfx_streamActive := False, bfx_timer := False\<rparr>, [])"
| "block_action s _ e = (e, [])"

fun block_effects_step ::
  "(rat \<Rightarrow> string) \<Rightarrow> (int \<Rightarrow> string \<Rightarrow> string) \<Rightarrow> int \<Rightarrow> block_effects \<Rightarrow> block_event \<Rightarrow> block_effects \<times> block_out list" where
  "block_effects_step fmt rd now e (BlockAction s a) = block_action s a e"
| "block_effects_step fmt rd now e (BlocksReply raw) =
     (if bfx_blocks e = None then (e, [])
      else case mapBlocks fmt raw of
          Inr payload \<Rightarrow> (e\<lparr>bfx_waitingForServer := False, bfx_blocks := None\<rparr>,
             [BAct (NETWORK_BLOCKS_GET_BLOCKS_SUCCESS payload)])
        | Inl err \<Rightarrow> (e\<lparr>bfx_blocks := None\<rparr>,
             report rd now (NETWORK_BLOCKS_GET_BLOCKS_SUCCESS []) (plain_error ''Reduce of empty array with no initial value'')))"
| "block_effects_step fmt rd now e (BlocksFail err) =
     (if bfx_blocks e = None then (e, [])
      else (e\<lparr>bfx_blocks := None\<rparr>, report rd now (NETWORK_BLOCKS_GET_BLOCKS_SUCCESS []) err))"
| "block_effects_step fmt rd now e (EarliestReply answer) =
     (case bfx_earliest e of None \<Rightarrow> (e, [])
      | Some activeBlock \<Rightarrow> (e\<lparr>bfx_earliest := None\<rparr>,
          (case answer of
             None \<Rightarrow> report rd now (NETWORK_BLOCKS_SET_EARLIEST_BLOCK None) (plain_error ''No blocks found!'')
           | Some height \<Rightarrow> BAct (NETWORK_BLOCKS_SET_EARLIEST_BLOCK (Some height))
               # (if \<not> truthy_int activeBlock
                  then [BNav (Some height), BAct (NETWORK_BLOCKS_SET_ACTIVE_BLOCK (Some height) False),
                        BAct NETWORK_BLOCKS_INIT] else []))))"
| "block_effects_step fmt rd now e (EarliestFail err) =
     (if bfx_earliest e = None then (e, [])
      else (e\<lparr>bfx_earliest := None\<rparr>, report rd now (NETWORK_BLOCKS_SET_EARLIEST_BLOCK None) err))"
| "block_effects_step fmt rd now e BlockTick =
     (e, if bfx_timer e \<and> \<not> bfx_waitingForServer e then [BAct (NETWORK_BLOCKS_GET_BLOCKS None)] else [])"

section \<open>Timestamps\<close>

lemma pad_nano_eq: "pad_nano s = replicate (9 - length s) (CHR ''0'') @ s"
proof (induction s rule: pad_nano.induct)
  case (1 s)
  show ?case
  proof (cases "length s < 9")
    case True
    then have "9 - length s = Suc (9 - length (CHR ''0'' # s))" by simp
    then show ?thesis using 1 [OF True] True
      by (simp add: pad_nano.simps [of s] replicate_app_Cons_same)
  qed (simp add: pad_nano.simps [of s])
qed

lemma getTimestamp_value:
  assumes "nano < 10 ^ 9"
  shows "js_BigInt (getTimestamp secs nano) = Inr (int (secs * 10 ^ 9 + nano))"
proof (rule js_BigInt_digits)
  let ?n = "nat_to_string nano"
  have len: "length ?n \<le> 9" using nat_to_string_length [of nano 9] assms by simp
  have "read_base 10 0 (getTimestamp secs nano)
      = Some (secs * 10 ^ (9 - length ?n) * 10 ^ length ?n + nano)"
    by (simp add: getTimestamp_def pad_nano_eq read_base_append read_nat_to_string)
  also have "secs * 10 ^ (9 - length ?n) * 10 ^ length ?n = secs * 10 ^ 9"
    using len by (simp flip: power_add add: mult.assoc)
  finally show "read_base 10 0 (getTimestamp secs nano) = Some (secs * 10 ^ 9 + nano)" .
qed (simp_all add: getTimestamp_def pad_nano_eq)

text \<open>
  C20: the timestamp text is exact: read back as an integer it is the time in nanoseconds, because
  the nanoseconds are padded to nine digits.
\<close>

theorem getTimestamp_exact:
  assumes "nano < 10 ^ 9"
  shows "js_BigInt (getTimestamp secs nano) = Inr (int (secs * 10 ^ 9 + nano))"
  using assms by (rule getTimestamp_value)

theorem getTimestamp_exact_witness:
  "js_BigInt (getTimestamp 12 345) = Inr 12000000345"
  using getTimestamp_exact [of 345 12] by simp

section \<open>Latencies\<close>

lemma foldl_min_time: "foldl min_time x ys = Min (insert x (set ys))"
proof (induction ys arbitrary: x)
  case (Cons y ys)
  have "min_time x y = min x y" by (simp add: min_time_def min_def)
  then show ?case using Cons [of "min x y"] by (cases "ys = []") (simp_all add: min.assoc)
qed simp

lemma js_reduce1_min: "ts \<noteq> [] \<Longrightarrow> js_reduce1 min_time ts = Inr (Min (set ts))"
  by (cases ts) (simp_all add: js_reduce1_def foldl_min_time)

definition time_of :: "NetworkBlock \<Rightarrow> int" where
  "time_of b = (case js_BigInt (nb_timestamp b) of Inr t \<Rightarrow> t | Inl _ \<Rightarrow> 0)"

definition timed :: "NetworkBlock \<Rightarrow> bool" where
  "timed b \<longleftrightarrow> js_BigInt (nb_timestamp b) = Inr (time_of b)"

definition relatency :: "int \<Rightarrow> NetworkBlock \<Rightarrow> NetworkBlock" where
  "relatency m b = b
    \<lparr>nb_receivedLatency := (if nb_receivedLatency b \<noteq> None then Some (latency (time_of b) m) else None),
     nb_sentLatency := (if nb_sentLatency b \<noteq> None then Some (latency (time_of b) m) else None)\<rparr>"

lemma applyNewLatencies_eq:
  assumes "bs \<noteq> []" "\<forall>b \<in> set bs. timed b"
  shows "applyNewLatencies bs = Inr (map (relatency (Min (time_of ` set bs))) bs)"
proof -
  have "js_mapM (\<lambda>b. js_BigInt (nb_timestamp b)) bs = Inr (map time_of bs)"
    using assms(2) by (intro js_mapM_total) (simp add: timed_def)
  moreover have "js_mapM (\<lambda>b. js_bind (js_BigInt (nb_timestamp b)) (\<lambda>t. Inr (b
      \<lparr>nb_receivedLatency := (if nb_receivedLatency b \<noteq> None then Some (latency t m) else None),
       nb_sentLatency := (if nb_sentLatency b \<noteq> None then Some (latency t m) else None)\<rparr>))) bs
     = Inr (map (relatency m) bs)" for m
    using assms(2) by (intro js_mapM_total) (simp add: timed_def relatency_def)
  ultimately show ?thesis using assms(1) js_reduce1_min [of "map time_of bs"]
    by (simp add: applyNewLatencies_def)
qed

lemma latency_nonneg: "m \<le> t \<Longrightarrow> 0 \<le> latency t m"
  by (simp add: latency_def)

lemma latency_scaled: "latency t m * 1000000000 = of_int (t - m)"
  by (simp add: latency_def)

text \<open>
  when a filter is applied, the latencies of the remaining blocks are recomputed relative to
  the earliest of them: no latency is negative, some remaining block has latency 0, and a block
  keeps the kind of latency it had.
\<close>

theorem applyNewLatencies_relative:
  assumes "bs \<noteq> []" "\<forall>b \<in> set bs. timed b"
  shows "\<exists>rs m. applyNewLatencies bs = Inr rs \<and> length rs = length bs \<and> m \<in> time_of ` set bs
    \<and> (\<forall>i < length bs.
        (\<forall>l. nb_receivedLatency (rs ! i) = Some l \<longrightarrow> 0 \<le> l \<and> l * 1000000000 = of_int (time_of (bs ! i) - m))
      \<and> (\<forall>l. nb_sentLatency (rs ! i) = Some l \<longrightarrow> 0 \<le> l \<and> l * 1000000000 = of_int (time_of (bs ! i) - m))
      \<and> (nb_receivedLatency (rs ! i) = None \<longleftrightarrow> nb_receivedLatency (bs ! i) = None)
      \<and> (nb_sentLatency (rs ! i) = None \<longleftrightarrow> nb_sentLatency (bs ! i) = None))"
proof -
  let ?m = "Min (time_of ` set bs)"
  have le: "?m \<le> time_of (bs ! i)" if "i < length bs" for i using that by simp
  have "?m \<in> time_of ` set bs" using assms(1) by (intro Min_in) simp_all
  then show ?thesis
    by (intro exI [of _ "map (relatency ?m) bs"] exI [of _ ?m])
      (auto simp: applyNewLatencies_eq [OF assms] relatency_def latency_nonneg le latency_scaled)
qed

definition sample_block :: "nat \<Rightarrow> string \<Rightarrow> NetworkBlock" where
  "sample_block secs h = \<lparr>nb_messageKind = [], nb_producerId = [], nb_hash = h, nb_date = [],
     nb_timestamp = getTimestamp secs 0, nb_sender = [], nb_receiver = [], nb_messageId = 0, nb_height = 0,
     nb_globalSlot = 0, nb_incoming = ''Incoming'', nb_sentLatency = None, nb_receivedLatency = Some 0\<rparr>"


lemma timed_sample [simp]: "timed (sample_block secs h)" "time_of (sample_block secs h) = int secs * 10 ^ 9"
  using getTimestamp_value [of 0 secs] by (simp_all add: timed_def time_of_def sample_block_def)

theorem applyNewLatencies_relative_witness:
  "\<exists>rs m. applyNewLatencies [sample_block 7 ''a'', sample_block 5 ''b''] = Inr rs \<and> length rs = 2
    \<and> m \<in> {7 * 10 ^ 9, 5 * 10 ^ 9}"
  using applyNewLatencies_relative [of "[sample_block 7 ''a'', sample_block 5 ''b'']"] by fastforce

text \<open>What the service makes of the debugger's events.\<close>

lemma mapBlocks_eq:
  assumes "events \<noteq> []" "\<forall>b \<in> set events. rb_nanos b < 10 ^ 9"
  shows "\<exists>bs. mapBlocks fmt (Some events) = Inr bs \<and> map nb_hash bs = map rb_hash events
    \<and> (\<forall>b \<in> set bs. timed b \<and> (nb_receivedLatency b = None) \<noteq> (nb_sentLatency b = None))"
proof -
  let ?t = "\<lambda>b. int (rb_secs b * 10 ^ 9 + rb_nanos b)"
  have t: "js_BigInt (getTimestamp (rb_secs b) (rb_nanos b)) = Inr (?t b)" if "b \<in> set events" for b
    using assms(2) that getTimestamp_value by blast
  have times: "js_mapM (\<lambda>b. js_BigInt (getTimestamp (rb_secs b) (rb_nanos b))) events = Inr (map ?t events)"
    by (rule js_mapM_total) (rule t)
  let ?m = "Min (set (map ?t events))"
  let ?f = "\<lambda>b. case map_block fmt ?m b of Inr x \<Rightarrow> x"
  have f: "map_block fmt ?m b = Inr (?f b) \<and> nb_hash (?f b) = rb_hash b \<and> timed (?f b)
      \<and> (nb_receivedLatency (?f b) = None) \<noteq> (nb_sentLatency (?f b) = None)" if "b \<in> set events" for b
    using t [OF that] by (simp add: map_block_def timed_def time_of_def)
  then have "js_mapM (map_block fmt ?m) events = Inr (map ?f events)"
    by (intro js_mapM_total) blast
  then have "mapBlocks fmt (Some events) = Inr (map ?f events)"
    unfolding mapBlocks_def option.case times js_bind_simps
    using js_reduce1_min [of "map ?t events"] assms(1) by simp
  then show ?thesis using f by (intro exI [of _ "map ?f events"]) auto
qed

section \<open>The slice invariant\<close>

interpretation block_table: table_columns block_get block_strings
  by unfold_locales (auto simp: block_strings_def)

text \<open>A block without its latencies, which depend on the filter in force.\<close>

definition bare :: "NetworkBlock \<Rightarrow> NetworkBlock" where
  "bare b = b\<lparr>nb_sentLatency := None, nb_receivedLatency := None\<rparr>"

lemma bare_relatency [simp]: "bare (b\<lparr>nb_receivedLatency := r, nb_sentLatency := t\<rparr>) = bare b"
  by (simp add: bare_def)

lemma applyNewLatencies_bare: "applyNewLatencies bs = Inr rs \<Longrightarrow> map bare rs = map bare bs"
  by (auto simp: applyNewLatencies_def js_bind_Inr_iff js_mapM_Inr list_all2_conv_all_nth
      intro!: nth_equalityI) (metis bare_relatency)

text \<open>
  The filters as a user sees them, from the actions alone: those whose chips are active, and those the
  table was computed with. A jump to another height makes no chip active and leaves the table as it is
  until the next answer.
\<close>

fun chips_step :: "string list \<times> string list \<Rightarrow> NetworkBlocksActions \<Rightarrow> string list \<times> string list" where
  "chips_step (active, _) (NETWORK_BLOCKS_GET_BLOCKS_SUCCESS _) = (active, active)"
| "chips_step (active, _) (NETWORK_BLOCKS_TOGGLE_FILTER f) =
    (let toggled = (if f \<in> set active then remove1 f active else active @ [f]) in (toggled, toggled))"
| "chips_step (active, shown) (NETWORK_BLOCKS_SET_ACTIVE_BLOCK _ fetchNew) = (if fetchNew then [] else active, shown)"
| "chips_step _ NETWORK_BLOCKS_CLOSE = ([], [])"
| "chips_step filters _ = filters"

definition blocks_inv :: "NetworkBlocksState \<times> string list \<times> string list \<Rightarrow> bool" where
  "blocks_inv = (\<lambda>(s, active, shown). bs_activeFilters s = active
     \<and> mset (map bare (bs_filteredBlocks s)) = mset (map bare (getFilteredBlocks (bs_blocks s) shown))
     \<and> distinct (bs_allFilters s) \<and> set (bs_allFilters s) = nb_hash ` set (bs_blocks s)
     \<and> distinct active)"

definition with_chips :: "(string \<Rightarrow> string \<Rightarrow> rat) \<Rightarrow> NetworkBlocksState \<times> string list \<times> string list
    \<Rightarrow> NetworkBlocksActions \<Rightarrow> (NetworkBlocksState \<times> string list \<times> string list) result" where
  "with_chips lc = (\<lambda>(s, c) a. js_bind (networkBlocksReducer lc s a) (\<lambda>s'. Inr (s', chips_step c a)))"

lemma run_with_chips:
  "run_reducer (networkBlocksReducer lc) s as = Inr s' \<Longrightarrow>
   run_reducer (with_chips lc) (s, c) as = Inr (s', foldl chips_step c as)"
proof (induction as arbitrary: s c)
  case (Cons a as)
  then obtain s1 where "networkBlocksReducer lc s a = Inr s1" "run_reducer (networkBlocksReducer lc) s1 as = Inr s'"
    by (auto simp: js_bind_Inr_iff)
  with Cons.IH [of s1 "chips_step c a"] show ?case by (simp add: with_chips_def)
qed simp

lemma mset_sortBlocks [simp]: "mset (sortBlocks lc bs srt) = mset bs"
  by (simp add: sortBlocks_def)

lemma set_sortBlocks [simp]: "set (sortBlocks lc bs srt) = set bs"
  by (simp add: sortBlocks_def)

lemma mset_bare_sortBlocks [simp]: "mset (map bare (sortBlocks lc bs srt)) = mset (map bare bs)"
  by (metis mset_map mset_sortBlocks)

lemma blocks_step_inv:
  assumes "blocks_inv (s, active, shown)" "networkBlocksReducer lc s a = Inr s'"
  shows "blocks_inv (s', chips_step (active, shown) a)"
proof (cases a)
  case (NETWORK_BLOCKS_GET_BLOCKS_SUCCESS payload)
  obtain fs where s': "s' = s\<lparr>bs_blocks := sortBlocks lc payload (bs_sort s), bs_filteredBlocks := fs,
      bs_allFilters := js_unique (map nb_hash payload)\<rparr>"
    and fs: "map bare fs = map bare (getFilteredBlocks (sortBlocks lc payload (bs_sort s)) (bs_activeFilters s))"
    using assms(2) NETWORK_BLOCKS_GET_BLOCKS_SUCCESS applyNewLatencies_bare
    by (auto simp: js_bind_Inr_iff split: if_splits)
  then have "mset (map bare fs) = mset (map bare (getFilteredBlocks (sortBlocks lc payload (bs_sort s)) (bs_activeFilters s)))"
    by (simp only: fs)
  then show ?thesis using s' assms(1) NETWORK_BLOCKS_GET_BLOCKS_SUCCESS by (simp add: blocks_inv_def)
next
  case (NETWORK_BLOCKS_SORT srt)
  then show ?thesis using assms by (auto simp: blocks_inv_def)
next
  case (NETWORK_BLOCKS_TOGGLE_FILTER f)
  let ?as = "if f \<in> set (bs_activeFilters s) then filter (\<lambda>g. g \<noteq> f) (bs_activeFilters s) else bs_activeFilters s @ [f]"
  obtain fs where s': "s' = s\<lparr>bs_activeFilters := ?as, bs_filteredBlocks := fs\<rparr>"
    and fs: "map bare fs = map bare (sortBlocks lc (getFilteredBlocks (bs_blocks s) ?as) (bs_sort s))"
    using assms(2) NETWORK_BLOCKS_TOGGLE_FILTER applyNewLatencies_bare by (auto simp: js_bind_Inr_iff)
  have chips: "chips_step (active, shown) a = (?as, ?as)" "distinct ?as"
    using assms(1) NETWORK_BLOCKS_TOGGLE_FILTER by (auto simp: blocks_inv_def distinct_remove1_removeAll removeAll_filter_not_eq
      intro: filter_cong)
  have "mset (map bare fs) = mset (map bare (getFilteredBlocks (bs_blocks s) ?as))"
    unfolding fs by (rule mset_bare_sortBlocks)
  then show ?thesis using assms(1) s' chips unfolding blocks_inv_def by simp
qed (use assms in \<open>auto simp: blocks_inv_def initialState_blocks_def getFilteredBlocks_def\<close>)

interpretation blocks: partial_slice "(initialState_blocks, [], [])" "with_chips lc" blocks_inv "\<lambda>_. True" for lc
proof unfold_locales
  show "blocks_inv (initialState_blocks, [], [])"
    by (simp add: blocks_inv_def initialState_blocks_def getFilteredBlocks_def)
next
  fix st st' :: "NetworkBlocksState \<times> string list \<times> string list" and a
  assume "blocks_inv st" "with_chips lc st a = Inr st'"
  then show "blocks_inv st'"
    using blocks_step_inv by (cases st) (auto simp: with_chips_def js_bind_Inr_iff)
qed

text \<open>
  C21: after any actions during which the reducer does not throw, the active filters are those the user
  toggled since the last jump to another height, and the table shows exactly the blocks of the last
  answer whose hash is among the filters it was computed with (all of them without a filter), up to
  order and recomputed latencies: the active ones, except between a jump and the next answer, when it
  still has the ones active before the jump. The filter chips on offer are the distinct hashes of the
  last answer.
\<close>

theorem blocks_reachable:
  assumes "run_reducer (networkBlocksReducer lc) initialState_blocks as = Inr s"
    "foldl chips_step ([], []) as = (active, shown)"
  shows "bs_activeFilters s = active
    \<and> mset (map bare (bs_filteredBlocks s))
      = mset (map bare (filter (\<lambda>b. shown = [] \<or> nb_hash b \<in> set shown) (bs_blocks s)))
    \<and> distinct (bs_allFilters s) \<and> set (bs_allFilters s) = nb_hash ` set (bs_blocks s)"
  using blocks.run_inv [OF _ run_with_chips [OF assms(1)]] assms(2)
  by (cases shown) (simp_all add: blocks_inv_def getFilteredBlocks_def list_all_iff)

theorem blocks_reachable_witness:
  "\<exists>s. run_reducer (networkBlocksReducer code_unit_compare) initialState_blocks
      [NETWORK_BLOCKS_GET_BLOCKS_SUCCESS [sample_block 7 ''a'', sample_block 5 ''b''],
       NETWORK_BLOCKS_TOGGLE_FILTER ''b'', NETWORK_BLOCKS_SET_ACTIVE_BLOCK (Some 8) True] = Inr s
    \<and> bs_activeFilters s = [] \<and> map nb_hash (bs_filteredBlocks s) = [''b'']
    \<and> mset (map bare (bs_filteredBlocks s)) = mset (map bare (filter (\<lambda>b. nb_hash b = ''b'') (bs_blocks s)))"
proof -
  let ?as = "[NETWORK_BLOCKS_GET_BLOCKS_SUCCESS [sample_block 7 ''a'', sample_block 5 ''b''],
       NETWORK_BLOCKS_TOGGLE_FILTER ''b'', NETWORK_BLOCKS_SET_ACTIVE_BLOCK (Some 8) True]"
  have hash: "nb_hash (sample_block n h) = h" "nb_date (sample_block n h) = []" for n h
    by (simp_all add: sample_block_def)
  obtain s where s: "run_reducer (networkBlocksReducer code_unit_compare) initialState_blocks ?as = Inr s"
      "map nb_hash (bs_filteredBlocks s) = [''b'']"
    by (simp add: initialState_blocks_def getFilteredBlocks_def sortBlocks_def sort_def block_strings_def
        stringSort_def stringKey_def hash applyNewLatencies_eq relatency_def)
  have "foldl chips_step ([], []) ?as = ([], [''b''])" by simp
  from blocks_reachable [OF s(1) this] s show ?thesis by (intro exI [of _ s]) simp
qed

section \<open>A failed poll\<close>

definition blocks_blocked :: "block_effects \<Rightarrow> bool" where
  "blocks_blocked e \<longleftrightarrow> bfx_waitingForServer e \<and> bfx_blocks e = None"

fun blocks_quiet :: "block_event \<Rightarrow> bool" where
  "blocks_quiet (BlockAction _ (NETWORK_BLOCKS_GET_BLOCKS _)) = False"
| "blocks_quiet (BlockAction _ (NETWORK_BLOCKS_SET_ACTIVE_BLOCK _ fetchNew)) = (\<not> fetchNew)"
| "blocks_quiet _ = True"

fun asks_blocks :: "block_out \<Rightarrow> bool" where
  "asks_blocks (BAct (NETWORK_BLOCKS_GET_BLOCKS _)) = True"
| "asks_blocks _ = False"

lemma report_silent: "\<not> asks_blocks (BAct a) \<Longrightarrow> out \<in> set (report rd now a err) \<Longrightarrow> \<not> asks_blocks out"
  by (auto simp: report_def catchErrorAndRepeat_def)

lemma blocks_blocked_step:
  assumes "blocks_blocked e" "blocks_quiet v"
  shows "blocks_blocked (fst (block_effects_step fmt rd now e v))"
    "out \<in> set (snd (block_effects_step fmt rd now e v)) \<Longrightarrow> \<not> asks_blocks out"
proof -
  show "blocks_blocked (fst (block_effects_step fmt rd now e v))"
  proof (cases v)
    case (BlockAction s a)
    then show ?thesis using assms by (cases a) (auto simp: blocks_blocked_def)
  qed (use assms in \<open>auto simp: blocks_blocked_def split: option.splits\<close>)
  show "\<not> asks_blocks out" if "out \<in> set (snd (block_effects_step fmt rd now e v))"
  proof (cases v)
    case (BlockAction s a)
    then show ?thesis using assms that by (cases a) (auto simp: blocks_blocked_def)
  qed (use assms that in \<open>auto simp: blocks_blocked_def split: option.splits if_splits dest: report_silent [rotated]\<close>)
qed

interpretation blocks_poll: blocked_effect "block_effects_step fmt rd now" blocks_blocked blocks_quiet asks_blocks
  for fmt rd now
  by unfold_locales (rule blocks_blocked_step(1), assumption+, rule blocks_blocked_step(2))

text \<open>
  after a failed request for blocks the page never polls again, not even when it is closed and
  opened again: the flag that a request is pending survives, and only asking for another height by
  hand sends a request.
\<close>

theorem blocks_poll_stops_after_error:
  assumes "bfx_blocks e = Some h" "bfx_waitingForServer e" "list_all blocks_quiet es"
  shows "\<forall>out \<in> set (snd (run_effect (block_effects_step fmt rd now)
      (fst (block_effects_step fmt rd now e (BlocksFail err))) es)). \<not> asks_blocks out"
  by (rule blocks_poll.run_blocked [OF _ assms(3), THEN conjunct2])
    (use assms(1,2) in \<open>simp add: blocks_blocked_def\<close>)

theorem blocks_poll_stops_after_error_witness:
  "let e = fst (block_effects_step (\<lambda>_. []) (\<lambda>_ f. f) 0 (block_effects_start\<lparr>bfx_timer := True\<rparr>)
      (BlockAction initialState_blocks (NETWORK_BLOCKS_GET_BLOCKS None)))
   in \<forall>out \<in> set (snd (run_effect (block_effects_step (\<lambda>_. []) (\<lambda>_ f. f) 0)
      (fst (block_effects_step (\<lambda>_. []) (\<lambda>_ f. f) 0 e (BlocksFail (plain_error ''x''))))
      [BlockTick, BlockAction initialState_blocks NETWORK_BLOCKS_CLOSE,
       BlockAction initialState_blocks NETWORK_BLOCKS_INIT, BlockTick])). \<not> asks_blocks out"
  unfolding Let_def
  by (rule blocks_poll_stops_after_error [where h = None])
    (simp_all add: block_effects_start_def initialState_blocks_def or_height_def)

text \<open>
  with a hash filter active, a failed request crashes the reducer: the effect reports the error
  and an empty list of blocks, and recomputing the latencies of no block reduces an empty array.
\<close>

theorem blocks_failed_poll_throws:
  assumes "bfx_blocks e = Some h" "bs_activeFilters s \<noteq> []"
  shows "BAct (NETWORK_BLOCKS_GET_BLOCKS_SUCCESS []) \<in> set (snd (block_effects_step fmt rd now e (BlocksFail err)))
    \<and> networkBlocksReducer lc s (NETWORK_BLOCKS_GET_BLOCKS_SUCCESS []) = Inl (TypeError ''reduce'')"
  using assms
  by (simp add: report_def catchErrorAndRepeat_def sortBlocks_def getFilteredBlocks_def applyNewLatencies_def
      js_reduce1_def)

theorem blocks_failed_poll_throws_witness:
  "networkBlocksReducer code_unit_compare (initialState_blocks\<lparr>bs_activeFilters := [''a'']\<rparr>)
     (NETWORK_BLOCKS_GET_BLOCKS_SUCCESS []) = Inl (TypeError ''reduce'')"
  using blocks_failed_poll_throws [of "block_effects_start\<lparr>bfx_blocks := Some None\<rparr>" None
    "initialState_blocks\<lparr>bs_activeFilters := [''a'']\<rparr>" "\<lambda>_. []" "\<lambda>_ f. f" 0 "plain_error ''x''" code_unit_compare]
  by simp

end
