(* ===== verification/SplitsGraph.thy ===== *)
theory SplitsGraph
  imports ArrayHelper
begin

text \<open>
  Connected components of the peer network. The splits page computes them twice, in two ways: the
  service by depth-first search over an adjacency map (\<open>dashboard-splits.service.ts\<close>,
  \<open>identifyDisconnectedComponents\<close> and \<open>checkConnectivity\<close>), the reducer by breadth-first search over
  the list of links (\<open>dashboard-splits.reducer.ts\<close>, \<open>splitThePeers\<close>, in the theory of the slice).
  The abstract specification of both is \<open>scan\<close>: the classes of the connectedness relation in the
  order in which the list of peers meets them.
\<close>

record DashboardSplitsLink =
  sl_source :: string
  sl_target :: string

abbreviation link :: "string \<Rightarrow> string \<Rightarrow> DashboardSplitsLink" where
  "link s t \<equiv> \<lparr>sl_source = s, sl_target = t\<rparr>"

section \<open>Depth-first search\<close>

text \<open>
  The neighbours of an address in the adjacency map: a set in insertion order for every peer, and
  nothing for an address that is no peer.
\<close>

definition neighbors :: "string list \<Rightarrow> DashboardSplitsLink list \<Rightarrow> string \<Rightarrow> string list" where
  "neighbors addrs links n =
    (if n \<in> set addrs then js_unique (concat (map (\<lambda>l.
        (if sl_source l = n then [sl_target l] else []) @ (if sl_target l = n then [sl_source l] else [])) links))
     else [])"

definition graph_nodes :: "string list \<Rightarrow> DashboardSplitsLink list \<Rightarrow> string set" where
  "graph_nodes addrs links = set addrs \<union> sl_source ` set links \<union> sl_target ` set links"

text \<open>The loop of \<open>dfs\<close> over a list of neighbours; the state is the visited set and the component.\<close>

function dfs_list ::
  "string list \<Rightarrow> DashboardSplitsLink list \<Rightarrow> string list \<Rightarrow> string list \<times> string list \<Rightarrow> string list \<times> string list" where
  "dfs_list addrs links [] st = st"
| "dfs_list addrs links (n # ns) st =
     (if n \<in> set (fst st) then dfs_list addrs links ns st
      else dfs_list addrs links ns
        (dfs_list addrs links (neighbors addrs links n) (fst st @ [n], snd st @ [n])))"
  by pat_completeness auto

lemma dfs_list_grows:
  "dfs_list_dom (addrs, links, ns, st) \<Longrightarrow> set (fst st) \<subseteq> set (fst (dfs_list addrs links ns st))"
  by (induction rule: dfs_list.pinduct) (force simp: dfs_list.psimps)+

lemma finite_graph_nodes [simp]: "finite (graph_nodes addrs links)"
  by (simp add: graph_nodes_def)

lemma neighbors_outside [simp]: "n \<notin> graph_nodes addrs links \<Longrightarrow> neighbors addrs links n = []"
  by (simp add: neighbors_def graph_nodes_def)

termination dfs_list
proof (relation "inv_image (finite_psubset <*lex*> less_than)
    (\<lambda>(addrs, links, ns, st). (graph_nodes addrs links - set (fst st), length ns))", goal_cases)
  case 1
  show ?case by (intro wf_inv_image wf_lex_prod wf_finite_psubset wf_less_than)
next
  case (3 addrs links n ns st)
  then show ?case by (cases "n \<in> graph_nodes addrs links") (auto simp: finite_psubset_def)
next
  case (4 addrs links n ns st)
  then have "set (fst st) \<subseteq> set (fst (dfs_list addrs links (neighbors addrs links n) (fst st @ [n], snd st @ [n])))"
    using dfs_list_grows by fastforce
  then show ?case by (auto simp: finite_psubset_def)
qed (auto simp: finite_psubset_def)

definition dfs :: "string list \<Rightarrow> DashboardSplitsLink list \<Rightarrow> string \<Rightarrow> string list \<times> string list \<Rightarrow> string list \<times> string list" where
  "dfs addrs links node st = dfs_list addrs links (neighbors addrs links node) (fst st @ [node], snd st @ [node])"

text \<open>The loop over the peers: a new component for every address not visited yet.\<close>

fun component_loop ::
  "string list \<Rightarrow> DashboardSplitsLink list \<Rightarrow> string list \<Rightarrow> string list \<Rightarrow> string list list \<Rightarrow> string list list" where
  "component_loop addrs links [] visited components = components"
| "component_loop addrs links (p # ps) visited components =
     (if p \<notin> set visited
      then (case dfs addrs links p (visited, []) of (visited', component) \<Rightarrow>
        component_loop addrs links ps visited' (components @ [component]))
      else component_loop addrs links ps visited components)"

definition find_components :: "string list \<Rightarrow> DashboardSplitsLink list \<Rightarrow> string list list" where
  "find_components addrs links = component_loop addrs links addrs [] []"

section \<open>Connectedness\<close>

definition edges :: "DashboardSplitsLink list \<Rightarrow> (string \<times> string) set" where
  "edges links = (\<lambda>l. (sl_source l, sl_target l)) ` set links \<union> (\<lambda>l. (sl_target l, sl_source l)) ` set links"

definition conn :: "DashboardSplitsLink list \<Rightarrow> (string \<times> string) set" where
  "conn links = (edges links)\<^sup>*"

definition well_linked :: "string list \<Rightarrow> DashboardSplitsLink list \<Rightarrow> bool" where
  "well_linked addrs links \<longleftrightarrow> (\<forall>l \<in> set links. sl_source l \<in> set addrs \<and> sl_target l \<in> set addrs)"

text \<open>A set of addresses that no link leaves.\<close>

definition link_closed :: "DashboardSplitsLink list \<Rightarrow> string set \<Rightarrow> bool" where
  "link_closed links S \<longleftrightarrow> edges links `` S \<subseteq> S"

text \<open>The abstract specification: the classes of a relation in the order of first meeting.\<close>

fun scan :: "(string \<times> string) set \<Rightarrow> string set \<Rightarrow> string list \<Rightarrow> string set list" where
  "scan R seen [] = []"
| "scan R seen (x # xs) = (if x \<in> seen then scan R seen xs else R `` {x} # scan R (seen \<union> R `` {x}) xs)"

lemma edges_sym: "(x, y) \<in> edges links \<Longrightarrow> (y, x) \<in> edges links"
  by (auto simp: edges_def)

lemma edges_append: "edges (ls @ ks) = edges ls \<union> edges ks"
  by (auto simp: edges_def)

lemma edges_mono: "set ls \<subseteq> set ks \<Longrightarrow> edges ls \<subseteq> edges ks"
  by (auto simp: edges_def)

lemma conn_refl [simp]: "(x, x) \<in> conn links"
  by (simp add: conn_def)

lemma conn_sym: "(x, y) \<in> conn links \<Longrightarrow> (y, x) \<in> conn links"
proof -
  have "sym (edges links)" by (auto intro: symI edges_sym)
  then show "(x, y) \<in> conn links \<Longrightarrow> (y, x) \<in> conn links"
    unfolding conn_def by (meson sym_rtrancl symD)
qed

lemma conn_trans: "(x, y) \<in> conn links \<Longrightarrow> (y, z) \<in> conn links \<Longrightarrow> (x, z) \<in> conn links"
  by (simp add: conn_def)

lemma conn_mono: "edges ls \<subseteq> edges ks \<Longrightarrow> conn ls \<subseteq> conn ks"
  by (simp add: conn_def rtrancl_mono)

lemma conn_edge: "(x, y) \<in> edges links \<Longrightarrow> (x, y) \<in> conn links"
  by (simp add: conn_def)

lemma conn_class_eq: "(x, y) \<in> conn links \<Longrightarrow> conn links `` {x} = conn links `` {y}"
  by (auto intro: conn_trans conn_sym)

lemma conn_closed: "link_closed links S \<Longrightarrow> (x, y) \<in> conn links \<Longrightarrow> x \<in> S \<Longrightarrow> y \<in> S"
  unfolding conn_def by (erule rtrancl_induct) (auto simp: link_closed_def)

lemma class_closed: "link_closed links (conn links `` {x})"
  by (auto simp: link_closed_def intro: conn_trans conn_edge)

lemma link_closed_Un: "link_closed links S \<Longrightarrow> link_closed links T \<Longrightarrow> link_closed links (S \<union> T)"
  by (auto simp: link_closed_def)

lemma class_disjoint: "link_closed links S \<Longrightarrow> x \<notin> S \<Longrightarrow> conn links `` {x} \<inter> S = {}"
  using conn_closed conn_sym by blast

lemma well_linked_edges: "well_linked addrs links \<Longrightarrow> (x, y) \<in> edges links \<Longrightarrow> x \<in> set addrs \<and> y \<in> set addrs"
  by (auto simp: well_linked_def edges_def)

lemma conn_in_addrs: "well_linked addrs links \<Longrightarrow> x \<in> set addrs \<Longrightarrow> (x, y) \<in> conn links \<Longrightarrow> y \<in> set addrs"
  by (rule conn_closed [of links "set addrs"]) (auto simp: link_closed_def dest: well_linked_edges)

lemma set_neighbors: "well_linked addrs links \<Longrightarrow> set (neighbors addrs links n) = {y. (n, y) \<in> edges links}"
  by (fastforce simp: neighbors_def edges_def well_linked_def split: if_splits)

section \<open>Correctness of the search\<close>

lemma dfs_list_spec:
  assumes "well_linked addrs links"
  shows "\<exists>new. dfs_list addrs links ns st = (fst st @ new, snd st @ new)
    \<and> distinct new \<and> set new \<inter> set (fst st) = {}
    \<and> set ns \<subseteq> set (fst st @ new)
    \<and> (\<forall>x \<in> set new. \<forall>y. (x, y) \<in> edges links \<longrightarrow> y \<in> set (fst st @ new))
    \<and> (\<forall>x \<in> set new. \<exists>n \<in> set ns. (n, x) \<in> conn links)"
  using assms
proof (induction addrs links ns st rule: dfs_list.induct)
  case (1 addrs links st)
  then show ?case by (intro exI [of _ "[]"]) simp
next
  case (2 addrs links n ns st)
  show ?case
  proof (cases "n \<in> set (fst st)")
    case True
    then show ?thesis using 2(1) [OF True 2(4)] by fastforce
  next
    case False
    let ?st1 = "(fst st @ [n], snd st @ [n])"
    obtain new1 where new1: "dfs_list addrs links (neighbors addrs links n) ?st1 = (fst ?st1 @ new1, snd ?st1 @ new1)"
      "distinct new1" "set new1 \<inter> set (fst ?st1) = {}"
      "set (neighbors addrs links n) \<subseteq> set (fst ?st1 @ new1)"
      "\<forall>x \<in> set new1. \<forall>y. (x, y) \<in> edges links \<longrightarrow> y \<in> set (fst ?st1 @ new1)"
      "\<forall>x \<in> set new1. \<exists>m \<in> set (neighbors addrs links n). (m, x) \<in> conn links"
      using 2(2) [OF False 2(4)] by blast
    let ?st2 = "(fst ?st1 @ new1, snd ?st1 @ new1)"
    obtain new2 where new2: "dfs_list addrs links ns ?st2 = (fst ?st2 @ new2, snd ?st2 @ new2)"
      "distinct new2" "set new2 \<inter> set (fst ?st2) = {}" "set ns \<subseteq> set (fst ?st2 @ new2)"
      "\<forall>x \<in> set new2. \<forall>y. (x, y) \<in> edges links \<longrightarrow> y \<in> set (fst ?st2 @ new2)"
      "\<forall>x \<in> set new2. \<exists>m \<in> set ns. (m, x) \<in> conn links"
      using 2(3) [OF False 2(4)] unfolding new1(1) by blast
    have nb: "set (neighbors addrs links n) = {y. (n, y) \<in> edges links}"
      using 2(4) by (rule set_neighbors)
    then have reach: "\<forall>x \<in> set new1. (n, x) \<in> conn links"
      using new1(6) by (blast intro: conn_trans conn_edge)
    show ?thesis
    proof (intro exI [of _ "n # new1 @ new2"] conjI)
      show "dfs_list addrs links (n # ns) st = (fst st @ n # new1 @ new2, snd st @ n # new1 @ new2)"
        using False new1(1) new2(1) by simp
      show "\<forall>x \<in> set (n # new1 @ new2). \<forall>y. (x, y) \<in> edges links \<longrightarrow> y \<in> set (fst st @ n # new1 @ new2)"
        using new1(4,5) new2(5) nb by fastforce
      show "\<forall>x \<in> set (n # new1 @ new2). \<exists>m \<in> set (n # ns). (m, x) \<in> conn links"
        using reach new2(6) by auto
    qed (use False new1(2,3) new2(2,3,4) in auto)
  qed
qed

lemma dfs_spec:
  assumes wl: "well_linked addrs links" and x: "x \<notin> set visited"
    and closed: "link_closed links (set visited)"
  shows "\<exists>comp. dfs addrs links x (visited, []) = (visited @ comp, comp) \<and> distinct comp
    \<and> set comp = conn links `` {x} \<and> set comp \<inter> set visited = {}"
proof -
  let ?st = "(visited @ [x], [x])"
  obtain new where new: "dfs_list addrs links (neighbors addrs links x) ?st = (fst ?st @ new, snd ?st @ new)"
    "distinct new" "set new \<inter> set (fst ?st) = {}"
    "set (neighbors addrs links x) \<subseteq> set (fst ?st @ new)"
    "\<forall>a \<in> set new. \<forall>y. (a, y) \<in> edges links \<longrightarrow> y \<in> set (fst ?st @ new)"
    "\<forall>a \<in> set new. \<exists>m \<in> set (neighbors addrs links x). (m, a) \<in> conn links"
    using dfs_list_spec [OF wl] by meson
  have nb: "set (neighbors addrs links x) = {y. (x, y) \<in> edges links}" using wl by (rule set_neighbors)
  have sub: "set (x # new) \<subseteq> conn links `` {x}"
    using new(6) conn_trans [OF conn_edge] unfolding nb by fastforce
  have "y \<in> set (x # new)" if "(x, y) \<in> conn links" for y
  proof -
    have "y \<in> set (visited @ x # new)"
    proof (rule conn_closed [OF _ that])
      have "\<forall>a b. (a, b) \<in> edges links \<longrightarrow> a \<in> set visited \<longrightarrow> b \<in> set visited"
        using closed by (auto simp: link_closed_def)
      then show "link_closed links (set (visited @ x # new))"
        using new(4,5) unfolding nb by (fastforce simp: link_closed_def)
    qed simp
    moreover have "y \<notin> set visited" using class_disjoint [OF closed x] that by blast
    ultimately show ?thesis by simp
  qed
  then have "set (x # new) = conn links `` {x}" using sub by auto
  then show ?thesis using new(1,2,3) x
    by (intro exI [of _ "x # new"]) (auto simp: dfs_def)
qed

lemma component_loop_scan:
  assumes "well_linked addrs links"
    and "link_closed links (set visited)"
  shows "\<exists>new. component_loop addrs links ps visited comps = comps @ new
    \<and> map set new = scan (conn links) (set visited) ps \<and> list_all distinct new"
  using assms(2)
proof (induction ps arbitrary: visited comps)
  case (Cons p ps)
  show ?case
  proof (cases "p \<in> set visited")
    case False
    obtain comp where comp: "dfs addrs links p (visited, []) = (visited @ comp, comp)" "distinct comp"
      "set comp = conn links `` {p}"
      using dfs_spec [OF assms(1) False] Cons.prems by blast
    have "link_closed links (set (visited @ comp))"
      using Cons.prems comp(3) class_closed link_closed_Un by simp
    with Cons.IH [of "visited @ comp" "comps @ [comp]"] obtain new where
      "component_loop addrs links ps (visited @ comp) (comps @ [comp]) = (comps @ [comp]) @ new"
      "map set new = scan (conn links) (set (visited @ comp)) ps" "list_all distinct new" by blast
    then show ?thesis using False comp by (intro exI [of _ "comp # new"]) simp
  qed (use Cons in simp)
qed simp

lemma find_components_scan:
  "well_linked addrs links \<Longrightarrow>
   map set (find_components addrs links) = scan (conn links) {} addrs \<and> list_all distinct (find_components addrs links)"
  using component_loop_scan [of addrs links "[]" addrs "[]"] by (auto simp: find_components_def link_closed_def)

section \<open>What the specification says\<close>

lemma scan_classes:
  assumes "C \<in> set (scan (conn links) seen xs)"
  shows "\<exists>x \<in> set xs. x \<notin> seen \<and> C = conn links `` {x}"
  using assms by (induction xs arbitrary: seen) (fastforce split: if_splits)+

lemma scan_covers: "set xs \<subseteq> seen \<union> \<Union> (set (scan (conn links) seen xs))"
proof (induction xs arbitrary: seen)
  case (Cons x xs)
  show ?case using Cons [of seen] Cons [of "seen \<union> conn links `` {x}"] conn_refl [of x links] by auto
qed simp

lemma scan_distinct: "link_closed links seen \<Longrightarrow> distinct (scan (conn links) seen xs)"
proof (induction xs arbitrary: seen)
  case (Cons x xs)
  let ?seen' = "seen \<union> conn links `` {x}"
  have "conn links `` {x} \<notin> set (scan (conn links) ?seen' xs)"
  proof
    assume "conn links `` {x} \<in> set (scan (conn links) ?seen' xs)"
    then obtain y where "y \<notin> ?seen'" "conn links `` {x} = conn links `` {y}" using scan_classes by meson
    then show False using conn_refl [of y links] by blast
  qed
  moreover have "distinct (scan (conn links) ?seen' xs)"
    using Cons class_closed link_closed_Un by simp
  ultimately show ?case using Cons by simp
qed simp

lemma set_scan: "set (scan (conn links) {} xs) = (\<lambda>x. conn links `` {x}) ` set xs"
proof
  show "set (scan (conn links) {} xs) \<subseteq> (\<lambda>x. conn links `` {x}) ` set xs"
    using scan_classes by fastforce
  show "(\<lambda>x. conn links `` {x}) ` set xs \<subseteq> set (scan (conn links) {} xs)"
  proof
    fix C assume "C \<in> (\<lambda>x. conn links `` {x}) ` set xs"
    then obtain x where x: "x \<in> set xs" "C = conn links `` {x}" by blast
    obtain D where D: "D \<in> set (scan (conn links) {} xs)" "x \<in> D"
      using scan_covers [of xs "{}" links] x(1) by auto
    obtain y where "D = conn links `` {y}" using scan_classes [OF D(1)] by blast
    then have "C = D" using D(2) x(2) conn_class_eq [of y x links] by auto
    then show "C \<in> set (scan (conn links) {} xs)" using D(1) by simp
  qed
qed

section \<open>The components as a partition\<close>

lemma components_classes:
  "well_linked addrs links \<Longrightarrow> set ` set (find_components addrs links) = (\<lambda>x. conn links `` {x}) ` set addrs"
  using find_components_scan [of addrs links] set_scan [of links addrs] by (metis list.set_map)

lemma distinct_components:
  "well_linked addrs links \<Longrightarrow> distinct (map set (find_components addrs links))"
  using find_components_scan [of addrs links] scan_distinct [of links "{}" addrs]
  by (simp add: link_closed_def)

lemma length_components:
  "well_linked addrs links \<Longrightarrow>
   length (find_components addrs links) = card (set ` set (find_components addrs links))"
  using distinct_components [of addrs links] by (metis distinct_card length_map list.set_map)

lemma component_class:
  assumes "well_linked addrs links" "c \<in> set (find_components addrs links)" "x \<in> set c"
  shows "set c = conn links `` {x}"
proof -
  obtain y where "set c = conn links `` {y}" using components_classes [OF assms(1)] assms(2) by blast
  then show ?thesis using assms(3) conn_class_eq [of y x links] by auto
qed

lemma component_nonempty:
  "well_linked addrs links \<Longrightarrow> c \<in> set (find_components addrs links) \<Longrightarrow> c \<noteq> []"
  using components_classes [of addrs links] conn_refl by fastforce

lemma component_subset:
  assumes "well_linked addrs links" "c \<in> set (find_components addrs links)"
  shows "set c \<subseteq> set addrs"
proof -
  obtain y where "y \<in> set addrs" "set c = conn links `` {y}"
    using components_classes [OF assms(1)] assms(2) by blast
  then show ?thesis using conn_in_addrs [OF assms(1)] by auto
qed

lemma component_distinct:
  "well_linked addrs links \<Longrightarrow> c \<in> set (find_components addrs links) \<Longrightarrow> distinct c"
  using find_components_scan [of addrs links] by (simp add: list_all_iff)

lemma component_cover:
  assumes "well_linked addrs links" "x \<in> set addrs"
  shows "\<exists>c \<in> set (find_components addrs links). x \<in> set c"
proof -
  have "conn links `` {x} \<in> set ` set (find_components addrs links)"
    using assms components_classes by auto
  then show ?thesis using conn_refl [of x links] by (metis Image_singleton_iff imageE)
qed

lemma one_component:
  assumes "well_linked addrs links" "\<And>x y. x \<in> set addrs \<Longrightarrow> y \<in> set addrs \<Longrightarrow> (x, y) \<in> conn links"
  shows "length (find_components addrs links) \<le> 1"
proof -
  have "set ` set (find_components addrs links) \<subseteq> {set addrs}"
    unfolding components_classes [OF assms(1)]
    using assms(2) conn_in_addrs [OF assms(1)] by auto
  then show ?thesis unfolding length_components [OF assms(1)]
    by (metis card.empty card_mono card_insert_disjoint finite.emptyI finite.insertI empty_iff One_nat_def)
qed

end
