(* ===== verification/SplitsService.thy ===== *)
theory SplitsService
  imports SplitsGraph AppShell
begin

text \<open>
  The service of the splits page (\<open>features/network/splits/dashboard-splits.service.ts\<close>): the random
  peer network it generates on the first request, the splitting of the largest group in two and the
  merging of all groups, together with the two older firewall operations and the removal of
  duplicated peers. \<open>Math.random\<close> is a stream of draws, consumed in the order of the calls; the
  state counts the draws.
\<close>

section \<open>Data\<close>

record DashboardSplitsPeer =
  sp_address :: string
  sp_node :: string
  sp_radius :: "nat option"
  sp_outgoing :: "nat option"
  sp_incoming :: "nat option"

record DashboardSplits =
  sd_peers :: "DashboardSplitsPeer list"
  sd_links :: "DashboardSplitsLink list"

record SplitsService =
  svc_currentData :: "DashboardSplits option"
  svc_draws :: nat

abbreviation addresses :: "DashboardSplits \<Rightarrow> string list" where
  "addresses d \<equiv> map sp_address (sd_peers d)"

text \<open>What the language promises of \<open>Math.random\<close>.\<close>

definition unit_draws :: "(nat \<Rightarrow> rat) \<Rightarrow> bool" where
  "unit_draws rnd \<longleftrightarrow> (\<forall>k. 0 \<le> rnd k \<and> rnd k < 1)"

text \<open>\<open>Math.floor(Math.random() * n)\<close>.\<close>

definition random_index :: "(nat \<Rightarrow> rat) \<Rightarrow> nat \<Rightarrow> nat \<Rightarrow> nat" where
  "random_index rnd k n = nat \<lfloor>rnd k * of_nat n\<rfloor>"

section \<open>The generated network\<close>

definition generateRandomIpAddress :: "(nat \<Rightarrow> rat) \<Rightarrow> nat \<Rightarrow> string" where
  "generateRandomIpAddress rnd k =
    js_join ''.'' (map (\<lambda>i. nat_to_string (random_index rnd (k + i) 256)) [0, 1, 2, 3])"

definition generated_peers :: "(nat \<Rightarrow> rat) \<Rightarrow> nat \<Rightarrow> nat \<Rightarrow> DashboardSplitsPeer list" where
  "generated_peers rnd k peerCount = map (\<lambda>i.
     \<lparr>sp_address = generateRandomIpAddress rnd (k + 4 * i),
      sp_node = (if i = 0 then ''Webnode'' else ''Node-'' @ nat_to_string (i + 1)),
      sp_radius = None, sp_outgoing = None, sp_incoming = None\<rparr>) [0..<peerCount]"

definition connection_key :: "string \<Rightarrow> string \<Rightarrow> string" where
  "connection_key source target = js_join ''-'' (js_sort_strings [source, target])"

record Generation =
  gen_links :: "DashboardSplitsLink list"
  gen_connectionSet :: "string list"
  gen_draws :: nat

function connect_loop ::
  "(nat \<Rightarrow> rat) \<Rightarrow> nat \<Rightarrow> nat \<Rightarrow> DashboardSplitsPeer list \<Rightarrow> DashboardSplitsPeer \<Rightarrow> nat \<Rightarrow> nat \<Rightarrow> Generation
    \<Rightarrow> Generation result" where
  "connect_loop rnd peerCount perPeer peers peer connectionsMade attempts g =
    (if connectionsMade < perPeer \<and> attempts < peerCount * 2 then
       let g' = g\<lparr>gen_draws := gen_draws g + 1\<rparr> in
       (case js_nth peers (int (random_index rnd (gen_draws g) peerCount)) of
          None \<Rightarrow> Inl (TypeError ''address'')
        | Some targetPeer \<Rightarrow>
            if sp_address targetPeer = sp_address peer
            then connect_loop rnd peerCount perPeer peers peer connectionsMade (attempts + 1) g'
            else if connection_key (sp_address peer) (sp_address targetPeer) \<notin> set (gen_connectionSet g)
            then connect_loop rnd peerCount perPeer peers peer (connectionsMade + 1) (attempts + 1)
              (g'\<lparr>gen_links := gen_links g @ [link (sp_address peer) (sp_address targetPeer)],
                  gen_connectionSet := gen_connectionSet g
                    @ [connection_key (sp_address peer) (sp_address targetPeer)]\<rparr>)
            else connect_loop rnd peerCount perPeer peers peer connectionsMade (attempts + 1) g')
     else Inr g)"
  by pat_completeness auto
termination
  by (relation "measure (\<lambda>(rnd, peerCount, perPeer, peers, peer, made, attempts, g). peerCount * 2 - attempts)")
    auto

declare connect_loop.simps [simp del]

fun connect_peers ::
  "(nat \<Rightarrow> rat) \<Rightarrow> nat \<Rightarrow> nat \<Rightarrow> DashboardSplitsPeer list \<Rightarrow> DashboardSplitsPeer list \<Rightarrow> Generation
    \<Rightarrow> Generation result" where
  "connect_peers rnd peerCount perPeer peers [] g = Inr g"
| "connect_peers rnd peerCount perPeer peers (p # ps) g =
     js_bind (connect_loop rnd peerCount perPeer peers p 0 0 g)
       (connect_peers rnd peerCount perPeer peers ps)"

definition generatePeerNetwork ::
  "(nat \<Rightarrow> rat) \<Rightarrow> nat \<Rightarrow> nat \<Rightarrow> nat \<Rightarrow> (DashboardSplits \<times> nat) result" where
  "generatePeerNetwork rnd k peerCount connectionsPerPeer =
    (let peers = generated_peers rnd k peerCount in
     js_bind (connect_peers rnd peerCount connectionsPerPeer peers peers
         \<lparr>gen_links = [], gen_connectionSet = [], gen_draws = k + 4 * peerCount\<rparr>)
       (\<lambda>g. Inr (\<lparr>sd_peers = peers, sd_links = gen_links g\<rparr>, gen_draws g)))"

definition getPeers :: "(nat \<Rightarrow> rat) \<Rightarrow> SplitsService \<Rightarrow> (SplitsService \<times> DashboardSplits) result" where
  "getPeers rnd svc = (case svc_currentData svc of
     Some d \<Rightarrow> Inr (svc, d)
   | None \<Rightarrow> js_bind (generatePeerNetwork rnd (svc_draws svc) 100 50)
       (\<lambda>(d, k). Inr (\<lparr>svc_currentData = Some d, svc_draws = k\<rparr>, d)))"

section \<open>Splitting and merging\<close>

definition identifyDisconnectedComponents :: "DashboardSplits \<Rightarrow> string list list" where
  "identifyDisconnectedComponents d = find_components (addresses d) (sd_links d)"

definition checkConnectivity :: "string list \<Rightarrow> DashboardSplitsLink list \<Rightarrow> bool \<times> string list list" where
  "checkConnectivity grp groupLinks =
    (let components = find_components grp groupLinks in (length components = 1, components))"

definition ensureGroupIsConnected :: "DashboardSplits \<Rightarrow> string list \<Rightarrow> DashboardSplitsLink list" where
  "ensureGroupIsConnected d grp =
    (if length grp < 2 then []
     else let groupLinks = filter (\<lambda>l. sl_source l \<in> set grp \<and> sl_target l \<in> set grp) (sd_links d) in
       if length groupLinks > 0 then
         (case checkConnectivity grp groupLinks of (fullyConnected, components) \<Rightarrow>
            if fullyConnected then []
            else map (\<lambda>i. link (components ! 0 ! 0) (components ! i ! 0)) [1..<length components])
       else map (\<lambda>i. link (grp ! i) (grp ! (i + 1))) [0..<length grp - 1])"

definition larger_first :: "string list \<Rightarrow> string list \<Rightarrow> rat" where
  "larger_first a b = of_int (int (length b) - int (length a))"

definition keep_link :: "string list \<Rightarrow> string list \<Rightarrow> string list \<Rightarrow> DashboardSplitsLink \<Rightarrow> bool" where
  "keep_link groupToSplit subgroup1 subgroup2 l =
    (if sl_source l \<in> set groupToSplit \<and> sl_target l \<in> set groupToSplit
     then sl_source l \<in> set subgroup1 \<and> sl_target l \<in> set subgroup1
       \<or> sl_source l \<in> set subgroup2 \<and> sl_target l \<in> set subgroup2
     else True)"

definition split_group :: "DashboardSplits \<Rightarrow> string list \<Rightarrow> DashboardSplits" where
  "split_group d groupToSplit =
    (let splitIndex = length groupToSplit div 2;
         subgroup1 = take splitIndex groupToSplit;
         subgroup2 = drop splitIndex groupToSplit
     in \<lparr>sd_peers = sd_peers d,
         sd_links = filter (keep_link groupToSplit subgroup1 subgroup2) (sd_links d)
           @ ensureGroupIsConnected d subgroup1 @ ensureGroupIsConnected d subgroup2\<rparr>)"

definition group_to_split :: "DashboardSplits \<Rightarrow> string list option" where
  "group_to_split d =
    (let components = js_sort larger_first (identifyDisconnectedComponents d)
     in js_nth components (js_findIndex (\<lambda>grp. 4 \<le> length grp) components))"

definition splitNodes :: "SplitsService \<Rightarrow> SplitsService result" where
  "splitNodes svc = (case svc_currentData svc of
     None \<Rightarrow> Inl (TypeError ''peers'')
   | Some d \<Rightarrow> (case group_to_split d of
       None \<Rightarrow> Inr svc
     | Some groupToSplit \<Rightarrow> Inr (svc\<lparr>svc_currentData := Some (split_group d groupToSplit)\<rparr>)))"

definition random_member :: "(nat \<Rightarrow> rat) \<Rightarrow> nat \<Rightarrow> string list \<Rightarrow> string" where
  "random_member rnd k component = component ! random_index rnd k (length component)"

definition merge_links :: "(nat \<Rightarrow> rat) \<Rightarrow> nat \<Rightarrow> string list list \<Rightarrow> DashboardSplitsLink list" where
  "merge_links rnd k components =
    map (\<lambda>i. link (random_member rnd (k + 2 * i) (components ! i))
                   (random_member rnd (k + 2 * i + 1) (components ! (i + 1)))) [0..<length components - 1]"

definition mergeNodes :: "(nat \<Rightarrow> rat) \<Rightarrow> SplitsService \<Rightarrow> SplitsService result" where
  "mergeNodes rnd svc = (case svc_currentData svc of
     None \<Rightarrow> Inl (TypeError ''peers'')
   | Some d \<Rightarrow> let components = identifyDisconnectedComponents d in
       Inr \<lparr>svc_currentData = Some \<lparr>sd_peers = sd_peers d,
              sd_links = sd_links d @ merge_links rnd (svc_draws svc) components\<rparr>,
            svc_draws = svc_draws svc + 2 * (length components - 1)\<rparr>)"

section \<open>The firewall operations and the removal of duplicates\<close>

record WhitelistRequest =
  wr_url :: string
  wr_ips :: "string list option"

definition node_key :: "DashboardSplitsPeer \<Rightarrow> string" where
  "node_key p = js_remove_space (js_toLowerCase (sp_node p))"

text \<open>An absent \<open>debugger\<close> of a configuration is concatenated as the text \<open>undefined\<close>.\<close>

definition firewall_url :: "MinaNode list \<Rightarrow> string \<Rightarrow> DashboardSplitsPeer \<Rightarrow> string result" where
  "firewall_url configs path p = (case List.find (\<lambda>c. node_name c = node_key p) configs of
     None \<Rightarrow> Inl (TypeError ''debugger'')
   | Some c \<Rightarrow> Inr ((case node_debugger c of None \<Rightarrow> ''undefined'' | Some u \<Rightarrow> u) @ path))"

definition even_node :: "DashboardSplitsPeer \<Rightarrow> bool" where
  "even_node p = (case js_string_to_number [last (sp_node p)] of
     None \<Rightarrow> False | Some r \<Rightarrow> r = of_int (2 * \<lfloor>r / 2\<rfloor>))"

definition whitelist_requests :: "MinaNode list \<Rightarrow> DashboardSplitsPeer list \<Rightarrow> WhitelistRequest list result" where
  "whitelist_requests configs side = js_mapM (\<lambda>p.
     js_bind (firewall_url configs ''/firewall/whitelist/enable'' p) (\<lambda>url.
       Inr \<lparr>wr_url = url, wr_ips = Some (map (\<lambda>n. js_split_first (CHR '':'') (sp_address n)) side)\<rparr>)) side"

definition splitNodesOld ::
  "MinaNode list \<Rightarrow> DashboardSplitsPeer list \<Rightarrow> (WhitelistRequest list \<times> WhitelistRequest list) result" where
  "splitNodesOld configs peers =
    (let leftList = filter even_node (filter (\<lambda>p. sp_node p \<noteq> []) peers);
         rightList = filter (\<lambda>p. \<not> even_node p) (filter (\<lambda>p. sp_node p \<noteq> []) peers)
     in js_bind (whitelist_requests configs leftList) (\<lambda>left.
        js_bind (whitelist_requests configs rightList) (\<lambda>right. Inr (left, right))))"

definition mergeNodesOld :: "MinaNode list \<Rightarrow> DashboardSplitsPeer list \<Rightarrow> WhitelistRequest list result" where
  "mergeNodesOld configs peers = js_mapM (\<lambda>p.
     js_bind (firewall_url configs ''/firewall/whitelist/disable'' p) (\<lambda>url.
       Inr \<lparr>wr_url = url, wr_ips = None\<rparr>)) (filter (\<lambda>p. sp_node p \<noteq> []) peers)"

definition removeDuplicatedPeers :: "DashboardSplits \<Rightarrow> DashboardSplits" where
  "removeDuplicatedPeers response = response\<lparr>sd_peers :=
     map snd (filter (\<lambda>(index, peer).
       int index = js_findIndex (\<lambda>p. sp_address p = sp_address peer) (sd_peers response))
       (zip [0..<length (sd_peers response)] (sd_peers response)))\<rparr>"

section \<open>Groups joined by links\<close>

lemma chain_connected:
  assumes "\<And>i. Suc i < length xs \<Longrightarrow> (xs ! i, xs ! Suc i) \<in> conn L" "x \<in> set xs" "y \<in> set xs"
  shows "(x, y) \<in> conn L"
proof -
  have *: "i < length xs \<Longrightarrow> (xs ! 0, xs ! i) \<in> conn L" for i
    by (induction i) (use assms(1) conn_trans in auto)
  obtain i j where "i < length xs" "x = xs ! i" "j < length xs" "y = xs ! j"
    using assms(2,3) by (metis in_set_conv_nth)
  then show ?thesis using * conn_sym conn_trans by metis
qed

lemma components_connected:
  assumes wl: "well_linked grp K" and K: "edges K \<subseteq> edges L" and x: "x \<in> set grp" and y: "y \<in> set grp"
    and joined: "\<And>c c'. c \<in> set (find_components grp K) \<Longrightarrow> c' \<in> set (find_components grp K) \<Longrightarrow>
      \<exists>a \<in> set c. \<exists>b \<in> set c'. (a, b) \<in> conn L"
  shows "(x, y) \<in> conn L"
proof -
  obtain c c' where c: "c \<in> set (find_components grp K)" "x \<in> set c"
    and c': "c' \<in> set (find_components grp K)" "y \<in> set c'"
    using component_cover [OF wl] x y by meson
  obtain a b where ab: "a \<in> set c" "b \<in> set c'" "(a, b) \<in> conn L" using joined c(1) c'(1) by blast
  have "(x, a) \<in> conn K" "(b, y) \<in> conn K"
    using component_class [OF wl c] component_class [OF wl c'(1) ab(2)] ab(1) c'(2) by auto
  then show ?thesis using conn_mono [OF K] ab(3) by (meson conn_trans subsetD)
qed

definition inside :: "string list \<Rightarrow> DashboardSplitsLink \<Rightarrow> bool" where
  "inside grp l \<longleftrightarrow> sl_source l \<in> set grp \<and> sl_target l \<in> set grp"

lemma well_linked_within: "well_linked grp (filter (inside grp) links)"
  by (simp add: well_linked_def inside_def)

lemma ensure_cases:
  "2 \<le> length grp \<Longrightarrow> ensureGroupIsConnected d grp =
    (if filter (inside grp) (sd_links d) = []
     then map (\<lambda>i. link (grp ! i) (grp ! Suc i)) [0..<length grp - 1]
     else let cs = find_components grp (filter (inside grp) (sd_links d))
       in map (\<lambda>i. link (cs ! 0 ! 0) (cs ! i ! 0)) [1..<length cs])"
  by (simp add: ensureGroupIsConnected_def checkConnectivity_def inside_def [abs_def])

lemma ensure_connects:
  assumes "edges (filter (inside grp) (sd_links d)) \<subseteq> edges L" "edges (ensureGroupIsConnected d grp) \<subseteq> edges L"
    and "2 \<le> length grp" "x \<in> set grp" "y \<in> set grp"
  shows "(x, y) \<in> conn L"
proof (cases "filter (inside grp) (sd_links d) = []")
  case True
  have "(grp ! i, grp ! Suc i) \<in> edges (ensureGroupIsConnected d grp)" if "Suc i < length grp" for i
    unfolding ensure_cases [OF assms(3)] using True that by (force simp: edges_def)
  then show ?thesis using chain_connected [of grp L] assms(2,4,5) conn_edge by blast
next
  case False
  let ?K = "filter (inside grp) (sd_links d)"
  let ?cs = "find_components grp ?K"
  have star: "(?cs ! 0 ! 0, ?cs ! i ! 0) \<in> conn L" if "i < length ?cs" for i
  proof (cases "i = 0")
    case False
    then have "(?cs ! 0 ! 0, ?cs ! i ! 0) \<in> edges (ensureGroupIsConnected d grp)"
      unfolding ensure_cases [OF assms(3)] using \<open>?K \<noteq> []\<close> that by (force simp: edges_def)
    then show ?thesis using assms(2) conn_edge by blast
  qed simp
  have "\<exists>a \<in> set c. \<exists>b \<in> set c'. (a, b) \<in> conn L" if cc: "c \<in> set ?cs" "c' \<in> set ?cs" for c c'
  proof -
    obtain i j where ij: "i < length ?cs" "?cs ! i = c" "j < length ?cs" "?cs ! j = c'"
      using cc unfolding in_set_conv_nth by blast
    have "(c ! 0, c' ! 0) \<in> conn L"
      using conn_trans [OF conn_sym [OF star [OF ij(1)]] star [OF ij(3)]] ij(2,4) by simp
    moreover have "c ! 0 \<in> set c" "c' ! 0 \<in> set c'"
      using component_nonempty [OF well_linked_within] cc by simp_all
    ultimately show ?thesis by blast
  qed
  then show ?thesis using components_connected [OF well_linked_within assms(1,4,5)] by blast
qed

text \<open>The added links stay inside the group and never join a peer with itself.\<close>

lemma ensure_within:
  assumes "distinct grp" "l \<in> set (ensureGroupIsConnected d grp)"
  shows "inside grp l \<and> sl_source l \<noteq> sl_target l"
proof -
  have len: "2 \<le> length grp" using assms(2) by (auto simp: ensureGroupIsConnected_def split: if_splits)
  show ?thesis
  proof (cases "filter (inside grp) (sd_links d) = []")
    case True
    then have "l \<in> (\<lambda>i. link (grp ! i) (grp ! Suc i)) ` {0..<length grp - 1}"
      using assms(2) unfolding ensure_cases [OF len] by simp
    then obtain i where "i < length grp - 1" "l = link (grp ! i) (grp ! Suc i)" by (rule imageE) simp
    then show ?thesis using assms(1) by (simp add: inside_def nth_eq_iff_index_eq)
  next
    case False
    let ?K = "filter (inside grp) (sd_links d)"
    let ?cs = "find_components grp ?K"
    have "l \<in> (\<lambda>i. link (?cs ! 0 ! 0) (?cs ! i ! 0)) ` {1..<length ?cs}"
      using assms(2) False unfolding ensure_cases [OF len] by simp
    then obtain i where "i \<in> {1..<length ?cs}" and l: "l = link (?cs ! 0 ! 0) (?cs ! i ! 0)" by blast
    then have i: "0 < i" "i < length ?cs" by simp_all
    then have mem: "?cs ! 0 \<in> set ?cs" "?cs ! i \<in> set ?cs" by (auto intro: nth_mem)
    have in_c: "?cs ! 0 ! 0 \<in> set (?cs ! 0)" "?cs ! i ! 0 \<in> set (?cs ! i)"
      using component_nonempty [OF well_linked_within] mem by simp_all
    have "0 < length ?cs" using i by linarith
    then have "set (?cs ! 0) \<noteq> set (?cs ! i)"
      using i nth_eq_iff_index_eq [OF distinct_components [OF well_linked_within], of 0 grp "sd_links d" i]
        nth_map [of 0 ?cs set] nth_map [of i ?cs set] by (metis length_map less_irrefl)
    then have "?cs ! 0 ! 0 \<noteq> ?cs ! i ! 0"
      using component_class [OF well_linked_within mem(1) in_c(1)]
        component_class [OF well_linked_within mem(2) in_c(2)] by metis
    then show ?thesis using l in_c mem component_subset [OF well_linked_within]
      by (auto simp: inside_def)
  qed
qed

end
