(* ===== verification/SplitsLaws.thy ===== *)
theory SplitsLaws
  imports SplitsService
begin

text \<open>
  What the operations of the splits service guarantee: splitting replaces the largest group by its
  two halves and touches nothing else, merging leaves one group, the generator returns a simple
  graph within its bounds, and every sequence of operations keeps the network well formed.
\<close>

section \<open>Splitting\<close>

lemma edges_filter_iff:
  "(x, y) \<in> edges (filter p ls) \<longleftrightarrow>
   (\<exists>l \<in> set ls. p l \<and> (sl_source l = x \<and> sl_target l = y \<or> sl_source l = y \<and> sl_target l = x))"
  by (auto simp: edges_def)

lemma edges_iff:
  "(x, y) \<in> edges ls \<longleftrightarrow>
   (\<exists>l \<in> set ls. sl_source l = x \<and> sl_target l = y \<or> sl_source l = y \<and> sl_target l = x)"
  using edges_filter_iff [of x y "\<lambda>_. True" ls] by simp

lemma halves:
  shows halves_un: "set (take n g) \<union> set (drop n g) = set g"
    and halves_disjoint: "distinct g \<Longrightarrow> set (take n g) \<inter> set (drop n g) = {}"
  by (metis append_take_drop_id set_append) (metis append_take_drop_id distinct_append)

text \<open>
  The links after a split: inside one of the halves, or an old link outside the group; and every
  old link outside the group is still there.
\<close>

lemma split_edges:
  assumes G: "link_closed (sd_links d) (set g)" "distinct g"
  defines "s1 \<equiv> take (length g div 2) g" and "s2 \<equiv> drop (length g div 2) g"
  assumes e: "(x, y) \<in> edges (sd_links (split_group d g))"
  shows "x \<in> set s1 \<and> y \<in> set s1 \<or> x \<in> set s2 \<and> y \<in> set s2
    \<or> x \<notin> set g \<and> y \<notin> set g \<and> (x, y) \<in> edges (sd_links d)"
proof -
  have d12: "distinct s1" "distinct s2" using G(2) by (simp_all add: s1_def s2_def)
  have inside: "(x, y) \<in> edges (ensureGroupIsConnected d s) \<Longrightarrow> x \<in> set s \<and> y \<in> set s" if "distinct s" for s
    using ensure_within [OF that] by (auto simp: edges_iff inside_def)
  have "(x, y) \<in> edges (filter (keep_link g s1 s2) (sd_links d))
    \<or> (x, y) \<in> edges (ensureGroupIsConnected d s1) \<or> (x, y) \<in> edges (ensureGroupIsConnected d s2)"
    using e by (simp add: split_group_def s1_def s2_def edges_append)
  then show ?thesis
  proof (elim disjE)
    assume kept: "(x, y) \<in> edges (filter (keep_link g s1 s2) (sd_links d))"
    then have xy: "(x, y) \<in> edges (sd_links d)"
      by (auto simp: edges_filter_iff edges_iff)
    then have "x \<in> set g \<longleftrightarrow> y \<in> set g"
      using G(1) edges_sym [OF xy] by (auto simp: link_closed_def)
    then show ?thesis using kept xy by (auto simp: edges_filter_iff keep_link_def split: if_splits)
  qed (use inside d12 in blast)+
qed

lemma split_keeps_outside:
  "(x, y) \<in> edges (sd_links d) \<Longrightarrow> x \<notin> set g \<Longrightarrow> (x, y) \<in> edges (sd_links (split_group d g))"
  by (auto simp: split_group_def edges_append edges_filter_iff keep_link_def)
     (auto simp: edges_iff)

lemma split_class_outside:
  assumes G: "link_closed (sd_links d) (set g)" "distinct g" and x: "x \<notin> set g"
  shows "conn (sd_links (split_group d g)) `` {x} = conn (sd_links d) `` {x}"
proof -
  let ?L' = "sd_links (split_group d g)"
  have sub: "set (take n g) \<subseteq> set g" "set (drop n g) \<subseteq> set g" for n
    by (auto dest: in_set_takeD in_set_dropD)
  have "(x, y) \<in> conn ?L' \<Longrightarrow> y \<notin> set g \<and> (x, y) \<in> conn (sd_links d)" for y
    unfolding conn_def
  proof (induction rule: rtrancl_induct)
    case (step y z)
    then have "z \<notin> set g \<and> (y, z) \<in> edges (sd_links d)" using split_edges [OF G step(2)] sub by blast
    then show ?case using step(3) by (meson rtrancl_into_rtrancl)
  qed (use x in simp)
  moreover have "(x, y) \<in> conn (sd_links d) \<Longrightarrow> y \<notin> set g \<and> (x, y) \<in> conn ?L'" for y
    unfolding conn_def
  proof (induction rule: rtrancl_induct)
    case (step y z)
    then have "z \<notin> set g" using G(1) edges_sym [OF step(2)] by (auto simp: link_closed_def)
    then show ?case using step split_keeps_outside by (meson rtrancl_into_rtrancl)
  qed (use x in simp)
  ultimately show ?thesis by auto
qed

lemma split_class_half:
  assumes G: "link_closed (sd_links d) (set g)" "distinct g" "4 \<le> length g"
    and s: "s = take (length g div 2) g \<or> s = drop (length g div 2) g" and x: "x \<in> set s"
  shows "conn (sd_links (split_group d g)) `` {x} = set s"
proof
  let ?L' = "sd_links (split_group d g)"
  let ?s1 = "take (length g div 2) g" and ?s2 = "drop (length g div 2) g"
  have disj: "set ?s1 \<inter> set ?s2 = {}" using G(2) by (rule halves_disjoint)
  have sub: "set s \<subseteq> set g" using s by (auto dest: in_set_takeD in_set_dropD)
  have "link_closed ?L' (set s)"
    using split_edges [OF G(1,2)] disj s sub by (fastforce simp: link_closed_def)
  then show "conn ?L' `` {x} \<subseteq> set s" using conn_closed x by blast
  have "keep_link g ?s1 ?s2 l" if "inside s l" for l
    using that s by (auto simp: keep_link_def inside_def)
  then have e1: "edges (filter (inside s) (sd_links d)) \<subseteq> edges ?L'"
    by (intro edges_mono) (auto simp: split_group_def)
  have e2: "edges (ensureGroupIsConnected d s) \<subseteq> edges ?L'"
    using s by (intro edges_mono) (auto simp: split_group_def)
  have "2 \<le> length s" using s G(3) by auto
  then show "set s \<subseteq> conn ?L' `` {x}" using ensure_connects [OF e1 e2 _ x] by auto
qed

text \<open>The group that is split is the largest one, if it has at least four members.\<close>

interpretation largest_first: key_comparator larger_first "\<lambda>c. - int (length c)" UNIV
  by unfold_locales (auto simp: larger_first_def)

lemma group_to_split_cases:
  "(group_to_split d = None \<and> (\<forall>c \<in> set (identifyDisconnectedComponents d). length c < 4))
   \<or> (\<exists>g \<in> set (identifyDisconnectedComponents d). group_to_split d = Some g \<and> 4 \<le> length g
      \<and> (\<forall>c \<in> set (identifyDisconnectedComponents d). length c \<le> length g))"
proof (cases "js_sort larger_first (identifyDisconnectedComponents d)")
  case Nil
  then have "set (identifyDisconnectedComponents d) = {}" by (metis list.set(1) set_js_sort)
  then show ?thesis using Nil by (simp add: group_to_split_def js_nth_def)
next
  case (Cons c cs)
  let ?comps = "identifyDisconnectedComponents d"
  have set: "set ?comps = set (c # cs)" using Cons by (metis set_js_sort)
  have "sorted (map (\<lambda>c. - int (length c)) (c # cs))"
    using largest_first.js_sort_sorted_key [of ?comps] Cons by simp
  then have largest: "\<forall>c' \<in> set (c # cs). length c' \<le> length c" by auto
  show ?thesis
  proof (cases "4 \<le> length c")
    case True
    then have "group_to_split d = Some c" by (simp add: group_to_split_def Cons js_nth_def)
    then show ?thesis using True largest set by auto
  next
    case False
    then have "js_findIndex (\<lambda>grp. 4 \<le> length grp) (c # cs) = - 1"
      unfolding js_findIndex_neg_iff using largest by fastforce
    then have "group_to_split d = None" by (simp add: group_to_split_def Cons js_nth_def del: js_findIndex.simps)
    then show ?thesis using False largest set by fastforce
  qed
qed

lemma split_well_linked:
  assumes "well_linked (addresses d) (sd_links d)" "set g \<subseteq> set (addresses d)" "distinct g"
  shows "well_linked (addresses (split_group d g)) (sd_links (split_group d g))"
proof -
  have "sl_source l \<in> set (addresses d) \<and> sl_target l \<in> set (addresses d)"
    if "l \<in> set (ensureGroupIsConnected d s)" "s = take n g \<or> s = drop n g" for l s n
  proof -
    have "distinct s" "set s \<subseteq> set g" using that(2) assms(3) by (auto dest: in_set_takeD in_set_dropD)
    then show ?thesis using ensure_within that(1) assms(2) unfolding inside_def by blast
  qed
  then show ?thesis using assms(1) unfolding well_linked_def split_group_def by fastforce
qed

lemma split_classes:
  assumes wl: "well_linked (addresses d) (sd_links d)" and g: "g \<in> set (identifyDisconnectedComponents d)"
    and len: "4 \<le> length g"
  defines "C \<equiv> set ` set (identifyDisconnectedComponents d)"
    and "s1 \<equiv> set (take (length g div 2) g)" and "s2 \<equiv> set (drop (length g div 2) g)"
  shows "set ` set (identifyDisconnectedComponents (split_group d g)) = C - {set g} \<union> {s1, s2}"
    and "card (C - {set g} \<union> {s1, s2}) = card C + 1"
proof -
  let ?A = "set (addresses d)" and ?L = "sd_links d" and ?L' = "sd_links (split_group d g)"
  have gA: "set g \<subseteq> ?A" and dg: "distinct g"
    using g component_subset [OF wl] component_distinct [OF wl] by (auto simp: identifyDisconnectedComponents_def)
  obtain a where a: "set g = conn ?L `` {a}" "a \<in> set g"
    using g len component_class [OF wl] unfolding identifyDisconnectedComponents_def
    by (metis hd_in_set list.size(3) not_numeral_le_zero)
  then have G: "link_closed ?L (set g)" by (simp add: class_closed)
  have un: "s1 \<union> s2 = set g" unfolding s1_def s2_def by (rule halves_un)
  have disj: "s1 \<inter> s2 = {}" unfolding s1_def s2_def by (rule halves_disjoint [OF dg])
  have ne: "s1 \<noteq> {}" "s2 \<noteq> {}" using len by (auto simp: s1_def s2_def)
  have half: "x \<in> s1 \<Longrightarrow> conn ?L' `` {x} = s1" "x \<in> s2 \<Longrightarrow> conn ?L' `` {x} = s2" for x
    using split_class_half [OF G dg len] unfolding s1_def s2_def by blast+
  have C: "C = (\<lambda>x. conn ?L `` {x}) ` ?A"
    unfolding C_def identifyDisconnectedComponents_def by (rule components_classes [OF wl])
  have out: "C - {set g} = (\<lambda>x. conn ?L `` {x}) ` (?A - set g)"
  proof -
    have "conn ?L `` {x} = set g \<longleftrightarrow> x \<in> set g" for x
      using a(1) conn_class_eq [of a x ?L] by auto
    then show ?thesis unfolding C by auto
  qed
  have "set ` set (identifyDisconnectedComponents (split_group d g)) = (\<lambda>x. conn ?L' `` {x}) ` ?A"
    using components_classes [OF split_well_linked [OF wl gA dg]]
    by (simp add: identifyDisconnectedComponents_def split_group_def)
  also have "\<dots> = (\<lambda>x. conn ?L' `` {x}) ` (?A - set g) \<union> (\<lambda>x. conn ?L' `` {x}) ` s1 \<union> (\<lambda>x. conn ?L' `` {x}) ` s2"
    using gA un by blast
  also have "(\<lambda>x. conn ?L' `` {x}) ` s1 = {s1}" using half(1) ne(1) by auto
  also have "(\<lambda>x. conn ?L' `` {x}) ` s2 = {s2}" using half(2) ne(2) by auto
  also have "(\<lambda>x. conn ?L' `` {x}) ` (?A - set g) = C - {set g}"
    unfolding out using split_class_outside [OF G dg] by (intro image_cong) auto
  finally show "set ` set (identifyDisconnectedComponents (split_group d g)) = C - {set g} \<union> {s1, s2}" by auto
  have fresh: "s \<notin> C - {set g}" if "s \<noteq> {}" "s \<subseteq> set g" for s
  proof
    assume "s \<in> C - {set g}"
    then obtain x where "x \<notin> set g" "s = conn ?L `` {x}" unfolding out by auto
    then show False using that class_disjoint [OF G] by blast
  qed
  have "s1 \<notin> C - {set g}" by (rule fresh [OF ne(1)]) (simp add: un [symmetric])
  moreover have "s2 \<notin> C - {set g}" by (rule fresh [OF ne(2)]) (simp add: un [symmetric])
  moreover have "s1 \<noteq> s2" using ne(1) disj by (metis Int_absorb)
  moreover have C2: "set g \<in> C" "finite C" using g by (auto simp: C_def)
  ultimately have "card (C - {set g} \<union> {s1, s2}) = card (C - {set g}) + 2" by (simp add: Un_commute)
  then show "card (C - {set g} \<union> {s1, s2}) = card C + 1" using card.remove [OF C2(2,1)] by simp
qed

definition sample_peer :: "string \<Rightarrow> DashboardSplitsPeer" where
  "sample_peer a = \<lparr>sp_address = a, sp_node = ''Node-1'', sp_radius = None, sp_outgoing = None, sp_incoming = None\<rparr>"

definition sample_network :: DashboardSplits where
  "sample_network = \<lparr>sd_peers = map sample_peer [''a'', ''b'', ''c'', ''d'', ''e''],
     sd_links = [link ''a'' ''c'', link ''b'' ''c'', link ''d'' ''b'']\<rparr>"

lemma sample_network_linked: "well_linked (addresses sample_network) (sd_links sample_network)"
  by (simp add: sample_network_def sample_peer_def well_linked_def)

lemma sample_network_components:
  "identifyDisconnectedComponents sample_network = [[''a'', ''c'', ''b'', ''d''], [''e'']]"
  by code_simp

text \<open>
  C2: Splitting cuts the largest group of at least four peers into its two halves. After
  \<open>splitNodes\<close> the groups of the network are the old ones with that group replaced by its first and
  its second half, so there is exactly one group more and every other group is untouched; with no
  group of four or more the network stays as it is.
\<close>

theorem splitNodes_splits_largest:
  assumes "svc_currentData svc = Some d" "well_linked (addresses d) (sd_links d)"
  shows "(\<forall>c \<in> set (identifyDisconnectedComponents d). length c < 4) \<and> splitNodes svc = Inr svc
    \<or> (\<exists>g \<in> set (identifyDisconnectedComponents d). \<exists>d'.
        4 \<le> length g \<and> (\<forall>c \<in> set (identifyDisconnectedComponents d). length c \<le> length g)
        \<and> splitNodes svc = Inr (svc\<lparr>svc_currentData := Some d'\<rparr>) \<and> sd_peers d' = sd_peers d
        \<and> set ` set (identifyDisconnectedComponents d') =
            set ` set (identifyDisconnectedComponents d) - {set g}
              \<union> {set (take (length g div 2) g), set (drop (length g div 2) g)}
        \<and> length (identifyDisconnectedComponents d') = length (identifyDisconnectedComponents d) + 1)"
  using group_to_split_cases [of d]
proof (elim disjE bexE conjE)
  assume "group_to_split d = None" "\<forall>c \<in> set (identifyDisconnectedComponents d). length c < 4"
  then show ?thesis using assms(1) by (simp add: splitNodes_def)
next
  fix g
  assume g: "g \<in> set (identifyDisconnectedComponents d)" "group_to_split d = Some g" "4 \<le> length g"
    "\<forall>c \<in> set (identifyDisconnectedComponents d). length c \<le> length g"
  let ?d' = "split_group d g"
  have wl': "well_linked (addresses ?d') (sd_links ?d')"
    using split_well_linked [OF assms(2)] component_subset [OF assms(2)] component_distinct [OF assms(2)] g(1)
    by (simp add: identifyDisconnectedComponents_def)
  have "length (identifyDisconnectedComponents ?d') = length (identifyDisconnectedComponents d) + 1"
    unfolding identifyDisconnectedComponents_def length_components [OF wl'] length_components [OF assms(2)]
    using split_classes [OF assms(2) g(1,3)] unfolding identifyDisconnectedComponents_def by simp
  then show ?thesis using assms(1) g split_classes(1) [OF assms(2) g(1,3)]
    by (intro disjI2 bexI [of _ g] exI [of _ ?d']) (simp_all add: splitNodes_def, simp add: split_group_def)
qed

theorem splitNodes_splits_largest_witness:
  "\<exists>d'. splitNodes \<lparr>svc_currentData = Some sample_network, svc_draws = 0\<rparr>
       = Inr \<lparr>svc_currentData = Some d', svc_draws = 0\<rparr>
     \<and> length (identifyDisconnectedComponents d') = 3"
  using splitNodes_splits_largest [of "\<lparr>svc_currentData = Some sample_network, svc_draws = 0\<rparr>" sample_network,
      OF _ sample_network_linked]
  by (auto simp: sample_network_components)

section \<open>Merging\<close>

lemma random_index_less:
  assumes "unit_draws rnd" "0 < n"
  shows "random_index rnd k n < n"
proof -
  have "0 \<le> rnd k" "rnd k < 1" using assms(1) by (simp_all add: unit_draws_def)
  then have "0 \<le> rnd k * of_nat n" "rnd k * of_nat n < of_nat n" using assms(2) by auto
  then show ?thesis unfolding random_index_def by (simp add: nat_less_iff floor_less_iff)
qed

lemma random_member_in: "unit_draws rnd \<Longrightarrow> c \<noteq> [] \<Longrightarrow> random_member rnd k c \<in> set c"
  by (simp add: random_member_def random_index_less)

lemma merge_link_in:
  assumes "unit_draws rnd" "\<And>c. c \<in> set cs \<Longrightarrow> c \<noteq> []" "Suc i < length cs"
  shows "\<exists>a \<in> set (cs ! i). \<exists>b \<in> set (cs ! Suc i). link a b \<in> set (merge_links rnd k cs)"
proof (intro bexI)
  show "link (random_member rnd (k + 2 * i) (cs ! i)) (random_member rnd (k + 2 * i + 1) (cs ! Suc i))
      \<in> set (merge_links rnd k cs)"
    using assms(3) by (auto simp: merge_links_def)
qed (use assms in \<open>auto intro!: random_member_in\<close>)

lemma merge_links_mem:
  assumes "unit_draws rnd" "\<And>c. c \<in> set cs \<Longrightarrow> c \<noteq> []" "l \<in> set (merge_links rnd k cs)"
  shows "\<exists>i. Suc i < length cs \<and> sl_source l \<in> set (cs ! i) \<and> sl_target l \<in> set (cs ! Suc i)"
proof -
  have "l \<in> (\<lambda>i. link (random_member rnd (k + 2 * i) (cs ! i))
      (random_member rnd (k + 2 * i + 1) (cs ! (i + 1)))) ` {0..<length cs - 1}"
    using assms(3) by (simp add: merge_links_def)
  then obtain i where "i < length cs - 1"
    "l = link (random_member rnd (k + 2 * i) (cs ! i)) (random_member rnd (k + 2 * i + 1) (cs ! Suc i))" by auto
  then show ?thesis using assms(1,2) by (intro exI [of _ i]) (auto intro!: random_member_in)
qed

lemma merge_connects:
  fixes k :: nat
  assumes wl: "well_linked addrs links" and rnd: "unit_draws rnd"
  defines "cs \<equiv> find_components addrs links"
  defines "L \<equiv> links @ merge_links rnd k cs"
  assumes "x \<in> set addrs" "y \<in> set addrs"
  shows "(x, y) \<in> conn L"
proof -
  have K: "edges links \<subseteq> edges L" by (auto simp: L_def edges_append)
  have ne: "c \<noteq> []" if "c \<in> set cs" for c using component_nonempty [OF wl] that by (simp add: cs_def)
  have same: "(u, v) \<in> conn L" if "c \<in> set cs" "u \<in> set c" "v \<in> set c" for c u v
    using component_class [OF wl] that conn_mono [OF K] by (auto simp: cs_def)
  have "(map hd cs ! i, map hd cs ! Suc i) \<in> conn L" if i: "Suc i < length (map hd cs)" for i
  proof -
    obtain a b where ab: "a \<in> set (cs ! i)" "b \<in> set (cs ! Suc i)" "link a b \<in> set (merge_links rnd k cs)"
      using merge_link_in [OF rnd ne] i by fastforce
    have "(a, b) \<in> conn L" using ab(3) by (intro conn_edge) (force simp: L_def edges_def)
    moreover have mem: "cs ! i \<in> set cs" "cs ! Suc i \<in> set cs" using i by simp_all
    have "(hd (cs ! i), a) \<in> conn L" by (rule same [OF mem(1)]) (use ab ne mem in simp_all)
    moreover have "(b, hd (cs ! Suc i)) \<in> conn L" by (rule same [OF mem(2)]) (use ab ne mem in simp_all)
    ultimately show ?thesis using i conn_trans by (metis length_map nth_map Suc_lessD)
  qed
  then have reps: "(u, v) \<in> conn L" if "u \<in> set (map hd cs)" "v \<in> set (map hd cs)" for u v
    using chain_connected that by blast
  show ?thesis
  proof (rule components_connected [OF wl K assms(5,6)], fold cs_def)
    fix c c' assume cc: "c \<in> set cs" "c' \<in> set cs"
    then have "(hd c, hd c') \<in> conn L" by (intro reps) simp_all
    moreover have "hd c \<in> set c" "hd c' \<in> set c'" using cc ne by simp_all
    ultimately show "\<exists>a \<in> set c. \<exists>b \<in> set c'. (a, b) \<in> conn L" by blast
  qed
qed

lemma merge_link_ok:
  assumes wl: "well_linked addrs links" and rnd: "unit_draws rnd"
    and l: "l \<in> set (merge_links rnd k (find_components addrs links))"
  shows "sl_source l \<in> set addrs \<and> sl_target l \<in> set addrs \<and> sl_source l \<noteq> sl_target l"
proof -
  let ?cs = "find_components addrs links"
  obtain i where i: "Suc i < length ?cs" "sl_source l \<in> set (?cs ! i)" "sl_target l \<in> set (?cs ! Suc i)"
    using merge_links_mem [OF rnd _ l] component_nonempty [OF wl] by blast
  have mem: "?cs ! i \<in> set ?cs" "?cs ! Suc i \<in> set ?cs" using i by simp_all
  have "set (?cs ! i) \<noteq> set (?cs ! Suc i)"
    using nth_eq_iff_index_eq [OF distinct_components [OF wl], of i "Suc i"] i(1) by simp
  then have "sl_source l \<noteq> sl_target l"
    using component_class [OF wl mem(1) i(2)] component_class [OF wl mem(2) i(3)] by auto
  then show ?thesis using i component_subset [OF wl] mem by blast
qed

lemma merge_well_linked:
  "well_linked addrs links \<Longrightarrow> unit_draws rnd \<Longrightarrow>
   well_linked addrs (links @ merge_links rnd k (find_components addrs links))"
  using merge_link_ok [of addrs links rnd _ k] by (auto simp: well_linked_def)

text \<open>
  C4: Merging joins all groups. Whatever the random draws are, after \<open>mergeNodes\<close> the peers form a
  single group (none, if there are no peers); the old links are kept and the number of links added
  is the number of groups minus one, the least that can join them.
\<close>

theorem mergeNodes_joins_all:
  assumes "svc_currentData svc = Some d" "well_linked (addresses d) (sd_links d)" "unit_draws rnd"
  shows "\<exists>d' added k. mergeNodes rnd svc = Inr \<lparr>svc_currentData = Some d', svc_draws = k\<rparr>
    \<and> sd_peers d' = sd_peers d \<and> sd_links d' = sd_links d @ added
    \<and> length added = length (identifyDisconnectedComponents d) - 1
    \<and> length (identifyDisconnectedComponents d') \<le> 1"
proof -
  let ?added = "merge_links rnd (svc_draws svc) (find_components (addresses d) (sd_links d))"
  have "length (find_components (addresses d) (sd_links d @ ?added)) \<le> 1"
    using merge_well_linked [OF assms(2,3)] merge_connects [OF assms(2,3)] by (intro one_component)
  then show ?thesis using assms(1)
    by (simp add: mergeNodes_def identifyDisconnectedComponents_def merge_links_def)
qed

theorem mergeNodes_joins_all_witness:
  "\<exists>d' k. mergeNodes (\<lambda>_. 1 / 2) \<lparr>svc_currentData = Some sample_network, svc_draws = 0\<rparr>
       = Inr \<lparr>svc_currentData = Some d', svc_draws = k\<rparr>
     \<and> length (sd_links d') = 4 \<and> length (identifyDisconnectedComponents d') \<le> 1"
  using mergeNodes_joins_all [of "\<lparr>svc_currentData = Some sample_network, svc_draws = 0\<rparr>" sample_network
      "\<lambda>_. 1 / 2", OF _ sample_network_linked]
  by (auto simp: sample_network_components unit_draws_def) (auto simp: sample_network_def)

section \<open>The generated network\<close>

lemma code_unit_compare_0: "code_unit_compare s t = 0 \<Longrightarrow> s = t"
  by (induction s t rule: code_unit_compare.induct) (auto simp: char_code_def split: if_splits)

lemma connection_key_sym: "connection_key a b = connection_key b a"
proof -
  have "code_unit_compare a b \<le> 0 \<Longrightarrow> code_unit_compare b a \<le> 0 \<Longrightarrow> a = b"
    using code_unit_compare_anti [of a b] code_unit_compare_0 [of a b] by linarith
  then show ?thesis
    using code_unit_compare_anti [of a b] by (auto simp: connection_key_def js_sort_strings_def)
qed

definition link_key :: "DashboardSplitsLink \<Rightarrow> string" where
  "link_key l = connection_key (sl_source l) (sl_target l)"

definition link_ends :: "DashboardSplitsLink \<Rightarrow> string set" where
  "link_ends l = {sl_source l, sl_target l}"

definition no_loops :: "DashboardSplitsLink list \<Rightarrow> bool" where
  "no_loops links \<longleftrightarrow> (\<forall>l \<in> set links. sl_source l \<noteq> sl_target l)"

definition gen_ok :: "string list \<Rightarrow> Generation \<Rightarrow> bool" where
  "gen_ok addrs g \<longleftrightarrow> well_linked addrs (gen_links g) \<and> no_loops (gen_links g)
    \<and> gen_connectionSet g = map link_key (gen_links g) \<and> distinct (gen_connectionSet g)"

lemma link_ends_key: "link_ends l = link_ends l' \<Longrightarrow> link_key l = link_key l'"
  by (auto simp: link_ends_def link_key_def doubleton_eq_iff connection_key_sym)

lemma distinct_ends: "distinct (map link_key ls) \<Longrightarrow> distinct (map link_ends ls)"
  unfolding distinct_map inj_on_def by (blast dest: link_ends_key)

lemma gen_ok_ends: "gen_ok addrs g \<Longrightarrow> distinct (map link_ends (gen_links g))"
  unfolding gen_ok_def by (metis distinct_ends)

lemma gen_ok_draws [simp]: "gen_ok addrs (g\<lparr>gen_draws := k\<rparr>) = gen_ok addrs g"
  by (simp add: gen_ok_def)

lemma gen_ok_push:
  assumes "gen_ok addrs g" "a \<in> set addrs" "b \<in> set addrs" "a \<noteq> b"
    and "connection_key a b \<notin> set (gen_connectionSet g)"
  shows "gen_ok addrs (g\<lparr>gen_draws := k, gen_links := gen_links g @ [link a b],
    gen_connectionSet := gen_connectionSet g @ [connection_key a b]\<rparr>)"
  using assms by (auto simp: gen_ok_def well_linked_def no_loops_def link_key_def)

lemma connect_loop_spec:
  assumes "unit_draws rnd" "length peers = peerCount" "peer \<in> set peers" "gen_ok (map sp_address peers) g"
  shows "\<exists>g'. connect_loop rnd peerCount perPeer peers peer made attempts g = Inr g'
    \<and> gen_ok (map sp_address peers) g'
    \<and> length (gen_links g') \<le> length (gen_links g) + (perPeer - made)
    \<and> gen_draws g' \<le> gen_draws g + (peerCount * 2 - attempts)"
  using assms
proof (induction rnd peerCount perPeer peers peer made attempts g rule: connect_loop.induct)
  case (1 rnd n perPeer peers peer made attempts g)
  show ?case
  proof (cases "made < perPeer \<and> attempts < n * 2")
    case True
    let ?i = "random_index rnd (gen_draws g) n"
    let ?t = "peers ! ?i" and ?g = "g\<lparr>gen_draws := gen_draws g + 1\<rparr>"
    have i: "?i < length peers" using random_index_less [OF 1(4)] 1(5) True by simp
    then have nth: "js_nth peers (int ?i) = Some ?t" by (simp add: js_nth_def)
    have t: "?t \<in> set peers" using i by simp
    consider (self) "sp_address ?t = sp_address peer"
      | (new) "sp_address ?t \<noteq> sp_address peer"
          "connection_key (sp_address peer) (sp_address ?t) \<notin> set (gen_connectionSet g)"
      | (old) "sp_address ?t \<noteq> sp_address peer"
          "connection_key (sp_address peer) (sp_address ?t) \<in> set (gen_connectionSet g)" by blast
    then show ?thesis
    proof cases
      case self
      then show ?thesis using 1(1) [OF True refl nth self 1(4-6)] 1(7) nth True
        by (subst connect_loop.simps) fastforce
    next
      case new
      let ?g2 = "?g\<lparr>gen_links := gen_links g @ [link (sp_address peer) (sp_address ?t)],
        gen_connectionSet := gen_connectionSet g @ [connection_key (sp_address peer) (sp_address ?t)]\<rparr>"
      have "gen_ok (map sp_address peers) ?g2"
        using gen_ok_push [OF 1(7)] new t 1(6) by simp
      then show ?thesis using 1(2) [OF True refl nth new(1,2) 1(4-6)] nth new True
        by (subst connect_loop.simps) fastforce
    next
      case old
      then show ?thesis using 1(3) [OF True refl nth old(1) _ 1(4-6)] 1(7) nth True
        by (subst connect_loop.simps) fastforce
    qed
  next
    case False
    then show ?thesis using 1(7) by (subst connect_loop.simps) auto
  qed
qed

lemma connect_peers_spec:
  assumes "unit_draws rnd" "length peers = n" "set ps \<subseteq> set peers" "gen_ok (map sp_address peers) g"
  shows "\<exists>g'. connect_peers rnd n perPeer peers ps g = Inr g' \<and> gen_ok (map sp_address peers) g'
    \<and> length (gen_links g') \<le> length (gen_links g) + length ps * perPeer
    \<and> gen_draws g' \<le> gen_draws g + length ps * (n * 2)"
  using assms(3,4)
proof (induction ps arbitrary: g)
  case (Cons p ps)
  obtain g1 where g1: "connect_loop rnd n perPeer peers p 0 0 g = Inr g1" "gen_ok (map sp_address peers) g1"
    "length (gen_links g1) \<le> length (gen_links g) + perPeer" "gen_draws g1 \<le> gen_draws g + n * 2"
    using connect_loop_spec [OF assms(1,2) _ Cons.prems(2), of p perPeer 0 0] Cons.prems(1) by auto
  obtain g2 where "connect_peers rnd n perPeer peers ps g1 = Inr g2" "gen_ok (map sp_address peers) g2"
    "length (gen_links g2) \<le> length (gen_links g1) + length ps * perPeer"
    "gen_draws g2 \<le> gen_draws g1 + length ps * (n * 2)"
    using Cons.IH [OF _ g1(2)] Cons.prems(1) by auto
  then show ?case using g1 by (intro exI [of _ g2]) simp
qed simp

lemma generate_spec:
  assumes "unit_draws rnd"
  shows "\<exists>d k'. generatePeerNetwork rnd k n perPeer = Inr (d, k')
    \<and> sd_peers d = generated_peers rnd k n \<and> well_linked (addresses d) (sd_links d) \<and> no_loops (sd_links d)
    \<and> distinct (map link_ends (sd_links d)) \<and> length (sd_links d) \<le> n * perPeer
    \<and> k' \<le> k + 4 * n + 2 * n * n"
proof -
  let ?ps = "generated_peers rnd k n"
  let ?g0 = "\<lparr>gen_links = [], gen_connectionSet = [], gen_draws = k + 4 * n\<rparr>"
  have len: "length ?ps = n" by (simp add: generated_peers_def)
  have "gen_ok (map sp_address ?ps) ?g0" by (simp add: gen_ok_def well_linked_def no_loops_def)
  from connect_peers_spec [OF assms len subset_refl this, of perPeer] obtain g where
    "connect_peers rnd n perPeer ?ps ?ps ?g0 = Inr g" "gen_ok (map sp_address ?ps) g"
    "length (gen_links g) \<le> n * perPeer" "gen_draws g \<le> k + 4 * n + n * (n * 2)"
    using len by auto
  then show ?thesis using gen_ok_ends by (simp add: generatePeerNetwork_def gen_ok_def algebra_simps)
qed

text \<open>
  C6: Generating the random network always ends, for every count of peers and of connections and
  every stream of draws: the attempts are bounded, so at most \<open>4n + 2n\<^sup>2\<close> draws are made. The result
  is a simple graph on the generated peers: no link joins an address with itself, no two links join
  the same pair, and there are at most \<open>n\<close> times the connections per peer.
\<close>

theorem generatePeerNetwork_simple_graph:
  assumes "unit_draws rnd"
  shows "\<exists>d k'. generatePeerNetwork rnd k peerCount connectionsPerPeer = Inr (d, k')
    \<and> length (sd_peers d) = peerCount
    \<and> (\<forall>l \<in> set (sd_links d). sl_source l \<in> set (addresses d) \<and> sl_target l \<in> set (addresses d)
        \<and> sl_source l \<noteq> sl_target l)
    \<and> distinct (map (\<lambda>l. {sl_source l, sl_target l}) (sd_links d))
    \<and> length (sd_links d) \<le> peerCount * connectionsPerPeer
    \<and> k' \<le> k + 4 * peerCount + 2 * peerCount * peerCount"
proof -
  obtain d k' where "generatePeerNetwork rnd k peerCount connectionsPerPeer = Inr (d, k')"
    "sd_peers d = generated_peers rnd k peerCount" "well_linked (addresses d) (sd_links d)" "no_loops (sd_links d)"
    "distinct (map link_ends (sd_links d))" "length (sd_links d) \<le> peerCount * connectionsPerPeer"
    "k' \<le> k + 4 * peerCount + 2 * peerCount * peerCount"
    using generate_spec [OF assms] by meson
  then show ?thesis unfolding well_linked_def no_loops_def link_ends_def
    by (intro exI [of _ d] exI [of _ k']) (simp add: generated_peers_def)
qed

theorem generatePeerNetwork_simple_graph_witness:
  "\<exists>d k'. generatePeerNetwork (\<lambda>k. of_nat (k mod 7) / 7) 0 100 50 = Inr (d, k')
    \<and> length (sd_peers d) = 100 \<and> length (sd_links d) \<le> 5000 \<and> k' \<le> 20400"
proof -
  have "unit_draws (\<lambda>k. of_nat (k mod 7) / 7)" by (simp add: unit_draws_def)
  from generatePeerNetwork_simple_graph [OF this, of 0 100 50] show ?thesis by auto
qed

section \<open>Sequences of operations\<close>

definition network_ok :: "DashboardSplits \<Rightarrow> bool" where
  "network_ok d \<longleftrightarrow> well_linked (addresses d) (sd_links d) \<and> no_loops (sd_links d)"

inductive splits_reach :: "(nat \<Rightarrow> rat) \<Rightarrow> SplitsService \<Rightarrow> bool" for rnd where
  start: "splits_reach rnd \<lparr>svc_currentData = None, svc_draws = 0\<rparr>"
| get: "splits_reach rnd svc \<Longrightarrow> getPeers rnd svc = Inr (svc', d) \<Longrightarrow> splits_reach rnd svc'"
| split: "splits_reach rnd svc \<Longrightarrow> splitNodes svc = Inr svc' \<Longrightarrow> splits_reach rnd svc'"
| merge: "splits_reach rnd svc \<Longrightarrow> mergeNodes rnd svc = Inr svc' \<Longrightarrow> splits_reach rnd svc'"

lemma getPeers_ok:
  assumes "unit_draws rnd" "\<And>d. svc_currentData svc = Some d \<Longrightarrow> network_ok d \<and> length (sd_peers d) = 100"
  shows "\<exists>svc' d. getPeers rnd svc = Inr (svc', d) \<and> svc_currentData svc' = Some d
    \<and> network_ok d \<and> length (sd_peers d) = 100"
proof (cases "svc_currentData svc")
  case None
  obtain d k where "generatePeerNetwork rnd (svc_draws svc) 100 50 = Inr (d, k)"
    "sd_peers d = generated_peers rnd (svc_draws svc) 100"
    "well_linked (addresses d) (sd_links d)" "no_loops (sd_links d)"
    using generate_spec [OF assms(1)] by meson
  then show ?thesis using None by (simp add: getPeers_def network_ok_def generated_peers_def)
qed (use assms(2) in \<open>simp add: getPeers_def\<close>)

lemma splitNodes_ok:
  assumes "svc_currentData svc = Some d" "network_ok d"
  shows "\<exists>d'. splitNodes svc = Inr (svc\<lparr>svc_currentData := Some d'\<rparr>) \<and> network_ok d' \<and> sd_peers d' = sd_peers d"
  using group_to_split_cases [of d]
proof (elim disjE bexE conjE)
  assume "group_to_split d = None"
  then show ?thesis using assms by (intro exI [of _ d]) (simp add: splitNodes_def)
next
  fix g assume g: "g \<in> set (identifyDisconnectedComponents d)" "group_to_split d = Some g"
  have wl: "well_linked (addresses d) (sd_links d)" using assms(2) by (simp add: network_ok_def)
  have gd: "distinct g" "set g \<subseteq> set (addresses d)"
    using g(1) component_distinct [OF wl] component_subset [OF wl] by (auto simp: identifyDisconnectedComponents_def)
  have "sl_source l \<noteq> sl_target l" if l: "l \<in> set (sd_links (split_group d g))" for l
  proof -
    have "l \<in> set (sd_links d) \<or> l \<in> set (ensureGroupIsConnected d (take (length g div 2) g))
      \<or> l \<in> set (ensureGroupIsConnected d (drop (length g div 2) g))"
      using l by (auto simp: split_group_def)
    then show ?thesis
      using ensure_within [OF distinct_take [OF gd(1)]] ensure_within [OF distinct_drop [OF gd(1)]] assms(2)
      by (auto simp: network_ok_def no_loops_def)
  qed
  then have "network_ok (split_group d g)"
    using split_well_linked [OF wl gd(2,1)] by (simp add: network_ok_def no_loops_def)
  then show ?thesis using assms(1) g(2)
    by (intro exI [of _ "split_group d g"]) (simp add: splitNodes_def, simp add: split_group_def)
qed

lemma mergeNodes_ok:
  assumes "unit_draws rnd" "svc_currentData svc = Some d" "network_ok d"
  shows "\<exists>svc' d'. mergeNodes rnd svc = Inr svc' \<and> svc_currentData svc' = Some d' \<and> network_ok d'
    \<and> sd_peers d' = sd_peers d"
proof -
  have wl: "well_linked (addresses d) (sd_links d)" using assms(3) by (simp add: network_ok_def)
  let ?d = "\<lparr>sd_peers = sd_peers d,
    sd_links = sd_links d @ merge_links rnd (svc_draws svc) (identifyDisconnectedComponents d)\<rparr>"
  have "network_ok ?d"
    using merge_well_linked [OF wl assms(1)] merge_link_ok [OF wl assms(1)] assms(3)
    by (auto simp: network_ok_def no_loops_def identifyDisconnectedComponents_def)
  then show ?thesis using assms(2) by (simp add: mergeNodes_def)
qed

lemma splits_reach_ok:
  assumes "splits_reach rnd svc" "unit_draws rnd"
  shows "svc_currentData svc = Some d \<Longrightarrow> network_ok d \<and> length (sd_peers d) = 100"
  using assms(1)
proof (induction arbitrary: d)
  case (get svc svc' d')
  then show ?case using getPeers_ok [OF assms(2), of svc] by auto
next
  case (split svc svc')
  then obtain d0 where d0: "svc_currentData svc = Some d0" by (auto simp: splitNodes_def split: option.splits)
  then show ?case using splitNodes_ok [OF d0] split by fastforce
next
  case (merge svc svc')
  then obtain d0 where d0: "svc_currentData svc = Some d0" by (auto simp: mergeNodes_def split: option.splits)
  then show ?case using mergeNodes_ok [OF assms(2) d0] merge by fastforce
qed simp

text \<open>
  C7: Whatever sequence of loading, splitting and merging is run, the cached network keeps its 100
  peers, every link joins two different addresses of peers, and no operation throws: loading always
  returns the network, and splitting and merging succeed as soon as it has been loaded once.
\<close>

theorem splits_service_invariant:
  assumes "unit_draws rnd" "splits_reach rnd svc"
  shows "\<exists>svc' d. getPeers rnd svc = Inr (svc', d) \<and> svc_currentData svc' = Some d
    \<and> length (sd_peers d) = 100
    \<and> (\<forall>l \<in> set (sd_links d). sl_source l \<in> set (addresses d) \<and> sl_target l \<in> set (addresses d)
        \<and> sl_source l \<noteq> sl_target l)
    \<and> (\<exists>svc''. splitNodes svc' = Inr svc'') \<and> (\<exists>svc''. mergeNodes rnd svc' = Inr svc'')"
proof -
  obtain svc' d where d: "getPeers rnd svc = Inr (svc', d)" "svc_currentData svc' = Some d"
    "network_ok d" "length (sd_peers d) = 100"
    using getPeers_ok [OF assms(1)] splits_reach_ok [OF assms(2,1)] by meson
  moreover have "\<exists>s. splitNodes svc' = Inr s" using splitNodes_ok [OF d(2,3)] by auto
  moreover have "\<exists>s. mergeNodes rnd svc' = Inr s" using mergeNodes_ok [OF assms(1) d(2,3)] by auto
  ultimately show ?thesis unfolding network_ok_def well_linked_def no_loops_def by blast
qed

theorem splits_service_invariant_witness:
  "\<exists>svc' d. getPeers (\<lambda>_. 0) \<lparr>svc_currentData = None, svc_draws = 0\<rparr> = Inr (svc', d)
    \<and> length (sd_peers d) = 100 \<and> (\<exists>svc''. splitNodes svc' = Inr svc'')"
proof -
  have "unit_draws (\<lambda>_. 0)" by (simp add: unit_draws_def)
  from splits_service_invariant [OF this splits_reach.start] show ?thesis by blast
qed

section \<open>Duplicated peers\<close>

definition dedup :: "('a \<Rightarrow> 'b) \<Rightarrow> 'a list \<Rightarrow> 'a list" where
  "dedup f xs = map snd (filter (\<lambda>(i, x). int i = js_findIndex (\<lambda>y. f y = f x) xs) (zip [0..<length xs] xs))"

lemma js_findIndex_append_left:
  "\<exists>x \<in> set xs. p x \<Longrightarrow> js_findIndex p (xs @ ys) = js_findIndex p xs"
proof (induction xs)
  case (Cons x xs)
  then show ?case using js_findIndex_neg_iff [of p xs] by (cases "p x") auto
qed simp

lemma dedup_snoc: "dedup f (xs @ [x]) = dedup f xs @ (if f x \<in> f ` set xs then [] else [x])"
proof -
  have zip: "zip [0..<length (xs @ [x])] (xs @ [x]) = zip [0..<length xs] xs @ [(length xs, x)]" by simp
  have old: "js_findIndex (\<lambda>y. f y = f z) (xs @ [x]) = js_findIndex (\<lambda>y. f y = f z) xs" if "z \<in> set xs" for z
    using that by (intro js_findIndex_append_left) auto
  have new: "int (length xs) = js_findIndex (\<lambda>y. f y = f x) (xs @ [x]) \<longleftrightarrow> f x \<notin> f ` set xs"
  proof (cases "f x \<in> f ` set xs")
    case True
    then obtain z where "z \<in> set xs" "f z = f x" by (metis imageE)
    then have "js_findIndex (\<lambda>y. f y = f x) (xs @ [x]) = js_findIndex (\<lambda>y. f y = f x) xs"
      by (intro js_findIndex_append_left) auto
    then show ?thesis using True js_findIndex_bounds [of "\<lambda>y. f y = f x" xs] by auto
  next
    case False
    then have "\<forall>y \<in> set xs. f y \<noteq> f x" by (metis imageI)
    then show ?thesis using False js_findIndex_append [of xs "\<lambda>y. f y = f x" x "[]"] by simp
  qed
  have "filter (\<lambda>(i, z). int i = js_findIndex (\<lambda>y. f y = f z) (xs @ [x])) (zip [0..<length xs] xs)
      = filter (\<lambda>(i, z). int i = js_findIndex (\<lambda>y. f y = f z) xs) (zip [0..<length xs] xs)"
    by (intro filter_cong) (auto dest!: set_zip_rightD simp: old)
  then show ?thesis unfolding dedup_def zip using new by simp
qed

lemma dedup_spec:
  "set (dedup f xs) \<subseteq> set xs \<and> distinct (map f (dedup f xs)) \<and> f ` set (dedup f xs) = f ` set xs
   \<and> (\<forall>x \<in> set (dedup f xs). List.find (\<lambda>y. f y = f x) xs = Some x)"
proof (induction xs rule: rev_induct)
  case (snoc x xs)
  have find: "List.find p (xs @ [x]) = (case List.find p xs of Some y \<Rightarrow> Some y | None \<Rightarrow> if p x then Some x else None)" for p
    by (induction xs) auto
  have "List.find (\<lambda>y. f y = f x) xs = None" if "f x \<notin> f ` set xs"
    unfolding find_None_iff using that by (metis imageI)
  then show ?case using snoc unfolding dedup_snoc find by (auto split: if_splits)
qed (simp add: dedup_def)

text \<open>
  Removing duplicated peers leaves exactly one peer per address, the first of the list that has
  it, and keeps the links.
\<close>

theorem removeDuplicatedPeers_first:
  "distinct (addresses (removeDuplicatedPeers d))
   \<and> set (addresses (removeDuplicatedPeers d)) = set (addresses d)
   \<and> (\<forall>p \<in> set (sd_peers (removeDuplicatedPeers d)).
         List.find (\<lambda>q. sp_address q = sp_address p) (sd_peers d) = Some p)
   \<and> sd_links (removeDuplicatedPeers d) = sd_links d"
proof -
  have "sd_peers (removeDuplicatedPeers d) = dedup sp_address (sd_peers d)"
    by (simp add: removeDuplicatedPeers_def dedup_def)
  then show ?thesis using dedup_spec [of sp_address "sd_peers d"]
    by (simp add: removeDuplicatedPeers_def)
qed

theorem removeDuplicatedPeers_first_witness:
  "let d = \<lparr>sd_peers = [sample_peer ''a'', sample_peer ''b'', sample_peer ''a''], sd_links = []\<rparr>
   in addresses d = [''a'', ''b'', ''a''] \<and> distinct (addresses (removeDuplicatedPeers d))
     \<and> set (addresses (removeDuplicatedPeers d)) = {''a'', ''b''}"
  using removeDuplicatedPeers_first
    [of "\<lparr>sd_peers = [sample_peer ''a'', sample_peer ''b'', sample_peer ''a''], sd_links = []\<rparr>"]
  by (auto simp: sample_peer_def)

end
