(* ===== verification/DateHelper.thy ===== *)
theory DateHelper
  imports JsPrelude
begin

text \<open>
  The duration texts of \<open>shared/helpers/date.helper.ts\<close>. Times are integers in milliseconds; a value
  outside the range of \<open>Date\<close> is the invalid date, whose time is NaN.
\<close>

record TimeDiff =
  td_diff :: "string option"
  td_inFuture :: bool

record TimeDiffConfig =
  tc_withSecs :: bool
  tc_only1unit :: bool
  tc_fromTime :: "int option"

definition noMillisFormat :: string where
  "noMillisFormat = ''HH:mm:ss, dd MMM yy''"

definition js_date :: "int \<Rightarrow> int option" where
  "js_date t = (if \<bar>t\<bar> \<le> 8640000000000000 then Some t else None)"

definition time_units :: "int \<Rightarrow> int \<times> int \<times> int \<times> int" where
  "time_units difference =
    (let days = difference div (1000 * 60 * 60 * 24);
         afterDays = difference - days * 1000 * 60 * 60 * 24;
         hours = afterDays div (1000 * 60 * 60);
         afterHours = afterDays - hours * 1000 * 60 * 60;
         minutes = afterHours div (1000 * 60);
         afterMinutes = afterHours - minutes * 1000 * 60;
         seconds = afterMinutes div 1000
     in (days, hours, minutes, seconds))"

definition one_unit_text :: "bool \<Rightarrow> int \<times> int \<times> int \<times> int \<Rightarrow> string" where
  "one_unit_text withSecs units = (case units of (days, hours, minutes, seconds) \<Rightarrow>
     if days > 0 then
       (if hours \<ge> 12 then ''<'' @ int_to_string (days + 1) @ ''d '' else ''~'' @ int_to_string days @ ''d '')
     else if hours > 0 then
       (if minutes \<ge> 30 then ''<'' @ int_to_string (hours + 1) @ ''h '' else ''~'' @ int_to_string hours @ ''h '')
     else if minutes > 0 then
       (if seconds \<ge> 30 then ''<'' @ int_to_string (minutes + 1) @ ''m '' else ''~'' @ int_to_string minutes @ ''m '')
     else if withSecs then int_to_string seconds @ ''s '' else ''<1m '')"

definition units_text :: "bool \<Rightarrow> int \<times> int \<times> int \<times> int \<Rightarrow> string" where
  "units_text withSecs units = (case units of (days, hours, minutes, seconds) \<Rightarrow>
     let timeAgo = (if days > 0 then int_to_string days @ ''d '' else [])
           @ (if hours > 0 then int_to_string hours @ ''h '' else [])
           @ (if days = 0 \<and> hours \<noteq> 0 \<and> minutes > 0 then int_to_string minutes @ ''m '' else [])
           @ (if days = 0 \<and> hours = 0 \<and> minutes > 0 then int_to_string minutes @ ''m '' else [])
           @ (if withSecs \<and> days = 0 \<and> hours = 0 then int_to_string seconds @ ''s '' else [])
     in if \<not> withSecs \<and> days = 0 \<and> hours = 0 \<and> minutes = 0 then ''<1m '' else timeAgo)"

text \<open>With an invalid date every comparison is false and only the seconds could be printed, as NaN.\<close>

definition invalid_text :: "bool \<Rightarrow> bool \<Rightarrow> string" where
  "invalid_text withSecs only1unit =
    (if only1unit then (if withSecs then ''NaNs'' else ''<1m'') else [])"

definition no_config :: TimeDiffConfig where
  "no_config = \<lparr>tc_withSecs = False, tc_only1unit = False, tc_fromTime = None\<rparr>"

definition getTimeDiff :: "int \<Rightarrow> int option \<Rightarrow> TimeDiffConfig \<Rightarrow> TimeDiff" where
  "getTimeDiff now time config =
    (if \<not> truthy_int time then \<lparr>td_diff = None, td_inFuture = False\<rparr>
     else let t = the time;
              t' = (if length (int_to_string t) = 10 then t * 1000 else t);
              from = (if truthy_int (tc_fromTime config) then js_date (the (tc_fromTime config)) else Some now)
       in (case (js_date t', from) of
             (Some paramTime, Some currentTime) \<Rightarrow>
               let units = time_units \<bar>paramTime - currentTime\<bar>
               in \<lparr>td_diff = Some (js_trim (if tc_only1unit config then one_unit_text (tc_withSecs config) units
                      else units_text (tc_withSecs config) units)),
                   td_inFuture = (paramTime - currentTime > 0)\<rparr>
           | _ \<Rightarrow> \<lparr>td_diff = Some (invalid_text (tc_withSecs config) (tc_only1unit config)), td_inFuture = False\<rparr>))"

definition getElapsedTime :: "int \<Rightarrow> string" where
  "getElapsedTime timeInSeconds =
    (if timeInSeconds < 60 then int_to_string timeInSeconds @ ''s''
     else int_to_string (timeInSeconds div 60) @ ''m '' @ int_to_string (timeInSeconds mod 60) @ ''s'')"

definition getElapsedTimeInMinsAndHours :: "int \<Rightarrow> string" where
  "getElapsedTimeInMinsAndHours timeInMinutes =
    (if timeInMinutes < 60 then int_to_string timeInMinutes @ ''m''
     else int_to_string (timeInMinutes div 60) @ ''h '' @ int_to_string (timeInMinutes mod 60) @ ''m'')"

section \<open>The units\<close>

lemma time_units_exact:
  assumes "0 \<le> t" "time_units t = (days, hours, minutes, seconds)"
  shows "0 \<le> days \<and> 0 \<le> hours \<and> hours < 24 \<and> 0 \<le> minutes \<and> minutes < 60 \<and> 0 \<le> seconds \<and> seconds < 60
    \<and> t div 1000 = seconds + 60 * (minutes + 60 * (hours + 24 * days))"
proof -
  define r where "r = t mod 86400000"
  define q where "q = r mod 3600000"
  have raw: "days = t div (1000 * 60 * 60 * 24)"
    "hours = (t - days * 1000 * 60 * 60 * 24) div (1000 * 60 * 60)"
    "minutes = (t - days * 1000 * 60 * 60 * 24 - hours * 1000 * 60 * 60) div (1000 * 60)"
    "seconds = (t - days * 1000 * 60 * 60 * 24 - hours * 1000 * 60 * 60 - minutes * 1000 * 60) div 1000"
    using assms(2) by (auto simp only: time_units_def Let_def prod.inject)
  have d: "days = t div 86400000" using raw(1) by simp
  have r0: "t - days * 1000 * 60 * 60 * 24 = r"
    using minus_mult_div_eq_mod [of t 86400000] by (simp add: d r_def)
  have h: "hours = r div 3600000" using raw(2) unfolding r0 by simp
  have q0: "r - hours * 1000 * 60 * 60 = q"
    using minus_mult_div_eq_mod [of r 3600000] by (simp add: h q_def)
  have m: "minutes = q div 60000" using raw(3) unfolding r0 q0 by simp
  have m0: "q - minutes * 1000 * 60 = q mod 60000"
    using minus_mult_div_eq_mod [of q 60000] by (simp add: m)
  have s: "seconds = q mod 60000 div 1000" using raw(4) unfolding r0 q0 m0 .
  define u where "u = q mod 60000"
  define e where "e = u mod 1000"
  have s': "seconds = u div 1000" unfolding u_def by (rule s)
  have "t = 86400000 * days + r" "r = 3600000 * hours + q" "q = 60000 * minutes + u" "u = 1000 * seconds + e"
    unfolding d h m s' by (simp_all only: r_def q_def u_def e_def mult_div_mod_eq)
  then have sum: "t = 1000 * (seconds + 60 * (minutes + 60 * (hours + 24 * days))) + e" by (simp add: algebra_simps)
  have e: "0 \<le> e" "e < 1000" by (simp_all add: e_def)
  have b: "0 \<le> r" "r < 86400000" "0 \<le> q" "q < 3600000" "0 \<le> u" "u < 60000"
    by (simp_all add: r_def q_def u_def)
  have "0 \<le> days" "0 \<le> hours" "0 \<le> minutes" "0 \<le> seconds"
    using assms(1) b unfolding d h m s' by (simp_all add: pos_imp_zdiv_nonneg_iff)
  moreover have "hours < 24" "minutes < 60" "seconds < 60"
    using b unfolding h m s' by linarith+
  ultimately show ?thesis using int_div_pos_eq [OF sum e] by blast
qed

end
