(* ===== verification/NetworkSplits.thy ===== *)
theory NetworkSplits
  imports SplitsLaws LoadingError DateHelper
begin

text \<open>
  The slice of the splits page (\<open>dashboard-splits.reducer.ts\<close>, \<open>.state.ts\<close>, \<open>.actions.ts\<close>) and its
  effects (\<open>dashboard-splits.effects.ts\<close>). The reducer decorates the peers with their numbers of
  connections and groups them by breadth-first search over the links. Peers are values here: the
  search only ever holds the first peer of an address, so equality of values and identity of objects
  agree on what it holds.
\<close>

section \<open>State and actions\<close>

record DashboardNodeCount =
  dc_nodes :: nat
  dc_producers :: nat
  dc_snarkers :: nat
  dc_seeders :: nat
  dc_transactionGenerators :: nat

record DashboardSplitsSet =
  ss_peers :: "DashboardSplitsPeer list"

datatype splits_col = ColAddress | ColNode | ColRadius | ColOutgoing | ColIncoming

fun get_splits :: "splits_col \<Rightarrow> DashboardSplitsPeer \<Rightarrow> jsval" where
  "get_splits ColAddress p = JStr (sp_address p)"
| "get_splits ColNode p = JStr (sp_node p)"
| "get_splits ColRadius p = (case sp_radius p of None \<Rightarrow> JUndefined | Some n \<Rightarrow> JNum (of_nat n))"
| "get_splits ColOutgoing p = (case sp_outgoing p of None \<Rightarrow> JUndefined | Some n \<Rightarrow> JNum (of_nat n))"
| "get_splits ColIncoming p = (case sp_incoming p of None \<Rightarrow> JUndefined | Some n \<Rightarrow> JNum (of_nat n))"

record DashboardSplitsState =
  ds_peers :: "DashboardSplitsPeer list"
  ds_links :: "DashboardSplitsLink list"
  ds_sets :: "DashboardSplitsSet list"
  ds_activePeer :: "DashboardSplitsPeer option"
  ds_networkSplitsDetails :: "string option"
  ds_networkMergeDetails :: "string option"
  ds_nodeStats :: "DashboardNodeCount option"
  ds_fetching :: bool
  ds_sort :: "splits_col TableSort"
  ds_openSidePanel :: bool

datatype SplitsAction =
  SplitsGetSplits
| SplitsGetSplitsSuccess DashboardSplits
| SplitsSetActivePeer "DashboardSplitsPeer option"
| SplitsSplitNodes
| SplitsSplitNodesSuccess
| SplitsMergeNodes
| SplitsMergeNodesSuccess
| SplitsSortPeers "splits_col TableSort"
| SplitsToggleSidePanel
| SplitsClose

definition initial_splits :: "bool \<Rightarrow> DashboardSplitsState" where
  "initial_splits isMobile = \<lparr>ds_peers = [], ds_links = [], ds_sets = [], ds_activePeer = None,
     ds_networkSplitsDetails = None, ds_networkMergeDetails = None, ds_nodeStats = None, ds_fetching = True,
     ds_sort = \<lparr>sortBy = ColOutgoing, sortDirection = DSC\<rparr>, ds_openSidePanel = (\<not> isMobile)\<rparr>"

section \<open>Grouping the peers\<close>

definition sortPeers ::
  "(string \<Rightarrow> string \<Rightarrow> rat) \<Rightarrow> DashboardSplitsPeer list \<Rightarrow> splits_col TableSort \<Rightarrow> DashboardSplitsPeer list" where
  "sortPeers lc messages tableSort = ArrayHelper.sort lc get_splits messages tableSort [ColAddress, ColNode] True"

definition peer_at :: "DashboardSplitsPeer list \<Rightarrow> string \<Rightarrow> DashboardSplitsPeer option" where
  "peer_at peers a = List.find (\<lambda>p. sp_address p = a) peers"

definition bfs_pushes ::
  "DashboardSplitsPeer list \<Rightarrow> DashboardSplitsLink list \<Rightarrow> string \<Rightarrow> string list \<Rightarrow> DashboardSplitsPeer option list" where
  "bfs_pushes peers links a visited = concat (map (\<lambda>l.
     if sl_source l = a \<and> sl_target l \<notin> set visited then [peer_at peers (sl_target l)]
     else if sl_target l = a \<and> sl_source l \<notin> set visited then [peer_at peers (sl_source l)]
     else []) links)"

function bfs ::
  "DashboardSplitsPeer list \<Rightarrow> DashboardSplitsLink list \<Rightarrow> DashboardSplitsPeer option list
    \<Rightarrow> DashboardSplitsPeer list \<Rightarrow> string list \<Rightarrow> (DashboardSplitsPeer list \<times> string list) result" where
  "bfs peers links [] current visited = Inr (current, visited)"
| "bfs peers links (None # queue) current visited = Inl (TypeError ''address'')"
| "bfs peers links (Some p # queue) current visited =
     (if p \<notin> set current then
        let visited' = visited @ [sp_address p] in
        bfs peers links (queue @ bfs_pushes peers links (sp_address p) visited') (current @ [p]) visited'
      else bfs peers links queue current visited)"
  by pat_completeness auto

lemma peer_at_Some: "peer_at peers a = Some p \<Longrightarrow> p \<in> set peers \<and> sp_address p = a"
  by (auto simp: peer_at_def find_Some_iff)

lemma set_bfs_pushes: "set (bfs_pushes peers links a visited) \<subseteq> insert None (Some ` set peers)"
proof -
  have "peer_at peers b \<in> insert None (Some ` set peers)" for b
    using peer_at_Some by (cases "peer_at peers b") auto
  then show ?thesis by (auto simp: bfs_pushes_def)
qed

termination bfs
proof (relation "inv_image (finite_psubset <*lex*> less_than)
    (\<lambda>(peers, links, queue, current, visited).
      (insert None (Some ` set peers) \<union> set queue - Some ` set current, length queue))", goal_cases)
  case 1
  show ?case by (intro wf_inv_image wf_lex_prod wf_finite_psubset wf_less_than)
next
  case (2 peers links p queue current visited visited')
  let ?U = "insert None (Some ` set peers) \<union> set (Some p # queue)"
  let ?U' = "insert None (Some ` set peers) \<union> set (queue @ bfs_pushes peers links (sp_address p) visited')"
  have "?U' - Some ` set (current @ [p]) \<subset> ?U - Some ` set current"
    using 2(1) set_bfs_pushes [of peers links "sp_address p" visited'] by auto
  then have "(?U' - Some ` set (current @ [p]), ?U - Some ` set current) \<in> finite_psubset"
    by (simp add: finite_psubset_def)
  then show ?case by (simp add: insert_commute)
next
  case (3 peers links p queue current visited)
  then have "insert None (Some ` set peers) \<union> set (Some p # queue) - Some ` set current
      = insert None (Some ` set peers) \<union> set queue - Some ` set current" by auto
  then show ?case by (simp add: insert_commute)
qed

fun split_loop ::
  "(string \<Rightarrow> string \<Rightarrow> rat) \<Rightarrow> DashboardSplitsPeer list \<Rightarrow> DashboardSplitsLink list \<Rightarrow> DashboardSplitsPeer list
    \<Rightarrow> string list \<Rightarrow> DashboardSplitsSet list \<Rightarrow> DashboardSplitsSet list result" where
  "split_loop lc peers links [] visited sets = Inr sets"
| "split_loop lc peers links (peer # ps) visited sets =
     (if sp_address peer \<notin> set visited then
        js_bind (bfs peers links [Some peer] [] visited) (\<lambda>(current, visited').
          split_loop lc peers links ps visited'
            (sets @ [\<lparr>ss_peers = sortPeers lc current \<lparr>sortBy = ColOutgoing, sortDirection = DSC\<rparr>\<rparr>]))
      else split_loop lc peers links ps visited sets)"

definition splitThePeers ::
  "(string \<Rightarrow> string \<Rightarrow> rat) \<Rightarrow> DashboardSplitsPeer list \<Rightarrow> DashboardSplitsLink list \<Rightarrow> DashboardSplitsSet list result" where
  "splitThePeers lc peers links = split_loop lc peers links peers [] []"

section \<open>The reducer\<close>

definition getRadius :: "DashboardSplitsPeer \<Rightarrow> DashboardSplitsLink list \<Rightarrow> nat" where
  "getRadius peer links =
    (if sp_node peer = ''Webnode'' then 14
     else let occurrence = length (filter (\<lambda>l. sl_source l = sp_address peer \<or> sl_target l = sp_address peer) links) in
       if occurrence < 6 then 4 else if occurrence < 8 then 6 else if occurrence < 10 then 8
       else if occurrence < 12 then 10 else if occurrence < 14 then 12 else 14)"

definition getNodeCount :: "string list \<Rightarrow> DashboardNodeCount" where
  "getNodeCount urls =
    \<lparr>dc_nodes = length (filter (\<lambda>u. js_includes u ''node'') urls),
     dc_producers = length (filter (\<lambda>u. js_includes u ''prod'') urls),
     dc_snarkers = length (filter (\<lambda>u. js_includes u ''snarker'') urls),
     dc_seeders = length (filter (\<lambda>u. js_includes u ''seed'') urls),
     dc_transactionGenerators = length (filter (\<lambda>u. js_includes u ''transaction-generator'') urls)\<rparr>"

definition decorate :: "DashboardSplitsLink list \<Rightarrow> DashboardSplitsPeer \<Rightarrow> DashboardSplitsPeer" where
  "decorate links p = p\<lparr>sp_radius := Some (getRadius p links),
     sp_outgoing := Some (length (filter (\<lambda>l. sl_source l = sp_address p) links)),
     sp_incoming := Some (length (filter (\<lambda>l. sl_target l = sp_address p) links))\<rparr>"

fun topologyReducer ::
  "(string \<Rightarrow> string \<Rightarrow> rat) \<Rightarrow> string \<Rightarrow> bool \<Rightarrow> DashboardSplitsState \<Rightarrow> SplitsAction \<Rightarrow> DashboardSplitsState result" where
  "topologyReducer lc now isMobile state SplitsGetSplits =
     Inr (state\<lparr>ds_activePeer := None, ds_fetching := True\<rparr>)"
| "topologyReducer lc now isMobile state (SplitsGetSplitsSuccess payload) =
     (let peers = map (decorate (sd_links payload)) (sd_peers payload) in
      js_bind (splitThePeers lc peers (sd_links payload)) (\<lambda>sets.
        Inr (state\<lparr>ds_peers := peers,
          ds_sets := map (\<lambda>set. set\<lparr>ss_peers := sortPeers lc (ss_peers set) (ds_sort state)\<rparr>) sets,
          ds_links := sd_links payload,
          ds_nodeStats := Some (getNodeCount (map (\<lambda>p.
            if sp_node p = [] then ''node'' else js_toLowerCase (sp_node p)) peers)),
          ds_fetching := False\<rparr>)))"
| "topologyReducer lc now isMobile state (SplitsSetActivePeer peer) =
     Inr (state\<lparr>ds_activePeer := peer, ds_openSidePanel := True\<rparr>)"
| "topologyReducer lc now isMobile state SplitsSplitNodes =
     Inr (state\<lparr>ds_fetching := True, ds_networkSplitsDetails := Some (''Last split: '' @ now)\<rparr>)"
| "topologyReducer lc now isMobile state SplitsMergeNodes =
     Inr (state\<lparr>ds_fetching := True, ds_networkMergeDetails := Some (''Last merge: '' @ now)\<rparr>)"
| "topologyReducer lc now isMobile state (SplitsSortPeers srt) =
     Inr (state\<lparr>ds_sort := srt,
       ds_sets := map (\<lambda>set. set\<lparr>ss_peers := sortPeers lc (ss_peers set) srt\<rparr>) (ds_sets state)\<rparr>)"
| "topologyReducer lc now isMobile state SplitsToggleSidePanel =
     Inr (state\<lparr>ds_openSidePanel := \<not> ds_openSidePanel state\<rparr>)"
| "topologyReducer lc now isMobile state SplitsClose = Inr (initial_splits isMobile)"
| "topologyReducer lc now isMobile state SplitsSplitNodesSuccess = Inr state"
| "topologyReducer lc now isMobile state SplitsMergeNodesSuccess = Inr state"

section \<open>The effects\<close>

text \<open>
  \<open>splitNodes$\<close> and \<open>mergeNodes$\<close> run the service and report success even after an error;
  \<open>getSplits$\<close> answers the load actions after a delay, and a close cancels the wait. The text of a
  thrown error is the engine's, a parameter.
\<close>

definition splitNodes_effect ::
  "(int \<Rightarrow> string \<Rightarrow> string) \<Rightarrow> int \<Rightarrow> (jserror \<Rightarrow> string) \<Rightarrow> SplitsService
    \<Rightarrow> SplitsService \<times> (ErrorPreviewActions + SplitsAction) list" where
  "splitNodes_effect rd now msg svc = (case splitNodes svc of
     Inr svc' \<Rightarrow> (svc', [Inr SplitsSplitNodesSuccess])
   | Inl e \<Rightarrow> (svc, catchErrorAndRepeat rd now RUST SplitsSplitNodesSuccess (plain_error (msg e))))"

definition mergeNodes_effect ::
  "(nat \<Rightarrow> rat) \<Rightarrow> (int \<Rightarrow> string \<Rightarrow> string) \<Rightarrow> int \<Rightarrow> (jserror \<Rightarrow> string) \<Rightarrow> SplitsService
    \<Rightarrow> SplitsService \<times> (ErrorPreviewActions + SplitsAction) list" where
  "mergeNodes_effect rnd rd now msg svc = (case mergeNodes rnd svc of
     Inr svc' \<Rightarrow> (svc', [Inr SplitsMergeNodesSuccess])
   | Inl e \<Rightarrow> (svc, catchErrorAndRepeat rd now RUST SplitsMergeNodesSuccess (plain_error (msg e))))"

definition getSplits_pending :: "SplitsAction \<Rightarrow> bool \<Rightarrow> bool" where
  "getSplits_pending a pending = (case a of
     SplitsGetSplits \<Rightarrow> True | SplitsSplitNodesSuccess \<Rightarrow> True | SplitsMergeNodesSuccess \<Rightarrow> True
   | SplitsClose \<Rightarrow> False | _ \<Rightarrow> pending)"

definition getSplits_reply ::
  "(nat \<Rightarrow> rat) \<Rightarrow> (int \<Rightarrow> string \<Rightarrow> string) \<Rightarrow> int \<Rightarrow> (jserror \<Rightarrow> string) \<Rightarrow> SplitsService
    \<Rightarrow> SplitsService \<times> (ErrorPreviewActions + SplitsAction) list" where
  "getSplits_reply rnd rd now msg svc = (case getPeers rnd svc of
     Inr (svc', d) \<Rightarrow> (svc', [Inr (SplitsGetSplitsSuccess d)])
   | Inl e \<Rightarrow> (svc, catchErrorAndRepeat rd now RUST
       (SplitsGetSplitsSuccess \<lparr>sd_peers = [], sd_links = []\<rparr>) (plain_error (msg e))))"

text \<open>The page: slice, service and effects together.\<close>

record splits_page =
  pg_state :: DashboardSplitsState
  pg_svc :: SplitsService
  pg_pending :: bool

record page_env =
  env_rnd :: "nat \<Rightarrow> rat"
  env_localeCompare :: "string \<Rightarrow> string \<Rightarrow> rat"
  env_readableDate :: "int \<Rightarrow> string \<Rightarrow> string"
  env_now :: int
  env_message :: "jserror \<Rightarrow> string"
  env_mobile :: bool

definition page_reduce :: "page_env \<Rightarrow> splits_page \<Rightarrow> SplitsAction \<Rightarrow> splits_page result" where
  "page_reduce env pg a =
    js_bind (topologyReducer (env_localeCompare env) (env_readableDate env (env_now env) noMillisFormat)
        (env_mobile env) (pg_state pg) a)
      (\<lambda>s. Inr (pg\<lparr>pg_state := s, pg_pending := getSplits_pending a (pg_pending pg)\<rparr>))"

definition slice_actions :: "(ErrorPreviewActions + SplitsAction) list \<Rightarrow> SplitsAction list" where
  "slice_actions outs = concat (map (\<lambda>x. case x of Inl _ \<Rightarrow> [] | Inr a \<Rightarrow> [a]) outs)"

definition page_effects :: "page_env \<Rightarrow> splits_page \<Rightarrow> SplitsAction \<Rightarrow> splits_page result" where
  "page_effects env pg a = (case a of
     SplitsSplitNodes \<Rightarrow>
       (case splitNodes_effect (env_readableDate env) (env_now env) (env_message env) (pg_svc pg) of
          (svc, outs) \<Rightarrow> run_reducer (page_reduce env) (pg\<lparr>pg_svc := svc\<rparr>) (slice_actions outs))
   | SplitsMergeNodes \<Rightarrow>
       (case mergeNodes_effect (env_rnd env) (env_readableDate env) (env_now env) (env_message env) (pg_svc pg) of
          (svc, outs) \<Rightarrow> run_reducer (page_reduce env) (pg\<lparr>pg_svc := svc\<rparr>) (slice_actions outs))
   | _ \<Rightarrow> Inr pg)"

datatype page_event = PageAction SplitsAction | PageTimer

fun page_step :: "page_env \<Rightarrow> splits_page \<Rightarrow> page_event \<Rightarrow> splits_page result" where
  "page_step env pg (PageAction a) = js_bind (page_reduce env pg a) (\<lambda>pg'. page_effects env pg' a)"
| "page_step env pg PageTimer =
     (if pg_pending pg
      then (case getSplits_reply (env_rnd env) (env_readableDate env) (env_now env) (env_message env) (pg_svc pg) of
        (svc, outs) \<Rightarrow> run_reducer (page_reduce env) (pg\<lparr>pg_svc := svc, pg_pending := False\<rparr>) (slice_actions outs))
      else Inr pg)"

definition page_start :: "page_env \<Rightarrow> splits_page" where
  "page_start env = \<lparr>pg_state = initial_splits (env_mobile env),
     pg_svc = \<lparr>svc_currentData = None, svc_draws = 0\<rparr>, pg_pending = False\<rparr>"

section \<open>Correctness of the grouping\<close>

text \<open>No link leads from a peer to an address that is no peer.\<close>

definition no_dangling :: "string list \<Rightarrow> DashboardSplitsLink list \<Rightarrow> bool" where
  "no_dangling addrs links \<longleftrightarrow> (\<forall>l \<in> set links. sl_source l \<in> set addrs \<longleftrightarrow> sl_target l \<in> set addrs)"

lemma well_linked_no_dangling: "well_linked addrs links \<Longrightarrow> no_dangling addrs links"
  by (auto simp: well_linked_def no_dangling_def)

lemma no_dangling_edges:
  "no_dangling addrs links \<longleftrightarrow> (\<forall>x y. (x, y) \<in> edges links \<longrightarrow> x \<in> set addrs \<longrightarrow> y \<in> set addrs)"
  by (auto simp: no_dangling_def edges_iff)

lemma peer_at_None: "peer_at peers a = None \<longleftrightarrow> a \<notin> sp_address ` set peers"
  by (auto simp: peer_at_def find_None_iff)

lemma peer_at_total: "a \<in> sp_address ` set peers \<Longrightarrow> \<exists>p \<in> set peers. peer_at peers a = Some p \<and> sp_address p = a"
  using peer_at_None peer_at_Some by (metis not_None_eq)

text \<open>What is pushed: the peers at the far ends of the links to addresses not visited yet.\<close>

lemma set_pushes:
  assumes "a \<in> set visited"
  shows "set (bfs_pushes peers links a visited) = peer_at peers ` {y. (a, y) \<in> edges links \<and> y \<notin> set visited}"
proof -
  have "q \<in> set (bfs_pushes peers links a visited) \<longleftrightarrow>
    (\<exists>l \<in> set links. (sl_source l = a \<and> sl_target l \<notin> set visited \<and> q = peer_at peers (sl_target l))
      \<or> (sl_target l = a \<and> sl_source l \<notin> set visited \<and> q = peer_at peers (sl_source l)))" for q
    using assms by (auto simp: bfs_pushes_def split: if_splits)
  then show ?thesis
    unfolding set_eq_iff image_iff bex_simps mem_Collect_eq edges_iff by (simp only:) blast
qed

definition bfs_inv ::
  "DashboardSplitsPeer list \<Rightarrow> DashboardSplitsLink list \<Rightarrow> string set \<Rightarrow> string \<Rightarrow> DashboardSplitsPeer set
    \<Rightarrow> DashboardSplitsPeer list \<Rightarrow> string list \<Rightarrow> bool" where
  "bfs_inv peers links V x Q current visited \<longleftrightarrow>
     Q \<union> set current \<subseteq> set peers \<and> distinct current \<and> set visited = V \<union> sp_address ` set current
     \<and> (\<forall>p \<in> set current. \<forall>y. (sp_address p, y) \<in> edges links \<longrightarrow> y \<in> set visited \<union> sp_address ` Q)
     \<and> (\<forall>p \<in> Q \<union> set current. (x, sp_address p) \<in> conn links)"

lemma bfs_inv_step:
  assumes nd: "no_dangling (map sp_address peers) links"
    and inv: "bfs_inv peers links V x (insert p Q) current visited" and p: "p \<notin> set current"
  defines "visited' \<equiv> visited @ [sp_address p]"
  shows "\<exists>P. set (bfs_pushes peers links (sp_address p) visited') = Some ` P
    \<and> bfs_inv peers links V x (Q \<union> P) (current @ [p]) visited'"
proof -
  let ?N = "{y. (sp_address p, y) \<in> edges links \<and> y \<notin> set visited'}"
  let ?P = "(\<lambda>y. the (peer_at peers y)) ` ?N"
  have pin: "p \<in> set peers" "(x, sp_address p) \<in> conn links" using inv by (auto simp: bfs_inv_def)
  have N: "\<exists>q \<in> set peers. peer_at peers y = Some q \<and> sp_address q = y" if "y \<in> ?N" for y
    using that nd pin(1) peer_at_total [of y peers] by (auto simp: no_dangling_edges)
  have "peer_at peers ` ?N = Some ` ?P" using N by force
  then have pushes: "set (bfs_pushes peers links (sp_address p) visited') = Some ` ?P"
    using set_pushes [of "sp_address p" visited' peers links] by (simp add: visited'_def)
  obtain P where P: "set (bfs_pushes peers links (sp_address p) visited') = Some ` P"
    "P \<subseteq> set peers" "sp_address ` P = ?N"
  proof
    show "?P \<subseteq> set peers" "sp_address ` ?P = ?N" using N by force+
  qed (rule pushes)
  note inv' = inv [unfolded bfs_inv_def]
  have "bfs_inv peers links V x (Q \<union> P) (current @ [p]) visited'"
    unfolding bfs_inv_def
  proof (intro conjI ballI allI impI)
    fix q y assume q: "q \<in> set (current @ [p])" "(sp_address q, y) \<in> edges links"
    show "y \<in> set visited' \<union> sp_address ` (Q \<union> P)"
    proof (cases "q = p")
      case True
      then show ?thesis using q(2) P(3) by blast
    next
      case False
      have "\<forall>q \<in> set current. \<forall>y. (sp_address q, y) \<in> edges links \<longrightarrow> y \<in> set visited \<union> sp_address ` insert p Q"
        using inv' by (elim conjE)
      moreover have "q \<in> set current" using q(1) False by simp
      ultimately have "y \<in> set visited \<union> sp_address ` insert p Q" using q(2) by blast
      then show ?thesis by (auto simp: visited'_def)
    qed
  next
    fix q assume "q \<in> Q \<union> P \<union> set (current @ [p])"
    moreover have "(x, sp_address q) \<in> conn links" if "q \<in> P"
      using P(3) that pin(2) conn_trans [OF _ conn_edge] by blast
    ultimately show "(x, sp_address q) \<in> conn links" using inv' by auto
  qed (use inv' p P(2) in \<open>auto simp: visited'_def\<close>)
  then show ?thesis using P(1) by blast
qed

lemma bfs_inv_skip:
  assumes inv: "bfs_inv peers links V x (insert p Q) current visited" and p: "p \<in> set current"
  shows "bfs_inv peers links V x Q current visited"
proof -
  have "sp_address p \<in> set visited" using inv p by (auto simp: bfs_inv_def)
  then have eq: "set visited \<union> sp_address ` insert p Q = set visited \<union> sp_address ` Q" by auto
  show ?thesis using inv unfolding bfs_inv_def eq by (elim conjE, intro conjI) (assumption | blast)+
qed

lemma bfs_spec:
  assumes "no_dangling (map sp_address peers) links"
    and "set queue = Some ` Q" "bfs_inv peers links V x Q current visited"
  shows "\<exists>current' visited'. bfs peers links queue current visited = Inr (current', visited')
    \<and> bfs_inv peers links V x {} current' visited' \<and> Q \<union> set current \<subseteq> set current'"
  using assms
proof (induction peers links queue current visited arbitrary: Q rule: bfs.induct)
  case (3 peers links p queue current visited)
  have "set queue \<subseteq> Some ` Q" using 3(4) by auto
  then obtain Q' where Q': "set queue = Some ` Q'" by (auto simp: subset_image_iff)
  have "Some ` Q = Some ` insert p Q'" using 3(4) Q' by simp
  then have Q: "Q = insert p Q'" by (simp only: inj_image_eq_iff [OF inj_Some])
  show ?case
  proof (cases "p \<in> set current")
    case True
    have "bfs_inv peers links V x Q' current visited" by (rule bfs_inv_skip [OF 3(5) [unfolded Q] True])
    then show ?thesis using 3(2) [OF _ 3(3) Q'] True unfolding Q by auto
  next
    case False
    obtain P where P: "set (bfs_pushes peers links (sp_address p) (visited @ [sp_address p])) = Some ` P"
      "bfs_inv peers links V x (Q' \<union> P) (current @ [p]) (visited @ [sp_address p])"
      using bfs_inv_step [OF 3(3) 3(5) [unfolded Q] False] by blast
    have "set (queue @ bfs_pushes peers links (sp_address p) (visited @ [sp_address p])) = Some ` (Q' \<union> P)"
      using Q' P(1) by auto
    from 3(1) [OF False refl 3(3) this P(2)] show ?thesis using False unfolding Q by auto
  qed
qed auto

lemma bfs_class:
  assumes nd: "no_dangling (map sp_address peers) links" and p: "p \<in> set peers" "sp_address p \<notin> set visited"
    and closed: "link_closed links (set visited)"
  shows "\<exists>current visited'. bfs peers links [Some p] [] visited = Inr (current, visited')
    \<and> set current \<subseteq> set peers \<and> distinct current
    \<and> sp_address ` set current = conn links `` {sp_address p}
    \<and> set visited' = set visited \<union> conn links `` {sp_address p}"
proof -
  let ?x = "sp_address p"
  have "bfs_inv peers links (set visited) ?x {p} [] visited" using p by (simp add: bfs_inv_def)
  from bfs_spec [OF nd _ this, of "[Some p]"] obtain current visited' where
    r: "bfs peers links [Some p] [] visited = Inr (current, visited')" "p \<in> set current"
    and inv: "bfs_inv peers links (set visited) ?x {} current visited'" by auto
  have vis: "set visited' = set visited \<union> sp_address ` set current"
    and sub: "sp_address ` set current \<subseteq> conn links `` {?x}" using inv by (auto simp: bfs_inv_def)
  have "link_closed links (set visited')"
    using inv closed unfolding bfs_inv_def link_closed_def by blast
  then have "conn links `` {?x} \<subseteq> set visited'" using conn_closed vis r(2) by blast
  moreover have "conn links `` {?x} \<inter> set visited = {}" by (rule class_disjoint [OF closed p(2)])
  ultimately have "sp_address ` set current = conn links `` {?x}" using vis sub by blast
  then show ?thesis using r(1) vis inv unfolding bfs_inv_def by auto
qed

abbreviation set_addresses :: "DashboardSplitsSet \<Rightarrow> string set" where
  "set_addresses s \<equiv> sp_address ` set (ss_peers s)"

lemma set_sortPeers [simp]: "set (sortPeers lc ps srt) = set ps"
  by (simp add: sortPeers_def)

lemma distinct_sortPeers [simp]: "distinct (sortPeers lc ps srt) = distinct ps"
  using distinct_map_sort [of "\<lambda>x. x" lc get_splits ps] by (simp add: sortPeers_def)

lemma split_loop_scan:
  assumes nd: "no_dangling (map sp_address peers) links"
    and "set ps \<subseteq> set peers" "link_closed links (set visited)"
  shows "\<exists>new. split_loop lc peers links ps visited sets = Inr (sets @ new)
    \<and> map set_addresses new = scan (conn links) (set visited) (map sp_address ps)
    \<and> (\<forall>s \<in> set new. distinct (ss_peers s) \<and> set (ss_peers s) \<subseteq> set peers)"
  using assms(2,3)
proof (induction ps arbitrary: visited sets)
  case (Cons p ps)
  show ?case
  proof (cases "sp_address p \<in> set visited")
    case False
    obtain current visited' where c: "bfs peers links [Some p] [] visited = Inr (current, visited')"
      "set current \<subseteq> set peers" "distinct current" "sp_address ` set current = conn links `` {sp_address p}"
      "set visited' = set visited \<union> conn links `` {sp_address p}"
      using bfs_class [OF nd _ False Cons.prems(2)] Cons.prems(1) by auto
    have "link_closed links (set visited')"
      unfolding c(5) using Cons.prems(2) class_closed by (intro link_closed_Un)
    from Cons.IH [OF _ this, of "sets @ [\<lparr>ss_peers = sortPeers lc current \<lparr>sortBy = ColOutgoing, sortDirection = DSC\<rparr>\<rparr>]"]
    show ?thesis using Cons.prems(1) False c by fastforce
  qed (use Cons in simp)
qed simp

lemma splitThePeers_scan:
  assumes "no_dangling (map sp_address peers) links"
  shows "\<exists>sets. splitThePeers lc peers links = Inr sets
    \<and> map set_addresses sets = scan (conn links) {} (map sp_address peers)
    \<and> (\<forall>s \<in> set sets. distinct (ss_peers s) \<and> set (ss_peers s) \<subseteq> set peers)"
  using split_loop_scan [OF assms subset_refl, of "[]" lc "[]"]
  by (simp add: splitThePeers_def link_closed_def)

text \<open>
  C5: The service's depth-first search refines the abstract scan: for a network whose links join
  peers, the groups it returns are the classes of connectedness, in the order in which the list of
  peers meets them, and no group lists an address twice.
\<close>

theorem identifyDisconnectedComponents_refines:
  assumes "well_linked (addresses d) (sd_links d)"
  shows "map set (identifyDisconnectedComponents d) = scan (conn (sd_links d)) {} (addresses d)
    \<and> list_all distinct (identifyDisconnectedComponents d)"
  unfolding identifyDisconnectedComponents_def using find_components_scan [OF assms] .

theorem identifyDisconnectedComponents_refines_witness:
  "well_linked (addresses sample_network) (sd_links sample_network)
   \<and> map set [[''a'', ''c'', ''b'', ''d''], [''e'']]
     = scan (conn (sd_links sample_network)) {} (addresses sample_network)"
  using identifyDisconnectedComponents_refines [OF sample_network_linked] sample_network_linked
  unfolding sample_network_components by blast

text \<open>
  C3: The reducer's breadth-first search and the service's depth-first search agree: on the same
  network they return the same groups in the same order, whatever collation the table sort uses.
\<close>

theorem grouping_bfs_dfs_agree:
  assumes "well_linked (addresses d) (sd_links d)"
  shows "\<exists>sets. splitThePeers lc (sd_peers d) (sd_links d) = Inr sets
    \<and> map (\<lambda>s. sp_address ` set (ss_peers s)) sets = map set (identifyDisconnectedComponents d)"
  using splitThePeers_scan [OF well_linked_no_dangling [OF assms], of lc]
    find_components_scan [OF assms] by (auto simp: identifyDisconnectedComponents_def)

theorem grouping_bfs_dfs_agree_witness:
  "\<exists>sets. splitThePeers code_unit_compare (sd_peers sample_network) (sd_links sample_network) = Inr sets
    \<and> map (\<lambda>s. sp_address ` set (ss_peers s)) sets = [{''a'', ''b'', ''c'', ''d''}, {''e''}]"
  using grouping_bfs_dfs_agree [OF sample_network_linked, of code_unit_compare]
  unfolding sample_network_components by (simp add: insert_commute)

section \<open>When the grouping throws\<close>

lemma bfs_Inl: "bfs peers links queue current visited = Inl e \<Longrightarrow> e = TypeError ''address''"
  by (induction peers links queue current visited rule: bfs.induct) (auto split: if_splits)

lemma split_loop_Inl: "split_loop lc peers links ps visited sets = Inl e \<Longrightarrow> e = TypeError ''address''"
proof (induction ps arbitrary: visited sets)
  case (Cons p ps)
  then show ?case using bfs_Inl [of peers links "[Some p]" "[]" visited]
    by (cases "bfs peers links [Some p] [] visited") (auto split: if_splits prod.splits)
qed simp

lemma bfs_no_undefined:
  "bfs peers links queue current visited = Inr r \<Longrightarrow> None \<notin> set queue"
  by (induction peers links queue current visited rule: bfs.induct) (auto split: if_splits)

definition safe_visited :: "DashboardSplitsPeer list \<Rightarrow> DashboardSplitsLink list \<Rightarrow> string set \<Rightarrow> bool" where
  "safe_visited peers links V \<longleftrightarrow> V \<union> edges links `` V \<subseteq> sp_address ` set peers"

lemma safe_visited_push:
  assumes "safe_visited peers links (set visited)" "p \<in> set peers"
    and "None \<notin> set (bfs_pushes peers links (sp_address p) (visited @ [sp_address p]))"
  shows "safe_visited peers links (set (visited @ [sp_address p]))"
proof -
  have "y \<in> sp_address ` set peers" if "(sp_address p, y) \<in> edges links" for y
  proof (cases "y \<in> set (visited @ [sp_address p])")
    case True
    then show ?thesis using assms(1,2) by (auto simp: safe_visited_def)
  next
    case False
    then have "peer_at peers y \<in> set (bfs_pushes peers links (sp_address p) (visited @ [sp_address p]))"
      using that by (subst set_pushes) auto
    then show ?thesis using assms(3) peer_at_None by metis
  qed
  then show ?thesis using assms(1,2) by (auto simp: safe_visited_def)
qed

lemma bfs_Inr:
  assumes "bfs peers links queue current visited = Inr (current', visited')"
    and "safe_visited peers links (set visited)" "set queue \<subseteq> insert None (Some ` set peers)"
    and "sp_address ` set current \<subseteq> set visited"
  shows "safe_visited peers links (set visited') \<and> set visited \<subseteq> set visited'
    \<and> (\<forall>p. Some p \<in> set queue \<longrightarrow> sp_address p \<in> set visited')"
  using assms
proof (induction peers links queue current visited rule: bfs.induct)
  case (3 peers links p queue current visited)
  show ?case
  proof (cases "p \<in> set current")
    case True
    then have "sp_address p \<in> set visited" using 3(6) by blast
    then show ?thesis using 3(2) [OF _ _ 3(4)] 3(3,5,6) True by auto
  next
    case False
    let ?v = "visited @ [sp_address p]"
    let ?push = "bfs_pushes peers links (sp_address p) ?v"
    have run: "bfs peers links (queue @ ?push) (current @ [p]) ?v = Inr (current', visited')"
      using 3(3) False by simp
    have p: "p \<in> set peers" using 3(5) by auto
    have safe: "safe_visited peers links (set ?v)"
      using safe_visited_push [OF 3(4) p] bfs_no_undefined [OF run] by simp
    have sub: "set (queue @ ?push) \<subseteq> insert None (Some ` set peers)"
      using 3(5) set_bfs_pushes by auto
    have "sp_address ` set (current @ [p]) \<subseteq> set ?v" using 3(6) by auto
    from 3(1) [OF False refl run safe sub this] show ?thesis by auto
  qed
qed auto

lemma split_loop_Inr:
  assumes "split_loop lc peers links ps visited sets = Inr r" "safe_visited peers links (set visited)"
    and "set ps \<subseteq> set peers"
  shows "\<exists>V. safe_visited peers links V \<and> set visited \<subseteq> V \<and> sp_address ` set ps \<subseteq> V"
  using assms
proof (induction ps arbitrary: visited sets)
  case (Cons p ps)
  show ?case
  proof (cases "sp_address p \<in> set visited")
    case False
    then obtain current visited' sets' where run: "bfs peers links [Some p] [] visited = Inr (current, visited')"
      "split_loop lc peers links ps visited' sets' = Inr r"
      using Cons.prems(1) by (auto simp: js_bind_Inr_iff split: prod.splits)
    have v: "safe_visited peers links (set visited')" "set visited \<subseteq> set visited'" "sp_address p \<in> set visited'"
      using bfs_Inr [OF run(1) Cons.prems(2)] Cons.prems(3) by auto
    obtain V where "safe_visited peers links V" "set visited' \<subseteq> V" "sp_address ` set ps \<subseteq> V"
      using Cons.IH [OF run(2) v(1)] Cons.prems(3) by auto
    then show ?thesis using v(2,3) by (intro exI [of _ V]) auto
  next
    case True
    then obtain V where "safe_visited peers links V" "set visited \<subseteq> V" "sp_address ` set ps \<subseteq> V"
      using Cons.IH [of visited sets] Cons.prems by auto
    then show ?thesis using True by (intro exI [of _ V]) auto
  qed
qed auto

text \<open>
  C8: The grouping throws exactly when a link joins a peer with an address that is no peer: the
  search then takes an undefined peer from its queue and reads its address.
\<close>

theorem splitThePeers_throws_iff:
  "splitThePeers lc peers links = Inl (TypeError ''address'') \<longleftrightarrow>
   (\<exists>l \<in> set links. (sl_source l \<in> sp_address ` set peers) \<noteq> (sl_target l \<in> sp_address ` set peers))"
proof (cases "no_dangling (map sp_address peers) links")
  case True
  then show ?thesis using splitThePeers_scan [OF True, of lc] by (auto simp: no_dangling_def)
next
  case False
  have "splitThePeers lc peers links \<noteq> Inr r" for r
  proof
    assume "splitThePeers lc peers links = Inr r"
    then have run: "split_loop lc peers links peers [] [] = Inr r" by (simp add: splitThePeers_def)
    have "safe_visited peers links (set [])" by (simp add: safe_visited_def)
    from split_loop_Inr [OF run this subset_refl] obtain V
      where V: "safe_visited peers links V" "sp_address ` set peers \<subseteq> V" by (elim exE conjE)
    have "no_dangling (map sp_address peers) links"
      unfolding no_dangling_edges
    proof (intro allI impI)
      fix x y assume "(x, y) \<in> edges links" "x \<in> set (map sp_address peers)"
      then have "y \<in> edges links `` V" using V(2) by (auto intro: ImageI)
      then show "y \<in> set (map sp_address peers)" using V(1) by (auto simp: safe_visited_def)
    qed
    then show False using False by simp
  qed
  then obtain e where e: "splitThePeers lc peers links = Inl e" by (cases "splitThePeers lc peers links") auto
  then have "e = TypeError ''address''" using split_loop_Inl by (simp add: splitThePeers_def)
  then show ?thesis using e False by (auto simp: no_dangling_def)
qed

section \<open>The page\<close>

text \<open>The actions the page itself dispatches; the success actions come from the effects.\<close>

fun user_event :: "page_event \<Rightarrow> bool" where
  "user_event (PageAction (SplitsGetSplitsSuccess d)) = False"
| "user_event (PageAction SplitsSplitNodesSuccess) = False"
| "user_event (PageAction SplitsMergeNodesSuccess) = False"
| "user_event _ = True"

definition svc_ok :: "SplitsService \<Rightarrow> bool" where
  "svc_ok svc \<longleftrightarrow> (\<forall>d. svc_currentData svc = Some d \<longrightarrow> network_ok d \<and> length (sd_peers d) = 100)"

definition shows_network :: "DashboardSplitsState \<Rightarrow> DashboardSplits \<Rightarrow> bool" where
  "shows_network s d \<longleftrightarrow> ds_links s = sd_links d \<and> map sp_address (ds_peers s) = addresses d
     \<and> map set_addresses (ds_sets s) = map set (identifyDisconnectedComponents d)"

definition page_ok :: "splits_page \<Rightarrow> bool" where
  "page_ok pg \<longleftrightarrow> svc_ok (pg_svc pg)
     \<and> (\<not> ds_fetching (pg_state pg) \<longrightarrow> (\<exists>d. svc_currentData (pg_svc pg) = Some d \<and> shows_network (pg_state pg) d))"

lemma sp_address_decorate [simp]: "sp_address (decorate links p) = sp_address p"
  by (simp add: decorate_def)

lemma success_shows:
  assumes "well_linked (addresses d) (sd_links d)"
  shows "\<exists>s'. topologyReducer lc now m s (SplitsGetSplitsSuccess d) = Inr s'
    \<and> \<not> ds_fetching s' \<and> shows_network s' d"
proof -
  let ?peers = "map (decorate (sd_links d)) (sd_peers d)"
  have addrs: "map sp_address ?peers = addresses d" by simp
  have nd: "no_dangling (map sp_address ?peers) (sd_links d)"
    unfolding addrs using assms by (rule well_linked_no_dangling)
  obtain sets where sets: "splitThePeers lc ?peers (sd_links d) = Inr sets"
    "map set_addresses sets = scan (conn (sd_links d)) {} (addresses d)"
    using splitThePeers_scan [OF nd, of lc] unfolding addrs by auto
  then have "map set_addresses sets = map set (identifyDisconnectedComponents d)"
    using find_components_scan [OF assms] by (simp add: identifyDisconnectedComponents_def)
  then show ?thesis using sets(1) by (simp add: shows_network_def o_def)
qed

lemma page_reduce_success:
  assumes "network_ok d"
  shows "\<exists>pg'. page_reduce env pg (SplitsGetSplitsSuccess d) = Inr pg' \<and> \<not> ds_fetching (pg_state pg')
    \<and> shows_network (pg_state pg') d \<and> pg_svc pg' = pg_svc pg \<and> pg_pending pg' = pg_pending pg"
proof -
  have "well_linked (addresses d) (sd_links d)" using assms by (simp add: network_ok_def)
  from success_shows [OF this] obtain s' where
    "topologyReducer (env_localeCompare env) (env_readableDate env (env_now env) noMillisFormat)
      (env_mobile env) (pg_state pg) (SplitsGetSplitsSuccess d) = Inr s'" "\<not> ds_fetching s'" "shows_network s' d"
    by blast
  then show ?thesis by (simp add: page_reduce_def getSplits_pending_def del: topologyReducer.simps)
qed

lemma timer_shows:
  assumes "unit_draws (env_rnd env)" "svc_ok (pg_svc pg)" "pg_pending pg"
  shows "\<exists>pg' d. page_step env pg PageTimer = Inr pg' \<and> svc_currentData (pg_svc pg') = Some d
    \<and> network_ok d \<and> length (sd_peers d) = 100
    \<and> \<not> ds_fetching (pg_state pg') \<and> shows_network (pg_state pg') d \<and> \<not> pg_pending pg'"
proof -
  obtain svc' d where d: "getPeers (env_rnd env) (pg_svc pg) = Inr (svc', d)" "svc_currentData svc' = Some d"
    "network_ok d" "length (sd_peers d) = 100"
    using getPeers_ok [OF assms(1)] assms(2) unfolding svc_ok_def by blast
  obtain pg' where "page_reduce env (pg\<lparr>pg_svc := svc', pg_pending := False\<rparr>) (SplitsGetSplitsSuccess d) = Inr pg'"
    "\<not> ds_fetching (pg_state pg')" "shows_network (pg_state pg') d" "pg_svc pg' = svc'" "\<not> pg_pending pg'"
    using page_reduce_success [OF d(3)] by fastforce
  then show ?thesis using d assms(3)
    by (simp add: getSplits_reply_def slice_actions_def)
qed

lemma svc_ok_split: "svc_ok svc \<Longrightarrow> svc_ok (fst (splitNodes_effect rd now msg svc))"
proof (cases "svc_currentData svc")
  case (Some d)
  assume "svc_ok svc"
  then have "network_ok d" "length (sd_peers d) = 100" using Some by (simp_all add: svc_ok_def)
  then obtain d' where "splitNodes svc = Inr (svc\<lparr>svc_currentData := Some d'\<rparr>)" "network_ok d'"
    "length (sd_peers d') = 100"
    using splitNodes_ok [OF Some] by auto
  then show ?thesis by (simp add: splitNodes_effect_def svc_ok_def)
qed (simp add: splitNodes_effect_def splitNodes_def)

lemma svc_ok_merge:
  "unit_draws rnd \<Longrightarrow> svc_ok svc \<Longrightarrow> svc_ok (fst (mergeNodes_effect rnd rd now msg svc))"
proof (cases "svc_currentData svc")
  case (Some d)
  assume rnd: "unit_draws rnd" and "svc_ok svc"
  then have "network_ok d" "length (sd_peers d) = 100" using Some by (simp_all add: svc_ok_def)
  then obtain svc' d' where "mergeNodes rnd svc = Inr svc'" "svc_currentData svc' = Some d'" "network_ok d'"
    "length (sd_peers d') = 100"
    using mergeNodes_ok [OF rnd Some] by auto
  then show ?thesis by (simp add: mergeNodes_effect_def svc_ok_def)
qed (simp add: mergeNodes_effect_def mergeNodes_def)

lemma split_outs: "slice_actions (snd (splitNodes_effect rd now msg svc)) = [SplitsSplitNodesSuccess]"
  by (simp add: splitNodes_effect_def slice_actions_def catchErrorAndRepeat_def split: sum.splits)

lemma merge_outs: "slice_actions (snd (mergeNodes_effect rnd rd now msg svc)) = [SplitsMergeNodesSuccess]"
  by (simp add: mergeNodes_effect_def slice_actions_def catchErrorAndRepeat_def split: sum.splits)

lemma shows_network_sort:
  "shows_network s d \<Longrightarrow>
   shows_network (s\<lparr>ds_sort := srt, ds_sets := map (\<lambda>t. t\<lparr>ss_peers := sortPeers lc (ss_peers t) srt\<rparr>) (ds_sets s)\<rparr>) d"
  by (simp add: shows_network_def o_def)

lemma shows_network_unread [simp]:
  "shows_network (s\<lparr>ds_activePeer := p\<rparr>) d = shows_network s d"
  "shows_network (s\<lparr>ds_openSidePanel := b\<rparr>) d = shows_network s d"
  by (simp_all add: shows_network_def)

lemma page_step_ok:
  assumes env: "unit_draws (env_rnd env)" and pg: "page_ok pg" and e: "user_event e"
  shows "\<exists>pg'. page_step env pg e = Inr pg' \<and> page_ok pg'"
proof (cases e)
  case PageTimer
  then show ?thesis
  proof (cases "pg_pending pg")
    case True
    then show ?thesis using timer_shows [OF env] pg unfolding PageTimer page_ok_def svc_ok_def by fastforce
  qed (use pg in simp)
next
  case (PageAction a)
  let ?s = "pg_state pg"
  have svc: "svc_ok (pg_svc pg)" using pg by (simp add: page_ok_def)
  show ?thesis
  proof (cases a)
    case SplitsSplitNodes
    obtain svc' outs where eff:
      "splitNodes_effect (env_readableDate env) (env_now env) (env_message env) (pg_svc pg) = (svc', outs)" by fastforce
    then have "svc_ok svc'" "slice_actions outs = [SplitsSplitNodesSuccess]"
      using svc_ok_split [OF svc, of "env_readableDate env" "env_now env" "env_message env"]
        split_outs [of "env_readableDate env" "env_now env" "env_message env" "pg_svc pg"] by simp_all
    then show ?thesis using SplitsSplitNodes PageAction eff by (simp add: page_reduce_def page_effects_def page_ok_def)
  next
    case SplitsMergeNodes
    obtain svc' outs where eff: "mergeNodes_effect (env_rnd env) (env_readableDate env) (env_now env)
        (env_message env) (pg_svc pg) = (svc', outs)" by fastforce
    then have "svc_ok svc'" "slice_actions outs = [SplitsMergeNodesSuccess]"
      using svc_ok_merge [OF env svc, of "env_readableDate env" "env_now env" "env_message env"]
        merge_outs [of "env_rnd env" "env_readableDate env" "env_now env" "env_message env" "pg_svc pg"] by simp_all
    then show ?thesis using SplitsMergeNodes PageAction eff by (simp add: page_reduce_def page_effects_def page_ok_def)
  next
    case (SplitsSortPeers srt)
    then show ?thesis using pg PageAction shows_network_sort
      by (auto simp: page_reduce_def page_effects_def page_ok_def)
  qed (use pg e PageAction in \<open>auto simp: page_reduce_def page_effects_def page_ok_def initial_splits_def\<close>)
qed

interpretation splits_page: safe_slice "page_start env" "page_step env"
    "\<lambda>pg. unit_draws (env_rnd env) \<longrightarrow> page_ok pg" "\<lambda>e. unit_draws (env_rnd env) \<and> user_event e" for env
proof unfold_locales
  show "unit_draws (env_rnd env) \<longrightarrow> page_ok (page_start env)"
    by (simp add: page_start_def page_ok_def svc_ok_def initial_splits_def)
next
  fix pg e pg'
  assume "unit_draws (env_rnd env) \<longrightarrow> page_ok pg" "unit_draws (env_rnd env) \<and> user_event e"
    "page_step env pg e = Inr pg'"
  then show "unit_draws (env_rnd env) \<longrightarrow> page_ok pg'" using page_step_ok [of env pg e] by auto
next
  fix pg e
  assume "unit_draws (env_rnd env) \<longrightarrow> page_ok pg" "unit_draws (env_rnd env) \<and> user_event e"
  then show "\<exists>pg'. page_step env pg e = Inr pg'" using page_step_ok [of env pg e] by auto
qed

text \<open>
  C1: The splits page never crashes and never lies. Whatever the user does, in whatever order the
  answers come, no reducer throws; and whenever the page is not marked as fetching, the links, the
  peers and the groups it shows are those of the network the service currently holds. A pending load
  ends in such a state as soon as it is answered.
\<close>

theorem splits_page_faithful:
  assumes "unit_draws (env_rnd env)" "list_all user_event es"
  shows "\<exists>pg. run_reducer (page_step env) (page_start env) es = Inr pg
    \<and> (\<not> ds_fetching (pg_state pg) \<longrightarrow> (\<exists>d. svc_currentData (pg_svc pg) = Some d
        \<and> ds_links (pg_state pg) = sd_links d \<and> map sp_address (ds_peers (pg_state pg)) = addresses d
        \<and> map (\<lambda>s. sp_address ` set (ss_peers s)) (ds_sets (pg_state pg))
            = map set (identifyDisconnectedComponents d)))
    \<and> (pg_pending pg \<longrightarrow> (\<exists>pg'. page_step env pg PageTimer = Inr pg' \<and> \<not> ds_fetching (pg_state pg')))"
proof -
  have "list_all (\<lambda>e. unit_draws (env_rnd env) \<and> user_event e) es" using assms by (simp add: list_all_iff)
  then obtain pg where pg: "run_reducer (page_step env) (page_start env) es = Inr pg" "page_ok pg"
    using splits_page.run_safe [of env es] assms(1) by blast
  have "pg_pending pg \<Longrightarrow> \<exists>pg'. page_step env pg PageTimer = Inr pg' \<and> \<not> ds_fetching (pg_state pg')"
    using timer_shows [OF assms(1), of pg] pg(2) unfolding page_ok_def by blast
  then show ?thesis using pg unfolding page_ok_def shows_network_def by blast
qed

definition sample_env_page :: page_env where
  "sample_env_page = \<lparr>env_rnd = (\<lambda>k. of_nat (k mod 10) / 10), env_localeCompare = code_unit_compare,
     env_readableDate = (\<lambda>_ f. f), env_now = 0, env_message = (\<lambda>_. ''error''), env_mobile = False\<rparr>"

theorem splits_page_faithful_witness:
  "\<exists>pg. run_reducer (page_step sample_env_page) (page_start sample_env_page)
      [PageAction SplitsSplitNodes, PageAction SplitsGetSplits, PageTimer, PageAction SplitsMergeNodes] = Inr pg
    \<and> (\<not> ds_fetching (pg_state pg) \<longrightarrow> (\<exists>d. svc_currentData (pg_svc pg) = Some d
        \<and> ds_links (pg_state pg) = sd_links d))"
proof -
  have "unit_draws (env_rnd sample_env_page)" by (simp add: unit_draws_def sample_env_page_def)
  from splits_page_faithful [OF this, of "[PageAction SplitsSplitNodes, PageAction SplitsGetSplits, PageTimer,
      PageAction SplitsMergeNodes]"] show ?thesis by auto
qed

end
