(* ===== verification/WonSlots.thy ===== *)
theory WonSlots
  imports AppShell ArrayHelper DateHelper
begin

text \<open>
  The won-slots page of block production (\<open>features/block-production/won-slots\<close>): the service that
  turns the node's production attempts into table rows, the slice with its sort and filters, and the
  effects that choose the active slot and its route. The clock and whether the window is a desktop
  are parameters.
\<close>

section \<open>Data\<close>

record WonSlotTimes =
  wt_scheduled :: int
  wt_stagedLedgerDiffCreate :: "rat option"
  wt_produced :: "rat option"
  wt_proofCreate :: "rat option"
  wt_blockApply :: "rat option"
  wt_discarded :: "int option"
  wt_committed :: "int option"
  wt_stagedLedgerDiffCreateEnd :: "int option"
  wt_producedEnd :: "int option"
  wt_proofCreateEnd :: "int option"
  wt_blockApplyEnd :: "int option"

record WonSlotsSlot =
  ws_epoch :: "int option"
  ws_message :: string
  ws_age :: string
  ws_slotTime :: int
  ws_globalSlot :: int
  ws_slotInEpoch :: "int option"
  ws_vrfValueWithThreshold :: "rat list"
  ws_active :: bool
  ws_percentage :: "int option"
  ws_height :: "int option"
  ws_hash :: "string option"
  ws_transactionsTotal :: "int option"
  ws_payments :: "int option"
  ws_delegations :: "int option"
  ws_zkapps :: "int option"
  ws_snarkFees :: "rat option"
  ws_coinbaseRewards :: "rat option"
  ws_txFeesRewards :: "rat option"
  ws_completedWorksCount :: "int option"
  ws_times :: "WonSlotTimes option"
  ws_status :: "BlockProductionWonSlotsStatus option"
  ws_discardReason :: "string option"
  ws_lastObservedConfirmations :: "int option"
  ws_orphanedBy :: "string option"

record WonSlotsEpoch =
  we_epochNumber :: int
  we_start :: int
  we_end :: int
  we_currentGlobalSlot :: int
  we_currentTime :: int
  we_evaluated :: "int option"
  we_total :: "int option"
  we_publicKey :: string

record WonSlotsFilters =
  wf_accepted :: bool
  wf_orphaned :: bool
  wf_upcoming :: bool
  wf_discarded :: bool

section \<open>The service\<close>

record attempt_won_slot =
  aw_slot_time :: int
  aw_global_slot :: int
  aw_epoch :: int
  aw_value_with_threshold :: "rat list"

record attempt_block =
  ab_hash :: string
  ab_height :: int
  ab_payments :: int
  ab_delegations :: int
  ab_zkapps :: int
  ab_coinbase :: int
  ab_fees :: int
  ab_snark_fees :: int
  ab_completed_works_count :: int

record attempt_times =
  at_scheduled :: int
  at_staged_ledger_diff_create_start :: "int option"
  at_staged_ledger_diff_create_end :: "int option"
  at_produced :: "int option"
  at_proof_create_start :: "int option"
  at_proof_create_end :: "int option"
  at_block_apply_start :: "int option"
  at_block_apply_end :: "int option"
  at_discarded :: "int option"
  at_committed :: "int option"

record Attempt =
  a_won_slot :: attempt_won_slot
  a_block :: "attempt_block option"
  a_times :: attempt_times
  a_status :: "BlockProductionWonSlotsStatus option"
  a_last_observed_confirmations :: "int option"
  a_orphaned_by :: "string option"
  a_discard_reason :: "string option"

record WonSlotResponse =
  wr_attempts :: "Attempt list"
  wr_future_won_slots :: "attempt_won_slot list"
  wr_current_global_slot :: int
  wr_current_time :: int
  wr_epoch_end :: int
  wr_epoch_start :: int
  wr_current_epoch :: int
  wr_current_epoch_vrf_stats :: "(int \<times> int) option"
  wr_public_key :: string

definition getActive :: "int \<Rightarrow> int \<Rightarrow> attempt_times \<Rightarrow> bool" where
  "getActive now slotTime tms \<longleftrightarrow>
     slotTime \<le> now \<and> now < 3 * 60 * 1000 + slotTime \<and> \<not> truthy_int (at_discarded tms)"

definition getMessage :: "bool \<Rightarrow> bool \<Rightarrow> BlockProductionWonSlotsStatus option \<Rightarrow> string" where
  "getMessage isDesktop active status =
    (if active then ''Producing''
     else (case status of
        Some Scheduled \<Rightarrow> (if isDesktop then ''Production '' else []) @ ''Scheduled''
      | Some Canonical \<Rightarrow> ''Produced Block''
      | Some Orphaned \<Rightarrow> ''Orphaned Block''
      | Some Discarded \<Rightarrow> ''Discarded Block''
      | Some Committed \<Rightarrow> (if isDesktop then ''Waiting for Confirmation'' else ''Confirming'')
      | _ \<Rightarrow> (if isDesktop then ''Upcoming '' else []) @ ''Won Slot''))"

text \<open>\<open>replace\<close> with a string pattern removes its first occurrence; an absent text prints as \<open>undefined\<close>.\<close>

fun remove_first :: "char \<Rightarrow> string \<Rightarrow> string" where
  "remove_first c [] = []"
| "remove_first c (d # ds) = (if d = c then ds else d # remove_first c ds)"

definition calculateTimeAgo :: "int \<Rightarrow> bool \<Rightarrow> int \<Rightarrow> string" where
  "calculateTimeAgo now active slotTime =
    (if active then ''Now''
     else let d = getTimeDiff now (Some slotTime) no_config;
              text = (case td_diff d of None \<Rightarrow> ''undefined'' | Some t \<Rightarrow> t)
       in if td_inFuture d then ''in ~ '' @ remove_first (CHR ''<'') text else text @ '' ago'')"

definition ONE_BILLION :: rat where
  "ONE_BILLION = 1000000000"

definition ONE_MILLION :: int where
  "ONE_MILLION = 1000000"

text \<open>The duration between two recorded times, in seconds; absent when either is missing or zero.\<close>

definition seconds_between :: "int option \<Rightarrow> int option \<Rightarrow> rat option" where
  "seconds_between start end =
    (if \<not> truthy_int end \<or> \<not> truthy_int start then None
     else Some (of_int (the end - the start) / ONE_BILLION))"

definition or_null :: "int option \<Rightarrow> int option" where
  "or_null x = (if truthy_int x then x else None)"

definition slot_times :: "attempt_times \<Rightarrow> WonSlotTimes" where
  "slot_times t =
    \<lparr>wt_scheduled = at_scheduled t,
     wt_stagedLedgerDiffCreate =
       seconds_between (at_staged_ledger_diff_create_start t) (at_staged_ledger_diff_create_end t),
     wt_produced = seconds_between (at_staged_ledger_diff_create_end t) (at_produced t),
     wt_proofCreate = seconds_between (at_proof_create_start t) (at_proof_create_end t),
     wt_blockApply = seconds_between (at_block_apply_start t) (at_block_apply_end t),
     wt_discarded = or_null (at_discarded t),
     wt_committed = or_null (at_committed t),
     wt_stagedLedgerDiffCreateEnd = at_staged_ledger_diff_create_end t,
     wt_producedEnd = at_produced t,
     wt_proofCreateEnd = at_proof_create_end t,
     wt_blockApplyEnd = at_block_apply_end t\<rparr>"

definition progress :: "WonSlotTimes \<Rightarrow> int" where
  "progress t = int (length (filter (\<lambda>b. b)
     [wt_stagedLedgerDiffCreate t \<noteq> None, wt_produced t \<noteq> None, wt_proofCreate t \<noteq> None,
      wt_blockApply t \<noteq> None, wt_committed t \<noteq> None])) * 20"

definition attempt_slot :: "bool \<Rightarrow> int \<Rightarrow> Attempt \<Rightarrow> WonSlotsSlot" where
  "attempt_slot isDesktop now a =
    (let slotTime = aw_slot_time (a_won_slot a) div ONE_MILLION;
         active = getActive now slotTime (a_times a);
         tms = slot_times (a_times a);
         count = (\<lambda>f. Some (case a_block a of None \<Rightarrow> 0 | Some b \<Rightarrow> f b));
         mina = (\<lambda>f. map_option (\<lambda>b. of_int (f b) / ONE_BILLION) (a_block a))
     in \<lparr>ws_epoch = Some (aw_epoch (a_won_slot a)),
         ws_message = getMessage isDesktop active (a_status a),
         ws_age = calculateTimeAgo now active slotTime,
         ws_slotTime = slotTime,
         ws_globalSlot = aw_global_slot (a_won_slot a),
         ws_slotInEpoch = Some (aw_global_slot (a_won_slot a) mod 7140),
         ws_vrfValueWithThreshold = aw_value_with_threshold (a_won_slot a),
         ws_active = active,
         ws_percentage = (if active then Some (progress tms) else None),
         ws_height = map_option ab_height (a_block a),
         ws_hash = map_option ab_hash (a_block a),
         ws_transactionsTotal = count (\<lambda>b. ab_payments b + ab_delegations b + ab_zkapps b),
         ws_payments = count ab_payments,
         ws_delegations = count ab_delegations,
         ws_zkapps = count ab_zkapps,
         ws_snarkFees = mina ab_snark_fees,
         ws_coinbaseRewards = mina ab_coinbase,
         ws_txFeesRewards = mina ab_fees,
         ws_completedWorksCount = count ab_completed_works_count,
         ws_times = Some tms,
         ws_status = a_status a,
         ws_discardReason = a_discard_reason a,
         ws_lastObservedConfirmations = a_last_observed_confirmations a,
         ws_orphanedBy = a_orphaned_by a\<rparr>)"

definition future_slot :: "bool \<Rightarrow> int \<Rightarrow> attempt_won_slot \<Rightarrow> WonSlotsSlot" where
  "future_slot isDesktop now w =
    (let slotTime = aw_slot_time w div ONE_MILLION
     in \<lparr>ws_epoch = None, ws_message = getMessage isDesktop False None,
         ws_age = calculateTimeAgo now False slotTime, ws_slotTime = slotTime,
         ws_globalSlot = aw_global_slot w, ws_slotInEpoch = None,
         ws_vrfValueWithThreshold = aw_value_with_threshold w, ws_active = False,
         ws_percentage = None, ws_height = None, ws_hash = None, ws_transactionsTotal = None, ws_payments = None,
         ws_delegations = None, ws_zkapps = None, ws_snarkFees = None, ws_coinbaseRewards = None,
         ws_txFeesRewards = None, ws_completedWorksCount = None, ws_times = None, ws_status = None,
         ws_discardReason = None, ws_lastObservedConfirmations = None, ws_orphanedBy = None\<rparr>)"

definition getSlots ::
  "bool \<Rightarrow> int \<Rightarrow> WonSlotResponse option \<Rightarrow> WonSlotsSlot list \<times> WonSlotsEpoch option" where
  "getSlots isDesktop now response = (case response of
     None \<Rightarrow> ([], None)
   | Some r \<Rightarrow>
       (map (attempt_slot isDesktop now) (wr_attempts r) @ map (future_slot isDesktop now) (wr_future_won_slots r),
        Some \<lparr>we_epochNumber = wr_current_epoch r, we_start = wr_epoch_start r, we_end = wr_epoch_end r,
              we_currentGlobalSlot = wr_current_global_slot r, we_currentTime = wr_current_time r,
              we_evaluated = map_option fst (wr_current_epoch_vrf_stats r),
              we_total = map_option snd (wr_current_epoch_vrf_stats r),
              we_publicKey = wr_public_key r\<rparr>))"

section \<open>The slice\<close>

datatype won_slots_col =
  WsEpoch | WsMessage | WsAge | WsSlotTime | WsGlobalSlot | WsSlotInEpoch | WsVrf | WsActive | WsPercentage
| WsHeight | WsHash | WsTransactionsTotal | WsPayments | WsDelegations | WsZkapps | WsSnarkFees | WsCoinbase
| WsTxFees | WsCompletedWorks | WsTimes | WsStatus | WsDiscardReason | WsConfirmations | WsOrphanedBy

text \<open>The text of a status is only compared, so any injective naming serves; these are the source's.\<close>

fun status_text :: "BlockProductionWonSlotsStatus \<Rightarrow> string" where
  "status_text Scheduled = ''Scheduled''"
| "status_text StagedLedgerDiffCreatePending = ''StagedLedgerDiffCreatePending''"
| "status_text StagedLedgerDiffCreateSuccess = ''StagedLedgerDiffCreateSuccess''"
| "status_text Produced = ''Produced''"
| "status_text ProofCreatePending = ''ProofCreatePending''"
| "status_text ProofCreateSuccess = ''ProofCreateSuccess''"
| "status_text BlockApplyPending = ''BlockApplyPending''"
| "status_text BlockApplySuccess = ''BlockApplySuccess''"
| "status_text Committed = ''Committed''"
| "status_text Discarded = ''Discarded''"
| "status_text Canonical = ''Canonical''"
| "status_text Orphaned = ''Orphaned''"

fun get_won_slot :: "won_slots_col \<Rightarrow> WonSlotsSlot \<Rightarrow> jsval" where
  "get_won_slot WsEpoch s = of_int_opt (ws_epoch s)"
| "get_won_slot WsMessage s = JStr (ws_message s)"
| "get_won_slot WsAge s = JStr (ws_age s)"
| "get_won_slot WsSlotTime s = of_i (ws_slotTime s)"
| "get_won_slot WsGlobalSlot s = of_i (ws_globalSlot s)"
| "get_won_slot WsSlotInEpoch s = of_int_opt (ws_slotInEpoch s)"
| "get_won_slot WsVrf s = JObj"
| "get_won_slot WsActive s = JBool (ws_active s)"
| "get_won_slot WsPercentage s = of_int_opt (ws_percentage s)"
| "get_won_slot WsHeight s = of_int_opt (ws_height s)"
| "get_won_slot WsHash s = of_str (ws_hash s)"
| "get_won_slot WsTransactionsTotal s = of_int_opt (ws_transactionsTotal s)"
| "get_won_slot WsPayments s = of_int_opt (ws_payments s)"
| "get_won_slot WsDelegations s = of_int_opt (ws_delegations s)"
| "get_won_slot WsZkapps s = of_int_opt (ws_zkapps s)"
| "get_won_slot WsSnarkFees s = of_num (ws_snarkFees s)"
| "get_won_slot WsCoinbase s = of_num (ws_coinbaseRewards s)"
| "get_won_slot WsTxFees s = of_num (ws_txFeesRewards s)"
| "get_won_slot WsCompletedWorks s = of_int_opt (ws_completedWorksCount s)"
| "get_won_slot WsTimes s = (if ws_times s = None then JUndefined else JObj)"
| "get_won_slot WsStatus s = of_str (map_option status_text (ws_status s))"
| "get_won_slot WsDiscardReason s = of_str (ws_discardReason s)"
| "get_won_slot WsConfirmations s = of_int_opt (ws_lastObservedConfirmations s)"
| "get_won_slot WsOrphanedBy s = of_str (ws_orphanedBy s)"

record WonSlotsState =
  wss_epoch :: "WonSlotsEpoch option"
  wss_slots :: "WonSlotsSlot list"
  wss_filteredSlots :: "WonSlotsSlot list"
  wss_activeSlot :: "WonSlotsSlot option"
  wss_activeSlotRoute :: "string option"
  wss_openSidePanel :: bool
  wss_filters :: WonSlotsFilters
  wss_sort :: "won_slots_col TableSort"
  wss_serverResponded :: bool

datatype WonSlotsAction =
  WonSlotsInit "string option"
| WonSlotsClose
| WonSlotsGetSlots
| WonSlotsGetSlotsSuccess "WonSlotsSlot list" "WonSlotsEpoch option" "WonSlotsSlot option"
| WonSlotsChangeFilters WonSlotsFilters
| WonSlotsSetActiveSlot "WonSlotsSlot option"
| WonSlotsSetActiveSlotNumber int
| WonSlotsSort "won_slots_col TableSort"
| WonSlotsToggleSidePanel

definition initial_won_slots :: "bool \<Rightarrow> WonSlotsState" where
  "initial_won_slots isDesktop = \<lparr>wss_epoch = None, wss_slots = [], wss_filteredSlots = [], wss_activeSlot = None,
     wss_activeSlotRoute = None, wss_openSidePanel = isDesktop,
     wss_filters = \<lparr>wf_accepted = True, wf_orphaned = True, wf_upcoming = True, wf_discarded = True\<rparr>,
     wss_sort = \<lparr>sortBy = WsSlotTime, sortDirection = ASC\<rparr>, wss_serverResponded = False\<rparr>"

definition sortSlots ::
  "(string \<Rightarrow> string \<Rightarrow> rat) \<Rightarrow> WonSlotsSlot list \<Rightarrow> won_slots_col TableSort \<Rightarrow> WonSlotsSlot list" where
  "sortSlots lc node tableSort = ArrayHelper.sort lc get_won_slot node tableSort [WsMessage] False"

definition slot_shown :: "WonSlotsFilters \<Rightarrow> WonSlotsSlot \<Rightarrow> bool" where
  "slot_shown f slot =
    (if wf_accepted f \<and> ws_status slot = Some Canonical
        \<or> wf_orphaned f \<and> ws_status slot = Some Orphaned
        \<or> wf_discarded f \<and> ws_status slot = Some Discarded
        \<or> ws_active slot \<or> ws_status slot = Some Committed
     then True
     else wf_upcoming f \<and> ws_status slot = None \<or> ws_status slot = Some Scheduled)"

definition filterSlots :: "WonSlotsSlot list \<Rightarrow> WonSlotsFilters \<Rightarrow> WonSlotsSlot list" where
  "filterSlots slots f = filter (slot_shown f) slots"

fun wonSlotsReducer ::
  "(string \<Rightarrow> string \<Rightarrow> rat) \<Rightarrow> bool \<Rightarrow> WonSlotsState \<Rightarrow> WonSlotsAction \<Rightarrow> WonSlotsState result" where
  "wonSlotsReducer lc isDesktop state (WonSlotsInit activeSlotRoute) =
     Inr (state\<lparr>wss_activeSlotRoute := activeSlotRoute, wss_serverResponded := False\<rparr>)"
| "wonSlotsReducer lc isDesktop state (WonSlotsGetSlotsSuccess slots epoch activeSlot) =
     Inr (state\<lparr>wss_slots := slots, wss_epoch := epoch,
       wss_filteredSlots := filterSlots (sortSlots lc slots (wss_sort state)) (wss_filters state),
       wss_activeSlot := activeSlot,
       wss_openSidePanel := (if wss_activeSlot state \<noteq> None then wss_openSidePanel state else isDesktop),
       wss_serverResponded := True\<rparr>)"
| "wonSlotsReducer lc isDesktop state (WonSlotsSetActiveSlot slot) =
     (case slot of None \<Rightarrow> Inl (TypeError ''globalSlot'')
      | Some s \<Rightarrow> Inr (state\<lparr>wss_activeSlot := Some s, wss_activeSlotRoute := Some (int_to_string (ws_globalSlot s)),
          wss_openSidePanel := True\<rparr>))"
| "wonSlotsReducer lc isDesktop state (WonSlotsSort srt) =
     Inr (state\<lparr>wss_sort := srt,
       wss_filteredSlots := filterSlots (sortSlots lc (wss_slots state) srt) (wss_filters state)\<rparr>)"
| "wonSlotsReducer lc isDesktop state (WonSlotsChangeFilters f) =
     Inr (state\<lparr>wss_filters := f,
       wss_filteredSlots := filterSlots (sortSlots lc (wss_slots state) (wss_sort state)) f\<rparr>)"
| "wonSlotsReducer lc isDesktop state WonSlotsToggleSidePanel =
     Inr (state\<lparr>wss_openSidePanel := \<not> wss_openSidePanel state,
       wss_activeSlot := (if wss_openSidePanel state then None else wss_activeSlot state),
       wss_activeSlotRoute := (if wss_openSidePanel state then None else wss_activeSlotRoute state)\<rparr>)"
| "wonSlotsReducer lc isDesktop state WonSlotsClose = Inr (initial_won_slots isDesktop)"
| "wonSlotsReducer lc isDesktop state WonSlotsGetSlots = Inr state"
| "wonSlotsReducer lc isDesktop state (WonSlotsSetActiveSlotNumber n) = Inr state"

section \<open>The effects\<close>

definition truthy_route :: "string option \<Rightarrow> bool" where
  "truthy_route r \<longleftrightarrow> r \<noteq> None \<and> r \<noteq> Some []"

text \<open>The fallback of the active slot: the first of the \<open>??\<close> chain that exists.\<close>

definition default_slot :: "WonSlotsSlot list \<Rightarrow> WonSlotsSlot option" where
  "default_slot slots = (case List.find ws_active slots of Some s \<Rightarrow> Some s | None \<Rightarrow>
     (case List.find (\<lambda>s. ws_status s = Some Committed) slots of Some s \<Rightarrow> Some s | None \<Rightarrow>
     (case List.find (\<lambda>s. ws_status s = Some Scheduled) slots of Some s \<Rightarrow> Some s | None \<Rightarrow>
      List.find (\<lambda>s. ws_status s = None) slots)))"

definition choose_active :: "bool \<Rightarrow> WonSlotsState \<Rightarrow> WonSlotsSlot list \<Rightarrow> WonSlotsSlot option" where
  "choose_active isDesktop bpState slots =
    (let route = wss_activeSlotRoute bpState;
         chosen = List.find (\<lambda>s. Some (int_to_string (ws_globalSlot s)) = route) slots
     in if isDesktop \<and> \<not> truthy_route route
           \<or> truthy_route route \<and> chosen = None
           \<or> \<not> isDesktop \<and> \<not> truthy_route route \<and> wss_slots bpState = []
        then default_slot slots else chosen)"

definition active_routes :: "bool \<Rightarrow> WonSlotsState \<Rightarrow> WonSlotsSlot option \<Rightarrow> string list" where
  "active_routes isDesktop bpState newActiveSlot =
    [''block-production'', ''won-slots'']
    @ (if newActiveSlot \<noteq> None \<and> isDesktop
          \<or> truthy_route (wss_activeSlotRoute bpState) \<and> wss_activeSlot bpState = None
          \<or> truthy_route (wss_activeSlotRoute bpState) \<and> wss_openSidePanel bpState
       then [case newActiveSlot of None \<Rightarrow> [] | Some s \<Rightarrow> int_to_string (ws_globalSlot s)] else [])"

datatype won_slots_out = WsAct WonSlotsAction | WsError ErrorPreviewActions | WsNavigate "string list"

text \<open>
  \<open>init$\<close>, \<open>getSlots$\<close> and \<open>setActiveSlotNumber$\<close>. The request in flight carries the state of the
  moment its action was dispatched.
\<close>

fun won_slots_effects ::
  "(int \<Rightarrow> string \<Rightarrow> string) \<Rightarrow> bool \<Rightarrow> int \<Rightarrow> WonSlotsState option
    \<Rightarrow> (WonSlotsState \<times> WonSlotsAction, WonSlotResponse option) effect_event
    \<Rightarrow> WonSlotsState option \<times> won_slots_out list" where
  "won_slots_effects rd isDesktop now waiting (Trigger (state, a)) = (case a of
     WonSlotsInit _ \<Rightarrow> (waiting, [WsAct WonSlotsGetSlots])
   | WonSlotsGetSlots \<Rightarrow> (Some state, [])
   | WonSlotsClose \<Rightarrow> (None, [])
   | WonSlotsSetActiveSlotNumber n \<Rightarrow>
       (waiting, [WsAct (WonSlotsSetActiveSlot (List.find (\<lambda>s. ws_globalSlot s = n) (wss_slots state)))])
   | _ \<Rightarrow> (waiting, []))"
| "won_slots_effects rd isDesktop now waiting (Reply response) = (case waiting of
     None \<Rightarrow> (None, [])
   | Some bpState \<Rightarrow> (case getSlots isDesktop now response of (slots, epoch) \<Rightarrow>
       let newActiveSlot = choose_active isDesktop bpState slots
       in (None, [WsNavigate (active_routes isDesktop bpState newActiveSlot),
                  WsAct (WonSlotsGetSlotsSuccess slots epoch newActiveSlot)])))"
| "won_slots_effects rd isDesktop now waiting (Failure err) = (case waiting of
     None \<Rightarrow> (None, [])
   | Some _ \<Rightarrow> (None, [WsError (addError rd now err GENERIC), WsAct (WonSlotsGetSlotsSuccess [] None None)]))"

section \<open>The filter chips and the cards\<close>

record WonSlotsTotals =
  wtot_totalWonSlots :: nat
  wtot_totalCanonical :: nat
  wtot_totalOrphaned :: nat
  wtot_totalFuture :: nat
  wtot_totalDiscarded :: nat

definition filter_totals :: "WonSlotsSlot list \<Rightarrow> WonSlotsTotals" where
  "filter_totals slots =
    \<lparr>wtot_totalWonSlots = length slots,
     wtot_totalCanonical = length (filter (\<lambda>s. ws_status s = Some Canonical) slots),
     wtot_totalOrphaned = length (filter (\<lambda>s. ws_status s = Some Orphaned) slots),
     wtot_totalFuture = length (filter (\<lambda>s. ws_status s = None \<or> ws_status s = Some Scheduled) slots),
     wtot_totalDiscarded = length (filter (\<lambda>s. ws_status s = Some Discarded) slots)\<rparr>"

datatype filter_key = KeyAccepted | KeyOrphaned | KeyUpcoming | KeyDiscarded

fun changeFilter :: "WonSlotsFilters \<Rightarrow> filter_key \<Rightarrow> bool \<Rightarrow> WonSlotsAction" where
  "changeFilter f KeyAccepted v = WonSlotsChangeFilters (f\<lparr>wf_accepted := v\<rparr>)"
| "changeFilter f KeyOrphaned v = WonSlotsChangeFilters (f\<lparr>wf_orphaned := v\<rparr>)"
| "changeFilter f KeyUpcoming v = WonSlotsChangeFilters (f\<lparr>wf_upcoming := v\<rparr>)"
| "changeFilter f KeyDiscarded v = WonSlotsChangeFilters (f\<lparr>wf_discarded := v\<rparr>)"

record WonSlotsCards =
  wc_nextWonSlot :: "string option"
  wc_slot :: "int option"
  wc_wonSlots :: nat
  wc_slotsUsed :: nat
  wc_acceptedBlocks :: nat
  wc_lastBlockTime :: "string option"
  wc_totalRewards :: string

text \<open>Adding an absent reward gives NaN, and a total that is NaN is shown as 0.\<close>

definition add_rewards :: "rat option \<Rightarrow> rat option \<Rightarrow> rat option" where
  "add_rewards a b = (case (a, b) of (Some x, Some y) \<Rightarrow> Some (x + y) | _ \<Rightarrow> None)"

definition total_rewards :: "WonSlotsSlot list \<Rightarrow> string" where
  "total_rewards slots =
    (case foldl add_rewards (Some 0) (map (\<lambda>s. add_rewards (ws_coinbaseRewards s) (ws_txFeesRewards s))
        (filter (\<lambda>s. ws_status s = Some Canonical) slots)) of
       None \<Rightarrow> ''0'' | Some r \<Rightarrow> int_to_string \<lfloor>js_toFixed 0 r\<rfloor>)"

definition listenToSlots :: "int \<Rightarrow> WonSlotsSlot list \<Rightarrow> WonSlotsCards" where
  "listenToSlots now slots =
    (let nextSlot = List.find (\<lambda>s. ws_status s = Some Scheduled \<or> ws_status s = None) slots;
         canonical = filter (\<lambda>s. ws_status s = Some Canonical) slots
     in \<lparr>wc_nextWonSlot = (case nextSlot of Some s \<Rightarrow> td_diff (getTimeDiff now (Some (ws_slotTime s)) no_config)
           | None \<Rightarrow> Some ''Now''),
         wc_slot = (case nextSlot of Some s \<Rightarrow> Some (ws_globalSlot s)
           | None \<Rightarrow> map_option ws_globalSlot (List.find ws_active slots)),
         wc_wonSlots = length slots,
         wc_slotsUsed = length (filter (\<lambda>s. ws_status s \<in> {Some Canonical, Some Orphaned, Some Discarded}) slots),
         wc_acceptedBlocks = length canonical,
         wc_lastBlockTime = td_diff (getTimeDiff now (map_option ws_slotTime (lastItem canonical)) no_config),
         wc_totalRewards = total_rewards slots\<rparr>)"

section \<open>The table\<close>

interpretation won_slots_columns: table_columns get_won_slot "[WsMessage]"
  by unfold_locales simp

definition won_slots_inv :: "(string \<Rightarrow> string \<Rightarrow> rat) \<Rightarrow> WonSlotsState \<Rightarrow> bool" where
  "won_slots_inv lc s \<longleftrightarrow>
     wss_filteredSlots s = filterSlots (sortSlots lc (wss_slots s) (wss_sort s)) (wss_filters s)"

lemma initial_won_slots_inv: "won_slots_inv lc (initial_won_slots d)"
  by (simp add: won_slots_inv_def initial_won_slots_def filterSlots_def sortSlots_def)

interpretation won_slots: partial_slice "initial_won_slots d" "wonSlotsReducer lc d" "won_slots_inv lc" "\<lambda>_. True"
  for lc d
proof
  show "won_slots_inv lc (initial_won_slots d)" by (rule initial_won_slots_inv)
  fix s a s'
  assume "won_slots_inv lc s" "wonSlotsReducer lc d s a = Inr s'"
  then show "won_slots_inv lc s'"
    by (cases a) (auto simp: won_slots_inv_def initial_won_slots_inv [unfolded won_slots_inv_def] split: option.splits)
qed

lemma sorted_slotTime: "sorted (map ws_slotTime (sortSlots lc slots \<lparr>sortBy = WsSlotTime, sortDirection = ASC\<rparr>))"
proof -
  let ?g = "get_won_slot WsSlotTime"
  let ?srt = "\<lparr>sortBy = WsSlotTime, sortDirection = ASC\<rparr>"
  have "sorted (map (\<lambda>x. dir_num ASC (num_of (numberKey (?g x)))) (js_sort (numberSort ASC ?g) slots))"
    by (rule number_sort.js_sort_sorted_key) (auto simp: numberKey_def)
  moreover have "sortSlots lc slots ?srt = js_sort (numberSort ASC ?g) slots"
    by (simp add: sortSlots_def ArrayHelper.sort_def filter_empty_conv)
  ultimately show ?thesis by (simp add: numberKey_def dir_num_def sorted_map o_def)
qed

text \<open>
  C22: The table of the won slots is always the loaded slots, filtered by the current filters: after
  any sequence of actions no shown slot is lost or doubled, no hidden one appears, and with the
  default order the rows are in the order of their slot times.
\<close>

theorem won_slots_table:
  assumes "run_reducer (wonSlotsReducer lc d) (initial_won_slots d) as = Inr s"
  shows "mset (wss_filteredSlots s) = filter_mset (slot_shown (wss_filters s)) (mset (wss_slots s))
    \<and> (wss_sort s = \<lparr>sortBy = WsSlotTime, sortDirection = ASC\<rparr> \<longrightarrow> sorted (map ws_slotTime (wss_filteredSlots s)))"
proof -
  have inv: "wss_filteredSlots s = filterSlots (sortSlots lc (wss_slots s) (wss_sort s)) (wss_filters s)"
    using won_slots.run_inv [OF _ assms] by (simp add: won_slots_inv_def list_all_iff)
  show ?thesis unfolding inv
    using sorted_slotTime [of lc "wss_slots s"] by (auto simp: filterSlots_def sortSlots_def sorted_map sorted_wrt_filter)
qed

definition sample_slot :: "int \<Rightarrow> BlockProductionWonSlotsStatus option \<Rightarrow> WonSlotsSlot" where
  "sample_slot n st = (future_slot True 0
     \<lparr>aw_slot_time = n, aw_global_slot = n, aw_epoch = 0, aw_value_with_threshold = []\<rparr>)\<lparr>ws_status := st\<rparr>"

theorem won_slots_table_witness:
  "\<exists>s. run_reducer (wonSlotsReducer code_unit_compare True) (initial_won_slots True)
      [WonSlotsInit None, WonSlotsGetSlotsSuccess [sample_slot 5 None, sample_slot 2 (Some Scheduled)] None None,
       WonSlotsChangeFilters \<lparr>wf_accepted = True, wf_orphaned = True, wf_upcoming = False, wf_discarded = True\<rparr>] = Inr s
    \<and> mset (wss_filteredSlots s) = filter_mset (slot_shown (wss_filters s)) (mset (wss_slots s))"
proof -
  obtain s where s: "run_reducer (wonSlotsReducer code_unit_compare True) (initial_won_slots True)
      [WonSlotsInit None, WonSlotsGetSlotsSuccess [sample_slot 5 None, sample_slot 2 (Some Scheduled)] None None,
       WonSlotsChangeFilters \<lparr>wf_accepted = True, wf_orphaned = True, wf_upcoming = False, wf_discarded = True\<rparr>] = Inr s"
    by simp
  then show ?thesis using won_slots_table [OF s] by blast
qed

text \<open>
  The chip for upcoming slots counts the scheduled slots but does not filter them. A scheduled
  slot is in the table whatever the filters are, so switching the upcoming filter off removes fewer
  rows than the chip announces: only the inactive slots without a status.
\<close>

theorem upcoming_filter_keeps_scheduled:
  "length (filterSlots slots (f\<lparr>wf_upcoming := True\<rparr>)) - length (filterSlots slots (f\<lparr>wf_upcoming := False\<rparr>))
     = length (filter (\<lambda>s. ws_status s = None \<and> \<not> ws_active s) slots)
   \<and> wtot_totalFuture (filter_totals slots)
     = length (filter (\<lambda>s. ws_status s = None) slots) + length (filter (\<lambda>s. ws_status s = Some Scheduled) slots)
   \<and> filter (\<lambda>s. ws_status s = Some Scheduled) (filterSlots slots f)
     = filter (\<lambda>s. ws_status s = Some Scheduled) slots"
proof (intro conjI)
  have "length (filterSlots slots (f\<lparr>wf_upcoming := True\<rparr>))
      = length (filterSlots slots (f\<lparr>wf_upcoming := False\<rparr>))
        + length (filter (\<lambda>s. ws_status s = None \<and> \<not> ws_active s) slots)"
    by (induction slots) (auto simp: filterSlots_def slot_shown_def)
  then show "length (filterSlots slots (f\<lparr>wf_upcoming := True\<rparr>)) - length (filterSlots slots (f\<lparr>wf_upcoming := False\<rparr>))
     = length (filter (\<lambda>s. ws_status s = None \<and> \<not> ws_active s) slots)" by simp
  show "wtot_totalFuture (filter_totals slots)
     = length (filter (\<lambda>s. ws_status s = None) slots) + length (filter (\<lambda>s. ws_status s = Some Scheduled) slots)"
    by (induction slots) (auto simp: filter_totals_def)
  show "filter (\<lambda>s. ws_status s = Some Scheduled) (filterSlots slots f)
     = filter (\<lambda>s. ws_status s = Some Scheduled) slots"
    by (induction slots) (auto simp: filterSlots_def slot_shown_def)
qed

section \<open>The active slot\<close>

text \<open>The order of preference of the fallback; 4 is never chosen.\<close>

definition preference :: "WonSlotsSlot \<Rightarrow> nat" where
  "preference s = (if ws_active s then 0 else if ws_status s = Some Committed then 1
     else if ws_status s = Some Scheduled then 2 else if ws_status s = None then 3 else 4)"

lemma find_SomeD: "List.find p xs = Some x \<Longrightarrow> x \<in> set xs \<and> p x"
  by (auto simp: find_Some_iff)

lemma find_NoneD: "List.find p xs = None \<Longrightarrow> x \<in> set xs \<Longrightarrow> \<not> p x"
  by (auto simp: find_None_iff)

lemma default_slot_Some:
  assumes "default_slot slots = Some s"
  shows "s \<in> set slots \<and> preference s < 4 \<and> (\<forall>t \<in> set slots. preference s \<le> preference t)"
  using assms unfolding default_slot_def
  by (auto simp: preference_def find_None_iff dest!: find_SomeD split: option.splits)

lemma default_slot_None: "default_slot slots = None \<Longrightarrow> t \<in> set slots \<Longrightarrow> preference t = 4"
  unfolding default_slot_def by (auto simp: preference_def dest: find_NoneD split: option.splits)

text \<open>
  The slot the page opens on. If the route names a loaded slot, that slot is chosen. Otherwise,
  on a desktop or when the route names no loaded slot, the chosen slot is one of the best there are:
  the one being produced, then a committed one, then a scheduled one, then an upcoming one; none is
  chosen only when every slot is already decided.
\<close>

theorem choose_active_priority:
  "(\<exists>t \<in> set slots. truthy_route (wss_activeSlotRoute st) \<and> wss_activeSlotRoute st = Some (int_to_string (ws_globalSlot t)))
     \<and> (\<exists>s \<in> set slots. choose_active isDesktop st slots = Some s
          \<and> wss_activeSlotRoute st = Some (int_to_string (ws_globalSlot s)))
   \<or> (isDesktop \<or> truthy_route (wss_activeSlotRoute st) \<or> wss_slots st = [])
     \<and> (case choose_active isDesktop st slots of
          Some s \<Rightarrow> s \<in> set slots \<and> preference s < 4 \<and> (\<forall>t \<in> set slots. preference s \<le> preference t)
        | None \<Rightarrow> (\<forall>t \<in> set slots. preference t = 4))
   \<or> \<not> isDesktop \<and> \<not> truthy_route (wss_activeSlotRoute st) \<and> wss_slots st \<noteq> []"
proof -
  let ?p = "\<lambda>s. Some (int_to_string (ws_globalSlot s)) = wss_activeSlotRoute st"
  have fallback: "case default_slot slots of
      Some s \<Rightarrow> s \<in> set slots \<and> preference s < 4 \<and> (\<forall>t \<in> set slots. preference s \<le> preference t)
    | None \<Rightarrow> (\<forall>t \<in> set slots. preference t = 4)"
    using default_slot_Some [of slots] default_slot_None [of slots] by (auto split: option.split)
  show ?thesis
  proof (cases "truthy_route (wss_activeSlotRoute st)")
    case True
    show ?thesis
    proof (cases "List.find ?p slots")
      case None
      then have "choose_active isDesktop st slots = default_slot slots"
        using True by (simp add: choose_active_def)
      then show ?thesis using True fallback by simp
    next
      case (Some s)
      then have "choose_active isDesktop st slots = Some s" using True by (simp add: choose_active_def)
      then show ?thesis using True find_SomeD [OF Some] by metis
    qed
  next
    case False
    then have "isDesktop \<or> wss_slots st = [] \<Longrightarrow> choose_active isDesktop st slots = default_slot slots"
      by (auto simp: choose_active_def)
    then show ?thesis using False fallback by auto
  qed
qed

theorem choose_active_priority_witness:
  "choose_active True (initial_won_slots True) [sample_slot 5 None, sample_slot 7 (Some Committed)]
     = Some (sample_slot 7 (Some Committed))"
  using choose_active_priority [where slots = "[sample_slot 5 None, sample_slot 7 (Some Committed)]"
      and st = "initial_won_slots True" and isDesktop = True]
  by (auto simp: initial_won_slots_def truthy_route_def preference_def sample_slot_def future_slot_def split: option.splits)

text \<open>
  Selecting a slot by a number that no loaded slot has crashes the reducer: the effect
  dispatches the selection of an undefined slot and the reducer reads its number.
\<close>

theorem setActiveSlotNumber_unknown_throws:
  assumes "\<forall>s \<in> set (wss_slots state). ws_globalSlot s \<noteq> n"
  shows "\<exists>a. snd (won_slots_effects rd isDesktop now waiting (Trigger (state, WonSlotsSetActiveSlotNumber n))) = [WsAct a]
    \<and> wonSlotsReducer lc isDesktop state a = Inl (TypeError ''globalSlot'')"
proof -
  have "List.find (\<lambda>s. ws_globalSlot s = n) (wss_slots state) = None"
    using assms by (auto simp: find_None_iff)
  then show ?thesis by simp
qed

theorem setActiveSlotNumber_unknown_throws_witness:
  "\<exists>a. snd (won_slots_effects (\<lambda>_ f. f) True 0 None
      (Trigger (initial_won_slots True, WonSlotsSetActiveSlotNumber 3))) = [WsAct a]
    \<and> wonSlotsReducer code_unit_compare True (initial_won_slots True) a = Inl (TypeError ''globalSlot'')"
  by (rule setActiveSlotNumber_unknown_throws) (simp add: initial_won_slots_def)

text \<open>
  The numbers of a production attempt are in range: the slot's position is inside its epoch of
  7140 slots, and a progress is shown exactly for the slot in production, in the three minutes from
  its start, as a multiple of 20 between 0 and 100.
\<close>

theorem attempt_slot_in_range:
  "(\<exists>i. ws_slotInEpoch (attempt_slot isDesktop now a) = Some i \<and> 0 \<le> i \<and> i < 7140)
   \<and> (ws_percentage (attempt_slot isDesktop now a) = None \<longleftrightarrow> \<not> ws_active (attempt_slot isDesktop now a))
   \<and> (ws_active (attempt_slot isDesktop now a) \<longleftrightarrow>
        ws_slotTime (attempt_slot isDesktop now a) \<le> now \<and> now < ws_slotTime (attempt_slot isDesktop now a) + 180000
        \<and> \<not> truthy_int (at_discarded (a_times a)))
   \<and> (case ws_percentage (attempt_slot isDesktop now a) of None \<Rightarrow> True | Some p \<Rightarrow> p \<in> {0, 20, 40, 60, 80, 100})"
  by (auto simp: attempt_slot_def getActive_def progress_def)

end
