(* ===== verification/LedgerHelper.thy ===== *)
theory LedgerHelper
  imports JsPrelude "HOL-Library.Word"
begin

text \<open>
  The client of the Ledger hardware wallet (\<open>shared/helpers/ledger.helper.ts\<close>): the hexadecimal
  message of a transaction, the checks before it is sent, and the reading of the device's answers.
  A \<open>Buffer\<close> is a list of bytes. The transport, a package the sources only call, is a parameter: from
  class, instruction, two parameters, data and allowed statuses to an error or the bytes of the
  answer. The decoding of arbitrary bytes as UTF-8 is a parameter as well. The arguments of a
  transaction are values of the language: texts are lists of UTF-16 code units, and a number can be
  missing, \<open>null\<close>, \<open>NaN\<close>, infinite, negative or a fraction, since the checks let most of them pass.
\<close>

section \<open>Bytes and hexadecimal text\<close>

type_synonym byte = "8 word"

definition hex_char :: "nat \<Rightarrow> char" where
  "hex_char n = ''0123456789abcdef'' ! n"

fun nat_to_hex :: "nat \<Rightarrow> string" where
  "nat_to_hex n = (if n < 16 then [hex_char n] else nat_to_hex (n div 16) @ [hex_char (n mod 16)])"

declare nat_to_hex.simps [simp del]

text \<open>\<open>x.toString(16)\<close> of an integer, and \<open>toUpperCase\<close> on the letters it can contain.\<close>

definition int_to_hex :: "int \<Rightarrow> string" where
  "int_to_hex i = (if i < 0 then CHR ''-'' # nat_to_hex (nat (- i)) else nat_to_hex (nat i))"

definition hex_upper_char :: "char \<Rightarrow> char" where
  "hex_upper_char c = (if 97 \<le> char_code c \<and> char_code c \<le> 122 then char_of (char_code c - 32) else c)"

definition hex_upper :: "string \<Rightarrow> string" where
  "hex_upper s = map hex_upper_char s"

text \<open>
  \<open>Buffer.from(s, 'ascii')\<close>, \<open>Buffer.from(s, 'utf8')\<close>, \<open>buffer.toString('hex')\<close> and
  \<open>Buffer.from(s, 'hex')\<close>, which stops at the first pair that is not hexadecimal.
\<close>

definition ascii_bytes :: "string \<Rightarrow> byte list" where
  "ascii_bytes s = map (\<lambda>c. word_of_nat (char_code c)) s"

text \<open>
  A text with arbitrary characters is the list of its UTF-16 code units, which is what \<open>length\<close> counts.
  The encoding 'ascii' keeps the low byte of a unit. The encoding 'utf8' takes one to three bytes for a
  unit, four for a surrogate pair, and replaces a surrogate without its partner by U+FFFD.
\<close>

type_synonym code_units = "16 word list"

definition units :: "string \<Rightarrow> code_units" where
  "units s = map (\<lambda>c. word_of_nat (char_code c)) s"

definition low_bytes :: "code_units \<Rightarrow> byte list" where
  "low_bytes us = map (\<lambda>u. word_of_nat (unat u)) us"

definition utf8_pair :: "nat \<Rightarrow> nat \<Rightarrow> byte list" where
  "utf8_pair high low = (let c = 0x10000 + (high - 0xD800) * 0x400 + (low - 0xDC00) in
     [word_of_nat (0xF0 + c div 0x40000), word_of_nat (0x80 + c div 0x1000 mod 64),
      word_of_nat (0x80 + c div 64 mod 64), word_of_nat (0x80 + c mod 64)])"

fun utf8_bytes :: "code_units \<Rightarrow> byte list" where
  "utf8_bytes [] = []"
| "utf8_bytes (u # us) = (let n = unat u in
     if n < 0x80 then word_of_nat n # utf8_bytes us
     else if n < 0x800 then word_of_nat (0xC0 + n div 64) # word_of_nat (0x80 + n mod 64) # utf8_bytes us
     else if 0xD800 \<le> n \<and> n < 0xDC00 \<and> us \<noteq> [] \<and> 0xDC00 \<le> unat (hd us) \<and> unat (hd us) < 0xE000
       then utf8_pair n (unat (hd us)) @ utf8_bytes (tl us)
     else if 0xD800 \<le> n \<and> n < 0xE000 then 0xEF # 0xBF # 0xBD # utf8_bytes us
     else word_of_nat (0xE0 + n div 0x1000) # word_of_nat (0x80 + n div 64 mod 64)
       # word_of_nat (0x80 + n mod 64) # utf8_bytes us)"

definition hex_of_byte :: "byte \<Rightarrow> string" where
  "hex_of_byte b = [hex_char (unat b div 16), hex_char (unat b mod 16)]"

definition hex_of_bytes :: "byte list \<Rightarrow> string" where
  "hex_of_bytes bs = concat (map hex_of_byte bs)"

fun bytes_of_hex :: "string \<Rightarrow> byte list" where
  "bytes_of_hex (a # b # cs) = (case (digit_in 16 a, digit_in 16 b) of
     (Some x, Some y) \<Rightarrow> word_of_nat (16 * x + y) # bytes_of_hex cs
   | _ \<Rightarrow> [])"
| "bytes_of_hex _ = []"

section \<open>The message of a transaction\<close>

definition pad :: "string \<Rightarrow> nat \<Rightarrow> string \<Rightarrow> string" where
  "pad n width paddingValue = drop (length n) (concat (replicate width paddingValue) @ n)"

definition asciiToHex :: "code_units \<Rightarrow> string" where
  "asciiToHex str = hex_of_bytes (low_bytes str)"

definition convertMemo :: "code_units \<Rightarrow> string" where
  "convertMemo memo = hex_of_bytes (utf8_bytes (memo @ replicate (32 - length memo) 0))"

text \<open>
  A number of the caller: each member of the arguments can also be missing or \<open>null\<close>. The text of a
  fraction, and of a decimal of more than 21 digits, is left open: it is the argument \<open>txt\<close>, by radix.
\<close>

datatype js_number = NaN | PosInfinity | NegInfinity | Finite rat

type_synonym number_format = "nat \<Rightarrow> rat \<Rightarrow> string"

record SignTransactionArgs =
  sa_txType :: "js_number js"
  sa_senderAccount :: "js_number js"
  sa_senderAddress :: "code_units js"
  sa_receiverAddress :: "code_units js"
  sa_amount :: "js_number js"
  sa_fee :: "js_number js"
  sa_nonce :: "js_number js"
  sa_validUntil :: "js_number js"
  sa_memo :: "code_units js"
  sa_networkId :: "js_number js"

definition isNaN :: "js_number js \<Rightarrow> bool" where
  "isNaN x = (case x of Undefined \<Rightarrow> True | Null \<Rightarrow> False | Val v \<Rightarrow> v = NaN)"

definition falsy_number :: "js_number js \<Rightarrow> bool" where
  "falsy_number x = (case x of Undefined \<Rightarrow> True | Null \<Rightarrow> True | Val v \<Rightarrow> v = NaN \<or> v = Finite 0)"

definition isInteger :: "js_number js \<Rightarrow> bool" where
  "isInteger x = (case x of Val (Finite r) \<Rightarrow> r = of_int \<lfloor>r\<rfloor> | _ \<Rightarrow> False)"

definition less_number :: "js_number js \<Rightarrow> rat \<Rightarrow> bool" where
  "less_number x q = (case x of Undefined \<Rightarrow> False | Null \<Rightarrow> 0 < q | Val NaN \<Rightarrow> False
     | Val PosInfinity \<Rightarrow> False | Val NegInfinity \<Rightarrow> True | Val (Finite r) \<Rightarrow> r < q)"

fun number_text :: "number_format \<Rightarrow> nat \<Rightarrow> js_number \<Rightarrow> string" where
  "number_text txt radix NaN = ''NaN''"
| "number_text txt radix PosInfinity = ''Infinity''"
| "number_text txt radix NegInfinity = ''-Infinity''"
| "number_text txt radix (Finite r) =
    (if r \<noteq> of_int \<lfloor>r\<rfloor> \<or> radix = 10 \<and> 10 ^ 21 \<le> \<bar>r\<bar> then txt radix r
     else if radix = 16 then int_to_hex \<lfloor>r\<rfloor> else int_to_string \<lfloor>r\<rfloor>)"

text \<open>\<open>x.toString(16)\<close>, \<open>Number(x)\<close>, \<open>String(x)\<close> and a default value of a parameter.\<close>

definition toString16 :: "number_format \<Rightarrow> js_number js \<Rightarrow> string result" where
  "toString16 txt x = (case x of Val v \<Rightarrow> Inr (number_text txt 16 v) | _ \<Rightarrow> Inl (TypeError ''toString''))"

definition to_number :: "js_number js \<Rightarrow> js_number" where
  "to_number x = (case x of Undefined \<Rightarrow> NaN | Null \<Rightarrow> Finite 0 | Val v \<Rightarrow> v)"

definition number_string :: "number_format \<Rightarrow> js_number js \<Rightarrow> string" where
  "number_string txt x = (case x of Undefined \<Rightarrow> ''undefined'' | Null \<Rightarrow> ''null'' | Val v \<Rightarrow> number_text txt 10 v)"

definition or_default :: "'a js \<Rightarrow> 'a \<Rightarrow> 'a js" where
  "or_default x d = (case x of Undefined \<Rightarrow> Val d | _ \<Rightarrow> x)"

definition text_member :: "string \<Rightarrow> code_units js \<Rightarrow> code_units result" where
  "text_member name x = (case x of Val us \<Rightarrow> Inr us | _ \<Rightarrow> Inl (TypeError name))"

definition createTXApdu :: "number_format \<Rightarrow> SignTransactionArgs \<Rightarrow> string result" where
  "createTXApdu txt a =
    js_bind (toString16 txt (sa_senderAccount a)) (\<lambda>senderAccount.
    js_bind (text_member ''from'' (sa_senderAddress a)) (\<lambda>senderAddress.
    js_bind (text_member ''from'' (sa_receiverAddress a)) (\<lambda>receiverAddress.
    js_bind (toString16 txt (sa_amount a)) (\<lambda>amount.
    js_bind (toString16 txt (sa_fee a)) (\<lambda>fee.
    js_bind (toString16 txt (or_default (sa_validUntil a) (Finite 4294967295))) (\<lambda>validUntil.
    js_bind (text_member ''length'' (or_default (sa_memo a) [])) (\<lambda>memo.
    js_bind (toString16 txt (sa_txType a)) (\<lambda>txType.
      let senderBip44AccountHex = pad senderAccount 8 ''0'';
          senderAddressHex = asciiToHex senderAddress;
          receiverHex = asciiToHex receiverAddress;
          amountHex = pad amount 16 ''0'';
          feeHex = pad fee 16 ''0'';
          nonceHex = pad (hex_upper (number_text txt 16 (to_number (sa_nonce a)))) 8 ''0'';
          validUntilHex = pad validUntil 8 ''0'';
          memoHex = convertMemo memo;
          tagHex = pad txType 2 ''0'';
          networkIdHex = pad (number_string txt (sa_networkId a)) 2 ''0''
      in Inr (senderBip44AccountHex @ senderAddressHex @ receiverHex @ amountHex @ feeHex @ nonceHex
        @ validUntilHex @ memoHex @ tagHex @ networkIdHex)))))))))"

section \<open>The device\<close>

text \<open>What can be thrown: a status error of the transport has a status code; other errors have none.\<close>

record LedgerError =
  le_returnCode :: "string option"
  le_statusCode :: "int option"
  le_message :: "string option"
  le_statusText :: "string option"

type_synonym transport =
  "nat \<Rightarrow> nat \<Rightarrow> nat \<Rightarrow> nat \<Rightarrow> byte list option \<Rightarrow> nat list option \<Rightarrow> LedgerError + byte list"

record LedgerResponse =
  lr_value :: "string option"
  lr_returnCode :: string
  lr_message :: "string option"
  lr_statusText :: "string option"

record GetAppNameResponse =
  gn_name :: "string option"
  gn_version :: "string option"
  gn_returnCode :: string
  gn_message :: "string option"
  gn_statusText :: "string option"

abbreviation (input) CLA_LEDGER :: nat where "CLA_LEDGER \<equiv> 0xb0"
abbreviation (input) CLA_APP :: nat where "CLA_APP \<equiv> 0xe0"
abbreviation (input) GET_VERSION :: nat where "GET_VERSION \<equiv> 0x01"
abbreviation (input) GET_NAME_VERSION :: nat where "GET_NAME_VERSION \<equiv> 0x01"
abbreviation (input) GET_ADDR :: nat where "GET_ADDR \<equiv> 0x02"
abbreviation (input) SIGN :: nat where "SIGN \<equiv> 0x03"
abbreviation (input) SW_OK :: nat where "SW_OK \<equiv> 0x9000"
abbreviation (input) SW_CANCEL :: nat where "SW_CANCEL \<equiv> 0x6986"

definition failure :: "string \<Rightarrow> string \<Rightarrow> string \<Rightarrow> LedgerResponse" where
  "failure code message statusText =
    \<lparr>lr_value = None, lr_returnCode = code, lr_message = Some message, lr_statusText = Some statusText\<rparr>"

definition success :: "string \<Rightarrow> string \<Rightarrow> LedgerResponse" where
  "success v code = \<lparr>lr_value = Some v, lr_returnCode = code, lr_message = None, lr_statusText = None\<rparr>"

definition return_code :: "byte list \<Rightarrow> string" where
  "return_code response = hex_of_bytes (js_slice (int (length response) - 2) (int (length response)) response)"

text \<open>\<open>code?.toString() || '5000'\<close>.\<close>

definition code_or_5000 :: "string option \<Rightarrow> string" where
  "code_or_5000 c = (case c of None \<Rightarrow> ''5000'' | Some s \<Rightarrow> if s = [] then ''5000'' else s)"

definition integer_of :: "js_number js \<Rightarrow> int" where
  "integer_of x = (case x of Val (Finite r) \<Rightarrow> \<lfloor>r\<rfloor> | _ \<Rightarrow> 0)"

definition getAddress :: "(byte list \<Rightarrow> string) \<Rightarrow> transport \<Rightarrow> js_number js \<Rightarrow> LedgerResponse" where
  "getAddress utf8 send account =
    (if \<not> isInteger (or_default account (Finite 0))
     then failure ''-5'' ''Account number must be Int'' ''ACCOUNT_NOT_INT''
     else let accountBuffer = bytes_of_hex (pad (int_to_hex (integer_of (or_default account (Finite 0)))) 8 ''0'');
              caught = (\<lambda>e. \<lparr>lr_value = None, lr_returnCode = code_or_5000 (le_returnCode e),
                lr_message = le_message e, lr_statusText = le_statusText e\<rparr>)
       in (case send CLA_APP GET_ADDR 0 0 (Some accountBuffer) (Some [SW_OK, SW_CANCEL]) of
             Inl e \<Rightarrow> caught e
           | Inr response \<Rightarrow>
               let publicKey = utf8 (js_slice 0 (int (length response) - 3) response);
                   returnCode = return_code response
               in if returnCode \<noteq> nat_to_hex SW_OK
                  then caught \<lparr>le_returnCode = Some returnCode, le_statusCode = None,
                    le_message = Some ''unknown error'', le_statusText = Some ''UNKNOWN_ERROR''\<rparr>
                  else success publicKey returnCode))"

text \<open>The checks of \<open>signTransaction\<close>: an error thrown, an early answer, or the bytes to send.\<close>

definition falsy_text :: "code_units js \<Rightarrow> bool" where
  "falsy_text x = (case x of Val us \<Rightarrow> us = [] | _ \<Rightarrow> True)"

definition sign_request :: "number_format \<Rightarrow> SignTransactionArgs \<Rightarrow> (LedgerResponse + byte list) result" where
  "sign_request txt a =
    (if isNaN (sa_txType a) \<or> isNaN (sa_senderAccount a) \<or> falsy_text (sa_senderAddress a)
        \<or> falsy_text (sa_receiverAddress a) \<or> falsy_number (sa_amount a) \<and> sa_txType a = Val (Finite 0)
        \<or> falsy_number (sa_fee a) \<or> \<not> isInteger (sa_amount a) \<or> \<not> isInteger (sa_fee a)
        \<or> isNaN (sa_nonce a) \<or> isNaN (sa_networkId a)
     then Inr (Inl (failure ''-1'' ''Missing or wrong arguments'' ''MISSING_ARGUMENTS''))
     else js_bind (text_member ''length'' (or_default (sa_memo a) [])) (\<lambda>memo.
       if length memo > 32 then Inr (Inl (failure ''-3'' ''Memo field too long'' ''MEMO_TOO_BIG''))
       else if less_number (sa_fee a) 1000000 then Inr (Inl (failure ''-4'' ''Fee too small'' ''FEE_TOO_SMALL''))
       else js_bind (createTXApdu txt a) (\<lambda>apdu. let apduBuffer = bytes_of_hex apdu in
         if length apduBuffer > 256 then Inr (Inl (failure ''-2'' ''data length > 256 bytes'' ''DATA_TOO_BIG''))
         else Inr (Inr apduBuffer))))"

text \<open>The handler of a transport error reads \<open>statusCode.toString()\<close>, which throws without a status code.\<close>

definition sign_reply :: "LedgerError + byte list \<Rightarrow> LedgerResponse result" where
  "sign_reply answer = (case answer of
     Inr response \<Rightarrow> Inr (success (hex_of_bytes (js_slice 0 (int (length response) - 2) response)) (return_code response))
   | Inl e \<Rightarrow> (case le_statusCode e of
       None \<Rightarrow> Inl (TypeError ''toString'')
     | Some c \<Rightarrow> Inr \<lparr>lr_value = None, lr_returnCode = int_to_string c,
         lr_message = le_message e, lr_statusText = le_statusText e\<rparr>))"

definition signTransaction :: "number_format \<Rightarrow> transport \<Rightarrow> SignTransactionArgs \<Rightarrow> LedgerResponse result" where
  "signTransaction txt send a = js_bind (sign_request txt a) (\<lambda>request. case request of
     Inl r \<Rightarrow> Inr r
   | Inr apduBuffer \<Rightarrow> sign_reply (send CLA_APP SIGN 0 0 (Some apduBuffer) (Some [SW_OK, SW_CANCEL])))"

definition char_at :: "string \<Rightarrow> nat \<Rightarrow> string" where
  "char_at s i = (if i < length s then [s ! i] else ''undefined'')"

definition getAppVersion :: "transport \<Rightarrow> LedgerResponse" where
  "getAppVersion send = (case send CLA_APP GET_VERSION 0 0 None None of
     Inr response \<Rightarrow>
       let versionRaw = hex_of_bytes (js_slice 0 (int (length response) - 2) response)
       in success (char_at versionRaw 1 @ ''.'' @ char_at versionRaw 2 @ ''.'' @ char_at versionRaw 3)
            (return_code response)
   | Inl e \<Rightarrow> \<lparr>lr_value = None, lr_returnCode = code_or_5000 (map_option int_to_string (le_statusCode e)),
       lr_message = le_message e, lr_statusText = le_statusText e\<rparr>)"

definition ascii_text :: "byte list \<Rightarrow> string" where
  "ascii_text bs = map (\<lambda>b. char_of (unat b mod 128)) bs"

definition getAppName :: "(byte list \<Rightarrow> string) \<Rightarrow> transport \<Rightarrow> GetAppNameResponse" where
  "getAppName utf8 send = (case send CLA_LEDGER GET_NAME_VERSION 0 0 None None of
     Inr response \<Rightarrow>
       let separatorPosition = js_findIndex (\<lambda>b. b = 0x05) response
       in \<lparr>gn_name = Some (ascii_text (js_slice 2 separatorPosition response)),
           gn_version = Some (utf8 (js_slice (separatorPosition + 1) (int (length response) - 4) response)),
           gn_returnCode = return_code response, gn_message = None, gn_statusText = None\<rparr>
   | Inl e \<Rightarrow> \<lparr>gn_name = None, gn_version = None,
       gn_returnCode = code_or_5000 (map_option int_to_string (le_statusCode e)),
       gn_message = le_message e, gn_statusText = le_statusText e\<rparr>)"

text \<open>\<open>BigInt('0x' + s).toString()\<close>.\<close>

definition bigint_of_hex :: "string \<Rightarrow> string result" where
  "bigint_of_hex s = (case read_digits 16 (drop 2 (js_trim (''0x'' @ s))) of
     None \<Rightarrow> Inl (SyntaxError s) | Some n \<Rightarrow> Inr (nat_to_string n))"

definition getScalarFromSignature :: "string \<Rightarrow> string result" where
  "getScalarFromSignature signature = bigint_of_hex (drop 64 signature)"

definition getFieldFromSignature :: "string \<Rightarrow> string result" where
  "getFieldFromSignature signature = bigint_of_hex (take 64 signature)"

section \<open>Hexadecimal digits\<close>

definition is_hex :: "char \<Rightarrow> bool" where
  "is_hex c \<longleftrightarrow> digit_in 16 c \<noteq> None"

lemma char_code_of [simp]: "n < 256 \<Longrightarrow> char_code (char_of n) = n"
  by (simp add: char_code_def)

lemma hex_char_code: "n < 16 \<Longrightarrow> char_code (hex_char n) = (if n < 10 then 48 + n else 87 + n)"
proof -
  have "\<forall>k \<in> {..<16}. char_code (hex_char k) = (if k < 10 then 48 + k else 87 + k)"
    by (simp add: hex_char_def char_code_def lessThan_nat_numeral lessThan_Suc)
  then show "n < 16 \<Longrightarrow> ?thesis" by simp
qed

lemma hex_char_decimal: "n < 10 \<Longrightarrow> hex_char n = char_of (48 + n)"
  using hex_char_code [of n] by (metis char_code_def char_of_char less_trans numeral_less_iff
    semiring_norm(76) semiring_norm(78) semiring_norm(81))

lemma digit_in_hex_char [simp]: "n < 16 \<Longrightarrow> digit_in 16 (hex_char n) = Some n"
  by (auto simp: digit_in_def hex_char_code)

lemma is_hex_hex_char [simp]: "n < 16 \<Longrightarrow> is_hex (hex_char n)"
  by (simp add: is_hex_def)

lemma digit_in_upper [simp]: "digit_in 16 (hex_upper_char c) = digit_in 16 c"
proof (cases "97 \<le> char_code c \<and> char_code c \<le> 122")
  case True
  then have "char_code c - 32 < 256" by linarith
  then have "char_code (hex_upper_char c) = char_code c - 32" using True by (simp add: hex_upper_char_def)
  then show ?thesis using True by (auto simp: digit_in_def)
qed (auto simp: hex_upper_char_def)

text \<open>The digits of a number in a field of fixed width, and its bytes, most significant first.\<close>

fun hex_field :: "nat \<Rightarrow> nat \<Rightarrow> string" where
  "hex_field 0 n = []"
| "hex_field (Suc w) n = hex_field w (n div 16) @ [hex_char (n mod 16)]"

fun be_bytes :: "nat \<Rightarrow> nat \<Rightarrow> byte list" where
  "be_bytes 0 n = []"
| "be_bytes (Suc k) n = be_bytes k (n div 256) @ [word_of_nat (n mod 256)]"

lemma length_hex_field [simp]: "length (hex_field w n) = w"
  by (induction w arbitrary: n) auto

lemma hex_field_digits [simp]: "list_all is_hex (hex_field w n)"
  by (induction w arbitrary: n) auto

lemma length_be_bytes [simp]: "length (be_bytes k n) = k"
  by (induction k arbitrary: n) auto

lemma hex_field_0: "hex_field w 0 = replicate w (CHR ''0'')"
proof (induction w)
  case (Suc w)
  have "hex_char 0 = CHR ''0''" by (simp add: hex_char_def)
  then show ?case using Suc by (simp add: replicate_append_same)
qed simp

lemma concat_replicate_single: "concat (replicate w [c]) = replicate w c"
  by (induction w) auto

lemma pad_snoc: "pad (s @ [c]) (Suc w) ''0'' = pad s w ''0'' @ [c]"
  by (simp add: pad_def concat_replicate_single)

lemma pad_hex: "pad (nat_to_hex n) w ''0'' = hex_field w n"
proof (induction w arbitrary: n)
  case 0
  show ?case by (simp add: pad_def)
next
  case (Suc w)
  show ?case
  proof (cases "n < 16")
    case True
    have "pad [hex_char n] (Suc w) ''0'' = pad [] w ''0'' @ [hex_char n]" using pad_snoc [of "[]"] by simp
    then show ?thesis using True
      by (simp add: nat_to_hex.simps [of n] pad_def concat_replicate_single hex_field_0)
  next
    case False
    then show ?thesis using Suc [of "n div 16"] by (simp add: nat_to_hex.simps [of n] pad_snoc)
  qed
qed

lemma bytes_of_hex_append:
  assumes "even (length s)" "list_all is_hex s"
  shows "bytes_of_hex (s @ t) = bytes_of_hex s @ bytes_of_hex t"
  using assms by (induction s rule: bytes_of_hex.induct) (auto simp: is_hex_def split: option.splits)

lemma length_bytes_of_hex:
  "even (length s) \<Longrightarrow> list_all is_hex s \<Longrightarrow> length (bytes_of_hex s) = length s div 2"
  by (induction s rule: bytes_of_hex.induct) (auto simp: is_hex_def split: option.splits)

lemma bytes_of_hex_upper [simp]: "bytes_of_hex (hex_upper s) = bytes_of_hex s"
  by (induction s rule: bytes_of_hex.induct) (auto simp: hex_upper_def split: option.splits)

lemma hex_of_bytes_digits [simp]: "list_all is_hex (hex_of_bytes bs)"
proof (induction bs)
  case (Cons b bs)
  have "unat b < 256" using unsigned_less [of b] by simp
  then show ?case using Cons by (simp add: hex_of_bytes_def hex_of_byte_def)
qed (simp add: hex_of_bytes_def)

lemma length_hex_of_bytes [simp]: "length (hex_of_bytes bs) = 2 * length bs"
  by (induction bs) (auto simp: hex_of_bytes_def hex_of_byte_def)

lemma bytes_of_hex_of_bytes [simp]: "bytes_of_hex (hex_of_bytes bs) = bs"
proof (induction bs)
  case (Cons b bs)
  have "unat b < 256" using unsigned_less [of b] by simp
  then have "unat b div 16 < 16" by simp
  then show ?case using Cons by (simp add: hex_of_bytes_def hex_of_byte_def)
qed (simp add: hex_of_bytes_def)

lemma bytes_of_hex_field [simp]: "bytes_of_hex (hex_field (2 * k) n) = be_bytes k n"
proof (induction k arbitrary: n)
  case (Suc k)
  have "16 * (n div 16 mod 16) + n mod 16 = n mod 256"
    using mod_mult2_eq [of n 16 16] by simp
  moreover have "n div 16 div 16 = n div 256" by (simp add: div_mult2_eq [symmetric])
  moreover have "even (length (hex_field (2 * k) m))" for m by simp
  ultimately show ?case using Suc by (simp add: bytes_of_hex_append)
qed simp

lemma be_bytes_mod: "be_bytes k (n mod 256 ^ k) = be_bytes k n"
proof (induction k arbitrary: n)
  case (Suc k)
  have "n mod (256 * 256 ^ k) div 256 = n div 256 mod 256 ^ k"
    using mod_mult2_eq [of n 256 "256 ^ k"] by simp
  moreover have "n mod (256 * 256 ^ k) mod 256 = n mod 256" by (simp add: mod_mod_cancel)
  ultimately show ?case using Suc [of "n div 256"] by simp
qed simp

section \<open>The layout the device expects\<close>

text \<open>
  The bytes of a transaction: numbers as unsigned big-endian machine words, the addresses as they are,
  the memo filled up with zeros, one byte for the type and one for the network.
\<close>

definition word32_bytes :: "32 word \<Rightarrow> byte list" where
  "word32_bytes w = be_bytes 4 (unat w)"

definition word64_bytes :: "64 word \<Rightarrow> byte list" where
  "word64_bytes w = be_bytes 8 (unat w)"

text \<open>A transaction of non-negative whole numbers, and the arguments that stand for it.\<close>

record PlainTx =
  px_txType :: nat
  px_senderAccount :: nat
  px_senderAddress :: code_units
  px_receiverAddress :: code_units
  px_amount :: nat
  px_fee :: nat
  px_nonce :: nat
  px_validUntil :: "nat option"
  px_memo :: "code_units option"
  px_networkId :: nat

definition whole :: "nat \<Rightarrow> js_number js" where
  "whole n = Val (Finite (of_nat n))"

definition tx_args :: "PlainTx \<Rightarrow> SignTransactionArgs" where
  "tx_args t = \<lparr>sa_txType = whole (px_txType t), sa_senderAccount = whole (px_senderAccount t),
     sa_senderAddress = Val (px_senderAddress t), sa_receiverAddress = Val (px_receiverAddress t),
     sa_amount = whole (px_amount t), sa_fee = whole (px_fee t), sa_nonce = whole (px_nonce t),
     sa_validUntil = (case px_validUntil t of None \<Rightarrow> Undefined | Some n \<Rightarrow> whole n),
     sa_memo = (case px_memo t of None \<Rightarrow> Undefined | Some m \<Rightarrow> Val m), sa_networkId = whole (px_networkId t)\<rparr>"

definition valid_until :: "PlainTx \<Rightarrow> nat" where
  "valid_until t = (case px_validUntil t of None \<Rightarrow> 4294967295 | Some n \<Rightarrow> n)"

definition memo_text :: "PlainTx \<Rightarrow> code_units" where
  "memo_text t = (case px_memo t of None \<Rightarrow> [] | Some m \<Rightarrow> m)"

text \<open>The memo has a field of 32 bytes, whatever its text.\<close>

definition memo_field :: "code_units \<Rightarrow> byte list" where
  "memo_field m = take 32 (utf8_bytes m @ replicate 32 0)"

definition tx_head :: "PlainTx \<Rightarrow> byte list" where
  "tx_head t = word32_bytes (word_of_nat (px_senderAccount t)) @ low_bytes (px_senderAddress t)
     @ low_bytes (px_receiverAddress t) @ word64_bytes (word_of_nat (px_amount t))
     @ word64_bytes (word_of_nat (px_fee t)) @ word32_bytes (word_of_nat (px_nonce t))
     @ word32_bytes (word_of_nat (valid_until t))"

definition tx_layout :: "PlainTx \<Rightarrow> byte list" where
  "tx_layout t = tx_head t @ memo_field (memo_text t)
     @ [word_of_nat (px_txType t), word_of_nat (px_networkId t)]"

definition ascii_text_units :: "code_units \<Rightarrow> bool" where
  "ascii_text_units us = list_all (\<lambda>u. u < 0x80) us"

lemma pad_int_hex: "pad (int_to_hex (int n)) w ''0'' = hex_field w n"
  by (simp add: int_to_hex_def pad_hex)

lemma pad_upper: "pad (hex_upper s) w ''0'' = hex_upper (pad s w ''0'')"
proof -
  have "hex_upper_char (CHR ''0'') = CHR ''0''" by (simp add: hex_upper_char_def char_code_def)
  then show ?thesis by (simp add: hex_upper_def pad_def concat_replicate_single drop_map)
qed

lemma upper_digits [simp]: "list_all is_hex (hex_upper s) = list_all is_hex s"
  by (simp add: hex_upper_def is_hex_def list_all_length)

lemma length_upper [simp]: "length (hex_upper s) = length s"
  by (simp add: hex_upper_def)

lemma pad_decimal_digit:
  assumes "n < 10" shows "pad (int_to_string (int n)) 2 ''0'' = hex_field 2 n"
proof -
  have "int_to_string (int n) = nat_to_hex n"
    using assms by (simp add: int_to_string_def nat_to_string.simps nat_to_hex.simps hex_char_decimal)
  then show ?thesis by (simp add: pad_hex)
qed

lemmas field_width = bytes_of_hex_field [of 1, simplified] bytes_of_hex_field [of 4, simplified]
  bytes_of_hex_field [of 8, simplified]

text \<open>The wrap-around of a field is the one of the machine word of its width.\<close>

lemma be_bytes_word32: "be_bytes 4 n = word32_bytes (word_of_nat n)"
  using be_bytes_mod [of 4 n] by (simp add: word32_bytes_def unsigned_of_nat take_bit_eq_mod)

lemma be_bytes_word64: "be_bytes 8 n = word64_bytes (word_of_nat n)"
  using be_bytes_mod [of 8 n] by (simp add: word64_bytes_def unsigned_of_nat take_bit_eq_mod)

lemma byte_of_nat_mod: "word_of_nat (n mod 256) = (word_of_nat n :: byte)"
  by (simp add: word_of_nat_eq_iff take_bit_eq_mod)

lemma length_utf8_pair [simp]: "length (utf8_pair h l) = 4"
  by (simp add: utf8_pair_def)

lemma utf8_zeros [simp]: "utf8_bytes (replicate k 0) = replicate k 0"
  by (induction k) auto

lemma utf8_fill: "utf8_bytes (us @ replicate k 0) = utf8_bytes us @ replicate k 0"
proof (induction us rule: utf8_bytes.induct)
  case (2 u us)
  show ?case
  proof (cases us)
    case Nil
    then show ?thesis by (cases k) auto
  next
    case (Cons v vs)
    then show ?thesis using 2 by auto
  qed
qed simp

text \<open>A unit takes one to three bytes, and one only if it is an ASCII character.\<close>

lemma length_utf8: "length us \<le> length (utf8_bytes us) \<and> length (utf8_bytes us) \<le> 3 * length us"
proof (induction us rule: utf8_bytes.induct)
  case (2 u us)
  then show ?case by (cases us) (auto simp del: utf8_bytes.simps(2) simp: utf8_bytes.simps(2) [of u])
qed simp

lemma length_utf8_ascii: "length (utf8_bytes us) = length us \<longleftrightarrow> ascii_text_units us"
proof (induction us rule: utf8_bytes.induct)
  case (2 u us)
  have small: "u < 0x80 \<longleftrightarrow> unat u < 0x80" by (simp add: word_less_nat_alt)
  show ?case
  proof (cases "unat u < 0x80")
    case True
    then show ?thesis using 2(1) small by (simp add: ascii_text_units_def)
  next
    case False
    have "length (u # us) < length (utf8_bytes (u # us))"
      using False length_utf8 [of us] length_utf8 [of "tl us"] by (cases us) auto
    then show ?thesis using False small by (simp add: ascii_text_units_def del: utf8_bytes.simps)
  qed
qed (simp add: ascii_text_units_def)

lemma length_memo_field [simp]: "length (memo_field m) = 32"
  by (simp add: memo_field_def)

lemma memo_field_ascii:
  "length m \<le> 32 \<Longrightarrow> ascii_text_units m \<Longrightarrow> memo_field m = utf8_bytes m @ replicate (32 - length m) 0"
  using length_utf8_ascii [of m] by (simp add: memo_field_def)

lemma convertMemo_bytes: "convertMemo m = hex_of_bytes (utf8_bytes m @ replicate (32 - length m) 0)"
  by (simp add: convertMemo_def utf8_fill)

lemma length_tx_head: "length (tx_head t) = 28 + length (px_senderAddress t) + length (px_receiverAddress t)"
  by (simp add: tx_head_def word32_bytes_def word64_bytes_def low_bytes_def)

text \<open>The message as a sequence of fields, each of them whole bytes.\<close>

definition tx_message :: "PlainTx \<Rightarrow> string" where
  "tx_message t = hex_field 8 (px_senderAccount t) @ hex_of_bytes (low_bytes (px_senderAddress t))
    @ hex_of_bytes (low_bytes (px_receiverAddress t)) @ hex_field 16 (px_amount t)
    @ hex_field 16 (px_fee t) @ hex_upper (hex_field 8 (px_nonce t)) @ hex_field 8 (valid_until t)
    @ hex_of_bytes (utf8_bytes (memo_text t) @ replicate (32 - length (memo_text t)) 0)
    @ hex_field 2 (px_txType t) @ hex_field 2 (px_networkId t)"

lemma whole_text: "toString16 txt (whole n) = Inr (int_to_hex (int n))"
  by (simp add: toString16_def whole_def)

lemma valid_until_text:
  "toString16 txt (or_default (sa_validUntil (tx_args t)) (Finite 4294967295)) = Inr (int_to_hex (int (valid_until t)))"
  by (simp add: tx_args_def valid_until_def or_default_def whole_def toString16_def split: option.splits)

lemma memo_member: "text_member name (or_default (sa_memo (tx_args t)) []) = Inr (memo_text t)"
  by (simp add: tx_args_def memo_text_def or_default_def text_member_def split: option.splits)

lemma network_text: "n < 10 \<Longrightarrow> number_string txt (whole n) = int_to_string (int n)"
  by (simp add: number_string_def whole_def)

lemma tx_args_members:
  "sa_txType (tx_args t) = whole (px_txType t)" "sa_senderAccount (tx_args t) = whole (px_senderAccount t)"
  "sa_senderAddress (tx_args t) = Val (px_senderAddress t)" "sa_receiverAddress (tx_args t) = Val (px_receiverAddress t)"
  "sa_amount (tx_args t) = whole (px_amount t)" "sa_fee (tx_args t) = whole (px_fee t)" "sa_nonce (tx_args t) = whole (px_nonce t)"
  "sa_networkId (tx_args t) = whole (px_networkId t)"
  by (simp_all add: tx_args_def)

lemma createTXApdu_fields:
  assumes "px_networkId t < 10"
  shows "createTXApdu txt (tx_args t) = Inr (tx_message t)"
proof -
  have "number_text txt 16 (to_number (whole n)) = int_to_hex (int n)" for n by (simp add: to_number_def whole_def)
  then show ?thesis
    unfolding createTXApdu_def valid_until_text memo_member tx_args_members whole_text network_text [OF assms]
    by (simp add: text_member_def tx_message_def pad_int_hex pad_upper pad_decimal_digit [OF assms]
      asciiToHex_def convertMemo_bytes)
qed

lemma tx_message_bytes:
  "bytes_of_hex (tx_message t) = tx_head t @ utf8_bytes (memo_text t) @ replicate (32 - length (memo_text t)) 0
     @ [word_of_nat (px_txType t), word_of_nat (px_networkId t)]"
  by (simp add: tx_message_def tx_head_def bytes_of_hex_append field_width be_bytes_word32 be_bytes_word64 byte_of_nat_mod)

definition sample_tx :: PlainTx where
  "sample_tx = \<lparr>px_txType = 0, px_senderAccount = 4294967297, px_senderAddress = units ''B62a'',
     px_receiverAddress = units ''B62b'', px_amount = 500, px_fee = 2000000, px_nonce = 171,
     px_validUntil = None, px_memo = Some (units ''hi''), px_networkId = 1\<rparr>"

lemma length_units [simp]: "length (units s) = length s"
  by (simp add: units_def)

text \<open>
  C24: The message of a transaction of non-negative whole numbers with a network below ten and a memo of
  at most 32 UTF-16 units is well-formed hexadecimal text of whole bytes. It is 62 bytes longer than the
  two addresses if the memo is ASCII text, and longer by the bytes its UTF-8 encoding has more than it
  has units otherwise, at most 64, so that the type and the network are no longer at their places.
\<close>

theorem createTXApdu_type:
  assumes "px_networkId t < 10" "length (memo_text t) \<le> 32"
  shows "\<exists>m excess. createTXApdu txt (tx_args t) = Inr m \<and> list_all is_hex m \<and> even (length m)
    \<and> length (bytes_of_hex m) = 62 + length (px_senderAddress t) + length (px_receiverAddress t) + excess
    \<and> length (memo_text t) + excess = length (utf8_bytes (memo_text t)) \<and> excess \<le> 64
    \<and> (excess = 0 \<longleftrightarrow> ascii_text_units (memo_text t))"
proof -
  let ?m = "tx_message t" and ?excess = "length (utf8_bytes (memo_text t)) - length (memo_text t)"
  have "list_all is_hex ?m" "even (length ?m)" by (simp_all add: tx_message_def)
  moreover have "length (bytes_of_hex ?m) = 62 + length (px_senderAddress t) + length (px_receiverAddress t) + ?excess"
    using assms(2) length_utf8 [of "memo_text t"] by (simp add: tx_message_bytes length_tx_head)
  ultimately show ?thesis
    using assms(2) length_utf8 [of "memo_text t"] length_utf8_ascii [of "memo_text t"]
    by (intro exI [of _ ?m] exI [of _ ?excess]) (auto simp: createTXApdu_fields [OF assms(1)])
qed

text \<open>The euro sign is one unit and three bytes.\<close>

theorem createTXApdu_type_witness:
  "(\<exists>m. createTXApdu (\<lambda>_ _. []) (tx_args sample_tx) = Inr m \<and> list_all is_hex m \<and> length (bytes_of_hex m) = 70)
   \<and> (\<exists>m. createTXApdu (\<lambda>_ _. []) (tx_args (sample_tx\<lparr>px_memo := Some [0x20AC]\<rparr>)) = Inr m \<and> length (bytes_of_hex m) = 72)"
proof -
  show ?thesis
    using createTXApdu_type [of sample_tx "\<lambda>_ _. []"] createTXApdu_type [of "sample_tx\<lparr>px_memo := Some [0x20AC]\<rparr>" "\<lambda>_ _. []"]
    by (auto simp: sample_tx_def memo_text_def units_def char_code_def ascii_text_units_def)
qed

section \<open>What reaches the device and what comes back\<close>

text \<open>
  What a caller has to give: the addresses, a whole amount and a whole fee, neither 0 where it is paid,
  and neither \<open>undefined\<close> nor \<open>NaN\<close> for the four other numbers; \<open>null\<close> passes for a number.
\<close>

definition complete_args :: "SignTransactionArgs \<Rightarrow> bool" where
  "complete_args a \<longleftrightarrow> (\<exists>sender. sa_senderAddress a = Val sender \<and> sender \<noteq> [])
     \<and> (\<exists>receiver. sa_receiverAddress a = Val receiver \<and> receiver \<noteq> [])
     \<and> (\<exists>amount. sa_amount a = Val (Finite (of_int amount)) \<and> (sa_txType a = Val (Finite 0) \<longrightarrow> amount \<noteq> 0))
     \<and> (\<exists>fee. sa_fee a = Val (Finite (of_int fee)) \<and> fee \<noteq> 0)
     \<and> list_all (\<lambda>x. x \<noteq> Undefined \<and> x \<noteq> Val NaN) [sa_txType a, sa_senderAccount a, sa_nonce a, sa_networkId a]"

lemma given_number: "\<not> isNaN x \<longleftrightarrow> x \<noteq> Undefined \<and> x \<noteq> Val NaN"
  by (auto simp: isNaN_def split: js.splits)

lemma present_text: "\<not> falsy_text x \<longleftrightarrow> (\<exists>us. x = Val us \<and> us \<noteq> [])"
  by (auto simp: falsy_text_def split: js.splits)

lemma whole_or_0:
  "isInteger x \<and> \<not> (falsy_number x \<and> p) \<longleftrightarrow> (\<exists>i. x = Val (Finite (of_int i)) \<and> (p \<longrightarrow> i \<noteq> 0))"
  by (cases x; cases p) (auto simp: isInteger_def falsy_number_def split: js_number.splits)

lemma complete_args_iff:
  "complete_args a \<longleftrightarrow> \<not> (isNaN (sa_txType a) \<or> isNaN (sa_senderAccount a) \<or> falsy_text (sa_senderAddress a)
     \<or> falsy_text (sa_receiverAddress a) \<or> falsy_number (sa_amount a) \<and> sa_txType a = Val (Finite 0)
     \<or> falsy_number (sa_fee a) \<or> \<not> isInteger (sa_amount a) \<or> \<not> isInteger (sa_fee a)
     \<or> isNaN (sa_nonce a) \<or> isNaN (sa_networkId a))" (is "_ \<longleftrightarrow> \<not> ?wrong")
proof -
  have "\<not> ?wrong \<longleftrightarrow> \<not> falsy_text (sa_senderAddress a) \<and> \<not> falsy_text (sa_receiverAddress a)
      \<and> (isInteger (sa_amount a) \<and> \<not> (falsy_number (sa_amount a) \<and> sa_txType a = Val (Finite 0)))
      \<and> (isInteger (sa_fee a) \<and> \<not> (falsy_number (sa_fee a) \<and> True))
      \<and> \<not> isNaN (sa_txType a) \<and> \<not> isNaN (sa_senderAccount a) \<and> \<not> isNaN (sa_nonce a) \<and> \<not> isNaN (sa_networkId a)"
    by blast
  then show ?thesis
    unfolding present_text whole_or_0 given_number complete_args_def by (simp only: list.pred_inject simp_thms conj_assoc)
qed

text \<open>A complete request throws for a memo, an account, a type or a time of validity that is \<open>null\<close>.\<close>

lemma toString16_simps [simp]:
  "toString16 txt (Val v) = Inr (number_text txt 16 v)" "toString16 txt Null = Inl (TypeError ''toString'')"
  by (simp_all add: toString16_def)

lemma or_default_simps [simp]:
  "or_default (Val v) d = Val v" "or_default Undefined d = Val d" "or_default Null d = Null"
  by (simp_all add: or_default_def)

lemma or_default_Null [simp]: "or_default x d = Null \<longleftrightarrow> x = Null"
  by (cases x) simp_all

lemma or_default_defined [simp]: "or_default x d \<noteq> Undefined"
  by (cases x) simp_all

lemma three_texts:
  assumes "x \<noteq> Undefined" "y \<noteq> Undefined" "z \<noteq> Undefined"
  shows "if Null \<in> {x, y, z}
    then js_bind (toString16 txt x) (\<lambda>p. js_bind (toString16 txt y) (\<lambda>q. js_bind (toString16 txt z) (\<lambda>r. Inr (f p q r))))
      = Inl (TypeError ''toString'')
    else (\<exists>m. js_bind (toString16 txt x) (\<lambda>p. js_bind (toString16 txt y) (\<lambda>q. js_bind (toString16 txt z) (\<lambda>r. Inr (f p q r))))
      = Inr m)"
  using assms by (cases x; cases y; cases z) simp_all

lemma createTXApdu_throws:
  assumes "complete_args a" "or_default (sa_memo a) [] = Val memo"
  shows "if Null \<in> {sa_senderAccount a, sa_validUntil a, sa_txType a} then createTXApdu txt a = Inl (TypeError ''toString'')
    else (\<exists>m. createTXApdu txt a = Inr m)"
proof -
  obtain us vs i j where given: "sa_senderAddress a = Val us" "sa_receiverAddress a = Val vs"
      "sa_amount a = Val (Finite (of_int i))" "sa_fee a = Val (Finite (of_int j))"
    and defined: "sa_senderAccount a \<noteq> Undefined" "sa_txType a \<noteq> Undefined"
    using assms(1) unfolding complete_args_def by auto
  have member: "text_member name (Val ws) = Inr ws" for name ws by (simp add: text_member_def)
  have null: "Null \<in> {sa_senderAccount a, sa_validUntil a, sa_txType a}
      \<longleftrightarrow> Null \<in> {sa_senderAccount a, or_default (sa_validUntil a) (Finite 4294967295), sa_txType a}"
    by (cases "sa_validUntil a") auto
  show ?thesis
    unfolding createTXApdu_def given assms(2) member toString16_simps js_bind_simps null Let_def
    by (rule three_texts) (use defined in simp_all)
qed

lemma sign_request_cases:
  "sign_request txt a =
    (if \<not> complete_args a then Inr (Inl (failure ''-1'' ''Missing or wrong arguments'' ''MISSING_ARGUMENTS''))
     else js_bind (text_member ''length'' (or_default (sa_memo a) [])) (\<lambda>memo.
       if length memo > 32 then Inr (Inl (failure ''-3'' ''Memo field too long'' ''MEMO_TOO_BIG''))
       else if less_number (sa_fee a) 1000000 then Inr (Inl (failure ''-4'' ''Fee too small'' ''FEE_TOO_SMALL''))
       else js_bind (createTXApdu txt a) (\<lambda>apdu.
         if length (bytes_of_hex apdu) > 256 then Inr (Inl (failure ''-2'' ''data length > 256 bytes'' ''DATA_TOO_BIG''))
         else Inr (Inr (bytes_of_hex apdu)))))"
  by (simp only: sign_request_def complete_args_iff Let_def not_not if_not_P)

lemma sign_request_sent:
  assumes "sign_request txt a = Inr (Inr buf)"
  shows "complete_args a \<and> (\<exists>m. createTXApdu txt a = Inr m \<and> buf = bytes_of_hex m) \<and> length buf \<le> 256
    \<and> (\<exists>memo. text_member ''length'' (or_default (sa_memo a) []) = Inr memo \<and> length memo \<le> 32)
    \<and> \<not> less_number (sa_fee a) 1000000"
  using assms by (auto simp: sign_request_cases js_bind_Inr_iff split: if_splits)

text \<open>
  C23: A transaction of non-negative whole numbers with a network below ten that passes the checks reaches
  the device as one message of at most 256 bytes, with at least the minimal fee and, for a payment, an
  amount. Up to the memo the message is the device's layout: every number is the big-endian machine word
  of its field, a number too large for its field being reduced modulo the size of the word without an
  error. The whole message is the layout, whose memo has 32 bytes, exactly if the memo is ASCII text. The
  answer is the one the device gives to the message.
\<close>

theorem signTransaction_sends_layout:
  assumes "px_networkId t < 10" "sign_request txt (tx_args t) = Inr (Inr buf)"
  shows "length buf \<le> 256 \<and> 1000000 \<le> px_fee t \<and> (px_txType t = 0 \<longrightarrow> px_amount t \<noteq> 0)
    \<and> (\<exists>rest. buf = tx_head t @ rest) \<and> (buf = tx_layout t \<longleftrightarrow> ascii_text_units (memo_text t))
    \<and> signTransaction txt send (tx_args t)
        = sign_reply (send CLA_APP SIGN 0 0 (Some buf) (Some [SW_OK, SW_CANCEL]))"
proof -
  note sent = sign_request_sent [OF assms(2)]
  have buf: "buf = tx_head t @ utf8_bytes (memo_text t) @ replicate (32 - length (memo_text t)) 0
      @ [word_of_nat (px_txType t), word_of_nat (px_networkId t)]"
    using sent createTXApdu_fields [OF assms(1)] tx_message_bytes by auto
  have memo: "length (memo_text t) \<le> 32" using sent by (simp add: memo_member)
  have "buf = tx_layout t" if "ascii_text_units (memo_text t)"
    unfolding buf tx_layout_def memo_field_ascii [OF memo that] by simp
  moreover have "ascii_text_units (memo_text t)" if "buf = tx_layout t"
  proof -
    have "length buf = length (tx_layout t)" using that by simp
    then have "length (utf8_bytes (memo_text t)) = length (memo_text t)" using memo by (simp add: buf tx_layout_def)
    then show ?thesis by (simp add: length_utf8_ascii)
  qed
  moreover have "1000000 \<le> px_fee t" using sent by (simp add: tx_args_members whole_def less_number_def)
  moreover have "px_txType t = 0 \<longrightarrow> px_amount t \<noteq> 0"
    using sent by (auto simp: complete_args_def tx_args_members whole_def)
  ultimately show ?thesis using sent buf assms(2) by (auto simp: signTransaction_def)
qed

lemma sample_request: "sign_request txt (tx_args sample_tx) = Inr (Inr (bytes_of_hex (tx_message sample_tx)))"
proof -
  have "length (bytes_of_hex (tx_message sample_tx)) = 70"
    by (simp add: tx_message_bytes length_tx_head) (simp add: sample_tx_def memo_text_def units_def char_code_def)
  moreover have "createTXApdu txt (tx_args sample_tx) = Inr (tx_message sample_tx)"
    by (rule createTXApdu_fields) (simp add: sample_tx_def)
  moreover have "memo_text sample_tx = units ''hi''" by (simp add: sample_tx_def memo_text_def)
  ultimately show ?thesis unfolding sign_request_def memo_member
    by (simp add: tx_args_members whole_def sample_tx_def isNaN_def falsy_text_def falsy_number_def isInteger_def
      less_number_def units_def)
qed

theorem signTransaction_sends_layout_witness:
  "signTransaction (\<lambda>_ _. []) (\<lambda>_ _ _ _ d _. Inr [word_of_nat (length (the d)), 0x90, 0]) (tx_args sample_tx)
     = Inr (success ''46'' ''9000'')
   \<and> word_of_nat (px_senderAccount sample_tx) = (1 :: 32 word)
   \<and> bytes_of_hex (tx_message sample_tx) = tx_layout sample_tx"
proof -
  have net: "px_networkId sample_tx < 10" by (simp add: sample_tx_def)
  have ascii: "ascii_text_units (memo_text sample_tx)"
    by (simp add: sample_tx_def memo_text_def units_def char_code_def ascii_text_units_def)
  note * = signTransaction_sends_layout [OF net sample_request [of "\<lambda>_ _. []"],
      of "\<lambda>_ _ _ _ d _. Inr [word_of_nat (length (the d)), 0x90, 0]"]
  have "length (bytes_of_hex (tx_message sample_tx)) = 70"
    by (simp add: tx_message_bytes length_tx_head) (simp add: sample_tx_def memo_text_def units_def char_code_def)
  moreover have "word_of_nat (px_senderAccount sample_tx) = (1 :: 32 word)" by (simp add: sample_tx_def)
  ultimately show ?thesis using * ascii
    by (simp add: sign_reply_def return_code_def js_slice_def js_slice_index_def
      hex_of_bytes_def hex_of_byte_def hex_char_def)
qed

text \<open>
  A negative account passes the checks and cuts the message off: its sign is no hexadecimal digit, and
  the bytes end before it.
\<close>

lemma negative_account_cuts_message:
  assumes "createTXApdu txt a = Inr m" "sa_senderAccount a = Val (Finite (- 1))"
  shows "bytes_of_hex m = [0, 0, 0]"
proof -
  have floor: "\<lfloor>- 1 :: rat\<rfloor> = - 1" by (rule floor_unique) simp_all
  have "int_to_hex (- 1) = ''-1''" by (simp add: int_to_hex_def nat_to_hex.simps hex_char_def)
  then have "number_text txt 16 (Finite (- 1)) = ''-1''" by (simp add: floor)
  then have "pad (number_text txt 16 (Finite (- 1))) 8 ''0'' = ''000000-1''"
    by (simp only: pad_def) (simp add: numeral_eq_Suc)
  then obtain rest where "m = ''000000-1'' @ rest"
    using assms by (auto simp: createTXApdu_def toString16_def js_bind_Inr_iff)
  then show ?thesis by (simp add: digit_in_def char_code_def)
qed

text \<open>
  C25: The signing of a transaction rejects with a type error exactly when the request is complete and
  either its memo is \<open>null\<close>, or the memo has at most 32 units, the fee is at least the minimal one and
  the account, the type or the time of validity is \<open>null\<close>, or none of them is, the message has at most
  256 bytes and the transport fails with an error that has no status code. Otherwise it resolves.
\<close>

theorem signTransaction_rejects_iff:
  "signTransaction txt send a = Inl err \<longleftrightarrow>
    complete_args a
    \<and> (sa_memo a = Null \<and> err = TypeError ''length''
       \<or> (\<exists>memo. or_default (sa_memo a) [] = Val memo \<and> length memo \<le> 32) \<and> \<not> less_number (sa_fee a) 1000000
         \<and> err = TypeError ''toString''
         \<and> (Null \<in> {sa_senderAccount a, sa_validUntil a, sa_txType a}
            \<or> (\<exists>m e. createTXApdu txt a = Inr m \<and> length (bytes_of_hex m) \<le> 256
                \<and> send CLA_APP SIGN 0 0 (Some (bytes_of_hex m)) (Some [SW_OK, SW_CANCEL]) = Inl e
                \<and> le_statusCode e = None)))"
proof (cases "complete_args a")
  case False
  then show ?thesis by (simp add: signTransaction_def sign_request_cases)
next
  case True
  have reply: "sign_reply answer = Inl err \<longleftrightarrow> err = TypeError ''toString'' \<and> (\<exists>e. answer = Inl e \<and> le_statusCode e = None)"
    for answer by (auto simp: sign_reply_def split: sum.splits option.splits)
  show ?thesis
  proof (cases "or_default (sa_memo a) []")
    case Undefined
    then show ?thesis by simp
  next
    case Null
    then show ?thesis using True by (auto simp: signTransaction_def sign_request_cases text_member_def)
  next
    case (Val memo)
    then have memo: "sa_memo a \<noteq> Null" by auto
    note throws = createTXApdu_throws [OF True Val, of "txt"]
    show ?thesis
    proof (cases "Null \<in> {sa_senderAccount a, sa_validUntil a, sa_txType a}")
      case n: True
      then have "createTXApdu txt a = Inl (TypeError ''toString'')" using throws by simp
      then show ?thesis using n memo by (auto simp: signTransaction_def sign_request_cases text_member_def True Val)
    next
      case n: False
      then obtain m where "createTXApdu txt a = Inr m" using throws by auto
      then show ?thesis using n memo by (auto simp: signTransaction_def sign_request_cases text_member_def True Val reply)
    qed
  qed
qed

theorem signTransaction_rejects_iff_witness:
  "signTransaction (\<lambda>_ _. []) (\<lambda>_ _ _ _ _ _. Inr []) ((tx_args sample_tx)\<lparr>sa_senderAccount := Null\<rparr>)
     = Inl (TypeError ''toString'')
   \<and> signTransaction (\<lambda>_ _. []) (\<lambda>_ _ _ _ _ _. Inr []) ((tx_args sample_tx)\<lparr>sa_memo := Null\<rparr>)
     = Inl (TypeError ''length'')"
proof -
  have "complete_args (tx_args sample_tx)" "\<not> less_number (sa_fee (tx_args sample_tx)) 1000000"
    using sign_request_sent [OF sample_request] by blast+
  moreover have "complete_args (a\<lparr>sa_memo := Null\<rparr>) = complete_args a" for a
    by (simp add: complete_args_def)
  moreover have "complete_args a \<Longrightarrow> complete_args (a\<lparr>sa_senderAccount := Null\<rparr>)" for a
    by (auto simp: complete_args_def)
  moreover have "or_default (sa_memo (tx_args sample_tx)) [] = Val (units ''hi'')"
    by (simp add: tx_args_def sample_tx_def)
  ultimately show ?thesis unfolding signTransaction_rejects_iff by (auto simp: units_def)
qed

lemma hex_not_space: "is_hex c \<Longrightarrow> \<not> js_space c"
  by (auto simp: is_hex_def digit_in_def js_space_def char_code_def split: if_splits)

lemma trim_hex_literal: "list_all is_hex s \<Longrightarrow> js_trim (''0x'' @ s) = ''0x'' @ s"
proof (cases s rule: rev_cases)
  case (snoc t c)
  assume "list_all is_hex s"
  then have "\<not> js_space c" using snoc hex_not_space by simp
  then show ?thesis by (simp add: js_trim_def js_space_def [of "CHR ''0''"] snoc)
qed (simp add: js_trim_def js_space_def)

lemma read_hex: "list_all is_hex s \<Longrightarrow> \<exists>n. \<forall>acc. read_base 16 acc s = Some (acc * 16 ^ length s + n)"
proof (induction s)
  case (Cons c s)
  then obtain n d where n: "\<forall>acc. read_base 16 acc s = Some (acc * 16 ^ length s + n)"
    and d: "digit_in 16 c = Some d" by (auto simp: is_hex_def)
  show ?case by (intro exI [of _ "d * 16 ^ length s + n"]) (simp add: n d algebra_simps)
qed simp

lemma bigint_of_hex_reads:
  "list_all is_hex s \<Longrightarrow> s \<noteq> [] \<Longrightarrow> read_base 16 0 s = Some n \<Longrightarrow> bigint_of_hex s = Inr (nat_to_string n)"
  by (simp only: bigint_of_hex_def trim_hex_literal) (simp add: read_digits_def)

text \<open>
  The signature the device returns loses nothing when it is split: its two decimal numbers, the
  field and the scalar, recombine to the number the hexadecimal signature denotes.
\<close>

theorem signature_parts_recombine:
  assumes "list_all is_hex sig" "length sig = 128"
  shows "\<exists>f s. getFieldFromSignature sig = Inr (nat_to_string f)
    \<and> getScalarFromSignature sig = Inr (nat_to_string s)
    \<and> read_base 16 0 sig = Some (f * 16 ^ 64 + s)"
proof -
  have "sig = take 64 sig @ drop 64 sig" by simp
  then have hex: "list_all is_hex (take 64 sig)" "list_all is_hex (drop 64 sig)"
    using assms(1) by (metis list_all_append)+
  have len: "take 64 sig \<noteq> []" "drop 64 sig \<noteq> []" "length (drop 64 sig) = 64" using assms(2) by auto
  obtain f where f: "read_base 16 0 (take 64 sig) = Some f" using read_hex [OF hex(1)] by auto
  obtain s where s: "\<forall>acc. read_base 16 acc (drop 64 sig) = Some (acc * 16 ^ 64 + s)"
    using read_hex [OF hex(2)] len(3) by auto
  have "read_base 16 0 sig = Some (f * 16 ^ 64 + s)"
    using read_base_append [of 16 0 "take 64 sig" "drop 64 sig"] f s by simp
  moreover have "getFieldFromSignature sig = Inr (nat_to_string f)"
    unfolding getFieldFromSignature_def by (rule bigint_of_hex_reads [OF hex(1) len(1) f])
  moreover have "getScalarFromSignature sig = Inr (nat_to_string s)"
    unfolding getScalarFromSignature_def by (rule bigint_of_hex_reads [OF hex(2) len(2)]) (simp add: s)
  ultimately show ?thesis by blast
qed

theorem signature_parts_recombine_witness:
  "\<exists>f s. getFieldFromSignature (replicate 128 (CHR ''a'')) = Inr (nat_to_string f)
    \<and> getScalarFromSignature (replicate 128 (CHR ''a'')) = Inr (nat_to_string s)
    \<and> read_base 16 0 (replicate 128 (CHR ''a'')) = Some (f * 16 ^ 64 + s)"
proof -
  have "is_hex (CHR ''a'')" by (simp add: is_hex_def digit_in_def char_code_def)
  then have "list_all is_hex (replicate 128 (CHR ''a''))" by (simp add: list_all_length)
  then show ?thesis by (rule signature_parts_recombine) simp
qed

text \<open>
  The other three requests never reject: without a status code they answer with the code 5000. The
  address reads the code of the error under another name than the transport gives it, so every
  transport error of it, a refusal by the user included, has that code.
\<close>

lemma getAddress_transport_error:
  assumes "isInteger (or_default account (Finite 0))" "\<And>ins d. send CLA_APP ins 0 0 d (Some [SW_OK, SW_CANCEL]) = Inl e"
    "le_returnCode e = None"
  shows "lr_returnCode (getAddress utf8 send account) = ''5000''"
  using assms by (simp add: getAddress_def code_or_5000_def)

lemma getAppVersion_transport_error:
  "send CLA_APP GET_VERSION 0 0 None None = Inl e \<Longrightarrow>
   lr_returnCode (getAppVersion send) = (case le_statusCode e of None \<Rightarrow> ''5000'' | Some c \<Rightarrow>
     if int_to_string c = [] then ''5000'' else int_to_string c)"
  by (simp add: getAppVersion_def code_or_5000_def split: option.splits)

end
