(* ===== verification/BlockOverview.thy ===== *)
theory BlockOverview
  imports WonSlots
begin

text \<open>
  The overview of the block production (\<open>features/block-production/overview\<close>): the service, the
  slice, the effects with their requests, and what the components compute of the state. The effects
  and the slice together are one machine, \<open>overview_step\<close>, whose events are the actions of the
  components and the answers to the requests in flight.
\<close>

section \<open>Data\<close>

record OverviewAllStats =
  oa_wonSlots :: int
  oa_totalSlots :: int
  oa_canonical :: int
  oa_orphaned :: int
  oa_missed :: int
  oa_futureRights :: int
  oa_expectedRewards :: string
  oa_earnedRewards :: string

record OverviewEpochDetails =
  od_epochNumber :: int
  od_totalSlots :: int
  od_wonSlots :: int
  od_canonical :: int
  od_orphaned :: int
  od_missed :: int
  od_futureRights :: int
  od_slotStart :: int
  od_slotEnd :: int
  od_expectedRewards :: "string option"
  od_earnedRewards :: "string option"
  od_balanceDelegated :: "string option"
  od_balanceProducer :: "string option"
  od_balanceStaked :: "string option"

datatype BlockStatus = BsEmpty | ToBeProduced | BsOrphaned | OrphanedPending | BsCanonical | CanonicalPending
  | Foreign | Missed

record OverviewSlot =
  os_slot :: int
  os_globalSlot :: int
  os_height :: "int option"
  os_time :: int
  os_status :: BlockStatus
  os_finished :: bool
  os_canonical :: bool
  os_orphaned :: bool
  os_missed :: bool
  os_futureRights :: bool
  os_hash :: "string option"
  os_active :: bool

record OverviewWindow =
  ow_start :: int
  ow_end :: int
  ow_canonical :: int
  ow_missed :: int
  ow_orphaned :: int
  ow_futureRights :: int
  ow_interval :: "int \<times> int"

text \<open>
  An epoch as the service returns it, and the active epoch of the state, which the reducer builds up
  by spreading objects over each other, so that any of its fields can be missing.
\<close>

record OverviewEpoch =
  oe_epochNumber :: int
  oe_windows :: "OverviewWindow list"
  oe_finishedWindows :: int
  oe_isLastEpoch :: bool

record ActiveEpoch =
  ae_epoch :: "OverviewEpoch option"
  ae_details :: "OverviewEpochDetails option"
  ae_slots :: "OverviewSlot list option"

record OverviewFilters =
  of_canonical :: bool
  of_orphaned :: bool
  of_missed :: bool
  of_future :: bool

record EpochSummary =
  es_won_slots :: int
  es_canonical :: int
  es_orphaned :: int
  es_missed :: int
  es_future_rights :: int
  es_slot_start :: int
  es_slot_end :: int
  es_expected_rewards :: jsval
  es_earned_rewards :: jsval
  es_is_current :: bool

record EpochPaginationResponse =
  ep_epoch_number :: int
  ep_balance_delegated :: jsval
  ep_balance_producer :: jsval
  ep_balance_staked :: jsval
  ep_summary :: "EpochSummary option"
  ep_sub_windows :: "EpochSummary list"

record AllStatsResponse =
  as_won_slots :: int
  as_canonical :: int
  as_orphaned :: int
  as_missed :: int
  as_future_rights :: int
  as_expected_rewards :: jsval
  as_earned_rewards :: jsval

record SlotResponse =
  sr_slot :: int
  sr_global_slot :: int
  sr_block_status :: BlockStatus
  sr_timestamp :: int
  sr_state_hash :: "string option"
  sr_height :: "int option"

section \<open>The service\<close>

text \<open>
  \<open>new Intl.NumberFormat('en-US', { maximumFractionDigits: 2, useGrouping: false }).format\<close>: rounded
  to two digits, the larger magnitude on a tie, without trailing zeros.
\<close>

definition format_fixed :: "rat option \<Rightarrow> string" where
  "format_fixed x = (case x of None \<Rightarrow> ''NaN''
     | Some r \<Rightarrow> (let h = nat \<lfloor>\<bar>r\<bar> * 100 + 1 / 2\<rfloor>
         in (if r < 0 then ''-'' else []) @ nat_to_string (h div 100) @ fraction_text (h mod 100)))"

definition rewards_text :: "jsval \<Rightarrow> string" where
  "rewards_text v = format_fixed (map_option (\<lambda>r. r / ONE_BILLION) (js_to_number v))"

text \<open>\<open>epochNumber ?? 'latest'\<close>.\<close>

definition epoch_or_latest :: "int option \<Rightarrow> string" where
  "epoch_or_latest n = (case n of None \<Rightarrow> ''latest'' | Some i \<Rightarrow> int_to_string i)"

definition details_url :: "int option \<Rightarrow> string" where
  "details_url n = ''/epoch/summary/'' @ epoch_or_latest n"

datatype epoch_payload = OneEpoch EpochPaginationResponse | ManyEpochs "EpochPaginationResponse list"

definition epoch_details :: "EpochPaginationResponse \<Rightarrow> OverviewEpochDetails" where
  "epoch_details response = (case ep_summary response of
     None \<Rightarrow> \<lparr>od_epochNumber = ep_epoch_number response, od_totalSlots = 0, od_wonSlots = 0, od_canonical = 0,
       od_orphaned = 0, od_missed = 0, od_futureRights = 0, od_slotStart = 0, od_slotEnd = 0,
       od_expectedRewards = None, od_earnedRewards = None, od_balanceDelegated = None,
       od_balanceProducer = None, od_balanceStaked = None\<rparr>
   | Some s \<Rightarrow> \<lparr>od_epochNumber = ep_epoch_number response,
       od_totalSlots = es_canonical s + es_orphaned s + es_missed s + es_future_rights s,
       od_wonSlots = es_won_slots s, od_canonical = es_canonical s, od_orphaned = es_orphaned s,
       od_missed = es_missed s, od_futureRights = es_future_rights s, od_slotStart = es_slot_start s,
       od_slotEnd = es_slot_end s, od_expectedRewards = Some (rewards_text (es_expected_rewards s)),
       od_earnedRewards = Some (rewards_text (es_earned_rewards s)),
       od_balanceDelegated = Some (rewards_text (ep_balance_delegated response)),
       od_balanceProducer = Some (rewards_text (ep_balance_producer response)),
       od_balanceStaked = Some (rewards_text (ep_balance_staked response))\<rparr>)"

text \<open>An empty array has no first element, and reading its summary throws.\<close>

fun getEpochDetails :: "epoch_payload \<Rightarrow> OverviewEpochDetails result" where
  "getEpochDetails (OneEpoch r) = Inr (epoch_details r)"
| "getEpochDetails (ManyEpochs (r # _)) = Inr (epoch_details r)"
| "getEpochDetails (ManyEpochs []) = Inl (TypeError ''summary'')"

definition slots_url :: "int option \<Rightarrow> string" where
  "slots_url n = ''/epoch/'' @ epoch_or_latest n"

definition overview_slot :: "int \<Rightarrow> nat \<Rightarrow> SlotResponse \<Rightarrow> OverviewSlot" where
  "overview_slot activeSlotIndex i slot =
    \<lparr>os_slot = sr_slot slot, os_globalSlot = sr_global_slot slot, os_height = sr_height slot,
     os_time = sr_timestamp slot, os_status = sr_block_status slot,
     os_finished = (int i < activeSlotIndex \<and> sr_block_status slot \<noteq> BsEmpty),
     os_canonical = (sr_block_status slot = BsCanonical \<or> sr_block_status slot = CanonicalPending),
     os_orphaned = (sr_block_status slot = BsOrphaned \<or> sr_block_status slot = OrphanedPending),
     os_missed = (sr_block_status slot = Missed),
     os_futureRights = (sr_block_status slot = ToBeProduced),
     os_hash = sr_state_hash slot, os_active = (activeSlotIndex = int i)\<rparr>"

definition getOverviewSlots :: "SlotResponse list \<Rightarrow> int \<Rightarrow> OverviewSlot list" where
  "getOverviewSlots response current_global_slot =
    (let activeSlotIndex = js_findIndex (\<lambda>slot. sr_global_slot slot = current_global_slot) response
     in map (\<lambda>(i, slot). overview_slot activeSlotIndex i slot) (enumerate 0 response))"

text \<open>The page of epochs asked for; without a number the literal text \<open>undefined\<close> is in the path.\<close>

definition epochs_url :: "int option \<Rightarrow> int \<Rightarrow> string" where
  "epochs_url epochNumber limit =
    (let n = (case epochNumber of None \<Rightarrow> ''undefined'' | Some i \<Rightarrow> int_to_string (max (i + 3) 6))
     in ''/epoch/summary/'' @ n @ ''?limit='' @ int_to_string (limit + 2))"

definition overview_window :: "EpochSummary \<Rightarrow> OverviewWindow" where
  "overview_window w = \<lparr>ow_start = es_slot_start w, ow_end = es_slot_end w, ow_canonical = es_canonical w,
     ow_missed = es_missed w, ow_orphaned = es_orphaned w, ow_futureRights = es_future_rights w,
     ow_interval = (es_slot_start w, es_slot_end w)\<rparr>"

definition overview_epoch :: "EpochPaginationResponse \<Rightarrow> OverviewEpoch" where
  "overview_epoch epoch = \<lparr>oe_epochNumber = ep_epoch_number epoch,
     oe_windows = map overview_window (ep_sub_windows epoch),
     oe_finishedWindows = js_findIndex es_is_current (ep_sub_windows epoch) + 1,
     oe_isLastEpoch = list_ex (\<lambda>w. es_future_rights w > 0) (ep_sub_windows epoch)\<rparr>"

definition getEpochs :: "EpochPaginationResponse list \<Rightarrow> OverviewEpoch list" where
  "getEpochs response = map overview_epoch (rev response)"

definition getRewardsAllTimeStats :: "AllStatsResponse \<Rightarrow> OverviewAllStats" where
  "getRewardsAllTimeStats response =
    \<lparr>oa_wonSlots = as_won_slots response,
     oa_totalSlots = as_canonical response + as_orphaned response + as_missed response + as_future_rights response,
     oa_canonical = as_canonical response, oa_orphaned = as_orphaned response, oa_missed = as_missed response,
     oa_futureRights = as_future_rights response,
     oa_expectedRewards = rewards_text (as_expected_rewards response),
     oa_earnedRewards = rewards_text (as_earned_rewards response)\<rparr>"

section \<open>The slice\<close>

datatype overview_scale = Linear | Adaptive

record OverviewState =
  ovs_epochs :: "OverviewEpoch list"
  ovs_activeEpoch :: "ActiveEpoch option"
  ovs_activeEpochNumber :: "int option"
  ovs_allTimeStats :: "OverviewAllStats option"
  ovs_filters :: OverviewFilters
  ovs_activeSlot :: "OverviewSlot option"
  ovs_activeSlotRoute :: "int option"
  ovs_scale :: overview_scale
  ovs_isLoading :: bool
  ovs_isCalculatingVRF :: bool

datatype OverviewAction =
    OvInit
  | OvClose
  | OvGetEpochs "int option"
  | OvGetEpochsSuccess "OverviewEpoch list"
  | OvGetSlots "int option"
  | OvGetSlotsSuccess "OverviewSlot list"
  | OvGetEpochDetails "int option"
  | OvGetEpochDetailsSuccess "OverviewEpochDetails option"
  | OvGetRewardsStats
  | OvGetRewardsStatsSuccess "OverviewAllStats option"
  | OvChangeFilters OverviewFilters
  | OvChangeScale overview_scale
  | OvSetActiveSlot "int option"

definition SLOTS_PER_EPOCH :: nat where
  "SLOTS_PER_EPOCH = 7140"

definition initial_overview :: OverviewState where
  "initial_overview =
    \<lparr>ovs_epochs = [], ovs_activeEpoch = None, ovs_activeEpochNumber = None, ovs_allTimeStats = None,
     ovs_filters = \<lparr>of_canonical = True, of_orphaned = True, of_missed = True, of_future = True\<rparr>,
     ovs_activeSlot = None, ovs_activeSlotRoute = None, ovs_scale = Adaptive, ovs_isLoading = True,
     ovs_isCalculatingVRF = False\<rparr>"

definition no_epoch :: ActiveEpoch where
  "no_epoch = \<lparr>ae_epoch = None, ae_details = None, ae_slots = None\<rparr>"

text \<open>The object a spread of the active epoch starts from.\<close>

definition spread_epoch :: "OverviewState \<Rightarrow> ActiveEpoch" where
  "spread_epoch state = (case ovs_activeEpoch state of None \<Rightarrow> no_epoch | Some e \<Rightarrow> e)"

definition find_slot :: "int option \<Rightarrow> OverviewSlot list \<Rightarrow> OverviewSlot option" where
  "find_slot n slots = List.find (\<lambda>s. Some (os_slot s) = n) slots"

fun blockProductionOverviewReducer :: "OverviewState \<Rightarrow> OverviewAction \<Rightarrow> OverviewState result" where
  "blockProductionOverviewReducer state (OvGetEpochsSuccess epochs) = Inr (state\<lparr>
     ovs_epochs := epochs,
     ovs_activeEpoch := Some (case List.find (\<lambda>e. Some (oe_epochNumber e) = ovs_activeEpochNumber state) epochs of
        None \<Rightarrow> spread_epoch state
      | Some e \<Rightarrow> (spread_epoch state)\<lparr>ae_epoch := Some e\<rparr>)\<rparr>)"
| "blockProductionOverviewReducer state (OvGetEpochDetails epochNumber) =
     Inr (state\<lparr>ovs_activeEpochNumber := epochNumber\<rparr>)"
| "blockProductionOverviewReducer state (OvGetEpochDetailsSuccess details) = Inr (state\<lparr>
     ovs_activeEpoch := Some ((spread_epoch state)\<lparr>ae_details := details\<rparr>),
     ovs_activeEpochNumber := (if truthy_int (ovs_activeEpochNumber state) then ovs_activeEpochNumber state
       else map_option od_epochNumber details)\<rparr>)"
| "blockProductionOverviewReducer state (OvGetSlotsSuccess slots) = Inr (state\<lparr>
     ovs_activeEpoch := Some ((spread_epoch state)\<lparr>ae_slots := Some slots\<rparr>),
     ovs_activeSlot := find_slot (ovs_activeSlotRoute state) slots,
     ovs_isLoading := False,
     ovs_isCalculatingVRF := (length slots \<noteq> 0 \<and> length slots \<noteq> SLOTS_PER_EPOCH)\<rparr>)"
| "blockProductionOverviewReducer state (OvChangeFilters filters) = Inr (state\<lparr>ovs_filters := filters\<rparr>)"
| "blockProductionOverviewReducer state (OvGetRewardsStatsSuccess stats) = Inr (state\<lparr>ovs_allTimeStats := stats\<rparr>)"
| "blockProductionOverviewReducer state (OvChangeScale scale) = Inr (state\<lparr>ovs_scale := scale\<rparr>)"
| "blockProductionOverviewReducer state (OvSetActiveSlot slot) = (case ovs_activeEpoch state of
     None \<Rightarrow> Inr (state\<lparr>ovs_activeSlotRoute := slot, ovs_activeSlot := None\<rparr>)
   | Some e \<Rightarrow> (case ae_slots e of
       None \<Rightarrow> Inl (TypeError ''find'')
     | Some slots \<Rightarrow> Inr (state\<lparr>ovs_activeSlotRoute := slot, ovs_activeSlot := find_slot slot slots\<rparr>)))"
| "blockProductionOverviewReducer state OvClose = Inr initial_overview"
| "blockProductionOverviewReducer state _ = Inr state"

section \<open>The page: slice and effects\<close>

text \<open>
  Each effect waits for at most one request, the last one its \<open>switchMap\<close> started. The details
  remember the number asked for and the slot of the route at that moment; the slots are asked for the
  epoch number of the state.
\<close>

record overview_page =
  op_state :: OverviewState
  op_details :: "(int option \<times> int option) option"
  op_epochs :: "int option option"
  op_slots :: "int option option"
  op_stats :: bool
  op_route :: "string list"

definition initial_page :: overview_page where
  "initial_page = \<lparr>op_state = initial_overview, op_details = None, op_epochs = None, op_slots = None,
     op_stats = False, op_route = []\<rparr>"

fun overview_requests :: "overview_page \<Rightarrow> OverviewAction \<Rightarrow> overview_page" where
  "overview_requests p (OvGetEpochDetails n) = p\<lparr>op_details := Some (n, ovs_activeSlotRoute (op_state p))\<rparr>"
| "overview_requests p (OvGetEpochs n) = p\<lparr>op_epochs := Some n\<rparr>"
| "overview_requests p (OvGetSlots _) = p\<lparr>op_slots := Some (ovs_activeEpochNumber (op_state p))\<rparr>"
| "overview_requests p OvGetRewardsStats = p\<lparr>op_stats := True\<rparr>"
| "overview_requests p OvClose = p\<lparr>op_details := None, op_epochs := None, op_slots := None, op_stats := False\<rparr>"
| "overview_requests p _ = p"

definition overview_dispatch :: "overview_page \<Rightarrow> OverviewAction \<Rightarrow> overview_page result" where
  "overview_dispatch p a = js_bind (blockProductionOverviewReducer (op_state p) a)
     (\<lambda>s. Inr (overview_requests (p\<lparr>op_state := s\<rparr>) a))"

definition overview_route :: "int \<Rightarrow> int option \<Rightarrow> string list" where
  "overview_route epochNumber slot = [''block-production'', ''overview'', int_to_string epochNumber]
     @ (case slot of Some i \<Rightarrow> if i \<noteq> 0 then [int_to_string i] else [] | None \<Rightarrow> [])"

datatype overview_event =
    OvAct OverviewAction
  | DetailsReply epoch_payload | DetailsFail
  | EpochsReply "EpochPaginationResponse list" | EpochsFail
  | SlotsReply "SlotResponse list" int | SlotsFail
  | StatsReply AllStatsResponse | StatsFail

fun overview_step :: "overview_page \<Rightarrow> overview_event \<Rightarrow> overview_page result" where
  "overview_step p (OvAct a) = overview_dispatch p a"
| "overview_step p (DetailsReply payload) = (case op_details p of
     None \<Rightarrow> Inr p
   | Some (_, slotRoute) \<Rightarrow> (case getEpochDetails payload of
       Inl _ \<Rightarrow> overview_dispatch (p\<lparr>op_details := None\<rparr>) (OvGetEpochDetailsSuccess None)
     | Inr d \<Rightarrow> run_reducer overview_dispatch
         (p\<lparr>op_details := None, op_route := overview_route (od_epochNumber d) slotRoute\<rparr>)
         [OvGetEpochDetailsSuccess (Some d), OvGetEpochs (Some (od_epochNumber d)),
          OvGetSlots (Some (od_epochNumber d))]))"
| "overview_step p DetailsFail = (if op_details p = None then Inr p
     else overview_dispatch (p\<lparr>op_details := None\<rparr>) (OvGetEpochDetailsSuccess None))"
| "overview_step p (EpochsReply response) = (if op_epochs p = None then Inr p
     else overview_dispatch (p\<lparr>op_epochs := None\<rparr>) (OvGetEpochsSuccess (getEpochs response)))"
| "overview_step p EpochsFail = (if op_epochs p = None then Inr p
     else overview_dispatch (p\<lparr>op_epochs := None\<rparr>) (OvGetEpochsSuccess []))"
| "overview_step p (SlotsReply response current) = (if op_slots p = None then Inr p
     else overview_dispatch (p\<lparr>op_slots := None\<rparr>) (OvGetSlotsSuccess (getOverviewSlots response current)))"
| "overview_step p SlotsFail = (if op_slots p = None then Inr p
     else overview_dispatch (p\<lparr>op_slots := None\<rparr>) (OvGetSlotsSuccess []))"
| "overview_step p (StatsReply response) = (if \<not> op_stats p then Inr p
     else overview_dispatch (p\<lparr>op_stats := False\<rparr>)
       (OvGetRewardsStatsSuccess (Some (getRewardsAllTimeStats response))))"
| "overview_step p StatsFail = (if \<not> op_stats p then Inr p
     else overview_dispatch (p\<lparr>op_stats := False\<rparr>) (OvGetRewardsStatsSuccess None))"

section \<open>The components\<close>

text \<open>The rectangles of the slots: rows of as many as fit into the width.\<close>

abbreviation (input) slotWidth :: int where "slotWidth \<equiv> 8"
abbreviation (input) slotHeight :: int where "slotHeight \<equiv> 8"
abbreviation (input) slotMargin :: int where "slotMargin \<equiv> 1"

definition slotsPerRow :: "int \<Rightarrow> int" where
  "slotsPerRow width = width div (slotWidth + slotMargin)"

definition setX :: "int \<Rightarrow> int \<Rightarrow> int" where
  "setX perRow i = (i mod perRow) * (slotWidth + slotMargin)"

definition setY :: "int \<Rightarrow> int \<Rightarrow> int" where
  "setY perRow i = (i div perRow) * (slotHeight + slotMargin)"

definition getSlotColor :: "OverviewSlot \<Rightarrow> OverviewFilters option \<Rightarrow> string" where
  "getSlotColor d filters =
    (let on = (\<lambda>f. case filters of None \<Rightarrow> False | Some x \<Rightarrow> f x);
         color = (if os_finished d then ''selected-tertiary'' else ''base-container'');
         color = (if os_canonical d then ''success-'' @ (if on of_canonical then ''primary'' else ''tertiary'')
           else if os_orphaned d then ''special-selected-alt-1-'' @ (if on of_orphaned then ''primary'' else ''tertiary'')
           else if os_missed d then ''warn-'' @ (if on of_missed then ''primary'' else ''tertiary'')
           else if os_futureRights d then ''base-'' @ (if on of_future then ''secondary'' else ''divider'')
           else if \<not> os_finished d then ''base-container'' else color);
         color = (if os_active d then ''selected-primary'' else color)
     in ''var(--'' @ color @ '')'')"

definition getSlotText :: "OverviewSlot \<Rightarrow> string" where
  "getSlotText d =
    (let text = (if os_finished d then ''Block by another producer'' else []);
         text = (if os_canonical d then ''Canonical Block Produced''
           else if os_orphaned d then ''Orphaned Block Produced''
           else if os_missed d then ''Missed Block''
           else if os_futureRights d then ''Right to produce a block''
           else if \<not> os_finished d then ''Empty Slot'' else text)
     in if os_active d then ''Currently producing'' else text)"

text \<open>The toolbar's totals; an epoch without slots is filtered out before they are computed.\<close>

record toolbar_totals =
  tt_canonical :: nat
  tt_orphaned :: nat
  tt_missed :: nat
  tt_future :: nat

definition toolbar_epoch :: "ActiveEpoch option \<Rightarrow> toolbar_totals \<Rightarrow> toolbar_totals" where
  "toolbar_epoch epoch previous = (case epoch of None \<Rightarrow> previous
     | Some e \<Rightarrow> (case ae_slots e of None \<Rightarrow> previous
       | Some slots \<Rightarrow> \<lparr>tt_canonical = length (filter os_canonical slots),
           tt_orphaned = length (filter os_orphaned slots), tt_missed = length (filter os_missed slots),
           tt_future = length (filter os_futureRights slots)\<rparr>))"

datatype overview_filter = FCanonical | FOrphaned | FMissed | FFuture

fun overview_changeFilter :: "OverviewFilters \<Rightarrow> overview_filter \<Rightarrow> bool \<Rightarrow> OverviewAction" where
  "overview_changeFilter f FCanonical v = OvChangeFilters (f\<lparr>of_canonical := v\<rparr>)"
| "overview_changeFilter f FOrphaned v = OvChangeFilters (f\<lparr>of_orphaned := v\<rparr>)"
| "overview_changeFilter f FMissed v = OvChangeFilters (f\<lparr>of_missed := v\<rparr>)"
| "overview_changeFilter f FFuture v = OvChangeFilters (f\<lparr>of_future := v\<rparr>)"

text \<open>The side panel; \<open>None\<close> when its filter drops the epoch.\<close>

record side_panel =
  sp_balanceProducer :: "string option"
  sp_balanceDelegated :: "string option"
  sp_balanceStaked :: "string option"
  sp_epochStarted :: string
  sp_epochEnds :: string
  sp_slotsUsed :: string

definition slot_date :: "(int \<Rightarrow> string \<Rightarrow> string) \<Rightarrow> OverviewSlot list \<Rightarrow> int \<Rightarrow> string" where
  "slot_date rd slots n = (case List.find (\<lambda>s. os_globalSlot s = n) slots of
     None \<Rightarrow> ''-'' | Some s \<Rightarrow> rd (os_time s * 1000) noMillisFormat)"

definition slots_used :: "OverviewEpochDetails \<Rightarrow> string" where
  "slots_used d = (let n = od_canonical d + od_orphaned d + od_missed d in
     if od_totalSlots d = 0 then (if n = 0 then ''NaN%'' else if n < 0 then ''-Infinity%'' else ''Infinity%'')
     else int_to_string \<lfloor>of_int n / of_int (od_totalSlots d) * 100 + (1 / 2 :: rat)\<rfloor> @ ''%'')"

definition side_panel_epoch :: "(int \<Rightarrow> string \<Rightarrow> string) \<Rightarrow> ActiveEpoch option \<Rightarrow> side_panel option" where
  "side_panel_epoch rd epoch = (case epoch of None \<Rightarrow> None
     | Some e \<Rightarrow> (case (ae_slots e, ae_details e) of
         (Some (s # slots), Some d) \<Rightarrow> Some
           \<lparr>sp_balanceProducer = od_balanceProducer d, sp_balanceDelegated = od_balanceDelegated d,
            sp_balanceStaked = od_balanceStaked d,
            sp_epochStarted = slot_date rd (s # slots) (od_slotStart d),
            sp_epochEnds = slot_date rd (s # slots) (od_slotEnd d), sp_slotsUsed = slots_used d\<rparr>
       | _ \<Rightarrow> None))"

text \<open>What the component of the page dispatches when the route or the node changes.\<close>

definition overview_route_actions :: "int option \<Rightarrow> int option \<Rightarrow> OverviewAction list" where
  "overview_route_actions epoch slot = [OvSetActiveSlot slot, OvGetEpochDetails epoch]"

definition overview_node_change :: "int option \<Rightarrow> int option \<Rightarrow> OverviewAction list" where
  "overview_node_change epoch slot = OvGetRewardsStats # overview_route_actions epoch slot"

text \<open>The scale of the graphs: the largest count of any window.\<close>

definition graph_max :: "OverviewEpoch list \<Rightarrow> int option" where
  "graph_max epochs = (let counts = concat (map (\<lambda>e. concat (map (\<lambda>w.
       [ow_canonical w, ow_orphaned w, ow_missed w, ow_futureRights w]) (oe_windows e))) epochs)
     in if counts = [] then None else Some (Max (set counts)))"

definition linear_height :: "int \<Rightarrow> rat" where
  "linear_height data = of_int data * 100 / 238"

section \<open>The page shows one epoch\<close>

text \<open>
  The node as the page sees it at one moment: an answer or a failure for each request. The laws are
  that the summary of an epoch carries its number and that the slots of an epoch lie in it.
\<close>

record overview_server =
  sv_details :: "int option \<Rightarrow> epoch_payload option"
  sv_epochs :: "int option \<Rightarrow> EpochPaginationResponse list option"
  sv_slots :: "int option \<Rightarrow> (SlotResponse list \<times> int) option"
  sv_stats :: "AllStatsResponse option"

definition slot_in_epoch :: "int \<Rightarrow> int \<Rightarrow> bool" where
  "slot_in_epoch n global_slot \<longleftrightarrow> global_slot div int SLOTS_PER_EPOCH = n"

definition overview_server_ok :: "overview_server \<Rightarrow> bool" where
  "overview_server_ok srv \<longleftrightarrow>
    (\<forall>n payload d. sv_details srv (Some n) = Some payload \<longrightarrow> getEpochDetails payload = Inr d \<longrightarrow> od_epochNumber d = n)
    \<and> (\<forall>n response current. sv_slots srv (Some n) = Some (response, current) \<longrightarrow>
        list_all (\<lambda>s. slot_in_epoch n (sr_global_slot s)) response)"

datatype served_event = Does OverviewAction | AnswersDetails overview_server | AnswersEpochs overview_server
  | AnswersSlots overview_server | AnswersStats overview_server

fun served_answer :: "overview_page \<Rightarrow> served_event \<Rightarrow> overview_event" where
  "served_answer p (Does a) = OvAct a"
| "served_answer p (AnswersDetails srv) = (case op_details p of None \<Rightarrow> DetailsFail
     | Some (n, _) \<Rightarrow> (case sv_details srv n of None \<Rightarrow> DetailsFail | Some payload \<Rightarrow> DetailsReply payload))"
| "served_answer p (AnswersEpochs srv) = (case op_epochs p of None \<Rightarrow> EpochsFail
     | Some n \<Rightarrow> (case sv_epochs srv n of None \<Rightarrow> EpochsFail | Some response \<Rightarrow> EpochsReply response))"
| "served_answer p (AnswersSlots srv) = (case op_slots p of None \<Rightarrow> SlotsFail
     | Some n \<Rightarrow> (case sv_slots srv n of None \<Rightarrow> SlotsFail | Some (response, c) \<Rightarrow> SlotsReply response c))"
| "served_answer p (AnswersStats srv) = (case sv_stats srv of None \<Rightarrow> StatsFail | Some r \<Rightarrow> StatsReply r)"

definition served_step :: "overview_page \<Rightarrow> served_event \<Rightarrow> overview_page result" where
  "served_step p e = overview_step p (served_answer p e)"

text \<open>The actions that components dispatch; the others come from the effects.\<close>

fun component_action :: "OverviewAction \<Rightarrow> bool" where
  "component_action (OvGetEpochDetails _) = True"
| "component_action (OvSetActiveSlot _) = True"
| "component_action (OvChangeFilters _) = True"
| "component_action (OvChangeScale _) = True"
| "component_action OvGetRewardsStats = True"
| "component_action OvClose = True"
| "component_action _ = False"

fun served_ok :: "served_event \<Rightarrow> bool" where
  "served_ok (Does a) = component_action a"
| "served_ok (AnswersDetails srv) = overview_server_ok srv"
| "served_ok (AnswersEpochs srv) = overview_server_ok srv"
| "served_ok (AnswersSlots srv) = overview_server_ok srv"
| "served_ok (AnswersStats srv) = overview_server_ok srv"

definition shown_consistent :: "overview_page \<Rightarrow> ActiveEpoch \<Rightarrow> OverviewEpochDetails \<Rightarrow> bool" where
  "shown_consistent p e d \<longleftrightarrow> ovs_activeEpochNumber (op_state p) = Some (od_epochNumber d)
    \<and> (op_slots p = Some (Some (od_epochNumber d)) \<or> op_slots p = None \<and> (\<exists>slots. ae_slots e = Some slots
        \<and> list_all (\<lambda>s. slot_in_epoch (od_epochNumber d) (os_globalSlot s)) slots))"

definition overview_page_inv :: "overview_page \<Rightarrow> bool" where
  "overview_page_inv p \<longleftrightarrow> (case op_details p of
     Some (n, _) \<Rightarrow> n = ovs_activeEpochNumber (op_state p)
   | None \<Rightarrow> (\<forall>e d. ovs_activeEpoch (op_state p) = Some e \<longrightarrow> ae_details e = Some d \<longrightarrow> shown_consistent p e d))"

lemma list_all_getOverviewSlots:
  "list_all (\<lambda>s. P (os_globalSlot s)) (getOverviewSlots response c) = list_all (\<lambda>s. P (sr_global_slot s)) response"
  by (simp add: getOverviewSlots_def overview_slot_def list_all_length nth_enumerate_eq)

lemmas dispatch_simps = overview_dispatch_def spread_epoch_def no_epoch_def

lemma inv_component_action:
  assumes "overview_page_inv p" "component_action a" "overview_dispatch p a = Inr p'"
  shows "overview_page_inv p'"
  using assms by (cases a)
    (auto simp: overview_page_inv_def shown_consistent_def dispatch_simps initial_overview_def js_bind_Inr_iff
      split: option.splits)

lemma inv_details_failed:
  assumes "overview_dispatch (p\<lparr>op_details := None\<rparr>) (OvGetEpochDetailsSuccess None) = Inr p'"
  shows "overview_page_inv p'"
  using assms by (auto simp: overview_page_inv_def dispatch_simps split: option.splits)

lemma inv_details_reply:
  assumes "overview_page_inv p" "op_details p = Some (n, r)" "n = None \<or> n = Some (od_epochNumber d)"
    "run_reducer overview_dispatch (p\<lparr>op_details := None, op_route := route\<rparr>)
      [OvGetEpochDetailsSuccess (Some d), OvGetEpochs m, OvGetSlots k] = Inr p'"
  shows "overview_page_inv p'"
  using assms by (auto simp: overview_page_inv_def shown_consistent_def dispatch_simps split: option.splits if_splits)

lemma inv_epochs:
  assumes "overview_page_inv p" "overview_dispatch (p\<lparr>op_epochs := None\<rparr>) (OvGetEpochsSuccess es) = Inr p'"
  shows "overview_page_inv p'"
  using assms by (auto simp: overview_page_inv_def shown_consistent_def dispatch_simps split: option.splits)

lemma inv_slots:
  assumes "overview_page_inv p" "op_slots p = Some n"
    "\<forall>m. n = Some m \<longrightarrow> list_all (\<lambda>s. slot_in_epoch m (os_globalSlot s)) slots"
    "overview_dispatch (p\<lparr>op_slots := None\<rparr>) (OvGetSlotsSuccess slots) = Inr p'"
  shows "overview_page_inv p'"
  using assms by (auto simp: overview_page_inv_def shown_consistent_def dispatch_simps split: option.splits)

lemma inv_stats:
  assumes "overview_page_inv p" "overview_dispatch (p\<lparr>op_stats := False\<rparr>) (OvGetRewardsStatsSuccess st) = Inr p'"
  shows "overview_page_inv p'"
  using assms by (auto simp: overview_page_inv_def shown_consistent_def dispatch_simps split: option.splits)

lemma initial_page_inv: "overview_page_inv initial_page"
  by (simp add: overview_page_inv_def initial_page_def initial_overview_def)

lemma served_step_inv:
  assumes inv: "overview_page_inv p" and ok: "served_ok e" and step: "served_step p e = Inr p'"
  shows "overview_page_inv p'"
proof (cases e)
  case (Does a)
  then show ?thesis using inv_component_action [OF inv] ok step by (simp add: served_step_def)
next
  case (AnswersDetails srv)
  show ?thesis
  proof (cases "op_details p")
    case None
    then show ?thesis using AnswersDetails step inv by (simp add: served_step_def)
  next
    case (Some q)
    obtain n r where q: "op_details p = Some (n, r)" using Some by (cases q) auto
    have law: "\<And>payload d. sv_details srv n = Some payload \<Longrightarrow> getEpochDetails payload = Inr d \<Longrightarrow>
        n = None \<or> n = Some (od_epochNumber d)"
      using ok AnswersDetails by (cases n) (auto simp: overview_server_ok_def)
    show ?thesis
      using AnswersDetails step q inv_details_failed [of p p'] inv_details_reply [OF inv q law]
      by (auto simp: served_step_def simp del: run_reducer.simps split: option.splits sum.splits)
  qed
next
  case (AnswersEpochs srv)
  then show ?thesis using step inv inv_epochs [OF inv] by (auto simp: served_step_def split: option.splits if_splits)
next
  case (AnswersSlots srv)
  show ?thesis
  proof (cases "op_slots p")
    case None
    then show ?thesis using AnswersSlots step inv by (simp add: served_step_def)
  next
    case (Some n)
    have law: "\<And>response c. sv_slots srv n = Some (response, c) \<Longrightarrow>
        \<forall>m. n = Some m \<longrightarrow> list_all (\<lambda>s. slot_in_epoch m (os_globalSlot s)) (getOverviewSlots response c)"
      using ok AnswersSlots by (auto simp: overview_server_ok_def list_all_getOverviewSlots)
    show ?thesis
      using AnswersSlots step Some inv_slots [OF inv Some, of "[]" p'] inv_slots [OF inv Some law]
      by (auto simp: served_step_def split: option.splits prod.splits)
  qed
next
  case (AnswersStats srv)
  then show ?thesis using step inv inv_stats [OF inv] by (auto simp: served_step_def split: option.splits if_splits)
qed

interpretation overview: partial_slice initial_page served_step overview_page_inv served_ok
  by unfold_locales (use initial_page_inv served_step_inv in auto)

text \<open>
  C26: After any actions and any answers and failures of a node whose answers are about the epoch asked
  for (its details have that epoch's number, its slots lie in that epoch), and as long as nothing
  throws, once the requests for the details and the slots have ended, the slots on the page are slots
  of the epoch whose details are on the page, and that epoch is the active one; the requests of an epoch
  left meanwhile leave nothing behind.
\<close>

theorem overview_shows_one_epoch:
  assumes "list_all served_ok es" "run_reducer served_step initial_page es = Inr p"
    "op_details p = None" "op_slots p = None"
    "ovs_activeEpoch (op_state p) = Some e" "ae_details e = Some d"
  shows "ovs_activeEpochNumber (op_state p) = Some (od_epochNumber d)
    \<and> (\<exists>slots. ae_slots e = Some slots
        \<and> list_all (\<lambda>s. slot_in_epoch (od_epochNumber d) (os_globalSlot s)) slots)"
  using overview.run_inv [OF assms(1, 2)] assms(3-6)
  by (auto simp: overview_page_inv_def shown_consistent_def)

definition sample_summary :: "int \<Rightarrow> EpochPaginationResponse" where
  "sample_summary n = \<lparr>ep_epoch_number = n, ep_balance_delegated = JNum 0, ep_balance_producer = JNum 0,
     ep_balance_staked = JNum 0, ep_summary = None, ep_sub_windows = []\<rparr>"

definition sample_response :: "int \<Rightarrow> BlockStatus \<Rightarrow> SlotResponse" where
  "sample_response g status = \<lparr>sr_slot = g mod 7140, sr_global_slot = g, sr_block_status = status,
     sr_timestamp = 0, sr_state_hash = None, sr_height = None\<rparr>"

definition sample_server :: overview_server where
  "sample_server = \<lparr>sv_details = (\<lambda>n. Some (OneEpoch (sample_summary (case n of None \<Rightarrow> 2 | Some i \<Rightarrow> i)))),
     sv_epochs = (\<lambda>_. None),
     sv_slots = (\<lambda>n. Some ([sample_response (7140 * (case n of None \<Rightarrow> 2 | Some i \<Rightarrow> i)) Foreign], 14280)),
     sv_stats = None\<rparr>"

lemma sample_server_ok: "overview_server_ok sample_server"
  by (auto simp: overview_server_ok_def sample_server_def sample_summary_def epoch_details_def
    sample_response_def slot_in_epoch_def SLOTS_PER_EPOCH_def)

definition sample_visit :: "served_event list" where
  "sample_visit = [Does (OvGetEpochDetails None), AnswersDetails sample_server, Does (OvGetEpochDetails (Some 1)),
     AnswersSlots sample_server, AnswersDetails sample_server, AnswersSlots sample_server]"

theorem overview_shows_one_epoch_witness:
  "\<exists>p e slots. run_reducer served_step initial_page sample_visit = Inr p
    \<and> ovs_activeEpoch (op_state p) = Some e \<and> ovs_activeEpochNumber (op_state p) = Some 1
    \<and> ae_slots e = Some slots \<and> list_all (\<lambda>s. slot_in_epoch 1 (os_globalSlot s)) slots"
proof -
  have ok: "list_all served_ok sample_visit" by (simp add: sample_visit_def sample_server_ok)
  obtain p where p: "run_reducer served_step initial_page sample_visit = Inr p"
      "op_details p = None" "op_slots p = None"
      "ovs_activeEpoch (op_state p) = Some \<lparr>ae_epoch = None, ae_details = Some (epoch_details (sample_summary 1)),
         ae_slots = Some (getOverviewSlots [sample_response 7140 Foreign] 14280)\<rparr>"
    by (simp add: sample_visit_def sample_server_def served_step_def dispatch_simps initial_page_def
      initial_overview_def epoch_details_def sample_summary_def)
  have "od_epochNumber (epoch_details (sample_summary 1)) = 1" by (simp add: epoch_details_def sample_summary_def)
  then show ?thesis using overview_shows_one_epoch [OF ok p] p by auto
qed

text \<open>
  Once the request for the details of an epoch has ended, well or badly, and until slots have
  arrived, a change of the node makes the reducer throw: the active epoch exists but has no slots.
  After a failed request no slots are asked for, so the page stays in that state.
\<close>

theorem overview_node_change_throws:
  assumes "ended = DetailsFail \<or> ended = DetailsReply payload"
  shows "run_reducer overview_step initial_page
      (map OvAct (overview_node_change epoch slot) @ [ended] @ map OvAct (overview_node_change epoch' slot'))
    = Inl (TypeError ''find'')"
  using assms by (cases "getEpochDetails payload")
    (auto simp: overview_node_change_def overview_route_actions_def dispatch_simps initial_page_def
      initial_overview_def)

theorem overview_node_change_throws_witness:
  "run_reducer overview_step initial_page
      (map OvAct (overview_node_change None None) @ [DetailsFail] @ map OvAct (overview_node_change None None))
    = Inl (TypeError ''find'')"
  using overview_node_change_throws [of DetailsFail "ManyEpochs []" None None None None] by simp

text \<open>Nothing else on the page throws.\<close>

lemma overview_reducer_throws:
  "blockProductionOverviewReducer s a = Inl err \<Longrightarrow> \<exists>slot epoch. a = OvSetActiveSlot slot
     \<and> ovs_activeEpoch s = Some epoch \<and> ae_slots epoch = None"
  by (cases a) (auto split: option.splits)

lemma overview_step_throws:
  "overview_step p e = Inl err \<Longrightarrow> \<exists>slot epoch. e = OvAct (OvSetActiveSlot slot)
     \<and> ovs_activeEpoch (op_state p) = Some epoch \<and> ae_slots epoch = None"
  by (cases e) (auto simp: overview_dispatch_def js_bind_def dest: overview_reducer_throws
    split: option.splits sum.splits if_splits)

section \<open>What a slot looks like\<close>

lemma nth_getOverviewSlots:
  "i < length response \<Longrightarrow> getOverviewSlots response c ! i
     = overview_slot (js_findIndex (\<lambda>s. sr_global_slot s = c) response) i (response ! i)"
  by (simp add: getOverviewSlots_def nth_enumerate_eq)

lemma length_getOverviewSlots [simp]: "length (getOverviewSlots response c) = length response"
  by (simp add: getOverviewSlots_def)

text \<open>At most one slot is active, and it is the first one with the current number.\<close>

lemma overview_one_active:
  assumes "i < length response" "j < length response"
    "os_active (getOverviewSlots response c ! i)" "os_active (getOverviewSlots response c ! j)"
  shows "i = j"
  using assms by (simp add: nth_getOverviewSlots overview_slot_def)

text \<open>
  The text of a slot is that of its status, except for the current slot. A block of another
  producer is recognised before the current slot only: in an epoch that does not contain the current
  slot, each of them is shown as an empty slot, and so is it after the current one.
\<close>

theorem slot_text_by_status:
  assumes "i < length response" "k = js_findIndex (\<lambda>s. sr_global_slot s = current) response"
  shows "getSlotText (getOverviewSlots response current ! i) =
    (if k = int i then ''Currently producing''
     else case sr_block_status (response ! i) of
       BsCanonical \<Rightarrow> ''Canonical Block Produced'' | CanonicalPending \<Rightarrow> ''Canonical Block Produced''
     | BsOrphaned \<Rightarrow> ''Orphaned Block Produced'' | OrphanedPending \<Rightarrow> ''Orphaned Block Produced''
     | Missed \<Rightarrow> ''Missed Block'' | ToBeProduced \<Rightarrow> ''Right to produce a block''
     | BsEmpty \<Rightarrow> ''Empty Slot''
     | Foreign \<Rightarrow> if int i < k then ''Block by another producer'' else ''Empty Slot'')"
  using assms by (cases "sr_block_status (response ! i)")
    (simp_all add: nth_getOverviewSlots overview_slot_def getSlotText_def)

theorem slot_text_by_status_witness:
  "getSlotText (getOverviewSlots [sample_response 7140 Foreign, sample_response 7141 BsCanonical] 14280 ! 0)
     = ''Empty Slot''"
  using slot_text_by_status [of 0 "[sample_response 7140 Foreign, sample_response 7141 BsCanonical]" "- 1" 14280]
  by (simp add: sample_response_def)

text \<open>The totals of the toolbar count each slot at most once.\<close>

lemma toolbar_totals_bound:
  "ae_slots e = Some (getOverviewSlots response c) \<Longrightarrow> t = toolbar_epoch (Some e) t0 \<Longrightarrow>
   tt_canonical t + tt_orphaned t + tt_missed t + tt_future t \<le> length response"
proof -
  assume e: "ae_slots e = Some (getOverviewSlots response c)" and t: "t = toolbar_epoch (Some e) t0"
  have disj: "length (filter P slots) + length (filter Q slots) + length (filter R slots) + length (filter S slots)
      \<le> length slots" if "\<And>s. s \<in> set slots \<Longrightarrow> of_bool (P s) + of_bool (Q s) + of_bool (R s) + of_bool (S s) \<le> (1 :: nat)"
    for P Q R S :: "OverviewSlot \<Rightarrow> bool" and slots
    using that by (induction slots) (auto simp: of_bool_def split: if_splits, fastforce+)
  have one: "of_bool (os_canonical s) + of_bool (os_orphaned s) + of_bool (os_missed s) + of_bool (os_futureRights s) \<le> (1 :: nat)"
    if "s \<in> set (getOverviewSlots response c)" for s
    using that by (auto simp: getOverviewSlots_def overview_slot_def of_bool_def)
  have "length (filter os_canonical (getOverviewSlots response c)) + length (filter os_orphaned (getOverviewSlots response c))
      + length (filter os_missed (getOverviewSlots response c)) + length (filter os_futureRights (getOverviewSlots response c))
      \<le> length (getOverviewSlots response c)" by (rule disj) (rule one)
  then show ?thesis using e t by (simp add: toolbar_epoch_def)
qed

text \<open>The rectangles of two slots never overlap, and each lies within the width of the graph.\<close>

lemma slots_grid:
  assumes "9 \<le> width" "0 \<le> i" "0 \<le> j" "i \<noteq> j" "n = slotsPerRow width"
  shows "0 \<le> setX n i \<and> setX n i + slotWidth < width
    \<and> (slotWidth < \<bar>setX n i - setX n j\<bar> \<or> slotHeight < \<bar>setY n i - setY n j\<bar>)"
proof -
  have n: "0 < n" "9 * n \<le> width" using assms(1, 5) by (simp_all add: slotsPerRow_def)
  have x: "0 \<le> i mod n" "i mod n < n" using n by simp_all
  have "i mod n \<noteq> j mod n \<or> i div n \<noteq> j div n" using assms(4) by (metis mult_div_mod_eq)
  moreover have "9 \<le> \<bar>a * 9 - b * 9\<bar>" if "a \<noteq> b" for a b :: int using that by arith
  ultimately have "9 \<le> \<bar>i mod n * 9 - j mod n * 9\<bar> \<or> 9 \<le> \<bar>i div n * 9 - j div n * 9\<bar>" by blast
  moreover have "i mod n * 9 + 8 < width" using x(2) n(2) by linarith
  ultimately show ?thesis using x by (auto simp: setX_def setY_def)
qed

end
