(* ===== verification/ScanState.thy ===== *)
theory ScanState
  imports AppShell
begin

text \<open>
  The scan state page (\<open>features/snarks/scan-state\<close>): the service with its cache of snarkers, the
  slice, the effect with its request in flight, the buttons of the toolbar, and the binary tree of the
  chart, which the source builds with a stack over mutable nodes.
\<close>

section \<open>Data\<close>

datatype ScanStateLeafStatus = LeafEmpty | LeafPending | LeafDone | LeafTodo

record ScanSnark =
  sk_snarker :: string
  sk_fee :: string
  sk_received_t :: "int option"
  sk_sender :: "string option"

text \<open>
  A leaf; of the commitment the code reads \<open>commitment.commitment.snarker\<close>, whose inner object can be
  missing, and of the job its kind.
\<close>

record ScanStateLeaf =
  sl_status :: ScanStateLeafStatus
  sl_job_id :: "string option"
  sl_bundle_job_id :: "string option"
  sl_kind :: "string option"
  sl_seq_no :: "int option"
  sl_commitment :: "string option option"
  sl_snark :: "ScanSnark option"
  sl_jobIndex :: "nat option"
  sl_treeIndex :: "nat option"

record ScanStateTree =
  st_leafs :: "ScanStateLeaf list"
  st_availableJobs :: nat
  st_ongoing :: nat
  st_notIncludedSnarks :: nat
  st_completedSnarks :: nat
  st_empty :: nat
  st_coinbase :: nat
  st_payment :: nat
  st_zkApp :: nat
  st_feeTransfer :: nat
  st_merge :: nat

record ScanStateWorkingSnarker =
  ss_hash :: string
  ss_name :: string
  ss_local :: bool
  ss_url :: "string option"
  ss_leafs :: "ScanStateLeaf list"
  ss_error :: "string option"

record ScanStateBlock =
  sb_hash :: "string option"
  sb_height :: "int option"
  sb_globalSlot :: "int option"
  sb_transactions :: "jsval list"
  sb_completedWorks :: "jsval list"
  sb_workingSnarkers :: "ScanStateWorkingSnarker list"
  sb_trees :: "ScanStateTree list"

record scan_response =
  sp_hash :: string
  sp_height :: int
  sp_global_slot :: int
  sp_completed_works :: "jsval list"
  sp_transactions :: "jsval list"
  sp_scan_state :: "ScanStateLeaf list list"

section \<open>The service\<close>

definition ongoing_leaf :: "ScanStateLeaf \<Rightarrow> bool" where
  "ongoing_leaf l \<longleftrightarrow> sl_commitment l \<noteq> None \<and> sl_snark l = None"

definition count_kind :: "string \<Rightarrow> ScanStateLeaf list \<Rightarrow> nat" where
  "count_kind kind tree = length (filter (\<lambda>l. sl_kind l = Some kind) tree)"

definition index_leafs :: "nat \<Rightarrow> ScanStateLeaf list \<Rightarrow> ScanStateLeaf list" where
  "index_leafs treeIndex tree =
    map (\<lambda>(jobIndex, t). t\<lparr>sl_treeIndex := Some treeIndex, sl_jobIndex := Some jobIndex\<rparr>) (enumerate 0 tree)"

definition scan_tree :: "nat \<Rightarrow> ScanStateLeaf list \<Rightarrow> ScanStateTree" where
  "scan_tree treeIndex tree =
    \<lparr>st_leafs = index_leafs treeIndex tree,
     st_availableJobs = length (filter (\<lambda>l. sl_status l = LeafTodo) tree),
     st_ongoing = length (filter ongoing_leaf tree),
     st_notIncludedSnarks = length (filter (\<lambda>l. sl_snark l \<noteq> None \<and> sl_status l = LeafPending) tree),
     st_completedSnarks = length (filter (\<lambda>l. sl_snark l \<noteq> None \<and> sl_status l = LeafDone) tree),
     st_empty = length (filter (\<lambda>l. sl_kind l = None \<or> sl_kind l = Some []) tree),
     st_coinbase = count_kind ''Coinbase'' tree, st_payment = count_kind ''Payment'' tree,
     st_zkApp = count_kind ''Zkapp'' tree, st_feeTransfer = count_kind ''FeeTransfer'' tree,
     st_merge = count_kind ''Merge'' tree\<rparr>"

definition scan_trees :: "scan_response \<Rightarrow> ScanStateTree list" where
  "scan_trees response = map (\<lambda>(treeIndex, tree). scan_tree treeIndex tree) (enumerate 0 (rev (sp_scan_state response)))"

text \<open>\<open>snarker.leafs.push(leaf)\<close> on the first snarker with the hash.\<close>

fun push_leaf :: "string \<Rightarrow> ScanStateLeaf \<Rightarrow> ScanStateWorkingSnarker list \<Rightarrow> ScanStateWorkingSnarker list" where
  "push_leaf hash leaf [] = []"
| "push_leaf hash leaf (s # ss) = (if ss_hash s = hash then s\<lparr>ss_leafs := ss_leafs s @ [leaf]\<rparr> # ss
     else s # push_leaf hash leaf ss)"

text \<open>The loop over the working leafs; it ends early at a commitment without its inner object.\<close>

fun assign_leafs :: "ScanStateWorkingSnarker list \<Rightarrow> ScanStateLeaf list
    \<Rightarrow> ScanStateWorkingSnarker list \<times> jserror option" where
  "assign_leafs snarkers [] = (snarkers, None)"
| "assign_leafs snarkers (leaf # leafs) = (case sl_commitment leaf of
     Some (Some snarker) \<Rightarrow> assign_leafs (push_leaf snarker leaf snarkers) leafs
   | _ \<Rightarrow> if snarkers = [] then assign_leafs snarkers leafs else (snarkers, Some (TypeError ''snarker'')))"

definition working_leafs :: "ScanStateTree list \<Rightarrow> ScanStateLeaf list" where
  "working_leafs trees = concat (map (\<lambda>tree. filter ongoing_leaf (st_leafs tree)) trees)"

definition reset_snarkers :: "string option \<Rightarrow> ScanStateWorkingSnarker list \<Rightarrow> ScanStateWorkingSnarker list" where
  "reset_snarkers URL snarkers = map (\<lambda>s. s\<lparr>ss_local := (ss_url s = URL), ss_leafs := []\<rparr>) snarkers"

definition mapScanState ::
  "string option \<Rightarrow> ScanStateWorkingSnarker list \<Rightarrow> scan_response option
   \<Rightarrow> ScanStateWorkingSnarker list \<times> ScanStateBlock result" where
  "mapScanState URL snarkers response = (case response of
     None \<Rightarrow> (snarkers, Inl (ErrorMsg ''Scan state not ready!''))
   | Some r \<Rightarrow> (case assign_leafs (reset_snarkers URL snarkers) (working_leafs (scan_trees r)) of
       (snarkers', Some e) \<Rightarrow> (snarkers', Inl e)
     | (snarkers', None) \<Rightarrow> (snarkers', Inr
         \<lparr>sb_hash = Some (sp_hash r), sb_height = Some (sp_height r), sb_globalSlot = Some (sp_global_slot r),
          sb_transactions = sp_transactions r, sb_completedWorks = sp_completed_works r,
          sb_workingSnarkers = snarkers', sb_trees = scan_trees r\<rparr>)))"

text \<open>
  The answers to the requests of \<open>getScanState\<close>: a summary (possibly \<open>null\<close>) or an error with its
  body; for each configured node its snarker's key, nothing, or an error.
\<close>

datatype summary_answer = SummaryOk "scan_response option" | SummaryError "string option"
datatype config_answer = ConfigKey string | ConfigNone | ConfigError string "int option"

fun node_snarker :: "string option \<Rightarrow> MinaNode \<Rightarrow> config_answer \<Rightarrow> ScanStateWorkingSnarker option" where
  "node_snarker URL node ConfigNone = None"
| "node_snarker URL node (ConfigKey key) = Some \<lparr>ss_hash = key, ss_name = node_name node,
     ss_local = (node_url node = URL), ss_url = node_url node, ss_leafs = [], ss_error = None\<rparr>"
| "node_snarker URL node (ConfigError message statusCode) = Some \<lparr>ss_hash = [], ss_name = node_name node,
     ss_local = (node_url node = URL), ss_url = node_url node, ss_leafs = [],
     ss_error = Some (if \<not> js_includes message ''Http failure'' \<and> (\<exists>c. statusCode = Some c \<and> c < 400)
       then ''Frontend parsing error'' else message)\<rparr>"

definition fetch_snarkers ::
  "string option \<Rightarrow> (MinaNode \<Rightarrow> config_answer) \<Rightarrow> MinaNode list \<Rightarrow> ScanStateWorkingSnarker list" where
  "fetch_snarkers URL answer configs = List.map_filter (\<lambda>node. node_snarker URL node (answer node)) configs"

text \<open>How the observable of \<open>getScanState\<close> ends: with a block, with an error, or without a value.\<close>

datatype scan_outcome = ScanBlock ScanStateBlock | ScanError jserror | ScanNothing

definition not_found_block :: ScanStateBlock where
  "not_found_block = \<lparr>sb_hash = Some [], sb_height = Some 0, sb_globalSlot = Some 0, sb_transactions = [],
     sb_completedWorks = [], sb_workingSnarkers = [], sb_trees = []\<rparr>"

definition scan_url :: "string \<Rightarrow> string js \<Rightarrow> string" where
  "scan_url URL heightOrHash = URL @ ''/scan-state/summary/'' @ (case heightOrHash of Val h \<Rightarrow> h | _ \<Rightarrow> [])"

text \<open>The final \<open>catchError\<close>: an error that is not an answer of the server has no body.\<close>

definition scan_catch :: "string option \<Rightarrow> scan_outcome" where
  "scan_catch body = (if body = Some ''target block not found'' then ScanBlock not_found_block
     else ScanError (ErrorMsg (case body of None \<Rightarrow> [] | Some m \<Rightarrow> m)))"

definition getScanState ::
  "string option \<Rightarrow> MinaNode list \<Rightarrow> (MinaNode \<Rightarrow> config_answer) \<Rightarrow> ScanStateWorkingSnarker list option
   \<Rightarrow> summary_answer \<Rightarrow> ScanStateWorkingSnarker list option \<times> scan_outcome" where
  "getScanState URL configs answer cache summary = (case summary of
     SummaryError body \<Rightarrow> (cache, scan_catch body)
   | SummaryOk response \<Rightarrow>
       if cache = None \<and> configs = [] then (cache, ScanNothing)
       else let snarkers = (case cache of Some s \<Rightarrow> s | None \<Rightarrow> fetch_snarkers URL answer configs)
         in (case mapScanState URL snarkers response of
               (snarkers', Inr block) \<Rightarrow> (Some snarkers', ScanBlock block)
             | (snarkers', Inl _) \<Rightarrow> (Some snarkers', scan_catch None)))"

section \<open>The slice\<close>

text \<open>
  The active leaf: the leaf and the frontend's flag for scrolling. When no leaf of a new block has the
  active job, the source spreads \<open>undefined\<close> and keeps an object with the flag only.
\<close>

record ActiveLeaf =
  al_leaf :: "ScanStateLeaf option"
  al_scrolling :: "bool option"

record ScanStateState =
  sc_block :: "ScanStateBlock option"
  sc_activeJobId :: "string option"
  sc_activeLeaf :: "ActiveLeaf option"
  sc_openSidePanel :: bool
  sc_sideBarResized :: int
  sc_stream :: bool
  sc_treeView :: bool
  sc_highlightSnarkPool :: bool

datatype ScanStateActions =
    SCAN_STATE_INIT
  | SCAN_STATE_INIT_SUCCESS
  | SCAN_STATE_CLOSE
  | SCAN_STATE_GET_BLOCK "string js"
  | SCAN_STATE_GET_BLOCK_SUCCESS ScanStateBlock
  | SCAN_STATE_SET_ACTIVE_JOB_ID "string option"
  | SCAN_STATE_SET_ACTIVE_LEAF "ActiveLeaf option"
  | SCAN_STATE_TOGGLE_SIDE_PANEL
  | SCAN_STATE_SIDEBAR_RESIZED
  | SCAN_STATE_START
  | SCAN_STATE_PAUSE
  | SCAN_STATE_TOGGLE_TREE_VIEW
  | SCAN_STATE_HIGHLIGHT_SNARK_POOL

definition initial_scan_state :: "bool \<Rightarrow> bool \<Rightarrow> ScanStateState" where
  "initial_scan_state isDesktop storedTreeView =
    \<lparr>sc_block = None, sc_activeJobId = None, sc_activeLeaf = None, sc_openSidePanel = isDesktop,
     sc_sideBarResized = 0, sc_stream = True, sc_treeView = storedTreeView, sc_highlightSnarkPool = True\<rparr>"

definition truthy_string :: "string option \<Rightarrow> bool" where
  "truthy_string s \<longleftrightarrow> s \<noteq> None \<and> s \<noteq> Some []"

definition job_leafs :: "string option \<Rightarrow> ScanStateTree list \<Rightarrow> ScanStateLeaf list" where
  "job_leafs jobId trees = foldl (\<lambda>acc t. acc @ filter (\<lambda>l. sl_bundle_job_id l = jobId) (st_leafs t)) [] trees"

fun scanStateReducer :: "bool \<Rightarrow> bool \<Rightarrow> ScanStateState \<Rightarrow> ScanStateActions \<Rightarrow> ScanStateState" where
  "scanStateReducer d tv state (SCAN_STATE_GET_BLOCK_SUCCESS block) = state\<lparr>
     sc_block := Some block,
     sc_activeLeaf := (if truthy_string (sc_activeJobId state)
       then Some \<lparr>al_leaf = js_nth (job_leafs (sc_activeJobId state) (sb_trees block)) 0,
                  al_scrolling = Some (sc_activeLeaf state = None)\<rparr>
       else None)\<rparr>"
| "scanStateReducer d tv state (SCAN_STATE_SET_ACTIVE_JOB_ID jobId) =
     state\<lparr>sc_activeJobId := jobId, sc_stream := False\<rparr>"
| "scanStateReducer d tv state SCAN_STATE_TOGGLE_SIDE_PANEL =
     state\<lparr>sc_openSidePanel := \<not> sc_openSidePanel state, sc_activeJobId := None, sc_activeLeaf := None\<rparr>"
| "scanStateReducer d tv state (SCAN_STATE_SET_ACTIVE_LEAF leaf) = state\<lparr>
     sc_openSidePanel := (if leaf \<noteq> None then True else sc_openSidePanel state),
     sc_activeLeaf := leaf,
     sc_activeJobId := (case leaf of None \<Rightarrow> None
       | Some l \<Rightarrow> (case al_leaf l of None \<Rightarrow> None | Some x \<Rightarrow> sl_bundle_job_id x)),
     sc_stream := (if leaf \<noteq> None then False else sc_stream state)\<rparr>"
| "scanStateReducer d tv state SCAN_STATE_SIDEBAR_RESIZED = state\<lparr>sc_sideBarResized := sc_sideBarResized state + 1\<rparr>"
| "scanStateReducer d tv state SCAN_STATE_START = state\<lparr>sc_stream := True\<rparr>"
| "scanStateReducer d tv state SCAN_STATE_PAUSE = state\<lparr>sc_stream := False\<rparr>"
| "scanStateReducer d tv state SCAN_STATE_TOGGLE_TREE_VIEW = state\<lparr>sc_treeView := \<not> sc_treeView state\<rparr>"
| "scanStateReducer d tv state SCAN_STATE_HIGHLIGHT_SNARK_POOL =
     state\<lparr>sc_highlightSnarkPool := \<not> sc_highlightSnarkPool state\<rparr>"
| "scanStateReducer d tv state SCAN_STATE_CLOSE = initial_scan_state d tv"
| "scanStateReducer d tv state _ = state"

section \<open>The effect\<close>

text \<open>
  The height in progress of the effect class (\<open>null\<close> at first) and the request the \<open>switchMap\<close>
  waits for.
\<close>

record scan_effect_state =
  se_inProgress :: "string js"
  se_inflight :: "string js option"

datatype scan_event = ScanAct ScanStateActions bool | ScanAnswer scan_outcome
datatype scan_output = ScanDispatch ScanStateActions | ScanNavigate int | ScanAddError jserror | ScanSend "string js"

definition initial_scan_effect :: scan_effect_state where
  "initial_scan_effect = \<lparr>se_inProgress = Null, se_inflight = None\<rparr>"

definition failed_block :: ScanStateBlock where
  "failed_block = \<lparr>sb_hash = None, sb_height = None, sb_globalSlot = None, sb_transactions = [],
     sb_completedWorks = [], sb_workingSnarkers = [], sb_trees = []\<rparr>"

text \<open>
  The navigation after an answer: if the address contains neither the height nor the hash of the
  block. (The blocks the service emits have both.)
\<close>

definition scan_navigation :: "string \<Rightarrow> ScanStateBlock \<Rightarrow> scan_output list" where
  "scan_navigation address block = (case (sb_height block, sb_hash block) of
     (Some height, Some hash) \<Rightarrow> if \<not> js_includes address (int_to_string height) \<and> \<not> js_includes address hash
       then [ScanNavigate height] else []
   | _ \<Rightarrow> [])"

fun scan_effect :: "string \<Rightarrow> scan_effect_state \<Rightarrow> scan_event \<Rightarrow> scan_effect_state \<times> scan_output list" where
  "scan_effect address m (ScanAct (SCAN_STATE_GET_BLOCK h) stream) =
     (if h \<noteq> se_inProgress m
      then (\<lparr>se_inProgress = h, se_inflight = Some h\<rparr>, (if stream then [] else [ScanDispatch SCAN_STATE_INIT]) @ [ScanSend h])
      else (m, []))"
| "scan_effect address m (ScanAct SCAN_STATE_CLOSE stream) = (\<lparr>se_inProgress = Null, se_inflight = None\<rparr>, [])"
| "scan_effect address m (ScanAct _ stream) = (m, [])"
| "scan_effect address m (ScanAnswer outcome) = (if se_inflight m = None then (m, []) else
     (case outcome of
        ScanNothing \<Rightarrow> (m\<lparr>se_inflight := None\<rparr>, [])
      | ScanBlock block \<Rightarrow> (\<lparr>se_inProgress = Null, se_inflight = None\<rparr>,
          scan_navigation address block @ [ScanDispatch (SCAN_STATE_GET_BLOCK_SUCCESS block)])
      | ScanError e \<Rightarrow> (\<lparr>se_inProgress = Null, se_inflight = None\<rparr>,
          [ScanAddError e, ScanDispatch (SCAN_STATE_GET_BLOCK_SUCCESS failed_block)])))"

section \<open>The components\<close>

definition scan_getHeight :: "bool \<Rightarrow> string js \<Rightarrow> ScanStateActions list" where
  "scan_getHeight stream height = (let given = (case height of Val h \<Rightarrow> h \<noteq> [] | _ \<Rightarrow> False) in
     SCAN_STATE_GET_BLOCK height #
     (if stream \<and> given then [SCAN_STATE_PAUSE] else if \<not> stream \<and> \<not> given then [SCAN_STATE_START] else []))"

definition checkLatestHeight :: "ScanStateActions list" where
  "checkLatestHeight = [SCAN_STATE_GET_BLOCK Null, SCAN_STATE_START]"

definition toggleTreeView :: "bool \<Rightarrow> bool \<Rightarrow> ScanStateActions list" where
  "toggleTreeView current tree = (if tree = current then [] else [SCAN_STATE_TOGGLE_TREE_VIEW])"

definition scan_openSnarkerDetails :: "ScanStateLeaf \<Rightarrow> ScanStateActions" where
  "scan_openSnarkerDetails leaf = SCAN_STATE_SET_ACTIVE_LEAF (Some \<lparr>al_leaf = Some leaf, al_scrolling = Some True\<rparr>)"

record scan_side_panel =
  sd_workingSnarkersLength :: nat
  sd_hasError :: bool

definition scan_side_panel_block :: "ScanStateBlock \<Rightarrow> scan_side_panel" where
  "scan_side_panel_block block =
    (let n = length (filter (\<lambda>s. ss_leafs s \<noteq> []) (sb_workingSnarkers block))
     in \<lparr>sd_workingSnarkersLength = n, sd_hasError = (length (sb_workingSnarkers block) \<noteq> n)\<rparr>)"

text \<open>Colours and texts of a cell of the chart.\<close>

definition hasPulseEffect :: "bool \<Rightarrow> ScanStateLeaf \<Rightarrow> bool" where
  "hasPulseEffect highlight leaf \<longleftrightarrow> highlight \<and> sl_status leaf = LeafPending \<and> sl_snark leaf = None"

fun status_name :: "ScanStateLeafStatus \<Rightarrow> string" where
  "status_name LeafEmpty = ''Empty''"
| "status_name LeafPending = ''Pending''"
| "status_name LeafDone = ''Done''"
| "status_name LeafTodo = ''Todo''"

definition tooltip_status :: "ScanStateLeaf \<Rightarrow> string" where
  "tooltip_status leaf = (if sl_status leaf = LeafPending \<and> sl_commitment leaf \<noteq> None \<and> sl_snark leaf = None
     then ''Ongoing'' else status_name (sl_status leaf))"

fun getColorByStatus :: "ScanStateLeafStatus \<Rightarrow> bool \<Rightarrow> string" where
  "getColorByStatus LeafDone highlight = ''var(--special-selected-alt-2-primary)''"
| "getColorByStatus LeafTodo highlight = ''var(--base-primary)''"
| "getColorByStatus LeafPending highlight = (if highlight then ''var(--aware-primary)'' else ''var(--base-primary)'')"
| "getColorByStatus LeafEmpty highlight = ''var(--base-tertiary)''"

definition getClassByKind :: "string option \<Rightarrow> string" where
  "getClassByKind kind = (if kind = Some ''Coinbase'' then ''code-teal''
     else if kind = Some ''FeeTransfer'' then ''code-purple''
     else if kind = Some ''Zkapp'' then ''code-magenta''
     else if kind = Some ''Payment'' then ''primary'' else ''tertiary'')"

definition rectsFill :: "ScanStateLeaf option \<Rightarrow> bool \<Rightarrow> string" where
  "rectsFill leaf highlight = (case leaf of None \<Rightarrow> ''var(--base-container)''
     | Some l \<Rightarrow> (case sl_status l of
         LeafDone \<Rightarrow> ''var(--special-selected-alt-2-tertiary)''
       | LeafTodo \<Rightarrow> ''var(--base-tertiary)''
       | LeafPending \<Rightarrow> if highlight then ''var(--aware-tertiary)'' else ''var(--base-tertiary)''
       | LeafEmpty \<Rightarrow> ''var(--base-container)''))"

section \<open>The tree of the chart\<close>

text \<open>
  \<open>buildTree\<close> allocates nodes and pushes children into them while they are on its stack. A node is a
  cell of a store, its children are addresses; the top of the stack is the head of the list.
\<close>

record 'l ss_node =
  sn_leaf :: "'l option"
  sn_children :: "nat list"
  sn_size :: "nat option"

definition new_node :: "'l list \<Rightarrow> nat \<Rightarrow> 'l ss_node" where
  "new_node leafs i = \<lparr>sn_leaf = (if i < length leafs then Some (leafs ! i) else None), sn_children = [], sn_size = None\<rparr>"

function heap_weight :: "nat \<Rightarrow> nat \<Rightarrow> nat" where
  "heap_weight n i = (if i < n then Suc (heap_weight n (2 * i + 1) + heap_weight n (2 * i + 2)) else 1)"
  by pat_completeness auto
termination by (relation "measure (\<lambda>(n, i). n - i)") auto

declare heap_weight.simps [simp del]

lemma heap_weight_less:
  "(if 2 * i + 1 < n then heap_weight n (2 * i + 1) else 0) + (if 2 * i + 2 < n then heap_weight n (2 * i + 2) else 0)
   < heap_weight n i"
proof (cases "i < n")
  case True
  then show ?thesis by (simp add: heap_weight.simps [of n i])
next
  case False
  then show ?thesis by (simp add: heap_weight.simps [of n i])
qed

text \<open>One turn of the loop: the store after it and what it pushes, the right child on top.\<close>

definition visit_node :: "'l list \<Rightarrow> 'l ss_node list \<Rightarrow> nat \<Rightarrow> nat \<Rightarrow> 'l ss_node list \<times> (nat \<times> nat) list" where
  "visit_node leafs store currentNode currentIndex =
    (let leftChildIndex = 2 * currentIndex + 1;
         rightChildIndex = 2 * currentIndex + 2;
         news = filter (\<lambda>i. i < length leafs) [leftChildIndex, rightChildIndex];
         addresses = [length store..<length store + length news];
         node = (store ! currentNode)\<lparr>sn_children := sn_children (store ! currentNode) @ addresses\<rparr>;
         node' = (if leftChildIndex \<ge> length leafs \<and> rightChildIndex \<ge> length leafs then node\<lparr>sn_size := Some 1\<rparr> else node)
     in (store[currentNode := node'] @ map (new_node leafs) news, rev (zip addresses news)))"

lemma visit_pushes:
  "map snd (snd (visit_node leafs store a i)) = rev (filter (\<lambda>i. i < length leafs) [2 * i + 1, 2 * i + 2])"
  by (simp add: visit_node_def)

function build_loop :: "'l list \<Rightarrow> 'l ss_node list \<Rightarrow> (nat \<times> nat) list \<Rightarrow> 'l ss_node list" where
  "build_loop leafs store [] = store"
| "build_loop leafs store ((currentNode, currentIndex) # stack) =
    build_loop leafs (fst (visit_node leafs store currentNode currentIndex))
      (snd (visit_node leafs store currentNode currentIndex) @ stack)"
  by pat_completeness auto
termination
proof (relation "measure (\<lambda>(leafs, store, stack). sum_list (map (heap_weight (length leafs)) (map snd stack)))", goal_cases)
  case (2 leafs store a i stack)
  have "sum_list (map (heap_weight (length leafs)) (map snd (snd (visit_node leafs store a i)))) < heap_weight (length leafs) i"
    unfolding visit_pushes using heap_weight_less [of i "length leafs"] by (auto split: if_splits)
  then show ?case by simp
qed auto

definition buildTree :: "'l list \<Rightarrow> 'l ss_node list" where
  "buildTree leafs = build_loop leafs [new_node leafs 0] [(0, 0)]"

section \<open>The chart's tree is the list of leafs, level by level\<close>

datatype 'l sstree = SSTree "'l option" "'l sstree list" "nat option"

inductive tree_at :: "'l ss_node list \<Rightarrow> nat \<Rightarrow> 'l sstree \<Rightarrow> bool" where
  "a < length store \<Longrightarrow> list_all2 (tree_at store) (sn_children (store ! a)) ts \<Longrightarrow>
   tree_at store a (SSTree (sn_leaf (store ! a)) ts (sn_size (store ! a)))"

text \<open>The binary heap in the list of leafs, as a tree.\<close>

function heap_tree :: "'l list \<Rightarrow> nat \<Rightarrow> 'l sstree" where
  "heap_tree leafs i = SSTree (if i < length leafs then Some (leafs ! i) else None)
     ((if 2 * i + 1 < length leafs then [heap_tree leafs (2 * i + 1)] else [])
      @ (if 2 * i + 2 < length leafs then [heap_tree leafs (2 * i + 2)] else []))
     (if 2 * i + 1 < length leafs then None else Some 1)"
  by pat_completeness auto
termination by (relation "measure (\<lambda>(leafs, i). length leafs - i)") auto

declare heap_tree.simps [simp del]

lemma heap_tree_children:
  "heap_tree leafs i = SSTree (sn_leaf (new_node leafs i))
     (map (heap_tree leafs) (filter (\<lambda>i. i < length leafs) [2 * i + 1, 2 * i + 2]))
     (if 2 * i + 1 < length leafs then None else Some 1)"
  by (simp add: heap_tree.simps [of leafs i] new_node_def)

definition fresh_stack :: "'l list \<Rightarrow> 'l ss_node list \<Rightarrow> (nat \<times> nat) list \<Rightarrow> bool" where
  "fresh_stack leafs store stack \<longleftrightarrow> distinct (map fst stack)
    \<and> (\<forall>(a, i) \<in> set stack. a < length store \<and> store ! a = new_node leafs i)"

lemma fresh_stack_push:
  assumes "fresh_stack leafs store ((a, i) # stack)" "addresses = [length store..<length store + length news]"
  shows "fresh_stack leafs (store[a := node] @ map (new_node leafs) news) (rev (zip addresses news) @ stack)"
proof -
  have len: "length addresses = length news" using assms(2) by simp
  have old: "b < length store \<and> b \<noteq> a \<and> store ! b = new_node leafs j" if "(b, j) \<in> set stack" for b j
    using assms(1) that by (force simp: fresh_stack_def)
  have new: "\<exists>k < length news. b = length store + k \<and> j = news ! k" if "(b, j) \<in> set (zip addresses news)" for b j
    using that len assms(2) by (auto simp: in_set_zip)
  have "distinct (map fst (rev (zip addresses news) @ stack))"
  proof -
    have "map fst (zip addresses news) = addresses" using len by simp
    moreover have "set addresses \<inter> fst ` set stack = {}" using old assms(2) by force
    ultimately show ?thesis using assms(1, 2)
      by (auto simp: rev_map [symmetric] fresh_stack_def)
  qed
  moreover have "b < length store + length news
      \<and> (store[a := node] @ map (new_node leafs) news) ! b = new_node leafs j"
    if "(b, j) \<in> set (rev (zip addresses news) @ stack)" for b j
    using that old [of b j] new [of b j] by (auto simp: nth_append)
  ultimately show ?thesis by (auto simp: fresh_stack_def)
qed

text \<open>The loop keeps every cell that is not on the stack and completes those that are.\<close>

lemma build_loop_correct:
  assumes "fresh_stack leafs store stack"
  shows "length store \<le> length (build_loop leafs store stack)
    \<and> (\<forall>b < length store. b \<notin> fst ` set stack \<longrightarrow> build_loop leafs store stack ! b = store ! b)
    \<and> (\<forall>(a, i) \<in> set stack. tree_at (build_loop leafs store stack) a (heap_tree leafs i))"
  using assms
proof (induction leafs store stack rule: build_loop.induct)
  case (2 leafs store a i stack)
  define news where "news = filter (\<lambda>i. i < length leafs) [2 * i + 1, 2 * i + 2]"
  define addresses where "addresses = [length store..<length store + length news]"
  define node where "node = \<lparr>sn_leaf = sn_leaf (new_node leafs i), sn_children = addresses,
    sn_size = (if 2 * i + 1 < length leafs then None else Some (1 :: nat))\<rparr>"
  define store' where "store' = store[a := node] @ map (new_node leafs) news"
  define stack' where "stack' = rev (zip addresses news) @ stack"
  have a: "a < length store" "store ! a = new_node leafs i" "a \<notin> fst ` set stack"
    using 2(2) by (auto simp: fresh_stack_def)
  have visit: "visit_node leafs store a i = (store', rev (zip addresses news))"
    by (simp add: visit_node_def store'_def addresses_def news_def node_def a(2)) (simp add: new_node_def)
  have loop: "build_loop leafs store ((a, i) # stack) = build_loop leafs store' stack'"
    by (simp add: visit stack'_def)
  have fresh: "fresh_stack leafs store' stack'"
    unfolding store'_def stack'_def by (rule fresh_stack_push [OF 2(2) addresses_def])
  note IH' = 2(1) [unfolded visit fst_conv snd_conv, folded stack'_def, OF fresh]
  have IH: "length store' \<le> length (build_loop leafs store' stack')"
    "\<And>b. b < length store' \<Longrightarrow> b \<notin> fst ` set stack' \<Longrightarrow> build_loop leafs store' stack' ! b = store' ! b"
    "\<And>b j. (b, j) \<in> set stack' \<Longrightarrow> tree_at (build_loop leafs store' stack') b (heap_tree leafs j)"
    using IH' by blast+
  have addr: "set addresses = {length store..<length store + length news}" "length addresses = length news"
    by (simp_all add: addresses_def)
  have stack': "fst ` set stack' = set addresses \<union> fst ` set stack"
    using addr(2) by (simp add: stack'_def image_Un) (metis list.set_map map_fst_zip)
  have len: "length store' = length store + length news" by (simp add: store'_def)
  have keep: "build_loop leafs store' stack' ! b = store ! b"
    if "b < length store" "b \<noteq> a" "b \<notin> fst ` set stack" for b
    using IH(2) [of b] that len addr stack' by (simp add: store'_def nth_append)
  have node: "build_loop leafs store' stack' ! a = node"
    using IH(2) [of a] a len addr stack' by (simp add: store'_def nth_append)
  have children: "list_all2 (tree_at (build_loop leafs store' stack')) addresses (map (heap_tree leafs) news)"
    using IH(3) addr(2) by (auto simp: list_all2_conv_all_nth stack'_def in_set_zip)
  have "tree_at (build_loop leafs store' stack') a (heap_tree leafs i)"
    using tree_at.intros [of a "build_loop leafs store' stack'" "map (heap_tree leafs) news"] node children a(1) len IH(1)
    by (simp add: node_def heap_tree_children [of leafs i] news_def)
  then show ?case using keep IH(1, 3) len by (auto simp: visit stack'_def)
qed auto

text \<open>The nodes of trees in breadth-first order, the order in which the chart's cells are numbered.\<close>

primrec tree_children :: "'l sstree \<Rightarrow> 'l sstree list" where
  "tree_children (SSTree l ts z) = ts"

primrec tree_leaf :: "'l sstree \<Rightarrow> 'l option" where
  "tree_leaf (SSTree l ts z) = l"

primrec tree_count :: "'l sstree \<Rightarrow> nat" where
  "tree_count (SSTree l ts z) = Suc (sum_list (map tree_count ts))"

lemma tree_count_children: "sum_list (map tree_count (tree_children t)) < tree_count t"
  by (cases t) simp

function breadth_first :: "'l sstree list \<Rightarrow> 'l option list" where
  "breadth_first [] = []"
| "breadth_first (t # ts) = tree_leaf t # breadth_first (ts @ tree_children t)"
  by pat_completeness auto
termination by (relation "measure (\<lambda>ts. sum_list (map tree_count ts))") (simp_all add: tree_count_children)

lemma filter_pair_upt: "filter (\<lambda>j. j < n) [m, Suc m] = [min n m..<min n (Suc (Suc m))]"
proof -
  consider "n \<le> m" | "n = Suc m" | "Suc (Suc m) \<le> n" by linarith
  then show ?thesis by cases (simp_all add: min_def)
qed

lemma breadth_first_heap:
  "i \<le> length leafs \<Longrightarrow>
   breadth_first (map (heap_tree leafs) [i..<min (length leafs) (2 * i + 1)]) = map Some (drop i leafs)"
proof (induction "length leafs - i" arbitrary: i)
  case 0
  then show ?case by simp
next
  case (Suc k)
  define m where "m = min (length leafs) (2 * i + 1)"
  have i: "i < length leafs" "i < m" using Suc by (simp_all add: m_def)
  have "filter (\<lambda>j. j < length leafs) [2 * i + 1, 2 * i + 2] = [m..<min (length leafs) (2 * i + 3)]"
    using filter_pair_upt [of "length leafs" "2 * i + 1"] by (simp add: m_def eval_nat_numeral)
  then have children: "tree_children (heap_tree leafs i) = map (heap_tree leafs) [m..<min (length leafs) (2 * i + 3)]"
    by (simp only: heap_tree_children [of leafs i] tree_children.simps)
  have leaf: "tree_leaf (heap_tree leafs i) = Some (leafs ! i)" using i by (subst heap_tree.simps) simp
  have upt: "[Suc i..<m] @ [m..<min (length leafs) (2 * i + 3)] = [Suc i..<min (length leafs) (2 * Suc i + 1)]"
    using i upt_add_eq_append [of "Suc i" m "min (length leafs) (2 * i + 3) - m"]
    by (simp add: m_def eval_nat_numeral)
  have "breadth_first (map (heap_tree leafs) [i..<m])
      = Some (leafs ! i) # breadth_first (map (heap_tree leafs) ([Suc i..<m] @ [m..<min (length leafs) (2 * i + 3)]))"
    using i leaf by (simp add: upt_conv_Cons children)
  also have "\<dots> = Some (leafs ! i) # map Some (drop (Suc i) leafs)"
    unfolding upt using Suc.hyps(1) [of "Suc i"] Suc.hyps(2) i by simp
  finally show ?case using i by (simp add: m_def Cons_nth_drop_Suc [symmetric] del: Cons_nth_drop_Suc)
qed

lemma buildTree_heap: "tree_at (buildTree leafs) 0 (heap_tree leafs 0)"
proof -
  have "fresh_stack leafs [new_node leafs 0] [(0, 0)]" by (simp add: fresh_stack_def)
  from build_loop_correct [OF this] show ?thesis by (simp add: buildTree_def)
qed

lemma nth_index_leafs [simp]:
  "k < length tree \<Longrightarrow> index_leafs n tree ! k = (tree ! k)\<lparr>sl_treeIndex := Some n, sl_jobIndex := Some k\<rparr>"
  by (simp add: index_leafs_def nth_enumerate_eq)

lemma length_index_leafs [simp]: "length (index_leafs n tree) = length tree"
  by (simp add: index_leafs_def)

text \<open>
  C27: The loop that builds the tree of the chart ends, and its nodes in breadth-first order are the leafs of
  the scan state's tree in their order. So the node whose position is the job index of the active leaf
  is that leaf: the chart highlights the right cell.
\<close>

theorem buildTree_levels:
  assumes "tree \<noteq> []"
  shows "\<exists>t. tree_at (buildTree (index_leafs n tree)) 0 t
    \<and> breadth_first [t] = map Some (index_leafs n tree)
    \<and> (\<forall>k < length tree. \<exists>leaf. breadth_first [t] ! k = Some leaf \<and> sl_jobIndex leaf = Some k)"
proof -
  let ?leafs = "index_leafs n tree"
  have len: "min (length ?leafs) 1 = Suc 0" using assms by (cases tree) simp_all
  have levels: "breadth_first [heap_tree ?leafs 0] = map Some ?leafs"
    using breadth_first_heap [of 0 ?leafs] len by simp
  then have "\<forall>k < length tree. \<exists>leaf. breadth_first [heap_tree ?leafs 0] ! k = Some leaf \<and> sl_jobIndex leaf = Some k"
    by simp
  then show ?thesis using buildTree_heap [of ?leafs] levels by blast
qed

definition sample_leaf :: "string \<Rightarrow> string \<Rightarrow> ScanStateLeaf" where
  "sample_leaf job snarker = \<lparr>sl_status = LeafPending, sl_job_id = Some job, sl_bundle_job_id = Some job,
     sl_kind = Some ''Payment'', sl_seq_no = None, sl_commitment = Some (Some snarker), sl_snark = None,
     sl_jobIndex = None, sl_treeIndex = None\<rparr>"

theorem buildTree_levels_witness:
  "\<exists>t. tree_at (buildTree (index_leafs 0 [sample_leaf ''a'' ''k'', sample_leaf ''b'' ''k''])) 0 t
    \<and> breadth_first [t] = map Some (index_leafs 0 [sample_leaf ''a'' ''k'', sample_leaf ''b'' ''k''])"
  using buildTree_levels [of "[sample_leaf ''a'' ''k'', sample_leaf ''b'' ''k'']" 0] by blast

section \<open>The service\<close>

lemma length_push_leaf [simp]: "length (push_leaf h l ss) = length ss"
  by (induction ss) auto

definition first_with_hash :: "ScanStateWorkingSnarker list \<Rightarrow> nat \<Rightarrow> bool" where
  "first_with_hash ss k \<longleftrightarrow> (\<forall>j < k. ss_hash (ss ! j) \<noteq> ss_hash (ss ! k))"

lemma nth_push_leaf:
  "k < length ss \<Longrightarrow> push_leaf h l ss ! k =
    (if ss_hash (ss ! k) = h \<and> first_with_hash ss k then (ss ! k)\<lparr>ss_leafs := ss_leafs (ss ! k) @ [l]\<rparr> else ss ! k)"
proof (induction ss arbitrary: k)
  case (Cons s ss)
  show ?case
  proof (cases k)
    case 0
    then show ?thesis by (simp add: first_with_hash_def)
  next
    case (Suc m)
    then show ?thesis using Cons by (auto simp: first_with_hash_def less_Suc_eq_0_disj)
  qed
qed simp

lemma push_leaf_hash: "k < length ss \<Longrightarrow> ss_hash (push_leaf h l ss ! k) = ss_hash (ss ! k)"
  by (simp add: nth_push_leaf)

lemma push_leaf_first: "k < length ss \<Longrightarrow> first_with_hash (push_leaf h l ss) k = first_with_hash ss k"
  by (simp add: first_with_hash_def push_leaf_hash)

lemma assign_leafs_nth:
  assumes "list_all (\<lambda>l. \<exists>s. sl_commitment l = Some (Some s)) leafs" "k < length ss"
  shows "snd (assign_leafs ss leafs) = None \<and> length (fst (assign_leafs ss leafs)) = length ss
    \<and> fst (assign_leafs ss leafs) ! k = (ss ! k)\<lparr>ss_leafs := ss_leafs (ss ! k) @
        (if first_with_hash ss k then filter (\<lambda>l. sl_commitment l = Some (Some (ss_hash (ss ! k)))) leafs else [])\<rparr>"
  using assms
proof (induction leafs arbitrary: ss)
  case (Cons l leafs)
  obtain h where h: "sl_commitment l = Some (Some h)" using Cons.prems by auto
  show ?case using Cons.IH [of "push_leaf h l ss"] Cons.prems h
    by (simp add: nth_push_leaf push_leaf_first)
qed simp

text \<open>
  C32: When every ongoing job names its snarker, the scan state is read without an error, and a working
  snarker gets exactly the ongoing jobs committed to its key, in the order of the trees; of several
  nodes with the same key the first one gets them all. Nothing of an earlier answer remains.
\<close>

theorem mapScanState_snarkers:
  assumes "list_all (\<lambda>l. \<exists>s. sl_commitment l = Some (Some s)) (working_leafs (scan_trees r))"
    "mapScanState URL snarkers (Some r) = (snarkers', answer)" "k < length snarkers"
  shows "\<exists>block. answer = Inr block \<and> sb_workingSnarkers block = snarkers' \<and> length snarkers' = length snarkers
    \<and> ss_hash (snarkers' ! k) = ss_hash (snarkers ! k)
    \<and> ss_leafs (snarkers' ! k) = (if first_with_hash snarkers k
        then filter (\<lambda>l. sl_commitment l = Some (Some (ss_hash (snarkers ! k)))) (working_leafs (scan_trees r)) else [])"
proof -
  let ?ss = "reset_snarkers URL snarkers"
  have ss: "k < length ?ss" "length ?ss = length snarkers" "\<And>j. j < length snarkers \<Longrightarrow> ss_hash (?ss ! j) = ss_hash (snarkers ! j)"
    "ss_leafs (?ss ! k) = []" using assms(3) by (simp_all add: reset_snarkers_def)
  have first: "first_with_hash ?ss k = first_with_hash snarkers k"
    using ss(3) assms(3) by (simp add: first_with_hash_def)
  obtain ss' e where a: "assign_leafs ?ss (working_leafs (scan_trees r)) = (ss', e)" by force
  show ?thesis using assign_leafs_nth [OF assms(1) ss(1)] a assms(2, 3) ss first
    by (auto simp: mapScanState_def)
qed

theorem mapScanState_snarkers_witness:
  "\<exists>block. snd (mapScanState None [\<lparr>ss_hash = ''k'', ss_name = ''n'', ss_local = False, ss_url = None, ss_leafs = [], ss_error = None\<rparr>]
      (Some \<lparr>sp_hash = ''h'', sp_height = 1, sp_global_slot = 2, sp_completed_works = [], sp_transactions = [],
        sp_scan_state = [[sample_leaf ''a'' ''k'', sample_leaf ''b'' ''x'']]\<rparr>)) = Inr block
    \<and> map sl_job_id (ss_leafs (sb_workingSnarkers block ! 0)) = [Some ''a'']"
proof -
  let ?r = "\<lparr>sp_hash = ''h'', sp_height = 1, sp_global_slot = 2, sp_completed_works = [], sp_transactions = [],
    sp_scan_state = [[sample_leaf ''a'' ''k'', sample_leaf ''b'' ''x'']]\<rparr>"
  let ?s = "[\<lparr>ss_hash = ''k'', ss_name = ''n'', ss_local = False, ss_url = None, ss_leafs = [], ss_error = None\<rparr>]"
  have work: "working_leafs (scan_trees ?r) = index_leafs 0 [sample_leaf ''a'' ''k'', sample_leaf ''b'' ''x'']"
    by (simp add: working_leafs_def scan_trees_def scan_tree_def index_leafs_def ongoing_leaf_def sample_leaf_def)
  obtain ss answer where m: "mapScanState None ?s (Some ?r) = (ss, answer)" by force
  have all: "list_all (\<lambda>l. \<exists>s. sl_commitment l = Some (Some s)) (working_leafs (scan_trees ?r))"
    unfolding work by (simp add: index_leafs_def sample_leaf_def)
  show ?thesis using mapScanState_snarkers [OF all m, of 0] m unfolding work
    by (auto simp: first_with_hash_def index_leafs_def sample_leaf_def)
qed

text \<open>The kinds of jobs partition the leafs of a tree.\<close>

lemma scan_tree_kinds:
  assumes "list_all (\<lambda>l. sl_kind l \<in> {None, Some [], Some ''Coinbase'', Some ''Payment'', Some ''Zkapp'',
      Some ''FeeTransfer'', Some ''Merge''}) tree"
  shows "st_empty (scan_tree n tree) + st_coinbase (scan_tree n tree) + st_payment (scan_tree n tree)
    + st_zkApp (scan_tree n tree) + st_feeTransfer (scan_tree n tree) + st_merge (scan_tree n tree) = length tree"
  using assms by (induction tree) (auto simp: scan_tree_def count_kind_def)

text \<open>
  A read of the scan state that throws has its message replaced by an empty one, since only an answer
  of the server has a body.
\<close>

lemma getScanState_not_ready:
  "configs \<noteq> [] \<Longrightarrow> snd (getScanState URL configs answer cache (SummaryOk None)) = ScanError (ErrorMsg [])"
  by (auto simp: getScanState_def mapScanState_def scan_catch_def split: option.splits)

section \<open>The effect\<close>

definition scan_gate_inv :: "scan_effect_state \<Rightarrow> bool" where
  "scan_gate_inv m \<longleftrightarrow> se_inProgress m = (case se_inflight m of None \<Rightarrow> Null | Some h \<Rightarrow> h)"

definition answers_something :: "scan_event \<Rightarrow> bool" where
  "answers_something e \<longleftrightarrow> e \<noteq> ScanAnswer ScanNothing"

lemma scan_gate_step:
  "scan_gate_inv m \<Longrightarrow> answers_something e \<Longrightarrow> scan_gate_inv (fst (scan_effect address m e))"
  by (induction address m e rule: scan_effect.induct)
    (auto simp: scan_gate_inv_def answers_something_def split: scan_outcome.splits option.splits)

interpretation scan_gate: slice initial_scan_effect "\<lambda>m e. fst (scan_effect address m e)" scan_gate_inv answers_something
  by unfold_locales (auto simp: scan_gate_step, simp add: scan_gate_inv_def initial_scan_effect_def)

text \<open>
  As long as every request is answered by a block or an error, the effect does not get stuck: when no
  request is in flight, a demand for a block is sent, whatever happened before. The one exception is
  the height \<open>null\<close>, which the button for the latest height asks for: it equals the mark of an idle
  effect and is dropped.
\<close>

theorem scan_effect_idle_sends:
  assumes "list_all answers_something es" "m = fst (run_effect (scan_effect address) initial_scan_effect es)"
    "se_inflight m = None"
  shows "ScanSend h \<in> set (snd (scan_effect address m (ScanAct (SCAN_STATE_GET_BLOCK h) stream))) \<longleftrightarrow> h \<noteq> Null"
proof -
  have "scan_gate_inv m" using scan_gate.foldl_inv [OF assms(1)] assms(2) by (simp add: fst_run_effect)
  then have "se_inProgress m = Null" using assms(3) by (simp add: scan_gate_inv_def)
  then show ?thesis by auto
qed

theorem scan_effect_idle_sends_witness:
  "ScanSend Undefined \<in> set (snd (scan_effect [] initial_scan_effect (ScanAct (SCAN_STATE_GET_BLOCK Undefined) True)))
   \<and> ScanSend Null \<notin> set (snd (scan_effect [] initial_scan_effect (ScanAct (hd checkLatestHeight) True)))"
  using scan_effect_idle_sends [of "[]" initial_scan_effect "[]" Undefined True]
    scan_effect_idle_sends [of "[]" initial_scan_effect "[]" Null True]
  by (simp add: initial_scan_effect_def checkLatestHeight_def)

text \<open>A request that ends without a value leaves its mark, and the timer asks in vain from then on.\<close>

lemma scan_effect_stuck:
  "se_inProgress m = Undefined \<Longrightarrow> se_inflight m = None \<Longrightarrow>
   run_effect (scan_effect address) m (replicate n (ScanAct (SCAN_STATE_GET_BLOCK Undefined) stream)) = (m, [])"
  by (induction n) auto

text \<open>After a block the active leaf, if it was found, is a leaf of that block with the active job.\<close>

lemma get_block_active_leaf:
  assumes "scanStateReducer d tv s (SCAN_STATE_GET_BLOCK_SUCCESS block) = s'"
    "sc_activeLeaf s' = Some a" "al_leaf a = Some leaf"
  shows "sl_bundle_job_id leaf = sc_activeJobId s' \<and> (\<exists>t \<in> set (sb_trees block). leaf \<in> set (st_leafs t))"
proof -
  have mem: "set (foldl (\<lambda>acc t. acc @ filter P (st_leafs t)) acc ts)
      = set acc \<union> (\<Union>t \<in> set ts. {l \<in> set (st_leafs t). P l})" for P acc ts
    by (induction ts arbitrary: acc) auto
  have "leaf \<in> set (job_leafs (sc_activeJobId s) (sb_trees block))" "sc_activeJobId s' = sc_activeJobId s"
    using assms by (auto dest!: js_nth_mem split: if_splits)
  then show ?thesis by (auto simp: job_leafs_def mem)
qed

end
