(* ===== verification/WorkPool.thy ===== *)
theory WorkPool
  imports WonSlots
begin

text \<open>
  The pool of snark jobs (\<open>features/snarks/work-pool\<close>): the service that tells local from remote work,
  the slice with its table and filters, the effects, and the totals of the toolbar. The details and
  the specification of a job are passed through and have no structure here.
\<close>

section \<open>The service\<close>

datatype work_origin = Local | Remote

record inner_commitment =
  ic_timestamp :: int
  ic_snarker :: "string option"
  ic_fee :: string
  ic_job_id :: string

record WorkPoolCommitment =
  wc_sender :: "string option"
  wc_received_t :: int
  wc_date :: string
  wc_commitment :: inner_commitment

record WorkPoolSnark =
  wk_snarker :: "string option"
  wk_fee :: string
  wk_received_t :: int
  wk_sender :: "string option"

record WorkPool =
  wp_datetime :: string
  wp_timestamp :: int
  wp_id :: string
  wp_commitment :: "WorkPoolCommitment option"
  wp_snark :: "WorkPoolSnark option"
  wp_snarkRecLatency :: "rat option"
  wp_snarkOrigin :: "work_origin option"
  wp_commitmentRecLatency :: "rat option"
  wp_commitmentOrigin :: "work_origin option"
  wp_commitmentCreatedLatency :: "rat option"
  wp_notSameCommitter :: bool

record work_item =
  wi_id :: string
  wi_time :: int
  wi_commitment :: "WorkPoolCommitment option"
  wi_snark :: "WorkPoolSnark option"

text \<open>\<open>[snarker, sender].includes(this.snarkerHash)\<close>; the hash is \<open>null\<close> on a node without a snarker.\<close>

definition work_origin_of :: "string option \<Rightarrow> string option \<Rightarrow> string option \<Rightarrow> work_origin" where
  "work_origin_of snarkerHash snarker sender = (if snarkerHash \<in> set [snarker, sender] then Local else Remote)"

definition mapWorkPoolItem :: "(rat \<Rightarrow> string) \<Rightarrow> string option \<Rightarrow> work_item \<Rightarrow> WorkPool" where
  "mapWorkPoolItem rd snarkerHash item =
    \<lparr>wp_datetime = rd (of_int (wi_time item) / of_int ONE_MILLION), wp_timestamp = wi_time item, wp_id = wi_id item,
     wp_commitment = map_option (\<lambda>c. c\<lparr>wc_date := rd (of_int (ic_timestamp (wc_commitment c)))\<rparr>) (wi_commitment item),
     wp_snark = wi_snark item,
     wp_snarkRecLatency = map_option (\<lambda>s. of_int (wk_received_t s - wi_time item) / ONE_BILLION) (wi_snark item),
     wp_snarkOrigin = map_option (\<lambda>s. work_origin_of snarkerHash (wk_snarker s) (wk_sender s)) (wi_snark item),
     wp_commitmentRecLatency = map_option (\<lambda>c. of_int (wc_received_t c - wi_time item) / ONE_BILLION) (wi_commitment item),
     wp_commitmentOrigin = map_option (\<lambda>c. work_origin_of snarkerHash (ic_snarker (wc_commitment c)) (wc_sender c))
       (wi_commitment item),
     wp_commitmentCreatedLatency = map_option (\<lambda>c. of_int (ic_timestamp (wc_commitment c)) / 1000
       - of_int (wi_time item) / ONE_BILLION) (wi_commitment item),
     wp_notSameCommitter = (case (wi_commitment item, wi_snark item) of
         (Some c, Some s) \<Rightarrow> ic_snarker (wc_commitment c) \<noteq> wk_snarker s | _ \<Rightarrow> False)\<rparr>"

text \<open>
  The service keeps the hash of the node's snarker once it has one; the configuration is asked for as
  long as it has none.
\<close>

definition truthy_hash :: "string option \<Rightarrow> bool" where
  "truthy_hash h \<longleftrightarrow> h \<noteq> None \<and> h \<noteq> Some []"

definition getWorkPool ::
  "(rat \<Rightarrow> string) \<Rightarrow> string option \<Rightarrow> string option \<Rightarrow> work_item list \<Rightarrow> string option \<times> WorkPool list" where
  "getWorkPool rd snarkerHash config response =
    (let hash = (if truthy_hash snarkerHash then snarkerHash else config)
     in (hash, map (mapWorkPoolItem rd hash) response))"

section \<open>The slice\<close>

datatype work_pool_col = WpDatetime | WpTimestamp | WpId | WpCommitment | WpSnark | WpSnarkRecLatency | WpSnarkOrigin
  | WpCommitmentRecLatency | WpCommitmentOrigin | WpCommitmentCreatedLatency | WpNotSameCommitter

fun origin_text :: "work_origin \<Rightarrow> string" where
  "origin_text Local = ''Local''"
| "origin_text Remote = ''Remote''"

fun get_work_pool :: "work_pool_col \<Rightarrow> WorkPool \<Rightarrow> jsval" where
  "get_work_pool WpDatetime w = JStr (wp_datetime w)"
| "get_work_pool WpTimestamp w = of_i (wp_timestamp w)"
| "get_work_pool WpId w = JStr (wp_id w)"
| "get_work_pool WpCommitment w = (if wp_commitment w = None then JUndefined else JObj)"
| "get_work_pool WpSnark w = (if wp_snark w = None then JUndefined else JObj)"
| "get_work_pool WpSnarkRecLatency w = of_num (wp_snarkRecLatency w)"
| "get_work_pool WpSnarkOrigin w = of_str (map_option origin_text (wp_snarkOrigin w))"
| "get_work_pool WpCommitmentRecLatency w = of_num (wp_commitmentRecLatency w)"
| "get_work_pool WpCommitmentOrigin w = of_str (map_option origin_text (wp_commitmentOrigin w))"
| "get_work_pool WpCommitmentCreatedLatency w = of_num (wp_commitmentCreatedLatency w)"
| "get_work_pool WpNotSameCommitter w = JBool (wp_notSameCommitter w)"

record SnarksWorkPoolState =
  sw_workPools :: "WorkPool list"
  sw_filteredWorkPools :: "WorkPool list"
  sw_activeWorkPool :: "WorkPool option"
  sw_openSidePanel :: bool
  sw_sort :: "work_pool_col TableSort"
  sw_filters :: "string list"
  sw_activeWorkPoolSpecs :: "jsval option"
  sw_activeWorkPoolDetail :: "jsval option"

datatype SnarksWorkPoolActions =
    WORK_POOL_INIT
  | WORK_POOL_GET_WORK_POOL
  | WORK_POOL_GET_WORK_POOL_SUCCESS "WorkPool list"
  | WORK_POOL_SORT_WORK_POOL "work_pool_col TableSort"
  | WORK_POOL_SET_ACTIVE_WORK_POOL "string option"
  | WORK_POOL_GET_WORK_POOL_DETAIL "string option"
  | WORK_POOL_GET_WORK_POOL_DETAIL_SUCCESS "jsval option" "jsval option"
  | WORK_POOL_TOGGLE_SIDE_PANEL
  | WORK_POOL_TOGGLE_FILTER string
  | WORK_POOL_CLOSE

definition initial_work_pool :: "bool \<Rightarrow> SnarksWorkPoolState" where
  "initial_work_pool isDesktop =
    \<lparr>sw_workPools = [], sw_filteredWorkPools = [], sw_activeWorkPool = None, sw_openSidePanel = isDesktop,
     sw_sort = \<lparr>sortBy = WpTimestamp, sortDirection = DSC\<rparr>, sw_filters = [], sw_activeWorkPoolSpecs = None,
     sw_activeWorkPoolDetail = None\<rparr>"

definition has_origin :: "work_origin \<Rightarrow> WorkPool \<Rightarrow> bool" where
  "has_origin a w \<longleftrightarrow> wp_snarkOrigin w = Some a \<or> wp_commitmentOrigin w = Some a"

definition filterWorkPools :: "WorkPool list \<Rightarrow> string list \<Rightarrow> WorkPool list result" where
  "filterWorkPools workPools filters =
    (if length filters = 0 then Inr workPools
     else if ''local'' \<in> set filters then Inr (filter (has_origin Local) workPools)
     else if ''remote'' \<in> set filters then Inr (filter (has_origin Remote) workPools)
     else Inl (ErrorMsg ''Unknown filter''))"

definition sortWorkPools ::
  "(string \<Rightarrow> string \<Rightarrow> rat) \<Rightarrow> WorkPool list \<Rightarrow> work_pool_col TableSort \<Rightarrow> WorkPool list" where
  "sortWorkPools lc events tableSort =
    ArrayHelper.sort lc get_work_pool events tableSort [WpId, WpSnarkOrigin, WpCommitmentOrigin] False"

fun workPoolReducer ::
  "(string \<Rightarrow> string \<Rightarrow> rat) \<Rightarrow> bool \<Rightarrow> SnarksWorkPoolState \<Rightarrow> SnarksWorkPoolActions \<Rightarrow> SnarksWorkPoolState result" where
  "workPoolReducer lc d state (WORK_POOL_GET_WORK_POOL_SUCCESS payload) =
     (let workPools = sortWorkPools lc payload (sw_sort state)
      in Inr (state\<lparr>sw_workPools := workPools, sw_filteredWorkPools := workPools\<rparr>))"
| "workPoolReducer lc d state (WORK_POOL_SET_ACTIVE_WORK_POOL jobId) = Inr (state\<lparr>
     sw_openSidePanel := True,
     sw_activeWorkPool := List.find (\<lambda>w. Some (wp_id w) = jobId) (sw_workPools state),
     sw_activeWorkPoolSpecs := None\<rparr>)"
| "workPoolReducer lc d state (WORK_POOL_SORT_WORK_POOL srt) =
     js_bind (filterWorkPools (sortWorkPools lc (sw_workPools state) srt) (sw_filters state))
       (\<lambda>filtered. Inr (state\<lparr>sw_sort := srt, sw_filteredWorkPools := filtered\<rparr>))"
| "workPoolReducer lc d state WORK_POOL_TOGGLE_SIDE_PANEL =
     Inr (state\<lparr>sw_openSidePanel := \<not> sw_openSidePanel state, sw_activeWorkPool := None\<rparr>)"
| "workPoolReducer lc d state (WORK_POOL_TOGGLE_FILTER payload) =
     (let filters = toggle (sw_filters state) payload
      in js_bind (filterWorkPools (sw_workPools state) filters)
           (\<lambda>filtered. Inr (state\<lparr>sw_filters := filters, sw_filteredWorkPools := filtered\<rparr>)))"
| "workPoolReducer lc d state (WORK_POOL_GET_WORK_POOL_DETAIL_SUCCESS specs detail) =
     Inr (state\<lparr>sw_activeWorkPoolSpecs := specs, sw_activeWorkPoolDetail := detail\<rparr>)"
| "workPoolReducer lc d state WORK_POOL_CLOSE = Inr (initial_work_pool d)"
| "workPoolReducer lc d state _ = Inr state"

section \<open>The effects\<close>

text \<open>
  The flag of the effect class, whether the pool's \<open>switchMap\<close> waits for an answer, and the job
  whose details are awaited. An action comes with the identifier of the active job in the state.
\<close>

record work_pool_effects =
  we_pendingRequest :: bool
  we_inflight :: bool
  we_detail :: "string option"

datatype work_pool_event =
    WpAct SnarksWorkPoolActions "string option"
  | WpReply "WorkPool list" | WpFailure
  | WpDetailReply jsval jsval | WpDetailFailure

datatype work_pool_output = WpDispatch SnarksWorkPoolActions | WpAddError | WpAsk | WpAskDetail string

definition initial_work_pool_effects :: work_pool_effects where
  "initial_work_pool_effects = \<lparr>we_pendingRequest = False, we_inflight = False, we_detail = None\<rparr>"

text \<open>The closing action has no payload, so the filter of the details drops it.\<close>

fun work_pool_effect :: "work_pool_effects \<Rightarrow> work_pool_event \<Rightarrow> work_pool_effects \<times> work_pool_output list" where
  "work_pool_effect m (WpAct WORK_POOL_GET_WORK_POOL active) =
     (if we_pendingRequest m then (m, []) else (m\<lparr>we_pendingRequest := True, we_inflight := True\<rparr>, [WpAsk]))"
| "work_pool_effect m (WpAct WORK_POOL_CLOSE active) = (m\<lparr>we_inflight := False\<rparr>, [])"
| "work_pool_effect m (WpAct (WORK_POOL_SET_ACTIVE_WORK_POOL jobId) active) =
     (m, if jobId = None then [] else [WpDispatch (WORK_POOL_GET_WORK_POOL_DETAIL jobId)])"
| "work_pool_effect m (WpAct (WORK_POOL_GET_WORK_POOL_DETAIL jobId) active) =
     (if jobId = None then (m, [])
      else case active of
        None \<Rightarrow> (m\<lparr>we_detail := None\<rparr>, [WpAddError, WpDispatch (WORK_POOL_GET_WORK_POOL_DETAIL_SUCCESS None None)])
      | Some a \<Rightarrow> (m\<lparr>we_detail := Some a\<rparr>, [WpAskDetail a]))"
| "work_pool_effect m (WpAct _ active) = (m, [])"
| "work_pool_effect m (WpReply payload) = (if \<not> we_inflight m then (m, [])
     else (m\<lparr>we_pendingRequest := False, we_inflight := False\<rparr>, [WpDispatch (WORK_POOL_GET_WORK_POOL_SUCCESS payload)]))"
| "work_pool_effect m WpFailure = (if \<not> we_inflight m then (m, [])
     else (m\<lparr>we_pendingRequest := False, we_inflight := False\<rparr>,
       [WpAddError, WpDispatch (WORK_POOL_GET_WORK_POOL_SUCCESS [])]))"
| "work_pool_effect m (WpDetailReply specs detail) = (if we_detail m = None then (m, [])
     else (m\<lparr>we_detail := None\<rparr>, [WpDispatch (WORK_POOL_GET_WORK_POOL_DETAIL_SUCCESS (Some specs) (Some detail))]))"
| "work_pool_effect m WpDetailFailure = (if we_detail m = None then (m, [])
     else (m\<lparr>we_detail := None\<rparr>, [WpAddError, WpDispatch (WORK_POOL_GET_WORK_POOL_DETAIL_SUCCESS None None)]))"

section \<open>The toolbar\<close>

record work_pool_totals =
  wt_total :: nat
  wt_available :: nat
  wt_committed :: nat
  wt_snarked :: nat

definition listenToWorkPool :: "WorkPool list \<Rightarrow> work_pool_totals" where
  "listenToWorkPool wp = \<lparr>wt_total = length wp,
     wt_available = length (filter (\<lambda>w. wp_commitment w = None \<and> wp_snark w = None) wp),
     wt_committed = length (filter (\<lambda>w. wp_commitment w \<noteq> None) wp),
     wt_snarked = length (filter (\<lambda>w. wp_snark w \<noteq> None) wp)\<rparr>"

text \<open>The latencies of the statistics: \<open>map\<close> and \<open>filter(Boolean)\<close>, which also drops a latency of 0.\<close>

definition statistics_values :: "(WorkPool \<Rightarrow> rat option) \<Rightarrow> WorkPool list \<Rightarrow> rat list" where
  "statistics_values f wp = filter (\<lambda>r. r \<noteq> 0) (List.map_filter f wp)"

section \<open>The table\<close>

interpretation work_pool_columns: table_columns get_work_pool "[WpId, WpSnarkOrigin, WpCommitmentOrigin]"
  by unfold_locales (auto simp: of_str_def split: option.splits)

definition known_filter :: "SnarksWorkPoolActions \<Rightarrow> bool" where
  "known_filter a = (case a of WORK_POOL_TOGGLE_FILTER f \<Rightarrow> f = ''local'' \<or> f = ''remote'' | _ \<Rightarrow> True)"

definition work_pool_inv :: "SnarksWorkPoolState \<Rightarrow> bool" where
  "work_pool_inv s \<longleftrightarrow> set (sw_filters s) \<subseteq> {''local'', ''remote''}
     \<and> mset (sw_filteredWorkPools s) \<subseteq># mset (sw_workPools s)
     \<and> (sw_filters s = [] \<longrightarrow> mset (sw_filteredWorkPools s) = mset (sw_workPools s))"

lemma set_toggle: "set (toggle xs x) \<subseteq> insert x (set xs)"
  by (auto simp: toggleItem_def js_slice_def js_slice_from_def dest: in_set_takeD in_set_dropD)

lemma filterWorkPools_known:
  assumes "set filters \<subseteq> {''local'', ''remote''}"
  shows "\<exists>ys. filterWorkPools xs filters = Inr ys \<and> mset ys \<subseteq># mset xs \<and> (filters = [] \<longrightarrow> ys = xs)"
  using assms by (cases filters) (auto simp: filterWorkPools_def)

lemma work_pool_step:
  assumes inv: "work_pool_inv s" and ok: "known_filter a"
  shows "\<exists>s'. workPoolReducer lc d s a = Inr s' \<and> work_pool_inv s'"
proof (cases a)
  case (WORK_POOL_SORT_WORK_POOL srt)
  then show ?thesis
    using inv filterWorkPools_known [of "sw_filters s" "sortWorkPools lc (sw_workPools s) srt"]
    by (auto simp: work_pool_inv_def sortWorkPools_def)
next
  case (WORK_POOL_TOGGLE_FILTER f)
  have "set (toggle (sw_filters s) f) \<subseteq> {''local'', ''remote''}"
    using inv ok set_toggle [of "sw_filters s" f] WORK_POOL_TOGGLE_FILTER
    by (auto simp: work_pool_inv_def known_filter_def)
  then show ?thesis using filterWorkPools_known [of "toggle (sw_filters s) f" "sw_workPools s"] WORK_POOL_TOGGLE_FILTER
    by (auto simp: work_pool_inv_def)
qed (use inv in \<open>auto simp: work_pool_inv_def initial_work_pool_def\<close>)

interpretation work_pool: safe_slice "initial_work_pool d" "workPoolReducer lc d" work_pool_inv known_filter
  for lc d
proof
  show "work_pool_inv (initial_work_pool d)" by (simp add: work_pool_inv_def initial_work_pool_def)
  show "work_pool_inv s'" if "work_pool_inv s" "known_filter a" "workPoolReducer lc d s a = Inr s'" for s a s'
    using work_pool_step [OF that(1, 2), of lc d] that(3) by auto
  show "\<exists>s'. workPoolReducer lc d s a = Inr s'" if "work_pool_inv s" "known_filter a" for s a
    using work_pool_step [OF that, of lc d] by auto
qed

text \<open>With the filters of the toolbar the reducer never throws and shows only jobs of the pool.\<close>

lemma work_pool_never_throws:
  "list_all known_filter as \<Longrightarrow> \<exists>s. run_reducer (workPoolReducer lc d) (initial_work_pool d) as = Inr s
     \<and> mset (sw_filteredWorkPools s) \<subseteq># mset (sw_workPools s)"
  using work_pool.run_safe [of as lc d] by (auto simp: work_pool_inv_def)

text \<open>A new answer forgets the active filters; both filters together show the local jobs only.\<close>

lemma get_work_pool_ignores_filters:
  "workPoolReducer lc d s (WORK_POOL_GET_WORK_POOL_SUCCESS pools) = Inr s' \<Longrightarrow>
   mset (sw_filteredWorkPools s') = mset pools \<and> sw_filters s' = sw_filters s"
  by (auto simp: sortWorkPools_def)

lemma both_filters_show_local: "filterWorkPools xs [''remote'', ''local''] = Inr (filter (has_origin Local) xs)"
  by (simp add: filterWorkPools_def)

section \<open>The effect of the pool stops\<close>

interpretation work_pool_poll: blocked_effect work_pool_effect
    "\<lambda>m. we_pendingRequest m \<and> \<not> we_inflight m" "\<lambda>_. True" "\<lambda>out. out = WpAsk"
proof
  show "we_pendingRequest (fst (work_pool_effect m e)) \<and> \<not> we_inflight (fst (work_pool_effect m e))"
    if "we_pendingRequest m \<and> \<not> we_inflight m" for m e
    using that by (induction m e rule: work_pool_effect.induct) (auto split: option.splits)
  show "out \<noteq> WpAsk" if "we_pendingRequest m \<and> \<not> we_inflight m" "out \<in> set (snd (work_pool_effect m e))" for m e out
    using that by (induction m e rule: work_pool_effect.induct) (auto split: option.splits if_splits)
qed

text \<open>
  Leaving the page while the pool is being loaded stops the page for good: the request is cancelled,
  the flag that it is pending stays up, and whatever happens afterwards, opening the page again
  included, the pool is never asked for again.
\<close>

theorem work_pool_close_stops:
  assumes "we_inflight m \<and> we_pendingRequest m"
  shows "WpAsk \<notin> set (snd (run_effect work_pool_effect (fst (work_pool_effect m (WpAct WORK_POOL_CLOSE active))) es))"
  using work_pool_poll.run_blocked [of "fst (work_pool_effect m (WpAct WORK_POOL_CLOSE active))" es] assms
  by (auto simp: list_all_iff)

theorem work_pool_close_stops_witness:
  "WpAsk \<notin> set (snd (run_effect work_pool_effect
     (fst (run_effect work_pool_effect initial_work_pool_effects
        [WpAct WORK_POOL_GET_WORK_POOL None, WpAct WORK_POOL_CLOSE None])) [WpAct WORK_POOL_GET_WORK_POOL None]))"
  using work_pool_close_stops [of "fst (work_pool_effect initial_work_pool_effects (WpAct WORK_POOL_GET_WORK_POOL None))"
      None "[WpAct WORK_POOL_GET_WORK_POOL None]"]
  by (simp add: initial_work_pool_effects_def)

text \<open>The details of a job are not cancelled: their answer arrives after the page was left.\<close>

lemma work_pool_late_details:
  "we_detail m = Some a \<Longrightarrow>
   snd (run_effect work_pool_effect m [WpAct WORK_POOL_CLOSE active, WpDetailReply specs detail])
     = [WpDispatch (WORK_POOL_GET_WORK_POOL_DETAIL_SUCCESS (Some specs) (Some detail))]"
  by simp

text \<open>
  On a node without a snarker the hash is \<open>null\<close>, and work without a sender counts as local.
\<close>

lemma origin_without_snarker: "work_origin_of None (Some s) None = Local"
  by (simp add: work_origin_of_def)

lemma work_pool_totals_bound:
  "wt_available (listenToWorkPool wp) + wt_committed (listenToWorkPool wp) \<le> wt_total (listenToWorkPool wp)
   \<and> wt_total (listenToWorkPool wp)
       \<le> wt_available (listenToWorkPool wp) + wt_committed (listenToWorkPool wp) + wt_snarked (listenToWorkPool wp)"
  by (induction wp) (auto simp: listenToWorkPool_def)

end
