(* ===== verification/Mempool.thy ===== *)
theory Mempool
  imports LedgerHelper WonSlots
begin

text \<open>
  The transaction pool (\<open>features/mempool\<close>) and the helpers for memos
  (\<open>shared/helpers/transaction.helper.ts\<close>). The decoding of base 58 with a checksum is a package the
  source calls; it is the parameter \<open>b58\<close>, with \<open>None\<close> when it throws.
\<close>

section \<open>Memos\<close>

definition byte_char :: "byte \<Rightarrow> char" where
  "byte_char b = char_of (unat b)"

text \<open>\<open>('0' + (byte & 0xff).toString(16)).slice(-2)\<close>, joined.\<close>

definition toHexString :: "byte list \<Rightarrow> string" where
  "toHexString byteArray = concat (map (\<lambda>b. js_slice_from (- 2) (CHR ''0'' # nat_to_hex (unat b))) byteArray)"

text \<open>
  An index out of range is \<open>undefined\<close>, of which \<open>String.fromCharCode\<close> makes the character 0; without a
  length byte the loop does not run.
\<close>

definition memo_text :: "byte list \<Rightarrow> string" where
  "memo_text payload = (case js_nth payload 1 of None \<Rightarrow> []
     | Some len \<Rightarrow> map (\<lambda>i. case js_nth payload (int i) of None \<Rightarrow> CHR 0x00 | Some b \<Rightarrow> byte_char b)
         [2..<unat len + 2])"

definition decodeMemo :: "(string \<Rightarrow> byte list option) \<Rightarrow> string \<Rightarrow> string result" where
  "decodeMemo b58 memo = (case b58 memo of None \<Rightarrow> Inl (ErrorMsg memo)
     | Some buffer \<Rightarrow> (let payload = drop 1 buffer in
         if js_nth payload 0 = Some 0 then Inr (toHexString payload) else Inr (memo_text payload)))"

text \<open>The two replacements by regular expressions, in their order.\<close>

definition hex_digit :: "char \<Rightarrow> bool" where
  "hex_digit c \<longleftrightarrow> digit_in 16 c \<noteq> None"

fun drop_escapes :: "string \<Rightarrow> string" where
  "drop_escapes (c # d # h1 # h2 # h3 # h4 # s) =
     (if c = CHR 0x5C \<and> d = CHR ''u'' \<and> hex_digit h1 \<and> hex_digit h2 \<and> hex_digit h3 \<and> hex_digit h4 then drop_escapes s
      else c # drop_escapes (d # h1 # h2 # h3 # h4 # s))"
| "drop_escapes s = s"

definition memo_char :: "char \<Rightarrow> bool" where
  "memo_char c \<longleftrightarrow> (let n = char_code c in
     97 \<le> n \<and> n \<le> 122 \<or> 65 \<le> n \<and> n \<le> 90 \<or> 48 \<le> n \<and> n \<le> 57 \<or> c = CHR '','' \<or> c = CHR ''.'')"

definition removeUnicodeEscapes :: "string \<Rightarrow> string" where
  "removeUnicodeEscapes str = filter memo_char (drop_escapes str)"

text \<open>\<open>s.replace(pattern, '')\<close> removes the first occurrence.\<close>

fun remove_pattern :: "string \<Rightarrow> string \<Rightarrow> string" where
  "remove_pattern pat [] = []"
| "remove_pattern pat (c # cs) = (if take (length pat) (c # cs) = pat then drop (length pat) (c # cs)
     else c # remove_pattern pat cs)"

definition getTimeFromMemo :: "(string \<Rightarrow> string) \<Rightarrow> string option \<Rightarrow> string option" where
  "getTimeFromMemo rd memo = (case memo of None \<Rightarrow> None
     | Some m \<Rightarrow> if js_includes m '','' then Some (rd (remove_pattern ''S.T.'' (js_split_first (CHR '','') m))) else None)"

section \<open>The service\<close>

datatype MempoolTransactionKind = ZK_APP | PAYMENT | DELEGATION

record SignedCommand =
  sg_memo :: string
  sg_fee_payer_pk :: string
  sg_fee :: jsval
  sg_nonce :: jsval
  sg_amount :: jsval

record ZkappCommand =
  zk_memo :: string
  zk_public_key :: string
  zk_fee :: jsval
  zk_nonce :: jsval

text \<open>A transaction of the answer; a command of another kind falls through the \<open>switch\<close>.\<close>

datatype tx_data = SignedCommand SignedCommand | ZkappCommand ZkappCommand | OtherCommand

record MempoolTransactionResponse =
  mr_data :: tx_data
  mr_hash :: "string option"

record MempoolTransaction =
  mt_kind :: MempoolTransactionKind
  mt_txHash :: "string option"
  mt_sender :: string
  mt_fee :: "rat option"
  mt_amount :: "rat option"
  mt_nonce :: "rat option"
  mt_memo :: string
  mt_transactionData :: tx_data
  mt_sentFromStressingTool :: bool
  mt_sentByMyBrowser :: bool

text \<open>\<open>includes(null)\<close> looks for the text \<open>null\<close>: a browser without an identifier.\<close>

definition browser_text :: "string option \<Rightarrow> string" where
  "browser_text browserId = (case browserId of None \<Rightarrow> ''null'' | Some s \<Rightarrow> s)"

definition mapTx ::
  "(string \<Rightarrow> byte list option) \<Rightarrow> string option \<Rightarrow> MempoolTransactionResponse \<Rightarrow> MempoolTransaction option result" where
  "mapTx b58 browserId tx = (case mr_data tx of
     SignedCommand c \<Rightarrow> js_bind (decodeMemo b58 (sg_memo c)) (\<lambda>memo. Inr (Some
       \<lparr>mt_kind = PAYMENT, mt_txHash = mr_hash tx, mt_sender = sg_fee_payer_pk c, mt_fee = js_to_number (sg_fee c),
        mt_amount = map_option (\<lambda>a. a / ONE_BILLION) (js_to_number (sg_amount c)),
        mt_nonce = js_to_number (sg_nonce c), mt_memo = removeUnicodeEscapes memo, mt_transactionData = mr_data tx,
        mt_sentFromStressingTool = js_includes memo ''S.T.'',
        mt_sentByMyBrowser = js_includes memo (browser_text browserId)\<rparr>))
   | ZkappCommand z \<Rightarrow> js_bind (decodeMemo b58 (zk_memo z)) (\<lambda>memo. Inr (Some
       \<lparr>mt_kind = ZK_APP, mt_txHash = mr_hash tx, mt_sender = zk_public_key z, mt_fee = js_to_number (zk_fee z),
        mt_amount = None, mt_nonce = js_to_number (zk_nonce z), mt_memo = removeUnicodeEscapes memo,
        mt_transactionData = mr_data tx, mt_sentFromStressingTool = js_includes memo ''S.T.'',
        mt_sentByMyBrowser = js_includes memo (browser_text browserId)\<rparr>))
   | OtherCommand \<Rightarrow> Inr None)"

definition mapTxPoolResponse ::
  "(string \<Rightarrow> byte list option) \<Rightarrow> string option \<Rightarrow> MempoolTransactionResponse list \<Rightarrow> MempoolTransaction option list result" where
  "mapTxPoolResponse b58 browserId response = js_mapM (mapTx b58 browserId) response"

section \<open>The slice\<close>

record MempoolFilters =
  mf_zkApp :: bool
  mf_payment :: bool
  mf_delegation :: bool
  mf_search :: string

record MempoolState =
  ms_allTxs :: "MempoolTransaction option list"
  ms_txs :: "MempoolTransaction option list"
  ms_activeTx :: "MempoolTransaction option"
  ms_filters :: MempoolFilters
  ms_emptyInDatabase :: bool
  ms_isLoading :: bool

datatype MempoolAction =
    MpInit
  | MpClose
  | MpGetTxs
  | MpGetTxsSuccess "MempoolTransaction option list"
  | MpChangeFilters MempoolFilters
  | MpSetActiveTx "MempoolTransaction option"
  | MpToggleSidePanel

definition all_filters :: MempoolFilters where
  "all_filters = \<lparr>mf_zkApp = True, mf_payment = True, mf_delegation = True, mf_search = []\<rparr>"

definition initial_mempool :: MempoolState where
  "initial_mempool = \<lparr>ms_allTxs = [], ms_txs = [], ms_activeTx = None, ms_filters = all_filters,
     ms_emptyInDatabase = False, ms_isLoading = True\<rparr>"

text \<open>A kind is read only when its filter is off; a missing transaction or hash throws when it is read.\<close>

definition hidden_kind :: "bool \<Rightarrow> MempoolTransactionKind \<Rightarrow> MempoolTransaction option \<Rightarrow> bool result" where
  "hidden_kind shown kind tx = (if shown then Inr False
     else case tx of None \<Rightarrow> Inl (TypeError ''kind'') | Some t \<Rightarrow> Inr (mt_kind t = kind))"

definition search_match :: "string \<Rightarrow> MempoolTransaction option \<Rightarrow> bool result" where
  "search_match search tx = (case tx of None \<Rightarrow> Inl (TypeError ''txHash'')
     | Some t \<Rightarrow> (case mt_txHash t of None \<Rightarrow> Inl (TypeError ''toLowerCase'')
       | Some h \<Rightarrow> Inr (js_includes (js_toLowerCase h) (js_toLowerCase search)
           \<or> js_includes (js_toLowerCase (mt_sender t)) (js_toLowerCase search))))"

definition tx_shown :: "MempoolFilters \<Rightarrow> MempoolTransaction option \<Rightarrow> bool result" where
  "tx_shown f tx = js_bind (hidden_kind (mf_delegation f) DELEGATION tx) (\<lambda>h1. if h1 then Inr False
     else js_bind (hidden_kind (mf_payment f) PAYMENT tx) (\<lambda>h2. if h2 then Inr False
     else js_bind (hidden_kind (mf_zkApp f) ZK_APP tx) (\<lambda>h3. if h3 then Inr False
     else if length (mf_search f) > 2 then search_match (mf_search f) tx else Inr True)))"

fun filterTxs :: "MempoolTransaction option list \<Rightarrow> MempoolFilters \<Rightarrow> MempoolTransaction option list result" where
  "filterTxs [] f = Inr []"
| "filterTxs (tx # txs) f = js_bind (tx_shown f tx) (\<lambda>b. js_bind (filterTxs txs f)
     (\<lambda>rest. Inr (if b then tx # rest else rest)))"

fun mempoolReducer :: "MempoolState \<Rightarrow> MempoolAction \<Rightarrow> MempoolState result" where
  "mempoolReducer state (MpGetTxsSuccess txs) = js_bind (filterTxs txs (ms_filters state)) (\<lambda>shown. Inr (state\<lparr>
     ms_emptyInDatabase := (length txs = 0), ms_isLoading := False, ms_allTxs := txs, ms_txs := shown\<rparr>))"
| "mempoolReducer state (MpChangeFilters filters) = js_bind (filterTxs (ms_allTxs state) filters) (\<lambda>shown. Inr (state\<lparr>
     ms_filters := filters, ms_txs := shown\<rparr>))"
| "mempoolReducer state (MpSetActiveTx tx) = Inr (state\<lparr>ms_activeTx := tx\<rparr>)"
| "mempoolReducer state MpClose = Inr initial_mempool"
| "mempoolReducer state _ = Inr state"

section \<open>The effects\<close>

text \<open>Whether the \<open>switchMap\<close> waits for the pool; an answer is the response of the node or a failure.\<close>

datatype mempool_event = MpAct MempoolAction | MpReply "MempoolTransactionResponse list" | MpFailure
datatype mempool_output = MpDispatch MempoolAction | MpAddError | MpAsk

fun mempool_effect ::
  "(string \<Rightarrow> byte list option) \<Rightarrow> string option \<Rightarrow> bool \<Rightarrow> mempool_event \<Rightarrow> bool \<times> mempool_output list" where
  "mempool_effect b58 browserId waiting (MpAct MpInit) = (waiting, [MpDispatch MpGetTxs])"
| "mempool_effect b58 browserId waiting (MpAct MpGetTxs) = (True, [MpAsk])"
| "mempool_effect b58 browserId waiting (MpAct MpClose) = (False, [])"
| "mempool_effect b58 browserId waiting (MpAct _) = (waiting, [])"
| "mempool_effect b58 browserId waiting (MpReply response) = (if \<not> waiting then (waiting, [])
     else (case mapTxPoolResponse b58 browserId response of
        Inr txs \<Rightarrow> (False, [MpDispatch (MpGetTxsSuccess txs)])
      | Inl _ \<Rightarrow> (False, [MpAddError, MpDispatch (MpGetTxsSuccess [])])))"
| "mempool_effect b58 browserId waiting MpFailure = (if \<not> waiting then (waiting, [])
     else (False, [MpAddError, MpDispatch (MpGetTxsSuccess [])]))"

section \<open>The components\<close>

record mempool_counts =
  mc_zkApps :: nat
  mc_payments :: nat
  mc_delegations :: nat

definition count_tx_kind :: "MempoolTransactionKind \<Rightarrow> MempoolTransaction list \<Rightarrow> nat" where
  "count_tx_kind k txs = length (filter (\<lambda>tx. mt_kind tx = k) txs)"

definition mempool_filter_counts :: "MempoolTransaction list \<Rightarrow> mempool_counts" where
  "mempool_filter_counts txs = \<lparr>mc_zkApps = count_tx_kind ZK_APP txs, mc_payments = count_tx_kind PAYMENT txs,
     mc_delegations = count_tx_kind DELEGATION txs\<rparr>"

definition mempool_clearFilters :: MempoolAction where
  "mempool_clearFilters = MpChangeFilters all_filters"

definition mempool_onRowClick :: "MempoolTransaction option \<Rightarrow> MempoolTransaction option \<Rightarrow> MempoolAction list" where
  "mempool_onRowClick activeRow tx = (case tx of None \<Rightarrow> []
     | Some t \<Rightarrow> if Option.bind activeRow mt_txHash \<noteq> mt_txHash t then [MpSetActiveTx tx] else [])"

section \<open>Reading memos\<close>

lemma toHexString_hex: "toHexString bs = hex_of_bytes bs"
proof -
  have "js_slice_from (- 2) (CHR ''0'' # nat_to_hex (unat b)) = hex_of_byte b" for b :: byte
  proof -
    have b: "unat b < 256" using unsigned_less [of b] by simp
    have z: "hex_char 0 = CHR ''0''" by (simp add: hex_char_def)
    show ?thesis
    proof (cases "unat b < 16")
      case True
      then show ?thesis using z by (simp add: nat_to_hex.simps [of "unat b"] hex_of_byte_def js_slice_from_def js_slice_index_def)
    next
      case False
      then show ?thesis using b
        by (simp add: nat_to_hex.simps [of "unat b"] nat_to_hex.simps [of "unat b div 16"] hex_of_byte_def
          js_slice_from_def js_slice_index_def)
    qed
  qed
  then show ?thesis by (simp add: toHexString_def hex_of_bytes_def)
qed

lemma byte_char_of: "char_code c < 128 \<Longrightarrow> byte_char (word_of_nat (char_code c)) = c"
  by (simp add: byte_char_def char_code_def unsigned_of_nat take_bit_eq_mod)

text \<open>
  A memo comes back as it was written: of a payload with the tag of a text, its length and its
  characters, filled up to any size, decoding returns exactly the text.
\<close>

theorem decodeMemo_text:
  assumes "b58 memo = Some (version # 1 # word_of_nat (length text) # ascii_bytes text @ padding)"
    "length text < 256" "list_all (\<lambda>c. char_code c < 128) text"
  shows "decodeMemo b58 memo = Inr text"
proof -
  let ?payload = "1 # word_of_nat (length text) # ascii_bytes text @ padding"
  have len: "unat (word_of_nat (length text) :: byte) = length text"
    using assms(2) by (simp add: unsigned_of_nat take_bit_eq_mod)
  have "(case js_nth ?payload (int i) of None \<Rightarrow> CHR 0x00 | Some b \<Rightarrow> byte_char b) = text ! (i - 2)"
    if "i \<in> set [2..<length text + 2]" for i
  proof -
    define k where "k = i - 2"
    have k: "i = Suc (Suc k)" "k < length text" using that by (auto simp: k_def)
    have c: "char_code (text ! k) < 128" using assms(3) k(2) by (simp add: list_all_length)
    have n: "(ascii_bytes text @ padding) ! k = word_of_nat (char_code (text ! k))"
      using k(2) by (simp add: ascii_bytes_def nth_append)
    have "nat (int i) = Suc (Suc k)" using k by simp
    then show ?thesis using k n c by (simp add: js_nth_def ascii_bytes_def nth_append byte_char_of del: of_nat_Suc)
  qed
  then have "map (\<lambda>i. case js_nth ?payload (int i) of None \<Rightarrow> CHR 0x00 | Some b \<Rightarrow> byte_char b) [2..<length text + 2]
      = map (\<lambda>i. text ! (i - 2)) [2..<length text + 2]" by simp
  also have "\<dots> = text" by (rule nth_equalityI) (simp_all del: upt_Suc add_2_eq_Suc')
  finally show ?thesis using assms(1) len by (simp add: decodeMemo_def memo_text_def js_nth_def)
qed

theorem decodeMemo_text_witness:
  "decodeMemo (\<lambda>_. Some [20, 1, 2, 104, 105, 0, 0]) ''E4Y'' = Inr ''hi''"
  using decodeMemo_text [of "\<lambda>_. Some [20, 1, 2, 104, 105, 0, 0]" "''E4Y''" 20 "''hi''" "[0, 0]"]
  by (simp add: ascii_bytes_def char_code_def)

text \<open>Cleaning a memo leaves letters, digits, commas and dots only, and cleaning again changes nothing.\<close>

lemma drop_escapes_memo_chars: "list_all memo_char s \<Longrightarrow> drop_escapes s = s"
proof (induction s rule: drop_escapes.induct)
  case (1 c d h1 h2 h3 h4 s)
  have "\<not> memo_char (CHR 0x5C)" by (simp add: memo_char_def char_code_def)
  then show ?case using 1 by auto
qed auto

lemma removeUnicodeEscapes_idem:
  "removeUnicodeEscapes (removeUnicodeEscapes s) = removeUnicodeEscapes s"
proof -
  have "list_all memo_char (removeUnicodeEscapes s)" by (simp add: removeUnicodeEscapes_def list_all_iff)
  then show ?thesis using drop_escapes_memo_chars by (simp add: removeUnicodeEscapes_def list_all_iff filter_id_conv)
qed

section \<open>The list of transactions\<close>

definition readable_tx :: "MempoolTransaction option \<Rightarrow> bool" where
  "readable_tx tx \<longleftrightarrow> (\<exists>t h. tx = Some t \<and> mt_txHash t = Some h)"

definition tx_visible :: "MempoolFilters \<Rightarrow> MempoolTransaction option \<Rightarrow> bool" where
  "tx_visible f tx \<longleftrightarrow> tx_shown f tx = Inr True"

lemma tx_shown_total: "readable_tx tx \<Longrightarrow> tx_shown f tx = Inr (tx_visible f tx)"
  by (auto simp: readable_tx_def tx_visible_def tx_shown_def hidden_kind_def search_match_def)

lemma filterTxs_total: "list_all readable_tx txs \<Longrightarrow> filterTxs txs f = Inr (filter (tx_visible f) txs)"
  by (induction txs) (auto simp: tx_shown_total)

fun readable_action :: "MempoolAction \<Rightarrow> bool" where
  "readable_action (MpGetTxsSuccess txs) = list_all readable_tx txs"
| "readable_action _ = True"

definition mempool_inv :: "MempoolState \<Rightarrow> bool" where
  "mempool_inv s \<longleftrightarrow> list_all readable_tx (ms_allTxs s) \<and> ms_txs s = filter (tx_visible (ms_filters s)) (ms_allTxs s)"

interpretation mempool: safe_slice initial_mempool mempoolReducer mempool_inv readable_action
proof
  show "mempool_inv initial_mempool" by (simp add: mempool_inv_def initial_mempool_def)
  show "mempool_inv s'" if "mempool_inv s" "readable_action a" "mempoolReducer s a = Inr s'" for s a s'
    using that by (cases a) (auto simp: mempool_inv_def filterTxs_total initial_mempool_def)
  show "\<exists>s'. mempoolReducer s a = Inr s'" if "mempool_inv s" "readable_action a" for s a
    using that by (cases a) (auto simp: mempool_inv_def filterTxs_total)
qed

text \<open>
  C33: For transactions with a hash, the page never throws, and after any actions it shows exactly the
  transactions of the pool that pass the current filters, in their order.
\<close>

theorem mempool_shows_filtered:
  assumes "list_all readable_action as"
  shows "\<exists>s. run_reducer mempoolReducer initial_mempool as = Inr s
    \<and> ms_txs s = filter (tx_visible (ms_filters s)) (ms_allTxs s)"
  using mempool.run_safe [OF assms] by (auto simp: mempool_inv_def)

definition sample_mempool_tx :: MempoolTransaction where
  "sample_mempool_tx = \<lparr>mt_kind = PAYMENT, mt_txHash = Some ''5Ju'', mt_sender = ''B62'', mt_fee = Some 1, mt_amount = Some 2,
     mt_nonce = Some 0, mt_memo = [], mt_transactionData = OtherCommand, mt_sentFromStressingTool = False,
     mt_sentByMyBrowser = False\<rparr>"

theorem mempool_shows_filtered_witness:
  "\<exists>s. run_reducer mempoolReducer initial_mempool
      [MpGetTxsSuccess [Some sample_mempool_tx], MpChangeFilters (all_filters\<lparr>mf_payment := False\<rparr>)] = Inr s \<and> ms_txs s = []"
  using mempool_shows_filtered [of "[MpGetTxsSuccess [Some sample_mempool_tx],
      MpChangeFilters (all_filters\<lparr>mf_payment := False\<rparr>)]"]
  by (auto simp: readable_tx_def sample_mempool_tx_def all_filters_def initial_mempool_def tx_shown_def hidden_kind_def)

text \<open>
  The service never makes a delegation: every signed command becomes a payment, so the filter for
  delegations hides nothing and its count is always 0.
\<close>

lemma mapTx_never_delegation: "mapTx b58 browserId tx = Inr (Some t) \<Longrightarrow> mt_kind t \<noteq> DELEGATION"
  by (auto simp: mapTx_def js_bind_Inr_iff split: tx_data.splits)

lemma no_delegations_counted:
  "mapTxPoolResponse b58 browserId response = Inr (map Some txs) \<Longrightarrow> mc_delegations (mempool_filter_counts txs) = 0"
proof -
  assume m: "mapTxPoolResponse b58 browserId response = Inr (map Some txs)"
  have "\<forall>t \<in> set txs. mt_kind t \<noteq> DELEGATION"
    using m mapTx_never_delegation [of b58 browserId]
    by (fastforce simp: mapTxPoolResponse_def js_mapM_Inr list_all2_conv_all_nth in_set_conv_nth)
  then show ?thesis by (simp add: mempool_filter_counts_def count_tx_kind_def filter_empty_conv)
qed

text \<open>
  Each demand replaces the request in flight: while demands come faster than answers, none of them is
  ever delivered.
\<close>

lemma mempool_demands_starve:
  "MpDispatch (MpGetTxsSuccess txs) \<notin> set (snd (run_effect (mempool_effect b58 browserId) waiting (replicate n (MpAct MpGetTxs))))"
  by (induction n arbitrary: waiting) (auto split: prod.splits, metis snd_conv)

end
