(* ===== verification/StateActions.thy ===== *)
theory StateActions
  imports AppShell WonSlots
begin

text \<open>
  The page of the state machine's actions (\<open>features/state/actions\<close>): the statistics of a slot, the
  grouping of action names by their common camel-case prefixes, the slice with search and sorting,
  and the effects. An object with string keys is a list of pairs in the order of insertion; the
  names are distinct, are not empty and are not integers, which the language would move to the front.
\<close>

section \<open>Grouping names\<close>

definition is_upper :: "char \<Rightarrow> bool" where
  "is_upper c \<longleftrightarrow> 65 \<le> char_code c \<and> char_code c \<le> 90"

text \<open>\<open>actionName.split(/(?=[A-Z])/)\<close>: a slice begins at each capital letter.\<close>

function camel_slices :: "string \<Rightarrow> string list" where
  "camel_slices [] = []"
| "camel_slices (c # cs) = (c # takeWhile (\<lambda>d. \<not> is_upper d) cs) # camel_slices (dropWhile (\<lambda>d. \<not> is_upper d) cs)"
  by pat_completeness auto
termination by (relation "measure length") (simp_all add: length_dropWhile_le le_imp_less_Suc)

definition camel_split :: "string \<Rightarrow> string list" where
  "camel_split s = (if s = [] then [[]] else camel_slices s)"

fun slice_buildups :: "string \<Rightarrow> string list \<Rightarrow> string list" where
  "slice_buildups buildup [] = []"
| "slice_buildups buildup (part # parts) = (buildup @ part) # slice_buildups (buildup @ part) parts"

definition name_prefixes :: "string \<Rightarrow> string list" where
  "name_prefixes actionName = slice_buildups [] (camel_split actionName)"

text \<open>Assignment to a key of an object.\<close>

fun obj_set :: "'k \<Rightarrow> 'v \<Rightarrow> ('k \<times> 'v) list \<Rightarrow> ('k \<times> 'v) list" where
  "obj_set k v [] = [(k, v)]"
| "obj_set k v ((k', v') # xs) = (if k = k' then (k, v) # xs else (k', v') # obj_set k v xs)"

type_synonym groups = "(string \<times> string list) list"

definition push_group :: "string \<Rightarrow> groups \<Rightarrow> string \<Rightarrow> groups" where
  "push_group actionName groups sliceBuildup =
    obj_set sliceBuildup ((case map_of groups sliceBuildup of None \<Rightarrow> [] | Some v \<Rightarrow> v) @ [actionName]) groups"

definition prefix_groups :: "string list \<Rightarrow> groups" where
  "prefix_groups names = foldl (\<lambda>groups name. foldl (push_group name) groups (name_prefixes name)) [] names"

definition longer_key :: "string \<times> string list \<Rightarrow> string \<times> string list \<Rightarrow> rat" where
  "longer_key a b = of_int (int (length (fst b)) - int (length (fst a)))"

text \<open>One turn of the reduction: the groups so far and the names they use.\<close>

definition group_step :: "groups \<times> string list \<Rightarrow> string \<times> string list \<Rightarrow> groups \<times> string list" where
  "group_step gu entry = (let actions = filter (\<lambda>name. name \<notin> set (snd gu)) (snd entry) in
     if length actions > 1 then (obj_set (fst entry) actions (fst gu), snd gu @ actions) else gu)"

definition final_groups :: "string list \<Rightarrow> groups \<times> string list" where
  "final_groups names = foldl group_step ([], [])
     (filter (\<lambda>(k, items). length items > 1) (js_sort longer_key (prefix_groups names)))"

definition getGroupNames :: "string list \<Rightarrow> groups" where
  "getGroupNames names = (let (finalGroups, usedActions) = final_groups names;
       ungroupedActions = filter (\<lambda>name. name \<notin> set usedActions) names
     in foldl (\<lambda>obj name. obj_set name [name] obj) finalGroups ungroupedActions)"

section \<open>The service\<close>

record action_range =
  ar_total_calls :: int
  ar_total_duration :: rat
  ar_max_duration :: rat

type_synonym action_stats = "(string \<times> (string \<times> action_range) list) list"

record actions_response =
  ac_block_hash :: "string option"
  ac_block_level :: "int option"
  ac_time :: "int option"
  ac_cpu_busy :: "rat option"
  ac_cpu_idle :: "rat option"
  ac_stats :: action_stats

record StateActionsStats =
  sas_time :: string
  sas_level :: "int option"
  sas_hash :: "string option"
  sas_cpuIdle :: "rat option"
  sas_cpuBusy :: "rat option"

record StateActionColumn =
  sac_count :: int
  sac_maxTime :: rat
  sac_meanTime :: rat
  sac_totalTime :: rat
  sac_squareCount :: nat

record StateActionGroupAction =
  sga_display :: bool
  sga_title :: string
  sga_fullTitle :: string
  sga_totalTime :: rat
  sga_meanTime :: rat
  sga_totalCount :: int
  sga_columns :: "StateActionColumn list"

record StateActionGroup =
  sg_groupName :: string
  sg_count :: int
  sg_totalTime :: rat
  sg_meanTime :: rat
  sg_actions :: "StateActionGroupAction list"
  sg_display :: bool

definition mapActionStats :: "(rat \<Rightarrow> string) \<Rightarrow> actions_response \<Rightarrow> StateActionsStats" where
  "mapActionStats rd response = \<lparr>sas_time = (case ac_time response of None \<Rightarrow> ''-''
       | Some t \<Rightarrow> if t = 0 then ''-'' else rd (of_int t / of_int ONE_MILLION)),
     sas_level = ac_block_level response, sas_hash = ac_block_hash response,
     sas_cpuIdle = ac_cpu_idle response, sas_cpuBusy = ac_cpu_busy response\<rparr>"

definition convertTimesToSeconds :: "action_stats \<Rightarrow> action_stats" where
  "convertTimesToSeconds response = map (\<lambda>(key, ranges). (key, map (\<lambda>(timeKey, r). (timeKey,
     r\<lparr>ar_total_duration := ar_total_duration r / 1000000000, ar_max_duration := ar_max_duration r / 1000000000\<rparr>)) ranges)) response"

definition getMeanTime :: "rat \<Rightarrow> int \<Rightarrow> rat" where
  "getMeanTime duration calls = (if duration \<noteq> 0 \<and> calls \<noteq> 0 then duration / of_int calls else 0)"

function square_loop :: "rat \<Rightarrow> nat" where
  "square_loop calls = (if calls \<ge> 1 then Suc (square_loop (calls / 10)) else 0)"
  by pat_completeness auto
termination
proof (relation "measure (\<lambda>calls. nat \<lfloor>calls\<rfloor>)", goal_cases)
  case (2 calls)
  then have "calls / 10 < calls" "1 \<le> calls" by simp_all
  moreover have "\<lfloor>calls / 10\<rfloor> < \<lfloor>calls\<rfloor>"
  proof -
    have "1 \<le> \<lfloor>calls\<rfloor>" using 2 by simp
    moreover have "calls / 10 < of_int \<lfloor>calls\<rfloor>" using 2 calculation by linarith
    ultimately show ?thesis by (simp add: floor_less_iff)
  qed
  ultimately show ?case by simp
qed simp

declare square_loop.simps [simp del]

definition getSquareCount :: "int \<Rightarrow> nat" where
  "getSquareCount calls = min (square_loop (of_int calls)) 8"

definition action_column :: "action_range \<Rightarrow> StateActionColumn" where
  "action_column r = \<lparr>sac_count = ar_total_calls r, sac_maxTime = ar_max_duration r,
     sac_meanTime = getMeanTime (ar_total_duration r) (ar_total_calls r), sac_totalTime = ar_total_duration r,
     sac_squareCount = getSquareCount (ar_total_calls r)\<rparr>"

text \<open>\<open>actionName.replace(groupName, '')\<close> removes the first occurrence.\<close>

fun replace_first :: "string \<Rightarrow> string \<Rightarrow> string" where
  "replace_first pat [] = []"
| "replace_first pat (c # cs) = (if take (length pat) (c # cs) = pat then drop (length pat) (c # cs)
     else c # replace_first pat cs)"

definition group_action :: "string \<Rightarrow> string \<times> (string \<times> action_range) list \<Rightarrow> StateActionGroupAction" where
  "group_action groupName entry =
    (let columns = map (\<lambda>(range, r). action_column r) (snd entry);
         totalCount = foldl (\<lambda>acc c. acc + sac_count c) 0 columns;
         totalTime = foldl (\<lambda>acc c. acc + sac_totalTime c) 0 columns
     in \<lparr>sga_display = True, sga_title = (if fst entry \<noteq> groupName then replace_first groupName (fst entry) else []),
         sga_fullTitle = fst entry, sga_totalTime = totalTime, sga_meanTime = getMeanTime totalTime totalCount,
         sga_totalCount = totalCount, sga_columns = columns\<rparr>)"

definition action_group :: "action_stats \<Rightarrow> string \<times> string list \<Rightarrow> StateActionGroup" where
  "action_group response g =
    (let actions = map (group_action (fst g)) (filter (\<lambda>entry. fst entry \<in> set (snd g)) response);
         count = foldl (\<lambda>acc a. acc + sga_totalCount a) 0 actions;
         totalTime = foldl (\<lambda>acc a. acc + sga_totalTime a) 0 actions
     in \<lparr>sg_groupName = fst g, sg_count = count, sg_totalTime = totalTime, sg_meanTime = getMeanTime totalTime count,
         sg_actions = actions, sg_display = True\<rparr>)"

definition mapActions :: "action_stats \<Rightarrow> StateActionGroup list" where
  "mapActions response = (let r = convertTimesToSeconds response
     in map (action_group r) (getGroupNames (map fst r)))"

definition getActions :: "(rat \<Rightarrow> string) \<Rightarrow> actions_response \<Rightarrow> StateActionsStats \<times> StateActionGroup list" where
  "getActions rd res = (mapActionStats rd res, mapActions (ac_stats res))"

section \<open>The slice\<close>

datatype state_action_col = SaGroupName | SaCount | SaTotalTime | SaMeanTime | SaActions | SaDisplay

fun get_state_action :: "state_action_col \<Rightarrow> StateActionGroup \<Rightarrow> jsval" where
  "get_state_action SaGroupName g = JStr (sg_groupName g)"
| "get_state_action SaCount g = of_i (sg_count g)"
| "get_state_action SaTotalTime g = JNum (sg_totalTime g)"
| "get_state_action SaMeanTime g = JNum (sg_meanTime g)"
| "get_state_action SaActions g = JObj"
| "get_state_action SaDisplay g = JBool (sg_display g)"

record StateActionsState =
  sat_groups :: "StateActionGroup list"
  sat_filteredGroups :: "StateActionGroup list"
  sat_openSidePanel :: bool
  sat_earliestSlot :: "int option"
  sat_activeSlot :: "int option"
  sat_currentSort :: "state_action_col TableSort"
  sat_activeSearch :: string
  sat_stats :: "StateActionsStats option"

text \<open>The payload of a success is a pair, or the empty array after a failure.\<close>

datatype StateActionsActions =
    SA_GET_EARLIEST_SLOT bool
  | SA_GET_EARLIEST_SLOT_SUCCESS "int option"
  | SA_GET_ACTIONS "int option"
  | SA_GET_ACTIONS_SUCCESS "(StateActionsStats \<times> StateActionGroup list) option"
  | SA_CLOSE
  | SA_TOGGLE_SIDE_PANEL
  | SA_SORT "state_action_col TableSort"
  | SA_SEARCH string

definition initial_state_actions :: "bool \<Rightarrow> StateActionsState" where
  "initial_state_actions isMobile = \<lparr>sat_groups = [], sat_filteredGroups = [], sat_openSidePanel = (\<not> isMobile),
     sat_earliestSlot = None, sat_activeSlot = None,
     sat_currentSort = \<lparr>sortBy = SaTotalTime, sortDirection = DSC\<rparr>, sat_activeSearch = [], sat_stats = None\<rparr>"

definition mark_actions :: "string \<Rightarrow> StateActionGroup \<Rightarrow> StateActionGroup" where
  "mark_actions toSearch grp = grp\<lparr>sg_actions := map (\<lambda>action.
     action\<lparr>sga_display := js_includes (js_toLowerCase (sga_fullTitle action)) (js_toLowerCase toSearch)\<rparr>) (sg_actions grp)\<rparr>"

definition searchActionsInGroups :: "string \<Rightarrow> StateActionGroup list \<Rightarrow> StateActionGroup list" where
  "searchActionsInGroups toSearch groups = (if toSearch = [] then map (\<lambda>grp. grp\<lparr>sg_display := True\<rparr>) groups
     else map (\<lambda>grp. grp\<lparr>sg_display := list_ex sga_display (sg_actions grp)\<rparr>) (map (mark_actions toSearch) groups))"

definition sortGroups ::
  "(string \<Rightarrow> string \<Rightarrow> rat) \<Rightarrow> StateActionGroup list \<Rightarrow> state_action_col TableSort \<Rightarrow> StateActionGroup list" where
  "sortGroups lc blocks tableSort = ArrayHelper.sort lc get_state_action blocks tableSort [] False"

fun stateActionsReducer ::
  "(string \<Rightarrow> string \<Rightarrow> rat) \<Rightarrow> bool \<Rightarrow> StateActionsState \<Rightarrow> StateActionsActions \<Rightarrow> StateActionsState result" where
  "stateActionsReducer lc m state (SA_GET_ACTIONS slot) = Inr (state\<lparr>sat_activeSlot := slot\<rparr>)"
| "stateActionsReducer lc m state (SA_GET_ACTIONS_SUCCESS payload) = (case payload of
     None \<Rightarrow> Inl (TypeError ''inpArray is not iterable'')
   | Some (stats, new_groups) \<Rightarrow> (let groups = sortGroups lc new_groups (sat_currentSort state)
       in Inr (state\<lparr>sat_groups := groups, sat_filteredGroups := searchActionsInGroups (sat_activeSearch state) groups,
            sat_stats := Some stats\<rparr>)))"
| "stateActionsReducer lc m state SA_TOGGLE_SIDE_PANEL = Inr (state\<lparr>sat_openSidePanel := \<not> sat_openSidePanel state\<rparr>)"
| "stateActionsReducer lc m state (SA_GET_EARLIEST_SLOT_SUCCESS slot) = Inr (state\<lparr>sat_earliestSlot := slot\<rparr>)"
| "stateActionsReducer lc m state (SA_SORT srt) = Inr (state\<lparr>sat_currentSort := srt,
     sat_filteredGroups := sortGroups lc (sat_filteredGroups state) srt\<rparr>)"
| "stateActionsReducer lc m state (SA_SEARCH search) = (let groups = searchActionsInGroups search (sat_groups state)
     in Inr (state\<lparr>sat_activeSearch := search, sat_filteredGroups := sortGroups lc groups (sat_currentSort state)\<rparr>))"
| "stateActionsReducer lc m state SA_CLOSE = Inr (initial_state_actions m)"
| "stateActionsReducer lc m state _ = Inr state"

section \<open>The effects\<close>

record state_actions_effects =
  sae_earliest :: "(int option \<times> bool) option"
  sae_actions :: "int option option"

datatype state_actions_event =
    SaAct StateActionsActions "int option"
  | SaEarliestReply "int option" | SaEarliestFailure
  | SaActionsReply actions_response | SaActionsFailure

datatype state_actions_output = SaDispatch StateActionsActions | SaAddError | SaNavigate "int option"

text \<open>
  An action comes with the active slot of the state at its moment. The comparison of a number with
  \<open>undefined\<close> is false.
\<close>

definition earliest_answer :: "int option \<Rightarrow> bool \<Rightarrow> int option \<Rightarrow> state_actions_output list" where
  "earliest_answer activeSlot force slot = SaDispatch (SA_GET_EARLIEST_SLOT_SUCCESS slot) #
     (if activeSlot = None \<or> (\<exists>a s. activeSlot = Some a \<and> slot = Some s \<and> a > s) \<or> force
      then [SaNavigate slot, SaDispatch (SA_GET_ACTIONS slot)] else [])"

fun state_actions_effect ::
  "(rat \<Rightarrow> string) \<Rightarrow> state_actions_effects \<Rightarrow> state_actions_event \<Rightarrow> state_actions_effects \<times> state_actions_output list" where
  "state_actions_effect rd m (SaAct (SA_GET_EARLIEST_SLOT force) activeSlot) =
     (m\<lparr>sae_earliest := Some (activeSlot, force)\<rparr>, [])"
| "state_actions_effect rd m (SaAct (SA_GET_ACTIONS slot) activeSlot) = (m\<lparr>sae_actions := Some activeSlot\<rparr>, [])"
| "state_actions_effect rd m (SaAct SA_CLOSE activeSlot) = (m\<lparr>sae_earliest := None, sae_actions := None\<rparr>, [])"
| "state_actions_effect rd m (SaAct _ activeSlot) = (m, [])"
| "state_actions_effect rd m (SaEarliestReply slot) = (case sae_earliest m of None \<Rightarrow> (m, [])
     | Some (activeSlot, force) \<Rightarrow> (m\<lparr>sae_earliest := None\<rparr>, earliest_answer activeSlot force slot))"
| "state_actions_effect rd m SaEarliestFailure = (if sae_earliest m = None then (m, [])
     else (m\<lparr>sae_earliest := None\<rparr>, [SaAddError, SaDispatch (SA_GET_EARLIEST_SLOT_SUCCESS None)]))"
| "state_actions_effect rd m (SaActionsReply res) = (if sae_actions m = None then (m, [])
     else (m\<lparr>sae_actions := None\<rparr>, [SaDispatch (SA_GET_ACTIONS_SUCCESS (Some (getActions rd res)))]))"
| "state_actions_effect rd m SaActionsFailure = (if sae_actions m = None then (m, [])
     else (m\<lparr>sae_actions := None\<rparr>, [SaAddError, SaDispatch (SA_GET_ACTIONS_SUCCESS None)]))"

section \<open>The groups partition the names\<close>

lemma camel_slices_nonempty: "[] \<notin> set (camel_slices s)"
  by (induction s rule: camel_slices.induct) auto

lemma concat_camel_slices: "concat (camel_slices s) = s"
  by (induction s rule: camel_slices.induct) (auto simp: takeWhile_dropWhile_id)

lemma concat_camel_split: "concat (camel_split s) = s"
  by (simp add: camel_split_def concat_camel_slices)

lemma slice_buildups_prefix: "k \<in> set (slice_buildups b ps) \<Longrightarrow> \<exists>t. k @ t = b @ concat ps \<and> length b \<le> length k"
  by (induction ps arbitrary: b) fastforce+

lemma slice_buildups_strict:
  "[] \<notin> set ps \<Longrightarrow> k \<in> set (slice_buildups b ps) \<Longrightarrow> length b < length k"
  by (induction ps arbitrary: b) fastforce+

lemma distinct_slice_buildups: "[] \<notin> set ps \<Longrightarrow> distinct (slice_buildups b ps)"
proof (induction ps arbitrary: b)
  case (Cons p ps)
  have "b @ p \<notin> set (slice_buildups (b @ p) ps)"
    using slice_buildups_strict [of ps "b @ p" "b @ p"] Cons.prems by auto
  then show ?case using Cons by simp
qed simp

lemma last_slice_buildups: "ps \<noteq> [] \<Longrightarrow> b @ concat ps \<in> set (slice_buildups b ps)"
proof (induction ps arbitrary: b)
  case (Cons p ps)
  then show ?case by (cases "ps = []") (auto dest: Cons.IH [of "b @ p"])
qed simp

lemma distinct_name_prefixes: "distinct (name_prefixes n)"
  using distinct_slice_buildups [OF camel_slices_nonempty [of n], of "[]"]
  by (simp add: name_prefixes_def camel_split_def)

lemma name_in_prefixes: "n \<in> set (name_prefixes n)"
proof -
  have "camel_split n \<noteq> []" by (cases n) (simp_all add: camel_split_def)
  from last_slice_buildups [OF this, of "[]"] show ?thesis by (simp add: name_prefixes_def concat_camel_split)
qed

lemma prefix_of_name: "k \<in> set (name_prefixes n) \<Longrightarrow> \<exists>t. n = k @ t"
  using slice_buildups_prefix [of k "[]" "camel_split n"] by (auto simp: name_prefixes_def concat_camel_split)

lemma map_of_obj_set [simp]: "map_of (obj_set k v xs) = (map_of xs)(k \<mapsto> v)"
  by (induction k v xs rule: obj_set.induct) (auto simp: fun_upd_twist)

lemma keys_obj_set: "map fst (obj_set k v xs) = (if k \<in> fst ` set xs then map fst xs else map fst xs @ [k])"
  by (induction k v xs rule: obj_set.induct) auto

lemma distinct_obj_set: "distinct (map fst xs) \<Longrightarrow> distinct (map fst (obj_set k v xs))"
  by (auto simp: keys_obj_set)

lemma obj_set_new: "k \<notin> fst ` set xs \<Longrightarrow> obj_set k v xs = xs @ [(k, v)]"
  by (induction k v xs rule: obj_set.induct) auto

lemma push_groups:
  "distinct ks \<Longrightarrow> map_of (foldl (push_group n) groups ks) k =
    (if k \<in> set ks then Some ((case map_of groups k of None \<Rightarrow> [] | Some v \<Rightarrow> v) @ [n]) else map_of groups k)"
  by (induction ks arbitrary: groups) (auto simp: push_group_def)

lemma distinct_push_groups:
  "distinct (map fst groups) \<Longrightarrow> distinct (map fst (foldl (push_group n) groups ks))"
  by (induction ks arbitrary: groups) (simp_all add: push_group_def distinct_obj_set)

definition with_prefix :: "string \<Rightarrow> string list \<Rightarrow> string list" where
  "with_prefix k names = filter (\<lambda>n. k \<in> set (name_prefixes n)) names"

lemma prefix_groups_snoc:
  "prefix_groups (names @ [n]) = foldl (push_group n) (prefix_groups names) (name_prefixes n)"
  by (simp add: prefix_groups_def)

lemma map_of_prefix_groups:
  "map_of (prefix_groups names) k = (if with_prefix k names = [] then None else Some (with_prefix k names))"
proof (induction names rule: rev_induct)
  case (snoc n names)
  then show ?case by (auto simp: prefix_groups_snoc push_groups [OF distinct_name_prefixes] with_prefix_def)
qed (simp add: prefix_groups_def with_prefix_def)

lemma distinct_prefix_groups: "distinct (map fst (prefix_groups names))"
  by (induction names rule: rev_induct) (simp_all add: prefix_groups_snoc distinct_push_groups, simp add: prefix_groups_def)

lemma prefix_groups_entry:
  "(k, items) \<in> set (prefix_groups names) \<longleftrightarrow> items = with_prefix k names \<and> items \<noteq> []"
  using map_of_eq_Some_iff [OF distinct_prefix_groups, of names k items] by (auto simp: map_of_prefix_groups split: if_splits)

text \<open>What holds after any number of turns of the reduction.\<close>

definition grouping_inv :: "string list \<Rightarrow> groups \<Rightarrow> groups \<times> string list \<Rightarrow> bool" where
  "grouping_inv names seen gu \<longleftrightarrow>
     mset (concat (map snd (fst gu))) = mset (snd gu) \<and> distinct (snd gu) \<and> set (snd gu) \<subseteq> set names
     \<and> fst ` set (fst gu) \<subseteq> fst ` set seen
     \<and> (\<forall>(k, as) \<in> set (fst gu). length as > 1 \<and> set as \<subseteq> set (with_prefix k names) \<and> (k \<in> set names \<longrightarrow> k \<in> set (snd gu)))
     \<and> (\<forall>(k, items) \<in> set seen. length (filter (\<lambda>n. n \<notin> set (snd gu)) items) \<le> 1)"

lemma length_filter_mono: "(\<And>x. x \<in> set xs \<Longrightarrow> P x \<Longrightarrow> Q x) \<Longrightarrow> length (filter P xs) \<le> length (filter Q xs)"
  by (induction xs) auto

lemma group_step_inv:
  assumes inv: "grouping_inv names seen gu" and names: "distinct names"
    and entry: "items = with_prefix k names" "k \<notin> fst ` set seen"
  shows "grouping_inv names (seen @ [(k, items)]) (group_step gu (k, items))"
proof -
  obtain groups used where gu: "gu = (groups, used)" by force
  define actions where "actions = filter (\<lambda>n. n \<notin> set used) items"
  have seen: "\<forall>(k, items) \<in> set seen. length (filter (\<lambda>n. n \<notin> set (used @ actions)) items) \<le> 1"
  proof safe
    fix k' items' assume "(k', items') \<in> set seen"
    then have "length (filter (\<lambda>n. n \<notin> set used) items') \<le> 1" using inv gu by (auto simp: grouping_inv_def)
    then show "length (filter (\<lambda>n. n \<notin> set (used @ actions)) items') \<le> 1"
      using length_filter_mono [of items' "\<lambda>n. n \<notin> set (used @ actions)" "\<lambda>n. n \<notin> set used"] by simp
  qed
  show ?thesis
  proof (cases "length actions > 1")
    case False
    then show ?thesis using inv gu by (auto simp: grouping_inv_def group_step_def actions_def)
  next
    case True
    have step: "group_step gu (k, items) = (groups @ [(k, actions)], used @ actions)"
      using True inv entry(2) gu by (auto simp: group_step_def actions_def grouping_inv_def intro!: obj_set_new)
    have own: "k \<in> set (used @ actions)" if "k \<in> set names"
      using that entry(1) name_in_prefixes [of k] by (auto simp: actions_def with_prefix_def)
    have sub: "set actions \<subseteq> set (with_prefix k names)" "set actions \<subseteq> set names" "distinct actions"
      using entry(1) names by (auto simp: actions_def with_prefix_def)
    have none: "filter (\<lambda>n. n \<notin> set (used @ actions)) items = []"
      by (auto simp: actions_def filter_empty_conv)
    show ?thesis unfolding grouping_inv_def step
    proof (intro conjI)
      show "distinct (snd (groups @ [(k, actions)], used @ actions))"
        using inv sub gu by (auto simp: grouping_inv_def actions_def)
      show "\<forall>(k', items') \<in> set (seen @ [(k, items)]). length (filter (\<lambda>n. n \<notin> set (snd (groups @ [(k, actions)], used @ actions))) items') \<le> 1"
        using seen none by auto
      show "\<forall>(k', as) \<in> set (fst (groups @ [(k, actions)], used @ actions)). length as > 1 \<and> set as \<subseteq> set (with_prefix k' names)
          \<and> (k' \<in> set names \<longrightarrow> k' \<in> set (snd (groups @ [(k, actions)], used @ actions)))"
        using inv gu True sub own by (auto simp: grouping_inv_def)
    qed (use inv gu sub in \<open>auto simp: grouping_inv_def\<close>)
  qed
qed

lemma foldl_group_step_inv:
  assumes "distinct names" "distinct (map fst (seen @ entries))" "\<forall>(k, items) \<in> set entries. items = with_prefix k names"
    "grouping_inv names seen gu"
  shows "grouping_inv names (seen @ entries) (foldl group_step gu entries)"
  using assms
proof (induction entries arbitrary: seen gu)
  case (Cons e entries)
  obtain k items where e: "e = (k, items)" by force
  have "grouping_inv names (seen @ [(k, items)]) (group_step gu (k, items))"
    by (rule group_step_inv) (use Cons.prems e in auto)
  then show ?case using Cons.IH [of "seen @ [(k, items)]" "group_step gu (k, items)"] Cons.prems e by auto
qed simp

lemma distinct_keys_sorted: "distinct (map fst xs) \<Longrightarrow> distinct (map fst (filter P (js_sort c xs)))"
  by (metis distinct_map_filter mset_eq_imp_distinct_iff mset_js_sort mset_map)

lemma final_groups_inv:
  assumes "distinct names"
  shows "grouping_inv names (filter (\<lambda>(k, items). length items > 1) (js_sort longer_key (prefix_groups names))) (final_groups names)"
proof -
  let ?entries = "filter (\<lambda>(k, items). length items > 1) (js_sort longer_key (prefix_groups names))"
  have "set (js_sort longer_key (prefix_groups names)) = set (prefix_groups names)" by (metis mset_js_sort set_mset_mset)
  then have "\<forall>(k, items) \<in> set ?entries. items = with_prefix k names" by (auto simp: prefix_groups_entry)
  moreover have "distinct (map fst ([] @ ?entries))" using distinct_keys_sorted [OF distinct_prefix_groups] by simp
  moreover have "grouping_inv names [] ([], [])" by (simp add: grouping_inv_def)
  ultimately have "grouping_inv names ([] @ ?entries) (foldl group_step ([], []) ?entries)"
    by (intro foldl_group_step_inv [OF assms])
  then show ?thesis by (simp only: append_Nil final_groups_def)
qed

text \<open>The names left over are no keys of the groups, so the object of the single names only adds to them.\<close>

lemma getGroupNames_append:
  assumes "distinct names" "final_groups names = (groups, used)"
  shows "getGroupNames names = groups @ map (\<lambda>n. (n, [n])) (filter (\<lambda>n. n \<notin> set used) names)"
proof -
  have keys: "k \<in> set used" if "(k, as) \<in> set groups" "k \<in> set names" for k as
    using final_groups_inv [OF assms(1)] assms(2) that by (fastforce simp: grouping_inv_def)
  have "foldl (\<lambda>obj n. obj_set n [n] obj) gs ns = gs @ map (\<lambda>n. (n, [n])) ns"
    if "distinct ns" "\<forall>n \<in> set ns. n \<notin> fst ` set gs" for gs :: groups and ns
    using that
  proof (induction ns arbitrary: gs)
    case (Cons n ns)
    then have "\<forall>m \<in> set ns. m \<notin> fst ` set (gs @ [(n, [n])])" by auto
    then show ?case using Cons.IH [of "gs @ [(n, [n])]"] Cons.prems by (simp add: obj_set_new)
  qed simp
  moreover have "distinct (filter (\<lambda>n. n \<notin> set used) names)" using assms(1) by simp
  moreover have "\<forall>n \<in> set (filter (\<lambda>n. n \<notin> set used) names). n \<notin> fst ` set groups" using keys by force
  ultimately show ?thesis by (simp add: getGroupNames_def assms(2))
qed

lemma getGroupNames_cover:
  assumes "distinct names"
  shows "mset (concat (map snd (getGroupNames names))) = mset names"
proof -
  obtain groups used where f: "final_groups names = (groups, used)" by force
  note inv = final_groups_inv [OF assms, unfolded f grouping_inv_def fst_conv snd_conv]
  have "mset (concat (map snd (getGroupNames names))) = mset used + mset (filter (\<lambda>n. n \<notin> set used) names)"
    using inv by (simp add: getGroupNames_append [OF assms f] comp_def)
  moreover have "mset used = mset (filter (\<lambda>n. n \<in> set used) names)"
    using inv assms by (intro set_eq_iff_mset_eq_distinct [THEN iffD1]) auto
  moreover have "filter_mset (\<lambda>n. n \<in> set used) (mset names) + filter_mset (\<lambda>n. n \<notin> set used) (mset names) = mset names"
    by (metis multiset_partition)
  ultimately show ?thesis by simp
qed

text \<open>Groups that cover each name once, named by a prefix of their members.\<close>

definition partitions :: "string list \<Rightarrow> groups \<Rightarrow> bool" where
  "partitions names gs \<longleftrightarrow> mset (concat (map snd gs)) = mset names
     \<and> (\<forall>(k, as) \<in> set gs. as \<noteq> [] \<and> (\<forall>n \<in> set as. \<exists>t. n = k @ t))"

text \<open>
  C34: The grouping of action names is a partition: each name is in exactly one group, and a group's name
  is a common prefix of its members. It is as coarse as the prefixes allow in this sense: two names
  that stay alone have no camel-case prefix in common.
\<close>

theorem getGroupNames_partition:
  assumes "distinct names"
  shows "partitions names (getGroupNames names)
    \<and> (\<forall>a b. (a, [a]) \<in> set (getGroupNames names) \<longrightarrow> (b, [b]) \<in> set (getGroupNames names) \<longrightarrow> a \<noteq> b \<longrightarrow>
        set (name_prefixes a) \<inter> set (name_prefixes b) = {})"
proof -
  obtain groups used where f: "final_groups names = (groups, used)" by force
  define single where "single = filter (\<lambda>n. n \<notin> set used) names"
  have g: "getGroupNames names = groups @ map (\<lambda>n. (n, [n])) single"
    using getGroupNames_append [OF assms f] by (simp add: single_def)
  note inv = final_groups_inv [OF assms, unfolded f grouping_inv_def fst_conv snd_conv]
  have grouped: "length as > 1 \<and> set as \<subseteq> set (with_prefix k names)" if "(k, as) \<in> set groups" for k as
    using inv that by auto
  have prefixes: "as \<noteq> [] \<and> (\<forall>n \<in> set as. \<exists>t. n = k @ t)" if "(k, as) \<in> set (getGroupNames names)" for k as
    using that grouped [of k as] prefix_of_name [of k] by (auto simp: g with_prefix_def)
  have "set (name_prefixes a) \<inter> set (name_prefixes b) = {}"
    if ab: "(a, [a]) \<in> set (getGroupNames names)" "(b, [b]) \<in> set (getGroupNames names)" "a \<noteq> b" for a b
  proof (rule ccontr)
    have s: "a \<in> set single" "b \<in> set single" using ab(1, 2) grouped [of a "[a]"] grouped [of b "[b]"] by (auto simp: g)
    assume "set (name_prefixes a) \<inter> set (name_prefixes b) \<noteq> {}"
    then obtain k where k: "a \<in> set (with_prefix k names)" "b \<in> set (with_prefix k names)"
      using s by (auto simp: with_prefix_def single_def)
    let ?rest = "filter (\<lambda>n. n \<notin> set used) (with_prefix k names)"
    have two: "length xs \<ge> 2" if "a \<in> set xs" "b \<in> set xs" for xs :: "string list"
      using that ab(3) by (cases xs; cases "tl xs") auto
    have "(k, with_prefix k names) \<in> set (prefix_groups names)" using k by (auto simp: prefix_groups_entry)
    then have "(k, with_prefix k names) \<in> set (js_sort longer_key (prefix_groups names))"
      by (metis mset_js_sort set_mset_mset)
    then have "length ?rest \<le> 1" using inv two [OF k] by fastforce
    moreover have "length ?rest \<ge> 2" by (rule two) (use k s in \<open>auto simp: single_def\<close>)
    ultimately show False by simp
  qed
  moreover have "partitions names (getGroupNames names)"
    unfolding partitions_def using getGroupNames_cover [OF assms] prefixes by blast
  ultimately show ?thesis by blast
qed

theorem getGroupNames_partition_witness:
  "partitions [''PeerAdd'', ''PeerDrop'', ''Tick''] (getGroupNames [''PeerAdd'', ''PeerDrop'', ''Tick''])"
  using getGroupNames_partition [of "[''PeerAdd'', ''PeerDrop'', ''Tick'']"] by simp

section \<open>The counts of the groups\<close>

lemma foldl_add: "foldl (\<lambda>acc x. acc + f x) (z :: 'b :: comm_monoid_add) xs = z + sum_list (map f xs)"
  by (induction xs arbitrary: z) (simp_all add: algebra_simps)

lemma sum_membership:
  "list_all distinct ls \<Longrightarrow>
   sum_list (map (\<lambda>l. if n \<in> set l then c else 0) ls) = of_nat (count (mset (concat ls)) n) * (c :: int)"
  by (induction ls) (auto simp: algebra_simps distinct_count_atmost_1 count_eq_zero_iff)

definition entry_calls :: "string \<times> (string \<times> action_range) list \<Rightarrow> int" where
  "entry_calls entry = sum_list (map (\<lambda>(range, r). ar_total_calls r) (snd entry))"

lemma group_action_count: "sga_totalCount (group_action g entry) = entry_calls entry"
  by (simp add: group_action_def entry_calls_def foldl_add comp_def action_column_def case_prod_unfold)

lemma sum_over_groups:
  assumes "list_all distinct ls" "\<forall>entry \<in> set response. count (mset (concat ls)) (fst entry) = 1"
  shows "sum_list (map (\<lambda>l. sum_list (map entry_calls (filter (\<lambda>entry. fst entry \<in> set l) response))) ls)
    = sum_list (map entry_calls response)"
  using assms(2)
proof (induction response)
  case (Cons e response)
  have "sum_list (map (\<lambda>l. sum_list (map entry_calls (filter (\<lambda>entry. fst entry \<in> set l) (e # response)))) ls)
      = sum_list (map (\<lambda>l. (if fst e \<in> set l then entry_calls e else 0)
          + sum_list (map entry_calls (filter (\<lambda>entry. fst entry \<in> set l) response))) ls)"
    by (rule arg_cong [of _ _ sum_list], rule map_cong) auto
  also have "\<dots> = entry_calls e + sum_list (map entry_calls response)"
    using Cons sum_membership [OF assms(1), of "fst e" "entry_calls e"] by (simp add: sum_list_addf)
  finally show ?case by simp
qed simp

lemma convertTimes_keys [simp]: "map fst (convertTimesToSeconds response) = map fst response"
  by (simp add: convertTimesToSeconds_def comp_def case_prod_unfold)

lemma convertTimes_calls [simp]: "map entry_calls (convertTimesToSeconds response) = map entry_calls response"
  by (simp add: convertTimesToSeconds_def entry_calls_def comp_def case_prod_unfold)

text \<open>
  C35: No call is lost or counted twice on the page: the counts of the groups add up to the calls of all
  actions in the answer.
\<close>

theorem mapActions_conserves_calls:
  assumes "distinct (map fst response)"
  shows "sum_list (map sg_count (mapActions response)) = sum_list (map entry_calls response)"
proof -
  let ?r = "convertTimesToSeconds response" and ?gs = "getGroupNames (map fst response)"
  have part: "mset (concat (map snd ?gs)) = mset (map fst response)"
    by (rule getGroupNames_cover [OF assms])
  then have "distinct (concat (map snd ?gs))" using assms by (metis mset_eq_imp_distinct_iff)
  then have dist: "list_all distinct (map snd ?gs)" by (auto simp: list_all_iff distinct_concat_iff)
  have one: "\<forall>entry \<in> set ?r. count (mset (concat (map snd ?gs))) (fst entry) = 1"
  proof
    fix entry assume "entry \<in> set ?r"
    then have "fst entry \<in> set (map fst response)" by (metis convertTimes_keys image_eqI list.set_map)
    then show "count (mset (concat (map snd ?gs))) (fst entry) = 1"
      unfolding part using assms by (metis distinct_count_atmost_1)
  qed
  have "sum_list (map sg_count (mapActions response))
      = sum_list (map (\<lambda>l. sum_list (map entry_calls (filter (\<lambda>entry. fst entry \<in> set l) ?r))) (map snd ?gs))"
    by (simp add: mapActions_def action_group_def foldl_add comp_def group_action_count)
  also have "\<dots> = sum_list (map entry_calls ?r)" by (rule sum_over_groups [OF dist one])
  finally show ?thesis by simp
qed

theorem mapActions_conserves_calls_witness:
  "sum_list (map sg_count (mapActions [(''PeerAdd'', [(''r'', \<lparr>ar_total_calls = 3, ar_total_duration = 1, ar_max_duration = 1\<rparr>)]),
     (''PeerDrop'', [(''r'', \<lparr>ar_total_calls = 4, ar_total_duration = 1, ar_max_duration = 1\<rparr>)])])) = 7"
  using mapActions_conserves_calls [of "[(''PeerAdd'', [(''r'', \<lparr>ar_total_calls = 3, ar_total_duration = 1, ar_max_duration = 1\<rparr>)]),
     (''PeerDrop'', [(''r'', \<lparr>ar_total_calls = 4, ar_total_duration = 1, ar_max_duration = 1\<rparr>)])]"]
  by (simp add: entry_calls_def)

section \<open>Squares, failures and the search\<close>

text \<open>The number of squares of a cell is the number of decimal digits of its calls, at most 8.\<close>

lemma square_loop_digits: "square_loop q = Suc k \<Longrightarrow> 10 ^ k \<le> q \<and> q < 10 ^ Suc k"
proof (induction k arbitrary: q)
  case 0
  then have "1 \<le> q" "\<not> 1 \<le> q / 10" by (auto simp: square_loop.simps [of q] square_loop.simps [of "q / 10"] split: if_splits)
  then show ?case by simp
next
  case (Suc k)
  then have "square_loop (q / 10) = Suc k" by (auto simp: square_loop.simps [of q] split: if_splits)
  from Suc.IH [OF this] show ?case by simp
qed

lemma getSquareCount_bound: "getSquareCount calls \<le> 8"
  by (simp add: getSquareCount_def)

text \<open>
  A failed request for the actions of a slot makes the reducer throw: the effect reports the failure
  with an empty array, and the reducer sorts its missing second element.
\<close>

theorem actions_failure_throws:
  assumes "sae_actions m \<noteq> None"
  shows "\<exists>a. SaDispatch a \<in> set (snd (state_actions_effect rd m SaActionsFailure))
    \<and> stateActionsReducer lc mob state a = Inl (TypeError ''inpArray is not iterable'')"
  using assms by (intro exI [of _ "SA_GET_ACTIONS_SUCCESS None"]) simp

theorem actions_failure_throws_witness:
  "\<exists>a. SaDispatch a \<in> set (snd (state_actions_effect (\<lambda>_. []) \<lparr>sae_earliest = None, sae_actions = Some (Some 7)\<rparr> SaActionsFailure))
    \<and> stateActionsReducer code_unit_compare False (initial_state_actions False) a = Inl (TypeError ''inpArray is not iterable'')"
  using actions_failure_throws [of "\<lparr>sae_earliest = None, sae_actions = Some (Some 7)\<rparr>"] by simp

interpretation state_action_columns: table_columns get_state_action "[]"
  by unfold_locales simp

text \<open>A search shows a group exactly when one of its actions matches, and hides no group for good.\<close>

lemma search_display:
  assumes "g \<in> set (searchActionsInGroups toSearch groups)" "toSearch \<noteq> []"
  shows "sg_display g \<longleftrightarrow> (\<exists>a \<in> set (sg_actions g). js_includes (js_toLowerCase (sga_fullTitle a)) (js_toLowerCase toSearch))"
  using assms by (force simp: searchActionsInGroups_def mark_actions_def list_ex_iff)

lemma search_keeps_groups: "map sg_groupName (searchActionsInGroups toSearch groups) = map sg_groupName groups"
  by (simp add: searchActionsInGroups_def mark_actions_def comp_def)

end
