(* ===== verification/MemoryResources.thy ===== *)
theory MemoryResources
  imports ArrayHelper NgRx
begin

text \<open>
  The page of the memory profiler (\<open>features/resources/memory\<close>): the service that turns the
  profiler's tree of frames into numbered resources, the slice with its breadcrumbs, and the effects.
  An object of the tree is its value: the numbers of the resources of one tree differ, so two of them
  are the same object when they are equal. The components are in \<open>MemoryTreemap\<close>.
\<close>

section \<open>The service\<close>

datatype FrameName = NamedFrame string | CodeFrame string string "string option"

text \<open>A frame of the answer; \<open>name\<close> is a string or an object with executable, offset and function.\<close>

datatype MemoryResourceTree =
  FrameTree FrameName "rat option" "MemoryResourceTree list option"

record MemoryResourceName =
  mn_executableName :: string
  mn_functionName :: "string option"

datatype MemoryResource =
  MemoryResource (mr_name: MemoryResourceName) (mr_value: "rat option") (mr_children: "MemoryResource list") (mr_id: nat)

text \<open>
  \<open>+(Math.round(Number(num + 'e+2')) + 'e-2')\<close>. A number prints with an exponent of its own when it is
  smaller than a millionth or not below \<open>1e21\<close>, and a text with two exponents is not a number.
\<close>

definition prints_plain :: "rat \<Rightarrow> bool" where
  "prints_plain x \<longleftrightarrow> x = 0 \<or> 1 / 10 ^ 6 \<le> \<bar>x\<bar> \<and> \<bar>x\<bar> < 10 ^ 21"

definition round_num :: "rat option \<Rightarrow> rat option" where
  "round_num num = (case num of None \<Rightarrow> None
     | Some x \<Rightarrow> (let n = \<lfloor>x * 100 + 1 / 2\<rfloor>
         in if prints_plain x \<and> prints_plain (of_int n) then Some (of_int n / 100) else None))"

definition rounded_text :: "rat option \<Rightarrow> string" where
  "rounded_text x = (case x of None \<Rightarrow> ''NaN''
     | Some r \<Rightarrow> (let h = nat \<lfloor>\<bar>r\<bar> * 100\<rfloor>
         in (if r < 0 then ''-'' else []) @ nat_to_string (h div 100) @ fraction_text (h mod 100)))"

fun getFrameName :: "FrameName \<Rightarrow> rat \<Rightarrow> MemoryResourceName" where
  "getFrameName (NamedFrame n) threshold = \<lparr>mn_executableName =
     (if n = ''underThreshold'' then ''below '' @ rounded_text (round_num (Some threshold)) @ '' KB'' else n),
     mn_functionName = None\<rparr>"
| "getFrameName (CodeFrame executable offset functionName) threshold =
     \<lparr>mn_executableName = executable @ ''@'' @ offset, mn_functionName = functionName\<rparr>"

definition larger_first :: "MemoryResource \<Rightarrow> MemoryResource \<Rightarrow> rat" where
  "larger_first c1 c2 = (case (mr_value c2, mr_value c1) of (Some b, Some a) \<Rightarrow> b - a | _ \<Rightarrow> 0)"

text \<open>
  The loop of \<open>build\<close>, with the counter \<open>this.id\<close> as an argument. The fields of a resource are
  evaluated in the order of the source, so its number is taken after those of its children.
\<close>

fun build_frames :: "rat \<Rightarrow> MemoryResourceTree list \<Rightarrow> nat \<Rightarrow> MemoryResource list \<times> nat" where
  "build_frames threshold [] ident = ([], ident)"
| "build_frames threshold (FrameTree nm v None # frames) ident =
     (let (siblings, ident') = build_frames threshold frames (ident + 1)
      in (MemoryResource (getFrameName nm threshold) (round_num v) [] ident # siblings, ident'))"
| "build_frames threshold (FrameTree nm v (Some fs) # frames) ident =
     (let (children, ident1) = build_frames threshold fs ident;
          (siblings, ident') = build_frames threshold frames (ident1 + 1)
      in (MemoryResource (getFrameName nm threshold) (round_num v) (js_sort larger_first children) ident1 # siblings, ident'))"

definition build :: "rat \<Rightarrow> MemoryResourceTree list \<Rightarrow> nat \<Rightarrow> MemoryResource list \<times> nat" where
  "build threshold frames ident =
    (let (children, ident') = build_frames threshold frames ident in (js_sort larger_first children, ident'))"

fun frame_function :: "FrameName \<Rightarrow> string option" where
  "frame_function (NamedFrame n) = None"
| "frame_function (CodeFrame executable offset functionName) = functionName"

fun mapMemoryResponse :: "MemoryResourceTree \<Rightarrow> rat \<Rightarrow> nat \<Rightarrow> (MemoryResource \<times> nat) result" where
  "mapMemoryResponse (FrameTree nm v None) threshold ident = Inl (TypeError ''forEach'')"
| "mapMemoryResponse (FrameTree nm v (Some frames)) threshold ident =
     (let (children, ident') = build threshold frames ident
      in Inr (MemoryResource \<lparr>mn_executableName = ''root'', mn_functionName = frame_function nm\<rparr> (round_num v)
           children ident', ident' + 1))"

section \<open>The size pipe\<close>

definition resSize :: "jsval \<Rightarrow> string" where
  "resSize kilobytes = (case kilobytes of
      JNum k \<Rightarrow> if k \<ge> 1048576 then fixed2_text (k / 1048576) @ '' GB''
        else if k \<ge> 1024 then fixed2_text (k / 1024) @ '' MB'' else fixed2_text k @ '' KB''
    | JNaN \<Rightarrow> ''NaN KB'' | _ \<Rightarrow> ''0 KB'')"

section \<open>The slice\<close>

datatype TreemapView = BINARY | SQUARE | SLICE | DICE | OtherView string

record MemoryResourcesState =
  mrs_resource :: "MemoryResource option"
  mrs_activeResource :: "MemoryResource option"
  mrs_breadcrumbs :: "MemoryResource option list"
  mrs_granularity :: rat
  mrs_treemapView :: TreemapView

datatype MemoryResourcesActions =
    MR_GET
  | MR_GET_SUCCESS "MemoryResource option"
  | MR_SET_ACTIVE_RESOURCE "MemoryResource option"
  | MR_SET_GRANULARITY rat
  | MR_SET_TREEMAP_VIEW TreemapView
  | MR_CLOSE

text \<open>
  The initial state reads the browser's storage once, when the module is loaded: \<open>Undefined\<close> where
  there is no storage, \<open>Null\<close> where the key is not set. \<open>Number(null)\<close> is 0.
\<close>

fun number_of_item :: "string js \<Rightarrow> rat option" where
  "number_of_item Undefined = None"
| "number_of_item Null = Some 0"
| "number_of_item (Val s) = js_string_to_number s"

definition view_of_text :: "string \<Rightarrow> TreemapView" where
  "view_of_text s = (if s = ''binary'' then BINARY else if s = ''square'' then SQUARE
     else if s = ''slice'' then SLICE else if s = ''dice'' then DICE else OtherView s)"

fun view_of_item :: "string js \<Rightarrow> TreemapView" where
  "view_of_item (Val s) = (if s = [] then BINARY else view_of_text s)"
| "view_of_item _ = BINARY"

definition initial_memory_resources :: "string js \<Rightarrow> string js \<Rightarrow> MemoryResourcesState" where
  "initial_memory_resources granularity view = \<lparr>mrs_resource = None, mrs_activeResource = None, mrs_breadcrumbs = [],
     mrs_granularity = nanOrElse (number_of_item granularity) 512 (\<lambda>r. r), mrs_treemapView = view_of_item view\<rparr>"

text \<open>\<open>breadcrumbs.findIndex(b => b.id === payload.id)\<close>; reading the id of an undefined entry throws.\<close>

fun index_of_same :: "nat \<Rightarrow> MemoryResource option list \<Rightarrow> int result" where
  "index_of_same ident [] = Inr (- 1)"
| "index_of_same ident (None # bs) = Inl (TypeError ''id'')"
| "index_of_same ident (Some b # bs) = (if mr_id b = ident then Inr 0
     else js_bind (index_of_same ident bs) (\<lambda>i. Inr (if i = - 1 then - 1 else i + 1)))"

fun set_active_resource :: "MemoryResourcesState \<Rightarrow> MemoryResource option \<Rightarrow> MemoryResourcesState result" where
  "set_active_resource state payload = (if mrs_activeResource state = payload then Inr state
     else case payload of
       None \<Rightarrow> Inl (TypeError ''name'')
     | Some r \<Rightarrow> if mn_executableName (mr_name r) = ''root''
         then Inr (state\<lparr>mrs_activeResource := payload, mrs_breadcrumbs := [mrs_resource state]\<rparr>)
         else js_bind (index_of_same (mr_id r) (mrs_breadcrumbs state)) (\<lambda>i.
           Inr (state\<lparr>mrs_activeResource := payload,
             mrs_breadcrumbs := if i \<noteq> - 1 then js_slice 0 (i + 1) (mrs_breadcrumbs state)
               else mrs_breadcrumbs state @ [payload]\<rparr>)))"

declare set_active_resource.simps [simp del]

fun memoryResourcesReducer ::
  "MemoryResourcesState \<Rightarrow> MemoryResourcesState \<Rightarrow> MemoryResourcesActions \<Rightarrow> MemoryResourcesState result" where
  "memoryResourcesReducer initialState state (MR_GET_SUCCESS payload) = Inr (state\<lparr>mrs_resource := payload,
     mrs_breadcrumbs := (case payload of None \<Rightarrow> [] | Some r \<Rightarrow> [Some r]), mrs_activeResource := payload\<rparr>)"
| "memoryResourcesReducer initialState state (MR_SET_ACTIVE_RESOURCE payload) = set_active_resource state payload"
| "memoryResourcesReducer initialState state (MR_SET_GRANULARITY g) = Inr (state\<lparr>mrs_granularity := g,
     mrs_resource := None, mrs_activeResource := None, mrs_breadcrumbs := []\<rparr>)"
| "memoryResourcesReducer initialState state (MR_SET_TREEMAP_VIEW v) = Inr (state\<lparr>mrs_treemapView := v\<rparr>)"
| "memoryResourcesReducer initialState state MR_CLOSE = Inr initialState"
| "memoryResourcesReducer initialState state MR_GET = Inr state"

section \<open>The effects\<close>

text \<open>The granularity of the request \<open>getResources$\<close> waits for, and the counter of the service.\<close>

record memory_effects =
  me_pending :: "rat option"
  me_id :: nat

datatype memory_event = MeAct MemoryResourcesActions rat | MeReply MemoryResourceTree | MeFailure

datatype memory_output = MeDispatch MemoryResourcesActions | MeAddError

definition initial_memory_effects :: memory_effects where
  "initial_memory_effects = \<lparr>me_pending = None, me_id = 0\<rparr>"

text \<open>An action comes with the granularity of the state at its moment.\<close>

fun memory_effect :: "memory_effects \<Rightarrow> memory_event \<Rightarrow> memory_effects \<times> memory_output list" where
  "memory_effect m (MeAct MR_GET granularity) = (m\<lparr>me_pending := Some granularity, me_id := 0\<rparr>, [])"
| "memory_effect m (MeAct MR_CLOSE granularity) = (m\<lparr>me_pending := None\<rparr>, [])"
| "memory_effect m (MeAct (MR_SET_GRANULARITY g) granularity) = (m, [MeDispatch MR_GET])"
| "memory_effect m (MeAct _ granularity) = (m, [])"
| "memory_effect m (MeReply response) = (case me_pending m of None \<Rightarrow> (m, [])
     | Some threshold \<Rightarrow> (case mapMemoryResponse response threshold (me_id m) of
         Inl e \<Rightarrow> (m\<lparr>me_pending := None\<rparr>, [MeAddError, MeDispatch (MR_GET_SUCCESS None)])
       | Inr (r, ident) \<Rightarrow> (m\<lparr>me_pending := None, me_id := ident\<rparr>, [MeDispatch (MR_GET_SUCCESS (Some r))])))"
| "memory_effect m MeFailure = (if me_pending m = None then (m, [])
     else (m\<lparr>me_pending := None\<rparr>, [MeAddError, MeDispatch (MR_GET_SUCCESS None)]))"

section \<open>The numbers and the order of the resources\<close>

fun resources_in :: "MemoryResource \<Rightarrow> MemoryResource list" where
  "resources_in (MemoryResource nm v cs i) = MemoryResource nm v cs i # concat (map resources_in cs)"

lemma resources_in_unfold: "resources_in r = r # concat (map resources_in (mr_children r))"
  by (cases r) simp

fun frame_count :: "MemoryResourceTree \<Rightarrow> nat" where
  "frame_count (FrameTree nm v None) = 1"
| "frame_count (FrameTree nm v (Some fs)) = 1 + sum_list (map frame_count fs)"

abbreviation forest_ids :: "MemoryResource list \<Rightarrow> nat list" where
  "forest_ids rs \<equiv> map mr_id (concat (map resources_in rs))"

lemma mset_concat_map_cong: "mset xs = mset ys \<Longrightarrow> mset (concat (map f xs)) = mset (concat (map f ys))"
  by (metis mset_concat mset_map sum_mset_sum_list map_map comp_def)

lemma mset_range_split:
  fixes i j k :: nat
  assumes "i \<le> k" "k < j"
  shows "mset_set {i..<j} = mset_set {i..<k} + add_mset k (mset_set {Suc k..<j})"
proof -
  have "{i..<j} = {i..<k} \<union> insert k {Suc k..<j}" using assms by auto
  moreover have "{i..<k} \<inter> insert k {Suc k..<j} = {}" by auto
  ultimately show ?thesis by (simp add: mset_set_Union)
qed

lemma build_frames_ids:
  "build_frames threshold frames i = (rs, j) \<Longrightarrow>
   mset (forest_ids rs) = mset_set {i..<j} \<and> j = i + sum_list (map frame_count frames)"
proof (induction threshold frames i arbitrary: rs j rule: build_frames.induct)
  case (2 threshold nm v frames i)
  obtain sib j' where b: "build_frames threshold frames (i + 1) = (sib, j')" by force
  have ih: "mset (forest_ids sib) = mset_set {i + 1..<j'}" "j' = i + 1 + sum_list (map frame_count frames)"
    using 2(1) [OF b] by simp_all
  show ?case using 2(2) b ih mset_range_split [of i i j'] by auto
next
  case (3 threshold nm v fs frames i)
  obtain cs k where c: "build_frames threshold fs i = (cs, k)" by force
  obtain sib j' where b: "build_frames threshold frames (k + 1) = (sib, j')" by force
  have ihc: "mset (forest_ids cs) = mset_set {i..<k}" "k = i + sum_list (map frame_count fs)"
    using 3(1) [OF c] by simp_all
  have ihs: "mset (forest_ids sib) = mset_set {k + 1..<j'}" "j' = k + 1 + sum_list (map frame_count frames)"
    using 3(2) [OF c [symmetric] refl b] by simp_all
  have "mset (concat (map resources_in (js_sort larger_first cs))) = mset (concat (map resources_in cs))"
    by (rule mset_concat_map_cong) simp
  then show ?case using 3(3) c b ihc ihs mset_range_split [of i k j'] by auto
qed auto

text \<open>A resource shows a frame: its name and rounded size, and its children show the frames below.\<close>

inductive depicts :: "rat \<Rightarrow> MemoryResource \<Rightarrow> MemoryResourceTree \<Rightarrow> bool" for threshold where
  leaf: "depicts threshold (MemoryResource (getFrameName nm threshold) (round_num v) [] i) (FrameTree nm v None)"
| inner: "list_all2 (depicts threshold) cs fs \<Longrightarrow> mset cs = mset cs' \<Longrightarrow>
    depicts threshold (MemoryResource (getFrameName nm threshold) (round_num v) cs' i) (FrameTree nm v (Some fs))"

lemma build_frames_depicts:
  "build_frames threshold frames i = (rs, j) \<Longrightarrow> list_all2 (depicts threshold) rs frames"
proof (induction threshold frames i arbitrary: rs j rule: build_frames.induct)
  case (2 threshold nm v frames i)
  then show ?case by (auto split: prod.splits intro: depicts.leaf)
next
  case (3 threshold nm v fs frames i)
  obtain cs k where c: "build_frames threshold fs i = (cs, k)" by force
  obtain sib j' where b: "build_frames threshold frames (k + 1) = (sib, j')" by force
  have "list_all2 (depicts threshold) cs fs" "list_all2 (depicts threshold) sib frames"
    using 3(1) [OF c] 3(2) [OF c [symmetric] refl b] by simp_all
  then show ?case using 3(3) c b by (auto intro: depicts.inner)
qed auto

interpretation largest: key_comparator larger_first "\<lambda>c. - the (mr_value c)" "{c. mr_value c \<noteq> None}"
  by unfold_locales (auto simp: larger_first_def)

fun measured :: "MemoryResourceTree \<Rightarrow> bool" where
  "measured (FrameTree nm v None) \<longleftrightarrow> round_num v \<noteq> None"
| "measured (FrameTree nm v (Some fs)) \<longleftrightarrow> round_num v \<noteq> None \<and> list_all measured fs"

definition descending :: "MemoryResource list \<Rightarrow> bool" where
  "descending rs \<longleftrightarrow> sorted_wrt (\<lambda>a b. the (mr_value b) \<le> the (mr_value a)) rs"

definition ordered :: "MemoryResource \<Rightarrow> bool" where
  "ordered r \<longleftrightarrow> (\<forall>d \<in> set (resources_in r). descending (mr_children d))"

lemma descending_sort: "(\<And>c. c \<in> set cs \<Longrightarrow> mr_value c \<noteq> None) \<Longrightarrow> descending (js_sort larger_first cs)"
  using largest.js_sort_sorted_key [of cs] by (auto simp: descending_def sorted_map)

lemma ordered_simp: "ordered (MemoryResource nm v cs i) \<longleftrightarrow> descending cs \<and> (\<forall>c \<in> set cs. ordered c)"
  by (auto simp: ordered_def)

lemma build_frames_ordered:
  "build_frames threshold frames i = (rs, j) \<Longrightarrow> list_all measured frames \<Longrightarrow>
   \<forall>r \<in> set rs. mr_value r \<noteq> None \<and> ordered r"
proof (induction threshold frames i arbitrary: rs j rule: build_frames.induct)
  case (2 threshold nm v frames i)
  then show ?case by (auto split: prod.splits simp: ordered_def descending_def)
next
  case (3 threshold nm v fs frames i)
  obtain cs k where c: "build_frames threshold fs i = (cs, k)" by force
  obtain sib j' where b: "build_frames threshold frames (k + 1) = (sib, j')" by force
  have "\<forall>r \<in> set cs. mr_value r \<noteq> None \<and> ordered r" "\<forall>r \<in> set sib. mr_value r \<noteq> None \<and> ordered r"
    using 3(1) [OF c] 3(2) [OF c [symmetric] refl b] 3(4) by simp_all
  then show ?case using 3(3,4) c b descending_sort [of cs] by (auto simp: ordered_simp)
qed auto

text \<open>
  C37: The answer of the profiler becomes a tree of the same shape, level by level in some order, in
  which the resources are numbered from 0 without a gap, the root last, and, where every size is a
  number, the resources of each level are listed from the largest to the smallest.
\<close>

theorem mapMemoryResponse_tree:
  fixes nm v frames threshold
  defines "n \<equiv> frame_count (FrameTree nm v (Some frames))"
  shows "\<exists>r cs. mapMemoryResponse (FrameTree nm v (Some frames)) threshold 0 = Inr (r, n)
    \<and> mr_id r = n - 1 \<and> mset (map mr_id (resources_in r)) = mset_set {0..<n}
    \<and> list_all2 (depicts threshold) cs frames \<and> mset cs = mset (mr_children r)
    \<and> (list_all measured frames \<longrightarrow> ordered r)"
proof -
  obtain cs j where b: "build_frames threshold frames 0 = (cs, j)" by force
  have ids: "mset (forest_ids cs) = mset_set {0..<j}" and j: "j = sum_list (map frame_count frames)"
    using build_frames_ids [OF b] by simp_all
  define r where "r = MemoryResource \<lparr>mn_executableName = ''root'', mn_functionName = frame_function nm\<rparr> (round_num v)
    (js_sort larger_first cs) j"
  have "mset (concat (map resources_in (js_sort larger_first cs))) = mset (concat (map resources_in cs))"
    by (rule mset_concat_map_cong) simp
  then have "mset (map mr_id (resources_in r)) = mset_set {0..<n}"
    using ids j mset_range_split [of 0 j n] by (auto simp: r_def n_def)
  moreover have "mapMemoryResponse (FrameTree nm v (Some frames)) threshold 0 = Inr (r, n)"
    using b j by (simp add: r_def n_def build_def)
  moreover have "ordered r" if "list_all measured frames"
    using build_frames_ordered [OF b that] descending_sort [of cs] by (auto simp: r_def ordered_simp)
  ultimately show ?thesis using build_frames_depicts [OF b] j
    by (intro exI [of _ r] exI [of _ cs]) (simp add: r_def n_def)
qed

text \<open>Rounding keeps whole numbers.\<close>

lemma prints_plain_int: "\<bar>k\<bar> < 10 ^ 20 \<Longrightarrow> prints_plain (of_int k)"
proof (cases "k = 0")
  case False
  assume k: "\<bar>k\<bar> < 10 ^ 20"
  have "(of_int \<bar>k\<bar> :: rat) < of_int (10 ^ 20)" using k by (simp only: of_int_less_iff)
  moreover have "(of_int 1 :: rat) \<le> of_int \<bar>k\<bar>" using False by (simp only: of_int_le_iff)
  ultimately show ?thesis by (simp add: prints_plain_def)
qed (simp add: prints_plain_def)

lemma round_num_int: "\<bar>k\<bar> < 10 ^ 18 \<Longrightarrow> round_num (Some (of_int k)) = Some (of_int k)"
proof -
  assume k: "\<bar>k\<bar> < 10 ^ 18"
  have fl: "\<lfloor>(of_int k :: rat) * 100 + 1 / 2\<rfloor> = k * 100" by (rule floor_unique) simp_all
  have "prints_plain (of_int k)" "prints_plain (of_int (k * 100))"
    using prints_plain_int [of k] prints_plain_int [of "k * 100"] k by simp_all
  then show ?thesis unfolding round_num_def option.case Let_def fl by simp
qed

lemmas round_num_numeral [simp] = round_num_int [of "numeral n" for n, simplified]

definition sample_frames :: "MemoryResourceTree list" where
  "sample_frames = [FrameTree (NamedFrame ''underThreshold'') (Some 4) None,
     FrameTree (CodeFrame ''mina'' ''2f'' (Some ''alloc'')) (Some 26)
       (Some [FrameTree (CodeFrame ''mina'' ''30'' None) (Some 25) (Some [])])]"

theorem mapMemoryResponse_tree_witness:
  "list_all measured sample_frames
   \<and> (\<exists>r. mapMemoryResponse (FrameTree (NamedFrame ''total'') (Some 30) (Some sample_frames)) 512 0 = Inr (r, 4) \<and> ordered r)"
proof -
  have m: "list_all measured sample_frames" by (simp add: sample_frames_def)
  have n: "frame_count (FrameTree (NamedFrame ''total'') (Some 30) (Some sample_frames)) = 4"
    by (simp add: sample_frames_def)
  from m show ?thesis
    using mapMemoryResponse_tree [of "NamedFrame ''total''" "Some 30" sample_frames 512] unfolding n by blast
qed

text \<open>
  The default granularity is not used in a browser: a key that was never set reads as \<open>null\<close>, which
  converts to the number 0.
\<close>

lemma default_granularity:
  "mrs_granularity (initial_memory_resources Null v) = 0"
  "mrs_granularity (initial_memory_resources Undefined v) = 512"
  by (simp_all add: initial_memory_resources_def nanOrElse_def)

end
