(* ===== verification/MemoryTreemap.thy ===== *)
theory MemoryTreemap
  imports MemoryResources
begin

text \<open>
  The components of the memory profiler's page (\<open>features/resources/memory\<close>) with their slice and
  effects as one machine: the treemap with its zooming, the table, the breadcrumbs and the toolbar.
\<close>

section \<open>The treemap\<close>

text \<open>
  A node of the hierarchy that d3 builds from a resource and places: its data, its rectangle and its
  children, which are \<open>undefined\<close> for a leaf.
\<close>

record rect =
  rc_x0 :: rat
  rc_y0 :: rat
  rc_x1 :: rat
  rc_y1 :: rat

datatype TreemapNode = TreemapNode (hn_data: MemoryResource) (hn_rect: rect) (hn_children: "TreemapNode list option")

text \<open>
  The tiling of the children of a node, computed by d3 for the whole chart and scaled into the
  rectangle of the node. A chart without extent gives coordinates that are not numbers.
\<close>

record tilings =
  tl_binary :: "TreemapNode \<Rightarrow> rat \<Rightarrow> rat \<Rightarrow> rect list"
  tl_squarify :: "TreemapNode \<Rightarrow> rat \<Rightarrow> rat \<Rightarrow> rect list"
  tl_slice :: "TreemapNode \<Rightarrow> rat \<Rightarrow> rat \<Rightarrow> rect list"
  tl_dice :: "TreemapNode \<Rightarrow> rat \<Rightarrow> rat \<Rightarrow> rect list"

fun tiling_of :: "tilings \<Rightarrow> TreemapView \<Rightarrow> TreemapNode \<Rightarrow> rat \<Rightarrow> rat \<Rightarrow> rect list" where
  "tiling_of d3 BINARY = tl_binary d3"
| "tiling_of d3 SQUARE = tl_squarify d3"
| "tiling_of d3 SLICE = tl_slice d3"
| "tiling_of d3 DICE = tl_dice d3"
| "tiling_of d3 (OtherView s) = tl_binary d3"

definition scale_rect :: "rat \<Rightarrow> rat \<Rightarrow> rect \<Rightarrow> rect \<Rightarrow> rect" where
  "scale_rect width height parent child =
    \<lparr>rc_x0 = rc_x0 parent + (rc_x0 child / width) * (rc_x1 parent - rc_x0 parent),
     rc_y0 = rc_y0 parent + (rc_y0 child / height) * (rc_y1 parent - rc_y0 parent),
     rc_x1 = rc_x0 parent + (rc_x1 child / width) * (rc_x1 parent - rc_x0 parent),
     rc_y1 = rc_y0 parent + (rc_y1 child / height) * (rc_y1 parent - rc_y0 parent)\<rparr>"

definition tile :: "tilings \<Rightarrow> TreemapView \<Rightarrow> rat \<Rightarrow> rat \<Rightarrow> TreemapNode \<Rightarrow> rect \<Rightarrow> rect list option" where
  "tile d3 view width height node parent = (if width = 0 \<or> height = 0 then None
     else Some (map (scale_rect width height parent) (tiling_of d3 view node width height)))"

text \<open>\<open>d.children.length ? 0 : d.value || 0.01\<close>.\<close>

definition own_size :: "MemoryResource \<Rightarrow> rat" where
  "own_size d = (if mr_children d \<noteq> [] then 0 else case mr_value d of None \<Rightarrow> 1 / 100
     | Some v \<Rightarrow> if v = 0 then 1 / 100 else v)"

text \<open>
  \<open>findNodeByName\<close> compares numbers, not names. It returns a node with its ancestors, the nearest
  first, so that \<open>parent\<close> of the node is the head of that list.
\<close>

fun findNodeByName :: "nat \<Rightarrow> TreemapNode list \<Rightarrow> TreemapNode \<Rightarrow> (TreemapNode \<times> TreemapNode list) option"
  and find_in :: "nat \<Rightarrow> TreemapNode list \<Rightarrow> TreemapNode list \<Rightarrow> (TreemapNode \<times> TreemapNode list) option" where
  "findNodeByName ident ancestors (TreemapNode d rc None) =
     (if mr_id d = ident then Some (TreemapNode d rc None, ancestors) else None)"
| "findNodeByName ident ancestors (TreemapNode d rc (Some cs)) =
     (if mr_id d = ident then Some (TreemapNode d rc (Some cs), ancestors)
      else find_in ident (TreemapNode d rc (Some cs) # ancestors) cs)"
| "find_in ident ancestors [] = None"
| "find_in ident ancestors (c # cs) = (case findNodeByName ident ancestors c of Some x \<Rightarrow> Some x
     | None \<Rightarrow> find_in ident ancestors cs)"

text \<open>
  The component: what it copied from the store, whether the chart exists, the hierarchy, and the node
  whose children are drawn. The handlers may throw; the selections of d3 are left out.
\<close>

record TreemapComponent =
  tm_breadcrumbs :: "MemoryResource option list"
  tm_activeResource :: "MemoryResource option"
  tm_isFirstTime :: bool
  tm_lastClicked :: "MemoryResource option"
  tm_baseResource :: "MemoryResource option"
  tm_treemapView :: "TreemapView option"
  tm_svg :: bool
  tm_treemap :: "TreemapNode option"
  tm_drawn :: "TreemapNode option"

definition initial_treemap :: TreemapComponent where
  "initial_treemap = \<lparr>tm_breadcrumbs = [], tm_activeResource = None, tm_isFirstTime = True, tm_lastClicked = None,
     tm_baseResource = None, tm_treemapView = None, tm_svg = False, tm_treemap = None, tm_drawn = None\<rparr>"

text \<open>Drawing a node joins its children to the selection, which throws where they are \<open>undefined\<close>.\<close>

definition render :: "TreemapNode \<Rightarrow> TreemapNode list result" where
  "render d = (case hn_children d of None \<Rightarrow> Inl (TypeError ''data'') | Some cs \<Rightarrow> Inr cs)"

definition zoomIn :: "TreemapComponent \<Rightarrow> TreemapNode \<Rightarrow> bool \<Rightarrow> (TreemapComponent \<times> MemoryResourcesActions list) result" where
  "zoomIn c d dispatch = (if tm_svg c
     then js_bind (render d) (\<lambda>_. Inr (c\<lparr>tm_lastClicked := Some (hn_data d), tm_drawn := Some d\<rparr>,
       if dispatch then [MR_SET_ACTIVE_RESOURCE (Some (hn_data d))] else []))
     else Inl (TypeError ''append''))"

definition zoomOut :: "TreemapComponent \<Rightarrow> TreemapNode list \<Rightarrow> (TreemapComponent \<times> MemoryResourcesActions list) result" where
  "zoomOut c ancestors = (case ancestors of [] \<Rightarrow> Inl (TypeError ''data'')
     | p # _ \<Rightarrow> if tm_svg c
         then js_bind (render p) (\<lambda>_. Inr (c\<lparr>tm_lastClicked := Some (hn_data p), tm_drawn := Some p\<rparr>,
           [MR_SET_ACTIVE_RESOURCE (Some (hn_data p))]))
         else Inl (TypeError ''insert''))"

text \<open>The node of a resource in the current hierarchy; the search throws on an undefined argument.\<close>

definition node_of :: "TreemapComponent \<Rightarrow> MemoryResource option \<Rightarrow> (TreemapNode \<times> TreemapNode list) result" where
  "node_of c resource = (case (tm_treemap c, resource) of
      (Some top_node, Some r) \<Rightarrow> (case findNodeByName (mr_id r) [] top_node of
          None \<Rightarrow> Inl (TypeError ''data'') | Some x \<Rightarrow> Inr x)
    | _ \<Rightarrow> Inl (TypeError ''data''))"

definition onKeydownHandler :: "TreemapComponent \<Rightarrow> (TreemapComponent \<times> MemoryResourcesActions list) result" where
  "onKeydownHandler c = (if length (tm_breadcrumbs c) > 1
     then js_bind (node_of c (last (tm_breadcrumbs c))) (\<lambda>(d, ancestors). zoomOut c ancestors)
     else Inr (c, []))"

definition createTreemapValues ::
  "(TreemapView option \<Rightarrow> MemoryResource \<Rightarrow> TreemapNode) \<Rightarrow> TreemapComponent \<Rightarrow> MemoryResource option \<Rightarrow> TreemapComponent result" where
  "createTreemapValues layout c resource = (case resource of None \<Rightarrow> Inl (TypeError ''children'')
     | Some r \<Rightarrow> Inr (c\<lparr>tm_treemap := Some (layout (tm_treemapView c) r)\<rparr>))"

definition zoom_to :: "TreemapComponent \<Rightarrow> MemoryResource option \<Rightarrow> bool \<Rightarrow> (TreemapComponent \<times> MemoryResourcesActions list) result" where
  "zoom_to c resource dispatch = js_bind (node_of c resource) (\<lambda>(d, ancestors). zoomIn c d dispatch)"

definition redrawChart ::
  "(TreemapView option \<Rightarrow> MemoryResource \<Rightarrow> TreemapNode) \<Rightarrow> TreemapComponent \<Rightarrow> (TreemapComponent \<times> MemoryResourcesActions list) result" where
  "redrawChart layout c = (if \<not> tm_svg c then Inl (TypeError ''attr'')
     else js_bind (createTreemapValues layout c (tm_baseResource c)) (\<lambda>c1. zoom_to c1 (tm_activeResource c1) True))"

definition createChart ::
  "(TreemapView option \<Rightarrow> MemoryResource \<Rightarrow> TreemapNode) \<Rightarrow> TreemapComponent \<Rightarrow> MemoryResource \<Rightarrow> TreemapComponent result" where
  "createChart layout c resource =
    js_bind (createTreemapValues layout (c\<lparr>tm_svg := True\<rparr>) (Some resource)) (\<lambda>c1.
      js_bind (render (the (tm_treemap c1))) (\<lambda>_. Inr (c1\<lparr>tm_drawn := tm_treemap c1\<rparr>)))"

text \<open>The four subscriptions, in the order in which the component makes them.\<close>

definition on_view ::
  "(TreemapView option \<Rightarrow> MemoryResource \<Rightarrow> TreemapNode) \<Rightarrow> TreemapComponent \<Rightarrow> TreemapView \<Rightarrow> TreemapComponent result" where
  "on_view layout c view = (let c1 = c\<lparr>tm_treemapView := Some view\<rparr> in
     if tm_treemapView c = None then Inr c1
     else js_bind (createTreemapValues layout c1 (tm_baseResource c1)) (\<lambda>c2.
       js_bind (zoom_to c2 (tm_activeResource c2) False) (\<lambda>(c3, _). Inr c3)))"

definition on_resource ::
  "(TreemapView option \<Rightarrow> MemoryResource \<Rightarrow> TreemapNode) \<Rightarrow> TreemapComponent \<Rightarrow> MemoryResource option \<Rightarrow> TreemapComponent result" where
  "on_resource layout c resource = (case resource of
      None \<Rightarrow> Inr (c\<lparr>tm_svg := False, tm_drawn := None, tm_isFirstTime := True, tm_baseResource := None, tm_lastClicked := None\<rparr>)
    | Some r \<Rightarrow> createChart layout (c\<lparr>tm_baseResource := Some r\<rparr>) r)"

definition on_active :: "TreemapComponent \<Rightarrow> MemoryResource option \<Rightarrow> TreemapComponent result" where
  "on_active c resource = (if resource = None then Inr c else
     (let c1 = c\<lparr>tm_activeResource := resource\<rparr> in
      if \<not> tm_isFirstTime c1 \<and> tm_lastClicked c1 \<noteq> resource
      then js_bind (zoom_to (c1\<lparr>tm_lastClicked := resource\<rparr>) resource False) (\<lambda>(c2, _). Inr (c2\<lparr>tm_isFirstTime := False\<rparr>))
      else Inr (c1\<lparr>tm_isFirstTime := False\<rparr>)))"

definition on_breadcrumbs :: "TreemapComponent \<Rightarrow> MemoryResource option list \<Rightarrow> TreemapComponent" where
  "on_breadcrumbs c bs = c\<lparr>tm_breadcrumbs := bs\<rparr>"

text \<open>A change of the store reaches the subscriptions whose selected value changed.\<close>

definition treemap_emit ::
  "(TreemapView option \<Rightarrow> MemoryResource \<Rightarrow> TreemapNode) \<Rightarrow> MemoryResourcesState \<Rightarrow> MemoryResourcesState \<Rightarrow> TreemapComponent
    \<Rightarrow> TreemapComponent result" where
  "treemap_emit layout old new c =
    js_bind (if mrs_treemapView new = mrs_treemapView old then Inr c else on_view layout c (mrs_treemapView new)) (\<lambda>c1.
    js_bind (if mrs_resource new = mrs_resource old then Inr c1 else on_resource layout c1 (mrs_resource new)) (\<lambda>c2.
    js_bind (if mrs_activeResource new = mrs_activeResource old then Inr c2 else on_active c2 (mrs_activeResource new)) (\<lambda>c3.
    Inr (if mrs_breadcrumbs new = mrs_breadcrumbs old then c3 else on_breadcrumbs c3 (mrs_breadcrumbs new)))))"

section \<open>The page\<close>

text \<open>
  Toolbar and breadcrumbs copy the state only while there is a resource, so they keep showing the last
  one while the next is loaded. The table always shows the children of the active resource.
\<close>

record memory_shown =
  sh_breadcrumbs :: "MemoryResource option list"
  sh_granularity :: "rat option"
  sh_treemapView :: "TreemapView option"

record memory_page =
  mp_state :: MemoryResourcesState
  mp_effects :: memory_effects
  mp_shown :: memory_shown
  mp_treemap :: TreemapComponent

datatype memory_page_event =
    MpActiveNode | MpReply MemoryResourceTree | MpFailure
  | MpRow nat | MpRect nat | MpBreadcrumb nat | MpBack | MpEscape | MpResize
  | MpGranularity rat | MpTreemapView TreemapView | MpLeave

definition listenToActiveResource :: "MemoryResourcesState \<Rightarrow> memory_shown \<Rightarrow> memory_shown" where
  "listenToActiveResource s shown = (if mrs_resource s = None then shown
     else \<lparr>sh_breadcrumbs = mrs_breadcrumbs s, sh_granularity = Some (mrs_granularity s),
       sh_treemapView = Some (mrs_treemapView s)\<rparr>)"

definition onRowClick :: "MemoryResource \<Rightarrow> MemoryResourcesActions list" where
  "onRowClick row = (if mr_children row = [] then [] else [MR_SET_ACTIVE_RESOURCE (Some row)])"

definition table_rows :: "MemoryResourcesState \<Rightarrow> MemoryResource list" where
  "table_rows s = (case mrs_activeResource s of None \<Rightarrow> [] | Some r \<Rightarrow> mr_children r)"

definition go_back :: "memory_shown \<Rightarrow> MemoryResourcesActions list" where
  "go_back shown = (if length (sh_breadcrumbs shown) < 2 then []
     else [MR_SET_ACTIVE_RESOURCE (sh_breadcrumbs shown ! (length (sh_breadcrumbs shown) - 2))])"

definition setGranularity :: "memory_shown \<Rightarrow> rat \<Rightarrow> MemoryResourcesActions list" where
  "setGranularity shown g = (if sh_granularity shown = Some g then [] else [MR_SET_GRANULARITY g])"

definition setTreemapView :: "memory_shown \<Rightarrow> TreemapView \<Rightarrow> MemoryResourcesActions list" where
  "setTreemapView shown v = (if sh_treemapView shown = Some v then [] else [MR_SET_TREEMAP_VIEW v])"

text \<open>A click on a rectangle of the chart zooms in when the rectangle has children.\<close>

definition onRectClick :: "TreemapComponent \<Rightarrow> nat \<Rightarrow> (TreemapComponent \<times> MemoryResourcesActions list) result" where
  "onRectClick c i = (case Option.bind (tm_drawn c) hn_children of
      None \<Rightarrow> Inr (c, [])
    | Some cs \<Rightarrow> if i < length cs \<and> hn_children (cs ! i) \<noteq> None then zoomIn c (cs ! i) True else Inr (c, []))"

text \<open>What an event of the user makes the components dispatch; only the treemap changes its own state.\<close>

fun memory_clicks ::
  "(TreemapView option \<Rightarrow> MemoryResource \<Rightarrow> TreemapNode) \<Rightarrow> memory_page \<Rightarrow> memory_page_event
    \<Rightarrow> (TreemapComponent \<times> MemoryResourcesActions list) result" where
  "memory_clicks layout p MpActiveNode = Inr (mp_treemap p, [MR_GET])"
| "memory_clicks layout p (MpRow i) = Inr (mp_treemap p,
     if i < length (table_rows (mp_state p)) then onRowClick (table_rows (mp_state p) ! i) else [])"
| "memory_clicks layout p (MpRect i) = onRectClick (mp_treemap p) i"
| "memory_clicks layout p (MpBreadcrumb j) = Inr (mp_treemap p,
     if j < length (sh_breadcrumbs (mp_shown p)) then [MR_SET_ACTIVE_RESOURCE (sh_breadcrumbs (mp_shown p) ! j)] else [])"
| "memory_clicks layout p MpBack = Inr (mp_treemap p, go_back (mp_shown p))"
| "memory_clicks layout p MpEscape = onKeydownHandler (mp_treemap p)"
| "memory_clicks layout p MpResize = redrawChart layout (mp_treemap p)"
| "memory_clicks layout p (MpGranularity g) = Inr (mp_treemap p, setGranularity (mp_shown p) g)"
| "memory_clicks layout p (MpTreemapView v) = Inr (mp_treemap p, setTreemapView (mp_shown p) v)"
| "memory_clicks layout p _ = Inr (mp_treemap p, [])"

definition memory_commit ::
  "(TreemapView option \<Rightarrow> MemoryResource \<Rightarrow> TreemapNode) \<Rightarrow> MemoryResourcesState \<Rightarrow> memory_page \<Rightarrow> MemoryResourcesActions
    \<Rightarrow> memory_page result" where
  "memory_commit layout init p action =
    js_bind (memoryResourcesReducer init (mp_state p) action) (\<lambda>s.
    js_bind (treemap_emit layout (mp_state p) s (mp_treemap p)) (\<lambda>c.
    Inr (p\<lparr>mp_state := s, mp_treemap := c, mp_shown := listenToActiveResource s (mp_shown p)\<rparr>)))"

fun dispatched :: "memory_output list \<Rightarrow> MemoryResourcesActions list" where
  "dispatched [] = []"
| "dispatched (MeDispatch a # os) = a # dispatched os"
| "dispatched (MeAddError # os) = dispatched os"

text \<open>An action goes through the reducer to the components, then to the effects, whose actions follow.\<close>

definition memory_dispatch ::
  "(TreemapView option \<Rightarrow> MemoryResource \<Rightarrow> TreemapNode) \<Rightarrow> MemoryResourcesState \<Rightarrow> memory_page \<Rightarrow> MemoryResourcesActions
    \<Rightarrow> memory_page result" where
  "memory_dispatch layout init p action = js_bind (memory_commit layout init p action) (\<lambda>p1.
     let (m, outs) = memory_effect (mp_effects p1) (MeAct action (mrs_granularity (mp_state p1))) in
     run_reducer (\<lambda>q a. js_bind (memory_commit layout init q a) (\<lambda>q1.
         Inr (q1\<lparr>mp_effects := fst (memory_effect (mp_effects q1) (MeAct a (mrs_granularity (mp_state q1))))\<rparr>)))
       (p1\<lparr>mp_effects := m\<rparr>) (dispatched outs))"

definition memory_answer ::
  "(TreemapView option \<Rightarrow> MemoryResource \<Rightarrow> TreemapNode) \<Rightarrow> MemoryResourcesState \<Rightarrow> memory_page \<Rightarrow> memory_event
    \<Rightarrow> memory_page result" where
  "memory_answer layout init p e = (let (m, outs) = memory_effect (mp_effects p) e in
     run_reducer (memory_dispatch layout init) (p\<lparr>mp_effects := m\<rparr>) (dispatched outs))"

text \<open>Leaving the page destroys the components; the next visit makes new ones on the initial state.\<close>

definition memory_open :: "MemoryResourcesState \<Rightarrow> memory_effects \<Rightarrow> memory_page" where
  "memory_open init m = \<lparr>mp_state = init, mp_effects = m,
     mp_shown = \<lparr>sh_breadcrumbs = [], sh_granularity = None, sh_treemapView = None\<rparr>,
     mp_treemap = initial_treemap\<lparr>tm_treemapView := Some (mrs_treemapView init)\<rparr>\<rparr>"

fun memory_step ::
  "(TreemapView option \<Rightarrow> MemoryResource \<Rightarrow> TreemapNode) \<Rightarrow> MemoryResourcesState \<Rightarrow> memory_page \<Rightarrow> memory_page_event
    \<Rightarrow> memory_page result" where
  "memory_step layout init p (MpReply response) = memory_answer layout init p (MeReply response)"
| "memory_step layout init p MpFailure = memory_answer layout init p MeFailure"
| "memory_step layout init p MpLeave = Inr (memory_open init (fst (memory_effect (mp_effects p) (MeAct MR_CLOSE 0))))"
| "memory_step layout init p e = js_bind (memory_clicks layout p e) (\<lambda>(c, actions).
     run_reducer (memory_dispatch layout init) (p\<lparr>mp_treemap := c\<rparr>) actions)"

section \<open>Paths of resources\<close>

definition path_from :: "MemoryResource \<Rightarrow> MemoryResource list \<Rightarrow> bool" where
  "path_from r ps \<longleftrightarrow> ps \<noteq> [] \<and> hd ps = r \<and> successively (\<lambda>p q. q \<in> set (mr_children p)) ps"

text \<open>What a tree of the service has: children, distinct numbers, and only the root is called \<open>root\<close>.\<close>

definition good_tree :: "MemoryResource \<Rightarrow> bool" where
  "good_tree r \<longleftrightarrow> mr_children r \<noteq> [] \<and> distinct (map mr_id (resources_in r)) \<and> mn_executableName (mr_name r) = ''root''
     \<and> (\<forall>c \<in> set (mr_children r). \<forall>d \<in> set (resources_in c). mn_executableName (mr_name d) \<noteq> ''root'')"

lemma self_in_resources [simp]: "r \<in> set (resources_in r)"
  by (cases r) simp

lemma child_resources: "c \<in> set (mr_children r) \<Longrightarrow> d \<in> set (resources_in c) \<Longrightarrow> d \<in> set (resources_in r)"
  by (cases r) auto

lemma distinct_child:
  assumes "distinct (map mr_id (resources_in r))" "c \<in> set (mr_children r)"
  shows "distinct (map mr_id (resources_in c))" "mr_id r \<notin> mr_id ` set (resources_in c)"
proof -
  obtain as bs where cs: "mr_children r = as @ c # bs" using assms(2) by (meson split_list)
  show "distinct (map mr_id (resources_in c))" using assms(1) by (subst (asm) resources_in_unfold) (simp add: cs)
  show "mr_id r \<notin> mr_id ` set (resources_in c)" using assms(1) by (subst (asm) resources_in_unfold) (auto simp: cs)
qed

lemma path_Cons: "path_from r (r # q # ps) \<longleftrightarrow> q \<in> set (mr_children r) \<and> path_from q (q # ps)"
  by (simp add: path_from_def)

lemma path_resources: "path_from r ps \<Longrightarrow> set ps \<subseteq> set (resources_in r)"
proof (induction ps arbitrary: r)
  case (Cons p ps)
  then show ?case by (cases ps) (auto simp: path_from_def intro: child_resources)
qed simp

lemma path_distinct: "path_from r ps \<Longrightarrow> distinct (map mr_id (resources_in r)) \<Longrightarrow> distinct (map mr_id ps)"
proof (induction ps arbitrary: r)
  case (Cons p ps)
  show ?case
  proof (cases ps)
    case (Cons q qs)
    have p: "p = r" "q \<in> set (mr_children r)" "path_from q ps" using Cons.prems(1) Cons by (auto simp: path_from_def)
    have "distinct (map mr_id ps)" using Cons.IH [OF p(3)] distinct_child(1) [OF Cons.prems(2) p(2)] by simp
    moreover have "mr_id r \<notin> mr_id ` set ps"
      using path_resources [OF p(3)] distinct_child(2) [OF Cons.prems(2) p(2)] by auto
    ultimately show ?thesis using p(1) by simp
  qed simp
qed simp

lemma path_snoc: "path_from r ps \<Longrightarrow> q \<in> set (mr_children (last ps)) \<Longrightarrow> path_from r (ps @ [q])"
  by (auto simp: path_from_def successively_append_iff)

lemma path_take: "path_from r ps \<Longrightarrow> path_from r (take (Suc j) ps)"
proof -
  assume p: "path_from r ps"
  have "successively (\<lambda>p q. q \<in> set (mr_children p)) (take (Suc j) ps @ drop (Suc j) ps)"
    using p by (simp add: path_from_def)
  then show ?thesis using p unfolding successively_append_iff by (cases ps) (auto simp: path_from_def)
qed

lemma path_children:
  assumes "path_from r ps" "mr_children (last ps) \<noteq> []" "x \<in> set ps"
  shows "mr_children x \<noteq> []"
proof (cases "x = last ps")
  case False
  obtain as bs where ps: "ps = as @ x # bs" using assms(3) by (meson split_list)
  with False obtain q qs where "bs = q # qs" by (cases bs) auto
  then show ?thesis using assms(1) ps by (auto simp: path_from_def successively_append_iff)
qed (use assms(2) in simp)

lemma path_tail_below:
  assumes "path_from r ps" "x \<in> set (tl ps)"
  shows "\<exists>c \<in> set (mr_children r). x \<in> set (resources_in c)"
proof -
  obtain q qs where ps: "ps = r # q # qs" using assms by (cases ps; cases "tl ps") (auto simp: path_from_def)
  then have "q \<in> set (mr_children r)" "path_from q (q # qs)" using assms(1) by (auto simp: path_Cons)
  moreover have "x \<in> set (resources_in q)" using calculation path_resources [of q "q # qs"] assms(2) ps by auto
  ultimately show ?thesis by blast
qed

lemma path_tail_not_root: "good_tree r \<Longrightarrow> path_from r ps \<Longrightarrow> x \<in> set (tl ps) \<Longrightarrow> mn_executableName (mr_name x) \<noteq> ''root''"
  using path_tail_below [of r ps x] by (auto simp: good_tree_def)

lemma index_of_same_Some: "index_of_same i (map Some ps) = Inr (js_findIndex (\<lambda>b. mr_id b = i) ps)"
  by (induction ps) simp_all

lemma findIndex_nth:
  "distinct (map mr_id ps) \<Longrightarrow> j < length ps \<Longrightarrow> js_findIndex (\<lambda>b. mr_id b = mr_id (ps ! j)) ps = int j"
proof -
  assume d: "distinct (map mr_id ps)" and j: "j < length ps"
  have ps: "ps = take j ps @ ps ! j # drop (Suc j) ps" using j by (simp add: id_take_nth_drop)
  have "\<forall>x \<in> set (take j ps). mr_id x \<noteq> mr_id (ps ! j)"
    using d j by (subst (asm) ps) (auto, metis image_eqI)
  from js_findIndex_append [OF this refl, of "drop (Suc j) ps"] show ?thesis
    using j by (simp flip: ps)
qed

text \<open>Going into a child of the active resource, and back to a resource of the path.\<close>

lemma set_active_child:
  assumes "good_tree r" "path_from r ps" "mrs_breadcrumbs s = map Some ps" "mrs_activeResource s = Some (last ps)"
    and q: "q \<in> set (mr_children (last ps))"
  shows "set_active_resource s (Some q) = Inr (s\<lparr>mrs_activeResource := Some q, mrs_breadcrumbs := map Some (ps @ [q])\<rparr>)"
proof -
  have path: "path_from r (ps @ [q])" using path_snoc assms(2) q by blast
  have "distinct (map mr_id (ps @ [q]))" using path_distinct [OF path] assms(1) by (simp add: good_tree_def)
  then have new: "mr_id q \<notin> mr_id ` set ps" by auto
  have "ps \<noteq> []" using assms(2) by (simp add: path_from_def)
  then have "q \<in> set (tl (ps @ [q]))" by simp
  then have "mn_executableName (mr_name q) \<noteq> ''root''" using path_tail_not_root [OF assms(1) path] by blast
  moreover have "q \<noteq> last ps" using new \<open>ps \<noteq> []\<close> by auto
  moreover have "js_findIndex (\<lambda>b. mr_id b = mr_id q) ps = - 1"
    using new unfolding js_findIndex_neg_iff by (metis image_eqI)
  ultimately show ?thesis using assms by (simp add: set_active_resource.simps index_of_same_Some)
qed

lemma set_active_crumb:
  assumes "good_tree r" "path_from r ps" "mrs_breadcrumbs s = map Some ps" "mrs_activeResource s = Some (last ps)"
    and "mrs_resource s = Some r" and j: "j < length ps"
  shows "set_active_resource s (Some (ps ! j)) =
    Inr (s\<lparr>mrs_activeResource := Some (ps ! j), mrs_breadcrumbs := map Some (take (Suc j) ps)\<rparr>)"
proof -
  have d: "distinct (map mr_id ps)" using path_distinct [OF assms(2)] assms(1) by (simp add: good_tree_def)
  show ?thesis
  proof (cases "ps ! j = last ps")
    case True
    have "ps \<noteq> []" using j by auto
    then have "j = length ps - 1" using True d j nth_eq_iff_index_eq [of ps j "length ps - 1"]
      by (simp add: last_conv_nth distinct_map)
    then show ?thesis using True assms by (simp add: set_active_resource.simps)
  next
    case False
    show ?thesis
    proof (cases j)
      case 0
      have "ps ! 0 = r" "take (Suc 0) ps = [r]" using assms(2) by (cases ps; auto simp: path_from_def)+
      then show ?thesis using 0 False assms by (simp add: set_active_resource.simps good_tree_def)
    next
      case (Suc k)
      have "ps ! j \<in> set (tl ps)" using j Suc by (cases ps) auto
      then have "mn_executableName (mr_name (ps ! j)) \<noteq> ''root''" using path_tail_not_root assms(1,2) by blast
      moreover have "js_slice 0 (int j + 1) (map Some ps) = map Some (take (Suc j) ps)"
        using js_slice_nat [of "Suc j" "map Some ps"] by (simp add: take_map add.commute)
      ultimately show ?thesis using False assms findIndex_nth [OF d j]
        by (simp add: set_active_resource.simps index_of_same_Some)
    qed
  qed
qed

section \<open>The hierarchy\<close>

text \<open>
  What the documentation of d3 promises of a hierarchy: the node of a resource carries it as its data
  and has one child for each child of the resource, or no children where there are none.
\<close>

fun mirrors :: "TreemapNode \<Rightarrow> bool" where
  "mirrors (TreemapNode d rc None) \<longleftrightarrow> mr_children d = []"
| "mirrors (TreemapNode d rc (Some cs)) \<longleftrightarrow> mr_children d \<noteq> [] \<and> mset (map hn_data cs) = mset (mr_children d) \<and> list_all mirrors cs"

definition layout_ok :: "(TreemapView option \<Rightarrow> MemoryResource \<Rightarrow> TreemapNode) \<Rightarrow> bool" where
  "layout_ok layout \<longleftrightarrow> (\<forall>v r. hn_data (layout v r) = r \<and> mirrors (layout v r))"

fun nodes_of :: "TreemapNode \<Rightarrow> TreemapNode list" where
  "nodes_of (TreemapNode d rc None) = [TreemapNode d rc None]"
| "nodes_of (TreemapNode d rc (Some cs)) = TreemapNode d rc (Some cs) # concat (map nodes_of cs)"

lemma self_in_nodes [simp]: "h \<in> set (nodes_of h)"
  by (cases h rule: nodes_of.cases) simp_all

lemma mirrors_children:
  "mirrors h \<Longrightarrow> hn_children h = Some cs \<Longrightarrow> hn_data ` set cs = set (mr_children (hn_data h)) \<and> list_all mirrors cs"
proof -
  assume h: "mirrors h" "hn_children h = Some cs"
  then have "mset (map hn_data cs) = mset (mr_children (hn_data h))" "list_all mirrors cs"
    by (cases h rule: mirrors.cases; simp)+
  from this(2) mset_eq_setD [OF this(1)] show ?thesis by simp
qed

lemma node_mirrors: "mirrors h \<Longrightarrow> n \<in> set (nodes_of h) \<Longrightarrow> mirrors n"
  by (induction h rule: nodes_of.induct) (auto simp: list_all_iff)

lemma mirrors_leaf: "mirrors h \<Longrightarrow> hn_children h = None \<longleftrightarrow> mr_children (hn_data h) = []"
  by (cases h rule: mirrors.cases) simp_all

lemma nodes_data: "mirrors h \<Longrightarrow> hn_data ` set (nodes_of h) = set (resources_in (hn_data h))"
proof (induction h rule: nodes_of.induct)
  case (1 d rc)
  then show ?case by (cases d) simp
next
  case (2 d rc cs)
  have cs: "hn_data ` set cs = set (mr_children d)" using 2(2) mirrors_children [of "TreemapNode d rc (Some cs)"] by simp
  have "hn_data ` set (concat (map nodes_of cs)) = (\<Union>c \<in> set cs. hn_data ` set (nodes_of c))" by auto
  also have "\<dots> = (\<Union>c \<in> set cs. set (resources_in (hn_data c)))" using 2 by (auto simp: list_all_iff)
  also have "\<dots> = (\<Union>d \<in> set (mr_children d). set (resources_in d))" unfolding cs [symmetric] by simp
  finally show ?case by (cases d) simp
qed

lemma find_None:
  "findNodeByName i anc h = None \<Longrightarrow> n \<in> set (nodes_of h) \<Longrightarrow> mr_id (hn_data n) \<noteq> i"
  "find_in i anc cs = None \<Longrightarrow> n \<in> set (concat (map nodes_of cs)) \<Longrightarrow> mr_id (hn_data n) \<noteq> i"
proof (induction i anc h and i anc cs arbitrary: n and n rule: findNodeByName_find_in.induct)
  case (4 i anc c cs)
  then show ?case by (auto split: option.splits)
qed (auto split: if_splits)

lemma find_Some:
  "findNodeByName i anc h = Some (d, anc') \<Longrightarrow> d \<in> set (nodes_of h) \<and> mr_id (hn_data d) = i \<and>
     (d = h \<and> anc' = anc \<or> (\<exists>p ps cs. anc' = p # ps \<and> p \<in> set (nodes_of h) \<and> hn_children p = Some cs \<and> d \<in> set cs))"
  "find_in i anc cs = Some (d, anc') \<Longrightarrow> d \<in> set (concat (map nodes_of cs)) \<and> mr_id (hn_data d) = i \<and>
     (d \<in> set cs \<and> anc' = anc \<or>
      (\<exists>p ps cs'. anc' = p # ps \<and> p \<in> set (concat (map nodes_of cs)) \<and> hn_children p = Some cs' \<and> d \<in> set cs'))"
proof (induction i anc h and i anc cs arbitrary: d anc' and d anc' rule: findNodeByName_find_in.induct)
  case (2 i anc e rc cs)
  show ?case
  proof (cases "mr_id e = i")
    case False
    then have "find_in i (TreemapNode e rc (Some cs) # anc) cs = Some (d, anc')" using 2(2) by simp
    from 2(1) [OF False this] show ?thesis by auto
  qed (use 2 in auto)
next
  case (4 i anc c cs)
  show ?case
  proof (cases "findNodeByName i anc c")
    case None
    then have "find_in i anc cs = Some (d, anc')" using 4(3) by simp
    from 4(2) [OF None this] show ?thesis by auto
  next
    case (Some x)
    then have "findNodeByName i anc c = Some (d, anc')" using 4(3) by simp
    from 4(1) [OF this] show ?thesis by auto
  qed
qed (auto split: if_splits)

text \<open>The pairs of a resource and one of its children: each resource but the root has one parent.\<close>

fun edges_in :: "MemoryResource \<Rightarrow> (MemoryResource \<times> MemoryResource) list" where
  "edges_in (MemoryResource nm v cs i) = map (Pair (MemoryResource nm v cs i)) cs @ concat (map edges_in cs)"

lemma mset_edges: "mset (resources_in r) = add_mset r (mset (map snd (edges_in r)))"
proof (induction r rule: edges_in.induct)
  case (1 nm v cs i)
  have "mset (concat (map resources_in ds)) = mset ds + mset (map snd (concat (map edges_in ds)))"
    if "set ds \<subseteq> set cs" for ds
    using that 1 by (induction ds) auto
  moreover have "map snd (map (Pair (MemoryResource nm v cs i)) cs) = cs" by (simp add: comp_def)
  ultimately show ?case unfolding resources_in.simps edges_in.simps map_append mset_append by (simp del: map_map)
qed

lemma edges_in_iff: "(p, q) \<in> set (edges_in r) \<longleftrightarrow> p \<in> set (resources_in r) \<and> q \<in> set (mr_children p)"
  by (induction r rule: edges_in.induct) auto

lemma parent_unique:
  assumes "distinct (map mr_id (resources_in r))" "p \<in> set (resources_in r)" "p' \<in> set (resources_in r)"
    and "q \<in> set (mr_children p)" "q \<in> set (mr_children p')"
  shows "p = p'"
proof -
  have "distinct (map mr_id (r # map snd (edges_in r)))"
    using assms(1) mset_edges [of r] by (metis mset.simps(2) mset_map mset_eq_imp_distinct_iff)
  then have "distinct (map (\<lambda>e. mr_id (snd e)) (edges_in r))" by (simp add: comp_def)
  moreover have "(p, q) \<in> set (edges_in r)" "(p', q) \<in> set (edges_in r)" using assms by (simp_all add: edges_in_iff)
  ultimately show ?thesis unfolding distinct_map inj_on_def by (metis prod.inject snd_conv)
qed

lemma id_unique:
  "distinct (map mr_id (resources_in r)) \<Longrightarrow> x \<in> set (resources_in r) \<Longrightarrow> y \<in> set (resources_in r) \<Longrightarrow> mr_id x = mr_id y \<Longrightarrow> x = y"
  by (auto simp: distinct_map inj_on_def)

text \<open>The chart of a resource: the search finds the node of each resource and its parent.\<close>

definition charted :: "MemoryResource \<Rightarrow> TreemapNode \<Rightarrow> bool" where
  "charted r h \<longleftrightarrow> mirrors h \<and> hn_data h = r \<and> distinct (map mr_id (resources_in r))"

lemma find_node:
  assumes "charted r h" "x \<in> set (resources_in r)"
  obtains d anc where "findNodeByName (mr_id x) [] h = Some (d, anc)" "d \<in> set (nodes_of h)" "hn_data d = x"
    "d = h \<or> (\<exists>p ps. anc = p # ps \<and> p \<in> set (nodes_of h) \<and> x \<in> set (mr_children (hn_data p)))"
proof -
  have data: "hn_data ` set (nodes_of h) = set (resources_in r)" using assms(1) nodes_data by (auto simp: charted_def)
  then obtain n where "n \<in> set (nodes_of h)" "hn_data n = x" using assms(2) by (metis imageE)
  then obtain d anc where f: "findNodeByName (mr_id x) [] h = Some (d, anc)"
    using find_None(1) [of "mr_id x" "[]" h n] by fastforce
  from find_Some(1) [OF f] have d: "d \<in> set (nodes_of h)" "mr_id (hn_data d) = mr_id x"
    and up: "d = h \<or> (\<exists>p ps cs. anc = p # ps \<and> p \<in> set (nodes_of h) \<and> hn_children p = Some cs \<and> d \<in> set cs)" by auto
  have x: "hn_data d = x" using id_unique [of r "hn_data d" x] d data assms by (auto simp: charted_def)
  have "x \<in> set (mr_children (hn_data p))" if "p \<in> set (nodes_of h)" "hn_children p = Some cs" "d \<in> set cs" for p cs
    using mirrors_children [OF node_mirrors [OF _ that(1)] that(2)] that(3) assms(1) x by (auto simp: charted_def)
  then show ?thesis using that [OF f d(1) x] up by blast
qed

lemma node_has_children: "charted r h \<Longrightarrow> d \<in> set (nodes_of h) \<Longrightarrow> hn_children d \<noteq> None \<longleftrightarrow> mr_children (hn_data d) \<noteq> []"
  using node_mirrors [of h d] mirrors_leaf [of d] by (auto simp: charted_def)

lemma render_node [simp]: "hn_children d \<noteq> None \<Longrightarrow> js_bind (render d) (\<lambda>_. x) = x"
  by (auto simp: render_def)

lemma zoom_to_found:
  assumes "charted r h" "tm_treemap c = Some h" "tm_svg c" "x \<in> set (resources_in r)" "mr_children x \<noteq> []"
  obtains d where "d \<in> set (nodes_of h)" "hn_data d = x" "hn_children d \<noteq> None"
    "zoom_to c (Some x) b = Inr (c\<lparr>tm_lastClicked := Some x, tm_drawn := Some d\<rparr>, if b then [MR_SET_ACTIVE_RESOURCE (Some x)] else [])"
proof -
  obtain d anc where "findNodeByName (mr_id x) [] h = Some (d, anc)" "d \<in> set (nodes_of h)" "hn_data d = x"
    using find_node [OF assms(1,4)] by metis
  moreover from this have "hn_children d \<noteq> None" using node_has_children [OF assms(1)] assms(5) by blast
  ultimately show ?thesis using that [of d] assms by (simp add: zoom_to_def node_of_def zoomIn_def)
qed

lemma escape_found:
  assumes "charted r h" "tm_treemap c = Some h" "tm_svg c" "path_from r ps" "tm_breadcrumbs c = map Some ps" "length ps > 1"
  obtains p where "p \<in> set (nodes_of h)" "hn_data p = ps ! (length ps - 2)" "hn_children p \<noteq> None"
    "onKeydownHandler c = Inr (c\<lparr>tm_lastClicked := Some (hn_data p), tm_drawn := Some p\<rparr>, [MR_SET_ACTIVE_RESOURCE (Some (hn_data p))])"
proof -
  let ?q = "ps ! (length ps - 1)" and ?p = "ps ! (length ps - 2)"
  have dist: "distinct (map mr_id ps)" using path_distinct [OF assms(4)] assms(1) by (simp add: charted_def)
  have in_r: "?q \<in> set (resources_in r)" "?p \<in> set (resources_in r)" using path_resources [OF assms(4)] assms(6) by auto
  have child: "?q \<in> set (mr_children ?p)"
    using assms(4,6) successively_nth [of "\<lambda>p q. q \<in> set (mr_children p)" ps "length ps - 2"]
    by (simp add: path_from_def Suc_diff_Suc numeral_2_eq_2)
  obtain d anc where f: "findNodeByName (mr_id ?q) [] h = Some (d, anc)" "hn_data d = ?q"
    and up: "d = h \<or> (\<exists>p ps. anc = p # ps \<and> p \<in> set (nodes_of h) \<and> ?q \<in> set (mr_children (hn_data p)))"
    using find_node [OF assms(1) in_r(1)] by metis
  have "ps ! 0 = r" using assms(4) by (cases ps) (auto simp: path_from_def)
  moreover have "ps ! 0 \<noteq> ?q" using dist assms(6) nth_eq_iff_index_eq [of ps 0 "length ps - 1"]
    by (cases ps) (auto simp: distinct_map)
  ultimately have "?q \<noteq> r" by simp
  then have "d \<noteq> h" using f(2) assms(1) by (auto simp: charted_def)
  then obtain p as where p: "anc = p # as" "p \<in> set (nodes_of h)" "?q \<in> set (mr_children (hn_data p))" using up by blast
  have "hn_data p \<in> set (resources_in r)" using p(2) nodes_data [of h] assms(1) by (auto simp: charted_def)
  then have "hn_data p = ?p" using parent_unique [of r "hn_data p" ?p ?q] p(3) child in_r assms(1) by (auto simp: charted_def)
  moreover have "last (map Some ps) = Some ?q" using assms(6) by (cases "ps = []") (simp_all add: last_map last_conv_nth)
  moreover have "hn_children p \<noteq> None" using node_has_children [OF assms(1) p(2)] p(3) by force
  ultimately show ?thesis using that [OF p(2)] f(1) p(1) assms
    by (simp add: onKeydownHandler_def node_of_def zoomOut_def)
qed

section \<open>Trees of the service\<close>

fun no_root_frame :: "MemoryResourceTree \<Rightarrow> bool" where
  "no_root_frame (FrameTree nm v None) \<longleftrightarrow> nm \<noteq> NamedFrame ''root''"
| "no_root_frame (FrameTree nm v (Some fs)) \<longleftrightarrow> nm \<noteq> NamedFrame ''root'' \<and> list_all no_root_frame fs"

lemma getFrameName_not_root: "nm \<noteq> NamedFrame ''root'' \<Longrightarrow> mn_executableName (getFrameName nm threshold) \<noteq> ''root''"
proof (cases nm)
  case (CodeFrame e off f)
  have "CHR ''@'' \<in> set (e @ ''@'' @ off)" "CHR ''@'' \<notin> set ''root''" by simp_all
  then have "e @ ''@'' @ off \<noteq> ''root''" by metis
  then show ?thesis using CodeFrame by simp
qed auto

lemma build_frames_names:
  "build_frames threshold frames i = (rs, j) \<Longrightarrow> list_all no_root_frame frames \<Longrightarrow>
   \<forall>d \<in> set (concat (map resources_in rs)). mn_executableName (mr_name d) \<noteq> ''root''"
proof (induction threshold frames i arbitrary: rs j rule: build_frames.induct)
  case (2 threshold nm v frames i)
  obtain sib j' where b: "build_frames threshold frames (i + 1) = (sib, j')" by force
  show ?case using 2(1) [OF b] 2(2,3) b getFrameName_not_root [of nm threshold] by auto
next
  case (3 threshold nm v fs frames i)
  obtain cs k where c: "build_frames threshold fs i = (cs, k)" by force
  obtain sib j' where b: "build_frames threshold frames (k + 1) = (sib, j')" by force
  show ?case using 3(1) [OF c] 3(2) [OF c [symmetric] refl b] 3(3,4) c b getFrameName_not_root [of nm threshold] by auto
qed auto

definition frames_ok :: "MemoryResourceTree \<Rightarrow> bool" where
  "frames_ok t \<longleftrightarrow> (case t of FrameTree nm v None \<Rightarrow> True | FrameTree nm v (Some fs) \<Rightarrow> fs \<noteq> [] \<and> list_all no_root_frame fs)"

lemma mapMemoryResponse_good:
  assumes "mapMemoryResponse t threshold 0 = Inr (r, n)" "frames_ok t"
  shows "good_tree r"
proof -
  obtain nm v fs where t: "t = FrameTree nm v (Some fs)" using assms(1) by (cases "(t, threshold, 0 :: nat)" rule: mapMemoryResponse.cases) auto
  obtain cs j where b: "build_frames threshold fs 0 = (cs, j)" by force
  have r: "mr_children r = js_sort larger_first cs" "mr_id r = j" "mn_executableName (mr_name r) = ''root''"
    using assms(1) t b by (auto simp: build_def)
  have "mset (concat (map resources_in (js_sort larger_first cs))) = mset (concat (map resources_in cs))"
    by (rule mset_concat_map_cong) simp
  then have "mset (map mr_id (resources_in r)) = add_mset j (mset_set {0..<j})"
    using build_frames_ids [OF b] by (subst resources_in_unfold) (simp add: r)
  also have "\<dots> = mset_set {0..<Suc j}" using mset_range_split [of 0 j "Suc j"] by simp
  finally have "distinct (map mr_id (resources_in r))"
    by (metis distinct_upt mset_eq_imp_distinct_iff mset_upt)
  moreover have "mn_executableName (mr_name d) \<noteq> ''root''" if "c \<in> set (mr_children r)" "d \<in> set (resources_in c)" for c d
    using build_frames_names [OF b] that assms(2) r(1) t by (auto simp: frames_ok_def)
  moreover have "mr_children r \<noteq> []"
  proof -
    have "cs \<noteq> []" using b assms(2) t by (cases "(threshold, fs, 0 :: nat)" rule: build_frames.cases) (auto simp: frames_ok_def split: prod.splits)
    then show ?thesis unfolding r(1) by (metis mset_js_sort mset_zero_iff)
  qed
  ultimately show ?thesis using r(3) by (auto simp: good_tree_def)
qed

section \<open>The page stays consistent\<close>

definition state_ok :: "MemoryResourcesState \<Rightarrow> bool" where
  "state_ok s \<longleftrightarrow> (\<forall>r. mrs_resource s = Some r \<longrightarrow> good_tree r
     \<and> (\<exists>ps. path_from r ps \<and> mrs_breadcrumbs s = map Some ps \<and> mrs_activeResource s = Some (last ps)
          \<and> mr_children (last ps) \<noteq> []))"

text \<open>A chart of the resource exists and draws the node \<open>d\<close>.\<close>

definition draws :: "MemoryResource \<Rightarrow> TreemapComponent \<Rightarrow> TreemapNode \<Rightarrow> bool" where
  "draws r c d \<longleftrightarrow> tm_svg c \<and> tm_drawn c = Some d \<and> hn_children d \<noteq> None \<and> (tm_lastClicked c = None \<or> tm_lastClicked c = Some (hn_data d))
     \<and> (\<exists>h. tm_treemap c = Some h \<and> charted r h \<and> d \<in> set (nodes_of h))"

text \<open>What the component copied from the store.\<close>

definition copied :: "MemoryResourcesState \<Rightarrow> TreemapComponent \<Rightarrow> bool" where
  "copied s c \<longleftrightarrow> tm_breadcrumbs c = mrs_breadcrumbs s \<and> tm_treemapView c = Some (mrs_treemapView s)
     \<and> tm_baseResource c = mrs_resource s
     \<and> (mrs_activeResource s \<noteq> None \<longrightarrow> tm_activeResource c = mrs_activeResource s \<and> \<not> tm_isFirstTime c)"

definition synced :: "MemoryResourcesState \<Rightarrow> TreemapComponent \<Rightarrow> bool" where
  "synced s c \<longleftrightarrow> copied s c \<and> (case mrs_resource s of
      None \<Rightarrow> \<not> tm_svg c \<and> tm_lastClicked c = None
    | Some r \<Rightarrow> (\<exists>d. draws r c d \<and> mrs_activeResource s = Some (hn_data d)))"

lemma treemap_emit_same [simp]: "treemap_emit layout s s c = Inr c"
  by (simp add: treemap_emit_def)

text \<open>A new active resource of the same tree is drawn.\<close>

lemma on_active_draws:
  assumes "draws r c d" "x \<in> set (resources_in r)" "mr_children x \<noteq> []" "tm_isFirstTime c \<Longrightarrow> hn_data d = x"
  obtains c' d' where "on_active c (Some x) = Inr c'" "draws r c' d'" "hn_data d' = x" "tm_activeResource c' = Some x" "\<not> tm_isFirstTime c'"
    "tm_breadcrumbs c' = tm_breadcrumbs c" "tm_treemapView c' = tm_treemapView c" "tm_baseResource c' = tm_baseResource c"
proof (cases "\<not> tm_isFirstTime c \<and> tm_lastClicked c \<noteq> Some x")
  case True
  let ?c = "c\<lparr>tm_activeResource := Some x, tm_lastClicked := Some x\<rparr>"
  obtain h where h: "tm_treemap ?c = Some h" "charted r h" "tm_svg ?c" using assms(1) by (auto simp: draws_def)
  obtain d' where d': "d' \<in> set (nodes_of h)" "hn_data d' = x" "hn_children d' \<noteq> None"
    "zoom_to ?c (Some x) False = Inr (?c\<lparr>tm_lastClicked := Some x, tm_drawn := Some d'\<rparr>, [])"
    using zoom_to_found [OF h(2,1,3) assms(2,3), of False] by auto
  show ?thesis
    by (rule that [of "?c\<lparr>tm_lastClicked := Some x, tm_drawn := Some d', tm_isFirstTime := False\<rparr>" d'])
      (use True d' h in \<open>auto simp: on_active_def draws_def\<close>)
next
  case False
  then have "hn_data d = x" using assms(1,4) by (auto simp: draws_def)
  show ?thesis
    by (rule that [of "c\<lparr>tm_activeResource := Some x, tm_isFirstTime := False\<rparr>" d])
      (use False assms(1) \<open>hn_data d = x\<close> in \<open>auto simp: on_active_def draws_def\<close>)
qed

lemma draws_breadcrumbs [simp]: "draws r (c\<lparr>tm_breadcrumbs := bs\<rparr>) d = draws r c d"
  by (simp add: draws_def)

lemma emit_active:
  assumes "copied s c" "mrs_resource s = Some r" "draws r c d" "x \<in> set (resources_in r)" "mr_children x \<noteq> []"
    and "mrs_activeResource s \<noteq> None"
    and "mrs_activeResource s = Some x \<Longrightarrow> hn_data d = x"
  shows "\<exists>c'. treemap_emit layout s (s\<lparr>mrs_activeResource := Some x, mrs_breadcrumbs := bs\<rparr>) c = Inr c'
    \<and> synced (s\<lparr>mrs_activeResource := Some x, mrs_breadcrumbs := bs\<rparr>) c'"
proof (cases "mrs_activeResource s = Some x")
  case True
  show ?thesis using True assms by (auto simp: treemap_emit_def on_breadcrumbs_def synced_def copied_def)
next
  case False
  have "\<not> tm_isFirstTime c" using assms(1,6) by (simp add: copied_def)
  then obtain c' d' where c': "on_active c (Some x) = Inr c'" "draws r c' d'" "hn_data d' = x" "tm_activeResource c' = Some x"
      "\<not> tm_isFirstTime c'" "tm_breadcrumbs c' = tm_breadcrumbs c" "tm_treemapView c' = tm_treemapView c"
      "tm_baseResource c' = tm_baseResource c"
    using on_active_draws [OF assms(3-5)] by metis
  show ?thesis using False assms(1,2) c' by (auto simp: treemap_emit_def on_breadcrumbs_def synced_def copied_def)
qed

lemma createChart_draws:
  assumes "layout_ok layout" "good_tree r"
  shows "\<exists>h. createChart layout c r = Inr (c\<lparr>tm_svg := True, tm_treemap := Some h, tm_drawn := Some h\<rparr>)
    \<and> charted r h \<and> hn_children h \<noteq> None"
proof -
  let ?h = "layout (tm_treemapView c) r"
  have "charted r ?h" using assms by (simp add: charted_def layout_ok_def good_tree_def)
  moreover from this have "hn_children ?h \<noteq> None"
    using node_has_children [of r ?h ?h] assms(2) by (simp add: charted_def good_tree_def)
  ultimately show ?thesis by (intro exI [of _ ?h]) (simp add: createChart_def createTreemapValues_def)
qed

lemma state_ok_active:
  "state_ok s \<Longrightarrow> mrs_resource s = Some r \<Longrightarrow> \<exists>x. mrs_activeResource s = Some x \<and> x \<in> set (resources_in r) \<and> mr_children x \<noteq> []"
  unfolding state_ok_def using path_resources by (metis last_in_set path_from_def subsetD)

lemma root_unique: "good_tree r \<Longrightarrow> x \<in> set (resources_in r) \<Longrightarrow> mn_executableName (mr_name x) = ''root'' \<Longrightarrow> x = r"
  using resources_in_unfold [of r] by (auto simp: good_tree_def)

lemma emit_resource:
  assumes "layout_ok layout" "good_tree r" "state_ok s" "synced s c"
  defines "s' \<equiv> s\<lparr>mrs_resource := Some r, mrs_breadcrumbs := [Some r], mrs_activeResource := Some r\<rparr>"
  shows "\<exists>c'. treemap_emit layout s s' c = Inr c' \<and> synced s' c'"
proof (cases "mrs_resource s = Some r")
  case True
  obtain d where d: "draws r c d" "mrs_activeResource s = Some (hn_data d)" using assms(4) True by (auto simp: synced_def)
  have "s' = s\<lparr>mrs_activeResource := Some r, mrs_breadcrumbs := [Some r]\<rparr>" using True by (simp add: s'_def)
  then show ?thesis using emit_active [OF _ True d(1), of r layout "[Some r]"] d(2) assms(2,4) by (auto simp: synced_def good_tree_def)
next
  case False
  obtain h where h: "on_resource layout c (Some r) = Inr (c\<lparr>tm_baseResource := Some r, tm_svg := True, tm_treemap := Some h, tm_drawn := Some h\<rparr>)"
    "charted r h" "hn_children h \<noteq> None" using createChart_draws [OF assms(1,2)] by (fastforce simp: on_resource_def)
  let ?c = "c\<lparr>tm_baseResource := Some r, tm_svg := True, tm_treemap := Some h, tm_drawn := Some h\<rparr>"
  have hr: "hn_data h = r" using h(2) by (simp add: charted_def)
  show ?thesis
  proof (cases "mrs_activeResource s = Some r")
    case True
    have "mrs_resource s = None"
    proof (rule ccontr)
      assume "mrs_resource s \<noteq> None"
      then obtain r0 where r0: "mrs_resource s = Some r0" by auto
      then have "r \<in> set (resources_in r0)" "good_tree r0" using state_ok_active [OF assms(3) r0] True assms(3) by (auto simp: state_ok_def)
      then show False using root_unique [of r0 r] assms(2) False r0 by (auto simp: good_tree_def)
    qed
    then have "draws r ?c h" using assms(4) h(2,3) by (simp add: draws_def synced_def)
    then show ?thesis using True False assms(4) h(1) hr
      by (auto simp: treemap_emit_def s'_def on_breadcrumbs_def synced_def copied_def)
  next
    case active: False
    show ?thesis
    proof (cases "tm_isFirstTime c \<or> tm_lastClicked c = Some r")
      case True
      have last: "tm_lastClicked c = None \<or> tm_lastClicked c = Some r"
      proof (cases "mrs_resource s")
        case (Some r0)
        then show ?thesis using True state_ok_active [OF assms(3)] assms(4) by (auto simp: synced_def copied_def)
      qed (use assms(4) in \<open>simp add: synced_def\<close>)
      have "on_active ?c (Some r) = Inr (?c\<lparr>tm_activeResource := Some r, tm_isFirstTime := False\<rparr>)"
        using True by (auto simp: on_active_def)
      then show ?thesis using False active assms(4) h hr last
        by (auto simp: treemap_emit_def s'_def on_breadcrumbs_def synced_def copied_def draws_def)
    next
      case False
      have dr: "draws r (?c\<lparr>tm_lastClicked := None\<rparr>) h" using h(2,3) by (simp add: draws_def)
      obtain c' d' where c': "on_active (?c\<lparr>tm_lastClicked := None\<rparr>) (Some r) = Inr c'" "draws r c' d'" "hn_data d' = r"
          "tm_activeResource c' = Some r" "\<not> tm_isFirstTime c'" "tm_breadcrumbs c' = tm_breadcrumbs c"
          "tm_treemapView c' = tm_treemapView c" "tm_baseResource c' = Some r"
        using on_active_draws [OF dr self_in_resources] hr assms(2) by (auto simp: good_tree_def)
      have "on_active ?c (Some r) = on_active (?c\<lparr>tm_lastClicked := None\<rparr>) (Some r)"
        using False by (simp add: on_active_def)
      then show ?thesis using \<open>mrs_resource s \<noteq> Some r\<close> active assms(4) h c'
        by (auto simp: treemap_emit_def s'_def on_breadcrumbs_def synced_def copied_def)
    qed
  qed
qed

lemma emit_unloaded:
  fixes g s
  assumes "synced s c"
  defines "s' \<equiv> s\<lparr>mrs_granularity := g, mrs_resource := None, mrs_activeResource := None, mrs_breadcrumbs := []\<rparr>"
  shows "\<exists>c'. treemap_emit layout s s' c = Inr c' \<and> synced s' c'"
proof (cases "mrs_resource s")
  case None
  then show ?thesis using assms by (auto simp: treemap_emit_def s'_def on_active_def on_breadcrumbs_def synced_def copied_def)
next
  case (Some r)
  then show ?thesis using assms
    by (auto simp: treemap_emit_def s'_def on_resource_def on_active_def on_breadcrumbs_def synced_def copied_def)
qed

lemma emit_view:
  assumes "layout_ok layout" "state_ok s" "synced s c" "mrs_resource s = Some r"
  shows "\<exists>c'. treemap_emit layout s (s\<lparr>mrs_treemapView := v\<rparr>) c = Inr c' \<and> synced (s\<lparr>mrs_treemapView := v\<rparr>) c'"
proof (cases "v = mrs_treemapView s")
  case False
  obtain d where d: "draws r c d" "mrs_activeResource s = Some (hn_data d)" using assms(3,4) by (auto simp: synced_def)
  have x: "hn_data d \<in> set (resources_in r)" "mr_children (hn_data d) \<noteq> []" using state_ok_active [OF assms(2,4)] d(2) by auto
  have cp: "copied s c" using assms(3) by (simp add: synced_def)
  define c1 where "c1 = c\<lparr>tm_treemapView := Some v, tm_treemap := Some (layout (Some v) r)\<rparr>"
  have h: "tm_treemap c1 = Some (layout (Some v) r)" "charted r (layout (Some v) r)" "tm_svg c1"
    using assms(1,2,4) d(1) by (auto simp: c1_def charted_def layout_ok_def draws_def state_ok_def good_tree_def)
  obtain d' where d': "d' \<in> set (nodes_of (layout (Some v) r))" "hn_data d' = hn_data d" "hn_children d' \<noteq> None"
    "zoom_to c1 (Some (hn_data d)) False = Inr (c1\<lparr>tm_lastClicked := Some (hn_data d), tm_drawn := Some d'\<rparr>, [])"
    using zoom_to_found [OF h(2,1,3) x, of False] by auto
  define c2 where "c2 = c1\<lparr>tm_lastClicked := Some (hn_data d), tm_drawn := Some d'\<rparr>"
  have "tm_activeResource c1 = Some (hn_data d)" using cp d(2) by (simp add: copied_def c1_def)
  then have "on_view layout c v = Inr c2"
    using cp assms(4) d'(4) by (simp add: on_view_def copied_def createTreemapValues_def flip: c1_def c2_def)
  moreover have "draws r c2 d'" using h d' by (auto simp: draws_def c2_def)
  ultimately show ?thesis using False cp assms(4) d(2) d'(2)
    by (auto simp: treemap_emit_def synced_def copied_def c2_def c1_def)
qed (use assms in simp)

text \<open>While nothing is loaded, what is not thrown leaves the components as they are.\<close>

lemma emit_stale:
  assumes "synced s c" "mrs_resource s = None" "mrs_resource s' = None" "mrs_activeResource s' \<noteq> None"
    and "mrs_treemapView s' = mrs_treemapView s" "treemap_emit layout s s' c = Inr c'"
  shows "synced s' c'"
proof (cases "mrs_activeResource s' = mrs_activeResource s")
  case True
  then show ?thesis using assms by (auto simp: treemap_emit_def on_breadcrumbs_def synced_def copied_def split: if_splits)
next
  case False
  have "zoom_to (c\<lparr>tm_activeResource := y, tm_lastClicked := y\<rparr>) y False \<noteq> Inr z" for y z
    using assms(1,2) by (auto simp: zoom_to_def node_of_def zoomIn_def synced_def split: option.splits)
  then show ?thesis using False assms
    by (auto simp: treemap_emit_def on_active_def on_breadcrumbs_def synced_def copied_def js_bind_Inr_iff split: if_splits)
qed

lemma set_active_stale:
  "set_active_resource s payload = Inr s' \<Longrightarrow> s' = s \<or> mrs_resource s' = mrs_resource s \<and> mrs_activeResource s' \<noteq> None
     \<and> mrs_treemapView s' = mrs_treemapView s"
  by (auto simp: set_active_resource.simps js_bind_Inr_iff split: if_splits option.splits)

definition page_inv :: "memory_page \<Rightarrow> bool" where
  "page_inv p \<longleftrightarrow> state_ok (mp_state p) \<and> synced (mp_state p) (mp_treemap p)
     \<and> (mrs_resource (mp_state p) \<noteq> None \<longrightarrow> mp_shown p = listenToActiveResource (mp_state p) (mp_shown p))
     \<and> (me_pending (mp_effects p) \<noteq> None \<longrightarrow> me_id (mp_effects p) = 0)"

lemma listen_idem [simp]: "listenToActiveResource s (listenToActiveResource s sh) = listenToActiveResource s sh"
  by (simp add: listenToActiveResource_def)

lemma page_inv_commit:
  assumes "state_ok s" "synced s c" "me_pending m \<noteq> None \<longrightarrow> me_id m = 0"
  shows "page_inv (p\<lparr>mp_state := s, mp_treemap := c, mp_shown := listenToActiveResource s sh, mp_effects := m\<rparr>)"
  using assms by (simp add: page_inv_def)

text \<open>The effects answer with an action of their own only to a new granularity.\<close>

lemma memory_dispatch_simple:
  "\<forall>g. a \<noteq> MR_SET_GRANULARITY g \<Longrightarrow> memory_dispatch layout init p a = js_bind (memory_commit layout init p a)
     (\<lambda>q. Inr (q\<lparr>mp_effects := fst (memory_effect (mp_effects q) (MeAct a (mrs_granularity (mp_state q))))\<rparr>))"
  by (cases a) (auto simp: memory_dispatch_def)

lemma commit_Inr:
  assumes "memoryResourcesReducer init (mp_state p) a = Inr s" "treemap_emit layout (mp_state p) s (mp_treemap p) = Inr c"
  shows "memory_commit layout init p a = Inr (p\<lparr>mp_state := s, mp_treemap := c, mp_shown := listenToActiveResource s (mp_shown p)\<rparr>)"
  using assms by (simp add: memory_commit_def)

lemma dispatch_get:
  "page_inv p \<Longrightarrow> \<exists>p'. memory_dispatch layout init p MR_GET = Inr p' \<and> page_inv p'"
  by (auto simp: memory_dispatch_simple memory_commit_def page_inv_def listenToActiveResource_def)

lemma dispatch_loaded:
  assumes "page_inv p" "layout_ok layout" "good_tree r"
  shows "\<exists>p'. memory_dispatch layout init p (MR_GET_SUCCESS (Some r)) = Inr p' \<and> page_inv p'"
proof -
  let ?s = "(mp_state p)\<lparr>mrs_resource := Some r, mrs_breadcrumbs := [Some r], mrs_activeResource := Some r\<rparr>"
  obtain c where c: "treemap_emit layout (mp_state p) ?s (mp_treemap p) = Inr c" "synced ?s c"
    using emit_resource [OF assms(2,3)] assms(1) unfolding page_inv_def by blast
  have "path_from r [r]" by (simp add: path_from_def)
  then have "state_ok ?s" using assms(3) by (auto simp: state_ok_def good_tree_def intro!: exI [of _ "[r]"])
  then show ?thesis using commit_Inr [of init p "MR_GET_SUCCESS (Some r)" ?s layout c] c assms(1)
    by (auto simp: memory_dispatch_simple page_inv_def)
qed

lemma unloaded_commit:
  assumes "page_inv p" "memoryResourcesReducer init (mp_state p) a =
    Inr ((mp_state p)\<lparr>mrs_granularity := g, mrs_resource := None, mrs_activeResource := None, mrs_breadcrumbs := []\<rparr>)"
  shows "\<exists>p'. memory_commit layout init p a = Inr p' \<and> page_inv p'"
proof -
  let ?s = "(mp_state p)\<lparr>mrs_granularity := g, mrs_resource := None, mrs_activeResource := None, mrs_breadcrumbs := []\<rparr>"
  obtain c where "treemap_emit layout (mp_state p) ?s (mp_treemap p) = Inr c" "synced ?s c"
    using emit_unloaded [of "mp_state p" "mp_treemap p" layout g] assms(1) unfolding page_inv_def by blast
  then show ?thesis using commit_Inr [OF assms(2), of layout c] assms(1) by (auto simp: page_inv_def state_ok_def)
qed

lemma dispatch_failed:
  assumes "page_inv p"
  shows "\<exists>p'. memory_dispatch layout init p (MR_GET_SUCCESS None) = Inr p' \<and> page_inv p'"
proof -
  have "memoryResourcesReducer init (mp_state p) (MR_GET_SUCCESS None) = Inr ((mp_state p)\<lparr>mrs_granularity :=
      mrs_granularity (mp_state p), mrs_resource := None, mrs_activeResource := None, mrs_breadcrumbs := []\<rparr>)" by simp
  from unloaded_commit [OF assms this, of layout] show ?thesis by (auto simp: memory_dispatch_simple)
qed

lemma dispatch_granularity:
  assumes "page_inv p"
  shows "\<exists>p'. memory_dispatch layout init p (MR_SET_GRANULARITY g) = Inr p' \<and> page_inv p'"
proof -
  obtain p1 where p1: "memory_commit layout init p (MR_SET_GRANULARITY g) = Inr p1" "page_inv p1"
    using unloaded_commit [OF assms, of init "MR_SET_GRANULARITY g" g layout] by auto
  obtain p2 where "memory_dispatch layout init p1 MR_GET = Inr p2" "page_inv p2" using dispatch_get [OF p1(2)] by blast
  then show ?thesis using p1 by (auto simp: memory_dispatch_def js_bind_Inr_iff)
qed

text \<open>Navigation inside the tree that is shown; the treemap may already draw the target.\<close>

lemma dispatch_nav:
  assumes inv: "page_inv p" and r: "mrs_resource (mp_state p) = Some r" and path: "path_from r ps"
    and bs: "mrs_breadcrumbs (mp_state p) = map Some ps" and act: "mrs_activeResource (mp_state p) = Some (last ps)"
    and c: "copied (mp_state p) c" "draws r c d" "last ps = x \<Longrightarrow> hn_data d = x"
    and x: "x \<in> set (mr_children (last ps)) \<or> (\<exists>j < length ps. x = ps ! j)" "mr_children x \<noteq> []"
  shows "\<exists>p'. memory_dispatch layout init (p\<lparr>mp_treemap := c\<rparr>) (MR_SET_ACTIVE_RESOURCE (Some x)) = Inr p' \<and> page_inv p'"
proof -
  have good: "good_tree r" using inv r by (simp add: page_inv_def state_ok_def)
  obtain qs where red: "set_active_resource (mp_state p) (Some x)
      = Inr ((mp_state p)\<lparr>mrs_activeResource := Some x, mrs_breadcrumbs := map Some qs\<rparr>)"
    and qs: "path_from r qs" "last qs = x"
  proof (cases "x \<in> set (mr_children (last ps))")
    case True
    then show ?thesis using that [of "ps @ [x]"] set_active_child [OF good path bs act True] path_snoc [OF path True] by simp
  next
    case False
    then obtain j where j: "j < length ps" "x = ps ! j" using x(1) by blast
    have "last (take (Suc j) ps) = ps ! j" using j(1) by (simp add: take_Suc_conv_app_nth)
    then show ?thesis using that [of "take (Suc j) ps"] set_active_crumb [OF good path bs act r j(1)] path_take [OF path] j(2) by simp
  qed
  let ?s = "(mp_state p)\<lparr>mrs_activeResource := Some x, mrs_breadcrumbs := map Some qs\<rparr>"
  have "qs \<noteq> []" using qs(1) by (simp add: path_from_def)
  then have "x \<in> set (resources_in r)" using path_resources [OF qs(1)] qs(2) last_in_set by blast
  then obtain c' where c': "treemap_emit layout (mp_state p) ?s c = Inr c'" "synced ?s c'"
    using emit_active [OF c(1) r c(2), of x layout "map Some qs"] act c(3) x(2) by auto
  have "state_ok ?s" using r good qs x(2) by (auto simp: state_ok_def)
  then show ?thesis
    using commit_Inr [of init "p\<lparr>mp_treemap := c\<rparr>" "MR_SET_ACTIVE_RESOURCE (Some x)" ?s layout c'] red c' inv
    by (auto simp: memory_dispatch_simple page_inv_def)
qed

lemma page_inv_effects: "page_inv p \<Longrightarrow> me_pending m \<noteq> None \<longrightarrow> me_id m = 0 \<Longrightarrow> page_inv (p\<lparr>mp_effects := m\<rparr>)"
  by (simp add: page_inv_def)

lemma answer_ok:
  assumes "page_inv p" "layout_ok layout" "e = MeFailure \<or> (\<exists>t. e = MeReply t \<and> frames_ok t)"
  shows "\<exists>p'. memory_answer layout init p e = Inr p' \<and> page_inv p'"
proof (cases "me_pending (mp_effects p)")
  case None
  then show ?thesis using assms by (auto simp: memory_answer_def)
next
  case (Some threshold)
  have zero: "me_id (mp_effects p) = 0" using assms(1) Some by (simp add: page_inv_def)
  have failed: "\<exists>p'. memory_dispatch layout init (p\<lparr>mp_effects := (mp_effects p)\<lparr>me_pending := None\<rparr>\<rparr>) (MR_GET_SUCCESS None) = Inr p' \<and> page_inv p'"
    by (rule dispatch_failed) (simp add: page_inv_effects [OF assms(1)])
  show ?thesis
  proof (cases "e = MeFailure")
    case True
    then show ?thesis using failed Some by (auto simp: memory_answer_def js_bind_Inr_iff)
  next
    case False
    then obtain t where t: "e = MeReply t" "frames_ok t" using assms(3) by blast
    show ?thesis
    proof (cases "mapMemoryResponse t threshold 0")
      case (Inl err)
      then show ?thesis using failed Some t zero by (auto simp: memory_answer_def js_bind_Inr_iff)
    next
      case (Inr rn)
      obtain r n where rn: "rn = (r, n)" by force
      have "\<exists>p'. memory_dispatch layout init (p\<lparr>mp_effects := (mp_effects p)\<lparr>me_pending := None, me_id := n\<rparr>\<rparr>)
          (MR_GET_SUCCESS (Some r)) = Inr p' \<and> page_inv p'"
        by (rule dispatch_loaded) (simp_all add: page_inv_effects [OF assms(1)] assms(2) mapMemoryResponse_good [OF Inr [unfolded rn] t(2)])
      then show ?thesis using Inr rn Some t zero by (auto simp: memory_answer_def js_bind_Inr_iff)
    qed
  qed
qed

lemma node_child_in: "d \<in> set (nodes_of h) \<Longrightarrow> hn_children d = Some cs \<Longrightarrow> c \<in> set cs \<Longrightarrow> c \<in> set (nodes_of h)"
  by (induction h rule: nodes_of.induct) fastforce+

lemma dispatch_view:
  assumes "page_inv p" "mrs_resource (mp_state p) = Some r" "layout_ok layout"
  shows "\<exists>p'. memory_dispatch layout init p (MR_SET_TREEMAP_VIEW v) = Inr p' \<and> page_inv p'"
proof -
  let ?s = "(mp_state p)\<lparr>mrs_treemapView := v\<rparr>"
  obtain c where c: "treemap_emit layout (mp_state p) ?s (mp_treemap p) = Inr c" "synced ?s c"
    using emit_view [OF assms(3), of "mp_state p" "mp_treemap p" r v] assms(1,2) unfolding page_inv_def by blast
  have "state_ok ?s" using assms(1) by (simp add: page_inv_def state_ok_def)
  then show ?thesis using commit_Inr [of init p "MR_SET_TREEMAP_VIEW v" ?s layout c] c assms(1)
    by (auto simp: memory_dispatch_simple page_inv_def)
qed

definition event_ok :: "memory_page_event \<Rightarrow> bool" where
  "event_ok e \<longleftrightarrow> (case e of MpReply t \<Rightarrow> frames_ok t | _ \<Rightarrow> True)"

lemma memory_open_inv: "page_inv (memory_open (initial_memory_resources g v) (m\<lparr>me_pending := None\<rparr>))"
  by (simp add: page_inv_def memory_open_def initial_memory_resources_def state_ok_def synced_def copied_def initial_treemap_def)

lemma step_actions:
  "memory_clicks layout p e = Inr (c, actions) \<Longrightarrow> e \<noteq> MpFailure \<Longrightarrow> e \<noteq> MpLeave \<Longrightarrow> \<forall>t. e \<noteq> MpReply t \<Longrightarrow>
   memory_step layout init p e = run_reducer (memory_dispatch layout init) (p\<lparr>mp_treemap := c\<rparr>) actions"
  by (cases e) auto

lemma run_one: "run_reducer f s [a] = f s a"
  by (cases "f s a") simp_all

lemma page_same_treemap [simp]: "p\<lparr>mp_treemap := mp_treemap p\<rparr> = p"
  by simp

text \<open>A page that shows a tree: the path of the breadcrumbs and the node the treemap draws.\<close>

definition shows_path :: "memory_page \<Rightarrow> MemoryResource \<Rightarrow> MemoryResource list \<Rightarrow> TreemapNode \<Rightarrow> bool" where
  "shows_path p r ps d \<longleftrightarrow> page_inv p \<and> mrs_resource (mp_state p) = Some r \<and> path_from r ps
     \<and> mrs_breadcrumbs (mp_state p) = map Some ps \<and> mrs_activeResource (mp_state p) = Some (last ps)
     \<and> copied (mp_state p) (mp_treemap p) \<and> draws r (mp_treemap p) d \<and> hn_data d = last ps
     \<and> mr_children (last ps) \<noteq> [] \<and> sh_breadcrumbs (mp_shown p) = map Some ps"

lemma loaded_shows_path:
  assumes "page_inv p" "mrs_resource (mp_state p) = Some r"
  obtains ps d where "shows_path p r ps d"
proof -
  obtain ps where ps: "path_from r ps" "mrs_breadcrumbs (mp_state p) = map Some ps" "mrs_activeResource (mp_state p) = Some (last ps)"
      "mr_children (last ps) \<noteq> []"
    using assms by (auto simp: page_inv_def state_ok_def)
  obtain d where d: "copied (mp_state p) (mp_treemap p)" "draws r (mp_treemap p) d" "hn_data d = last ps"
    using assms ps(3) by (auto simp: page_inv_def synced_def)
  have "mp_shown p = listenToActiveResource (mp_state p) (mp_shown p)" using assms by (simp add: page_inv_def)
  then have "sh_breadcrumbs (mp_shown p) = map Some ps"
    using assms(2) ps(2) by (metis listenToActiveResource_def memory_shown.select_convs(1) option.distinct(1))
  then show ?thesis using that assms ps d by (auto simp: shows_path_def)
qed

text \<open>An event is handled: neither a component nor the reducer throws, and the page stays consistent.\<close>

definition handled ::
  "(TreemapView option \<Rightarrow> MemoryResource \<Rightarrow> TreemapNode) \<Rightarrow> MemoryResourcesState \<Rightarrow> memory_page \<Rightarrow> (TreemapComponent \<times> MemoryResourcesActions list) result
    \<Rightarrow> bool" where
  "handled layout init p res \<longleftrightarrow> (\<exists>c as p'. res = Inr (c, as)
     \<and> run_reducer (memory_dispatch layout init) (p\<lparr>mp_treemap := c\<rparr>) as = Inr p' \<and> page_inv p')"

lemma handled_stay: "page_inv p \<Longrightarrow> handled layout init p (Inr (mp_treemap p, []))"
  by (simp add: handled_def)

lemma handled_one:
  "\<exists>p'. memory_dispatch layout init (p\<lparr>mp_treemap := c\<rparr>) a = Inr p' \<and> page_inv p' \<Longrightarrow> handled layout init p (Inr (c, [a]))"
  by (auto simp: handled_def)

lemma handled_nav:
  assumes "shows_path p r ps d" "x \<in> set (mr_children (last ps)) \<and> mr_children x \<noteq> [] \<or> (\<exists>j < length ps. x = ps ! j)"
  shows "handled layout init p (Inr (mp_treemap p, [MR_SET_ACTIVE_RESOURCE (Some x)]))"
proof -
  have "mr_children x \<noteq> []" using assms path_children [of r ps x] by (auto simp: shows_path_def)
  then show ?thesis using assms by (intro handled_one dispatch_nav [of p r ps "mp_treemap p" d x]) (auto simp: shows_path_def)
qed

text \<open>A zoom of the treemap to a node of the path or to a child of the active resource.\<close>

lemma handled_zoom:
  assumes "shows_path p r ps d" "draws r c d'" "copied (mp_state p) c"
    and "hn_data d' \<in> set (mr_children (last ps)) \<or> (\<exists>j < length ps. hn_data d' = ps ! j)"
  shows "handled layout init p (Inr (c, [MR_SET_ACTIVE_RESOURCE (Some (hn_data d'))]))"
proof -
  have "mr_children (hn_data d') \<noteq> []" using assms(2) node_has_children [of r _ d'] by (auto simp: draws_def)
  then show ?thesis using assms by (intro handled_one dispatch_nav [of p r ps c d' "hn_data d'"]) (auto simp: shows_path_def)
qed

lemma draws_zoomed:
  "draws r c d \<Longrightarrow> tm_treemap c = Some h \<Longrightarrow> q \<in> set (nodes_of h) \<Longrightarrow> hn_children q \<noteq> None \<Longrightarrow>
   draws r (c\<lparr>tm_lastClicked := Some (hn_data q), tm_drawn := Some q\<rparr>) q"
  by (auto simp: draws_def)

lemma copied_zoomed [simp]: "copied s (c\<lparr>tm_lastClicked := x, tm_drawn := y\<rparr>) = copied s c" "copied s (c\<lparr>tm_treemap := h\<rparr>) = copied s c"
  by (simp_all add: copied_def)

lemma handled_rect:
  assumes sp: "shows_path p r ps d"
  shows "handled layout init p (onRectClick (mp_treemap p) i)"
proof (cases "\<exists>cs. hn_children d = Some cs \<and> i < length cs \<and> hn_children (cs ! i) \<noteq> None")
  case True
  then obtain cs where cs: "hn_children d = Some cs" "i < length cs" "hn_children (cs ! i) \<noteq> None" by blast
  obtain h where h: "tm_treemap (mp_treemap p) = Some h" "charted r h" "d \<in> set (nodes_of h)" "tm_svg (mp_treemap p)"
      "tm_drawn (mp_treemap p) = Some d" using sp by (auto simp: draws_def shows_path_def)
  have "mirrors d" using node_mirrors [OF _ h(3)] h(2) by (simp add: charted_def)
  then have "hn_data (cs ! i) \<in> set (mr_children (last ps))"
    using mirrors_children [OF _ cs(1)] cs(2) sp by (force simp: shows_path_def)
  moreover have "cs ! i \<in> set (nodes_of h)" using node_child_in [OF h(3) cs(1)] cs(2) by simp
  ultimately show ?thesis using handled_zoom [OF sp draws_zoomed [OF _ h(1)], of d "cs ! i"] cs h sp
    by (simp add: onRectClick_def zoomIn_def shows_path_def)
next
  case False
  then have "onRectClick (mp_treemap p) i = Inr (mp_treemap p, [])"
    using sp by (auto simp: onRectClick_def draws_def shows_path_def split: option.splits)
  then show ?thesis using handled_stay sp by (simp add: shows_path_def)
qed

lemma handled_escape:
  assumes sp: "shows_path p r ps d"
  shows "handled layout init p (onKeydownHandler (mp_treemap p))"
proof (cases "length ps > 1")
  case True
  obtain h where h: "tm_treemap (mp_treemap p) = Some h" "charted r h" "tm_svg (mp_treemap p)"
    using sp by (auto simp: draws_def shows_path_def)
  have b: "path_from r ps" "tm_breadcrumbs (mp_treemap p) = map Some ps" using sp by (simp_all add: shows_path_def copied_def)
  obtain q where q: "q \<in> set (nodes_of h)" "hn_data q = ps ! (length ps - 2)" "hn_children q \<noteq> None"
      "onKeydownHandler (mp_treemap p) = Inr ((mp_treemap p)\<lparr>tm_lastClicked := Some (hn_data q), tm_drawn := Some q\<rparr>,
        [MR_SET_ACTIVE_RESOURCE (Some (hn_data q))])"
    using escape_found [OF h(2,1,3) b True] by blast
  have "\<exists>j < length ps. hn_data q = ps ! j" using q(2) True by (intro exI [of _ "length ps - 2"]) simp
  then show ?thesis unfolding q(4) using sp
    by (intro handled_zoom [OF sp draws_zoomed [OF _ h(1) q(1,3)]]) (auto simp: shows_path_def)
next
  case False
  then show ?thesis using handled_stay [of p] sp by (simp add: shows_path_def onKeydownHandler_def copied_def)
qed

lemma handled_resize:
  assumes sp: "shows_path p r ps d" and lay: "layout_ok layout"
  shows "handled layout init p (redrawChart layout (mp_treemap p))"
proof -
  let ?c = "mp_treemap p" and ?h = "layout (tm_treemapView (mp_treemap p)) r"
  define c1 where "c1 = ?c\<lparr>tm_treemap := Some ?h\<rparr>"
  have h: "charted r ?h" "tm_treemap c1 = Some ?h" "tm_svg c1"
    using lay sp by (auto simp: c1_def charted_def layout_ok_def shows_path_def page_inv_def state_ok_def good_tree_def draws_def)
  have idx: "last ps \<in> set ps" using sp by (simp add: shows_path_def path_from_def)
  then obtain j where j: "j < length ps" "last ps = ps ! j" by (metis in_set_conv_nth)
  have "last ps \<in> set (resources_in r)" using path_resources [of r ps] idx sp by (auto simp: shows_path_def)
  moreover have "mr_children (last ps) \<noteq> []" using sp by (simp add: shows_path_def)
  ultimately obtain q where q: "q \<in> set (nodes_of ?h)" "hn_data q = last ps" "hn_children q \<noteq> None"
      "zoom_to c1 (Some (last ps)) True = Inr (c1\<lparr>tm_lastClicked := Some (last ps), tm_drawn := Some q\<rparr>, [MR_SET_ACTIVE_RESOURCE (Some (last ps))])"
    using zoom_to_found [OF h, of "last ps" True] by auto
  have rd: "redrawChart layout ?c = Inr (c1\<lparr>tm_lastClicked := Some (hn_data q), tm_drawn := Some q\<rparr>, [MR_SET_ACTIVE_RESOURCE (Some (hn_data q))])"
    using sp q(2,4) by (simp add: redrawChart_def createTreemapValues_def shows_path_def draws_def copied_def flip: c1_def) (simp add: c1_def)
  have "draws r (c1\<lparr>tm_lastClicked := Some (hn_data q), tm_drawn := Some q\<rparr>) q" using h q(1,3) by (auto simp: draws_def)
  from handled_zoom [OF sp this, of layout init] show ?thesis unfolding rd
    using sp q(2) j by (auto simp: shows_path_def c1_def)
qed

lemma handled_clicks:
  assumes sp: "shows_path p r ps d" and lay: "layout_ok layout"
  shows "handled layout init p (memory_clicks layout p e)"
proof -
  have inv: "page_inv p" and r: "mrs_resource (mp_state p) = Some r" and act: "mrs_activeResource (mp_state p) = Some (last ps)"
    and shown: "sh_breadcrumbs (mp_shown p) = map Some ps" using sp by (simp_all add: shows_path_def)
  note stay = handled_stay [OF inv]
  show ?thesis
  proof (cases e)
    case (MpRow i)
    show ?thesis
    proof (cases "i < length (table_rows (mp_state p)) \<and> mr_children (table_rows (mp_state p) ! i) \<noteq> []")
      case True
      then have "table_rows (mp_state p) ! i \<in> set (mr_children (last ps))" using act by (auto simp: table_rows_def)
      then show ?thesis using handled_nav [OF sp] True MpRow by (simp add: onRowClick_def)
    qed (use stay MpRow in \<open>auto simp: onRowClick_def\<close>)
  next
    case (MpBreadcrumb j)
    then show ?thesis using handled_nav [OF sp, of "ps ! j"] stay shown by auto
  next
    case MpBack
    have "\<exists>j < length ps. ps ! (length ps - 2) = ps ! j" if "\<not> length ps < 2"
      using that by (intro exI [of _ "length ps - 2"]) simp
    then show ?thesis using handled_nav [OF sp, of "ps ! (length ps - 2)"] stay shown MpBack by (auto simp: go_back_def)
  next
    case (MpGranularity g')
    then show ?thesis using handled_one [of layout init "mp_treemap p" p "MR_SET_GRANULARITY g'"] dispatch_granularity [OF inv, of layout init g'] stay
      by (simp add: setGranularity_def)
  next
    case (MpTreemapView v')
    then show ?thesis using handled_one [of layout init "mp_treemap p" p "MR_SET_TREEMAP_VIEW v'"] dispatch_view [OF inv r lay, of init v'] stay
      by (simp add: setTreemapView_def)
  next
    case MpActiveNode
    then show ?thesis using handled_one [of layout init "mp_treemap p" p MR_GET] dispatch_get [OF inv, of layout init] by simp
  qed (use stay handled_rect [OF sp] handled_escape [OF sp] handled_resize [OF sp lay] in simp_all)
qed

lemma step_answers:
  assumes "page_inv p" "layout_ok layout" "event_ok e" "e = MpFailure \<or> e = MpLeave \<or> (\<exists>t. e = MpReply t)"
  shows "\<exists>p'. memory_step layout (initial_memory_resources g v) p e = Inr p' \<and> page_inv p'"
proof -
  consider "e = MpFailure" | "e = MpLeave" | t where "e = MpReply t" "frames_ok t" using assms(3,4) by (auto simp: event_ok_def)
  then show ?thesis
    using answer_ok [OF assms(1,2), of MeFailure] answer_ok [OF assms(1,2), of "MeReply t" for t] memory_open_inv [of g v "mp_effects p"]
    by cases simp_all
qed

lemma step_loaded:
  assumes "page_inv p" "mrs_resource (mp_state p) = Some r" "layout_ok layout" "event_ok e"
  shows "\<exists>p'. memory_step layout (initial_memory_resources g v) p e = Inr p' \<and> page_inv p'"
proof (cases "e = MpFailure \<or> e = MpLeave \<or> (\<exists>t. e = MpReply t)")
  case False
  obtain ps d where "shows_path p r ps d" using loaded_shows_path [OF assms(1,2)] by blast
  from handled_clicks [OF this assms(3)] obtain c as p' where "memory_clicks layout p e = Inr (c, as)"
      "run_reducer (memory_dispatch layout (initial_memory_resources g v)) (p\<lparr>mp_treemap := c\<rparr>) as = Inr p'" "page_inv p'"
    unfolding handled_def by blast
  then show ?thesis using step_actions [of layout p e c as] False by auto
qed (rule step_answers [OF assms(1,3,4)])

text \<open>While nothing is loaded, a step that returns keeps the page consistent.\<close>

lemma clicks_unloaded:
  assumes "page_inv p" "mrs_resource (mp_state p) = None" "memory_clicks layout p e = Inr (c, as)"
  shows "c = mp_treemap p \<and> (as = [] \<or> as = [MR_GET] \<or> (\<exists>g. as = [MR_SET_GRANULARITY g])
     \<or> (\<exists>x. as = [MR_SET_ACTIVE_RESOURCE x]) \<or> (\<exists>v. as = [MR_SET_TREEMAP_VIEW v]))"
proof -
  have svg: "\<not> tm_svg (mp_treemap p)" using assms(1,2) by (simp add: page_inv_def synced_def)
  then have "zoomOut (mp_treemap p) ns \<noteq> Inr z" for ns z by (cases ns) (simp_all add: zoomOut_def)
  then show ?thesis using assms(3) svg
    by (cases e) (auto simp: onRectClick_def zoomIn_def onKeydownHandler_def redrawChart_def js_bind_Inr_iff onRowClick_def
      go_back_def setGranularity_def setTreemapView_def split: option.splits if_splits)
qed

lemma dispatch_stale:
  assumes inv: "page_inv p" "mrs_resource (mp_state p) = None" and ret: "memory_dispatch layout init p (MR_SET_ACTIVE_RESOURCE x) = Inr p'"
  shows "page_inv p'"
proof -
  obtain s c where s: "set_active_resource (mp_state p) x = Inr s" and c: "treemap_emit layout (mp_state p) s (mp_treemap p) = Inr c"
    and p': "p' = p\<lparr>mp_state := s, mp_treemap := c, mp_shown := listenToActiveResource s (mp_shown p)\<rparr>"
    using ret by (auto simp: memory_dispatch_simple memory_commit_def js_bind_Inr_iff)
  have "state_ok s \<and> synced s c"
  proof (cases "s = mp_state p")
    case True
    then show ?thesis using inv c by (simp add: page_inv_def)
  next
    case False
    then have "mrs_resource s = None" "mrs_activeResource s \<noteq> None" "mrs_treemapView s = mrs_treemapView (mp_state p)"
      using set_active_stale [OF s] inv(2) by auto
    then show ?thesis using emit_stale [of "mp_state p" "mp_treemap p" s layout c] inv c by (simp add: page_inv_def state_ok_def)
  qed
  then show ?thesis using inv p' by (simp add: page_inv_def)
qed

lemma dispatch_stale_view:
  assumes inv: "page_inv p" "mrs_resource (mp_state p) = None" and ret: "memory_dispatch layout init p (MR_SET_TREEMAP_VIEW v) = Inr p'"
  shows "page_inv p'"
proof -
  have "v = mrs_treemapView (mp_state p)"
  proof (rule ccontr)
    assume "v \<noteq> mrs_treemapView (mp_state p)"
    then show False using ret inv
      by (auto simp: memory_dispatch_simple memory_commit_def treemap_emit_def on_view_def createTreemapValues_def page_inv_def
        synced_def copied_def)
  qed
  then show ?thesis using inv ret by (auto simp: memory_dispatch_simple memory_commit_def page_inv_def)
qed

lemma step_unloaded:
  assumes inv: "page_inv p" "mrs_resource (mp_state p) = None" and lay: "layout_ok layout" and ok: "event_ok e"
    and ret: "memory_step layout (initial_memory_resources g v) p e = Inr p'"
  shows "page_inv p'"
proof (cases "e = MpFailure \<or> e = MpLeave \<or> (\<exists>t. e = MpReply t)")
  case True
  from step_answers [OF inv(1) lay ok True, of g v] ret show ?thesis by auto
next
  case False
  then obtain c as where clicks: "memory_clicks layout p e = Inr (c, as)"
    using ret by (cases e) (auto simp: js_bind_Inr_iff)
  then have run: "run_reducer (memory_dispatch layout (initial_memory_resources g v)) (p\<lparr>mp_treemap := c\<rparr>) as = Inr p'"
    using step_actions [of layout p e c as] False ret by auto
  have c: "p\<lparr>mp_treemap := c\<rparr> = p" using clicks_unloaded [OF inv clicks] by simp
  let ?init = "initial_memory_resources g v"
  consider "as = []" | "as = [MR_GET]" | g' where "as = [MR_SET_GRANULARITY g']" | x where "as = [MR_SET_ACTIVE_RESOURCE x]"
    | v' where "as = [MR_SET_TREEMAP_VIEW v']" using clicks_unloaded [OF inv clicks] by blast
  then show ?thesis
  proof cases
    case 1
    then show ?thesis using run [unfolded c] inv(1) by simp
  next
    case 2
    then show ?thesis using run [unfolded c] dispatch_get [OF inv(1), of layout ?init] by auto
  next
    case 3
    then show ?thesis using run [unfolded c] dispatch_granularity [OF inv(1), of layout ?init] by (metis run_one sum.inject(2))
  next
    case (4 x)
    then show ?thesis using run [unfolded c] dispatch_stale [OF inv, of layout ?init x] by (simp only: run_one)
  next
    case (5 v')
    then show ?thesis using run [unfolded c] dispatch_stale_view [OF inv, of layout ?init v'] by (simp only: run_one)
  qed
qed

interpretation memory: partial_slice "memory_open (initial_memory_resources g v) initial_memory_effects"
    "memory_step layout (initial_memory_resources g v)" "\<lambda>p. layout_ok layout \<longrightarrow> page_inv p" event_ok for g v layout
proof
  show "layout_ok layout \<longrightarrow> page_inv (memory_open (initial_memory_resources g v) initial_memory_effects)"
    using memory_open_inv [of g v initial_memory_effects] by (simp add: initial_memory_effects_def)
  show "layout_ok layout \<longrightarrow> page_inv p'" if "layout_ok layout \<longrightarrow> page_inv p" "event_ok e"
    "memory_step layout (initial_memory_resources g v) p e = Inr p'" for p e p'
  proof
    assume lay: "layout_ok layout"
    show "page_inv p'"
    proof (cases "mrs_resource (mp_state p)")
      case None
      then show ?thesis using step_unloaded lay that by blast
    next
      case (Some r)
      then show ?thesis using step_loaded [of p r layout e g v] lay that by auto
    qed
  qed
qed

text \<open>
  C36: As long as no exception stops the page, whenever a tree is shown the breadcrumbs, in the store
  and on the page, are the path from the root of the tree to the active resource, the treemap draws the
  active resource, which has children, and no further click, key, resize or answer throws. The layout of
  d3 mirrors the tree; an answer has frames, if any are given at all, and none is called \<open>root\<close>.
\<close>

theorem memory_page_consistent:
  assumes "layout_ok layout" "list_all event_ok es"
    and "run_reducer (memory_step layout (initial_memory_resources g v))
      (memory_open (initial_memory_resources g v) initial_memory_effects) es = Inr p"
    and "mrs_resource (mp_state p) = Some r"
  shows "\<exists>ps d. path_from r ps \<and> mrs_breadcrumbs (mp_state p) = map Some ps \<and> mrs_activeResource (mp_state p) = Some (last ps)
    \<and> sh_breadcrumbs (mp_shown p) = map Some ps \<and> tm_drawn (mp_treemap p) = Some d \<and> hn_data d = last ps
    \<and> hn_children d \<noteq> None \<and> (\<forall>e. event_ok e \<longrightarrow> (\<exists>p'. memory_step layout (initial_memory_resources g v) p e = Inr p'))"
proof -
  have inv: "page_inv p" using memory.run_inv [OF assms(2,3)] assms(1) by blast
  obtain ps d where "shows_path p r ps d" using loaded_shows_path [OF inv assms(4)] by blast
  moreover have "\<exists>p'. memory_step layout (initial_memory_resources g v) p e = Inr p'" if "event_ok e" for e
    using step_loaded [OF inv assms(4,1) that] by blast
  ultimately show ?thesis by (auto simp: shows_path_def draws_def)
qed

text \<open>A layout that gives every node the same rectangle.\<close>

fun plain_layout :: "MemoryResource \<Rightarrow> TreemapNode" where
  "plain_layout (MemoryResource nm v cs i) = TreemapNode (MemoryResource nm v cs i)
     \<lparr>rc_x0 = 0, rc_y0 = 0, rc_x1 = 1, rc_y1 = 1\<rparr> (if cs = [] then None else Some (map plain_layout cs))"

lemma plain_layout_ok: "layout_ok (\<lambda>v. plain_layout)"
proof -
  have data: "hn_data (plain_layout r) = r" for r by (cases r) simp
  have "mirrors (plain_layout r)" for r
    by (induction r rule: plain_layout.induct) (auto simp: list_all_iff data comp_def)
  then show ?thesis by (simp add: layout_ok_def data)
qed

definition sample_answer :: MemoryResourceTree where
  "sample_answer = FrameTree (NamedFrame ''total'') (Some 30) (Some [FrameTree (CodeFrame ''mina'' ''2f'' None) (Some 26)
     (Some [FrameTree (CodeFrame ''mina'' ''30'' None) (Some 25) None])])"

definition sample_child :: MemoryResource where
  "sample_child = MemoryResource \<lparr>mn_executableName = ''mina@2f'', mn_functionName = None\<rparr> (Some 26)
     [MemoryResource \<lparr>mn_executableName = ''mina@30'', mn_functionName = None\<rparr> (Some 25) [] 0] 1"

definition sample_root :: MemoryResource where
  "sample_root = MemoryResource \<lparr>mn_executableName = ''root'', mn_functionName = None\<rparr> (Some 30) [sample_child] 2"

lemma sample_answer_root: "mapMemoryResponse sample_answer threshold 0 = Inr (sample_root, 3)" "frames_ok sample_answer"
  by (simp_all add: sample_answer_def sample_root_def sample_child_def build_def frames_ok_def)

theorem memory_page_consistent_witness:
  "layout_ok (\<lambda>v. plain_layout) \<and> list_all event_ok [MpActiveNode, MpReply sample_answer]
   \<and> (\<exists>p ps. run_reducer (memory_step (\<lambda>v. plain_layout) (initial_memory_resources Null Null))
        (memory_open (initial_memory_resources Null Null) initial_memory_effects) [MpActiveNode, MpReply sample_answer] = Inr p
      \<and> path_from sample_root ps \<and> mrs_breadcrumbs (mp_state p) = map Some ps)"
proof -
  let ?run = "run_reducer (memory_step (\<lambda>v. plain_layout) (initial_memory_resources Null Null))
    (memory_open (initial_memory_resources Null Null) initial_memory_effects) [MpActiveNode, MpReply sample_answer]"
  have ok: "list_all event_ok [MpActiveNode, MpReply sample_answer]" by (simp add: event_ok_def sample_answer_root)
  obtain p where p: "?run = Inr p" "mrs_resource (mp_state p) = Some sample_root"
    by (auto simp: memory_dispatch_def memory_commit_def memory_answer_def memory_open_def initial_memory_resources_def
      initial_memory_effects_def sample_answer_root treemap_emit_def on_resource_def createChart_def createTreemapValues_def
      on_active_def initial_treemap_def render_def sample_root_def)
  from memory_page_consistent [OF plain_layout_ok ok p] show ?thesis using plain_layout_ok ok p by blast
qed

section \<open>A tree without frames\<close>

text \<open>
  An answer with no frames gives a root without children, and the chart of such a root, like a zoom into
  any node without children, throws when it is drawn.
\<close>

lemma childless_throws:
  assumes "layout_ok layout" "mr_children r = []"
  shows "createChart layout c r = Inl (TypeError ''data'')" "hn_children d = None \<Longrightarrow> tm_svg c \<Longrightarrow> zoomIn c d b = Inl (TypeError ''data'')"
proof -
  let ?h = "layout (tm_treemapView c) r"
  have "hn_children ?h = None" using mirrors_leaf [of ?h] assms by (simp add: layout_ok_def)
  then show "createChart layout c r = Inl (TypeError ''data'')" by (simp add: createChart_def createTreemapValues_def render_def)
qed (simp add: zoomIn_def render_def)

lemma empty_answer_throws:
  assumes "layout_ok layout"
  shows "run_reducer (memory_step layout (initial_memory_resources g v))
    (memory_open (initial_memory_resources g v) initial_memory_effects) [MpActiveNode, MpReply (FrameTree nm val (Some []))]
      = Inl (TypeError ''data'')"
  by (simp add: memory_dispatch_def memory_commit_def memory_answer_def memory_open_def initial_memory_resources_def
    initial_memory_effects_def treemap_emit_def on_resource_def build_def childless_throws [OF assms])

section \<open>Exceptions while the next tree is loaded\<close>

text \<open>The state of the page after a new granularity was chosen.\<close>

lemma granularity_step:
  assumes "page_inv p" "mrs_resource (mp_state p) = Some r" "mrs_granularity (mp_state p) \<noteq> g'"
  obtains p' where "memory_step layout init p (MpGranularity g') = Inr p'" "mrs_resource (mp_state p') = None"
    "mrs_activeResource (mp_state p') = None" "mrs_treemapView (mp_state p') = mrs_treemapView (mp_state p)"
    "mp_shown p' = mp_shown p" "tm_isFirstTime (mp_treemap p')" "\<not> tm_svg (mp_treemap p')"
    "tm_baseResource (mp_treemap p') = None" "tm_treemapView (mp_treemap p') \<noteq> None"
proof -
  have "sh_granularity (mp_shown p) = Some (mrs_granularity (mp_state p))"
    using assms(1,2) unfolding page_inv_def
    by (metis listenToActiveResource_def memory_shown.select_convs(2) option.distinct(1))
  then have "setGranularity (mp_shown p) g' = [MR_SET_GRANULARITY g']" using assms(3) by (simp add: setGranularity_def)
  moreover have "tm_treemapView (mp_treemap p) \<noteq> None" using assms(1) by (simp add: page_inv_def synced_def copied_def)
  moreover have "mrs_activeResource (mp_state p) \<noteq> None" using assms(1,2) by (auto simp: page_inv_def state_ok_def)
  ultimately show ?thesis using that assms(2)
    by (simp add: memory_dispatch_def memory_commit_def treemap_emit_def on_resource_def on_active_def on_breadcrumbs_def
      listenToActiveResource_def split: if_splits)
qed

text \<open>
  While the tree for a new granularity is loaded, the toolbar still offers the way back to the old
  root. Taking it stores a breadcrumb that is \<open>undefined\<close>, and the next click on a row of the table
  makes the reducer throw.
\<close>

theorem stale_back_then_row_throws:
  assumes "shows_path p r [r, c] d" "mrs_granularity (mp_state p) \<noteq> g'"
    and "i < length (mr_children r)" "mr_children (mr_children r ! i) \<noteq> []"
  shows "run_reducer (memory_step layout init) p [MpGranularity g', MpBack, MpRow i] = Inl (TypeError ''id'')"
proof -
  have inv: "page_inv p" "mrs_resource (mp_state p) = Some r" "sh_breadcrumbs (mp_shown p) = [Some r, Some c]"
    using assms(1) by (simp_all add: shows_path_def)
  then have good: "good_tree r" by (simp add: page_inv_def state_ok_def)
  obtain p1 where p1: "memory_step layout init p (MpGranularity g') = Inr p1" "mrs_resource (mp_state p1) = None"
      "mrs_activeResource (mp_state p1) = None" "mp_shown p1 = mp_shown p" "tm_isFirstTime (mp_treemap p1)"
    using granularity_step [OF inv(1,2) assms(2)] by metis
  have root: "mn_executableName (mr_name r) = ''root''" using good by (simp add: good_tree_def)
  have "set_active_resource (mp_state p1) (Some r) = Inr ((mp_state p1)\<lparr>mrs_activeResource := Some r, mrs_breadcrumbs := [None]\<rparr>)"
    using p1 root by (simp add: set_active_resource.simps)
  then obtain p2 where p2: "memory_step layout init p1 MpBack = Inr p2" "mrs_activeResource (mp_state p2) = Some r"
      "mrs_breadcrumbs (mp_state p2) = [None]"
    using p1 inv(3) by (simp add: go_back_def memory_dispatch_simple memory_commit_def treemap_emit_def on_active_def)
  let ?x = "mr_children r ! i"
  have x: "?x \<in> set (mr_children r)" using assms(3) by simp
  have "mr_id r \<notin> mr_id ` set (resources_in ?x)" using distinct_child(2) [OF _ x] good by (simp add: good_tree_def)
  then have "?x \<noteq> r" using self_in_resources [of ?x] by (metis imageI)
  moreover have "mn_executableName (mr_name ?x) \<noteq> ''root''" using good x self_in_resources [of ?x] by (auto simp: good_tree_def)
  ultimately have "set_active_resource (mp_state p2) (Some ?x) = Inl (TypeError ''id'')"
    using p2 by (simp add: set_active_resource.simps)
  then have "memory_step layout init p2 (MpRow i) = Inl (TypeError ''id'')"
    using p2 assms(3,4) by (simp add: table_rows_def onRowClick_def memory_dispatch_simple memory_commit_def)
  then show ?thesis using p1(1) p2(1) by (simp del: memory_step.simps)
qed

text \<open>
  The same wait has two more exceptions, in the treemap: a change of the view and a change of the size
  of the window.
\<close>

lemma loading_view_throws:
  assumes "page_inv p" "mrs_resource (mp_state p) = Some r" "mrs_granularity (mp_state p) \<noteq> g'" "mrs_treemapView (mp_state p) \<noteq> v'"
  shows "run_reducer (memory_step layout init) p [MpGranularity g', MpTreemapView v'] = Inl (TypeError ''children'')"
    and "run_reducer (memory_step layout init) p [MpGranularity g', MpResize] = Inl (TypeError ''attr'')"
proof -
  obtain p1 where p1: "memory_step layout init p (MpGranularity g') = Inr p1" "mrs_treemapView (mp_state p1) = mrs_treemapView (mp_state p)"
      "mp_shown p1 = mp_shown p" "\<not> tm_svg (mp_treemap p1)" "tm_baseResource (mp_treemap p1) = None" "tm_treemapView (mp_treemap p1) \<noteq> None"
    using granularity_step [OF assms(1-3)] by metis
  have "sh_treemapView (mp_shown p) = Some (mrs_treemapView (mp_state p))"
    using assms(1,2) unfolding page_inv_def
    by (metis listenToActiveResource_def memory_shown.select_convs(3) option.distinct(1))
  then have "setTreemapView (mp_shown p1) v' = [MR_SET_TREEMAP_VIEW v']" using assms(4) p1(3) by (simp add: setTreemapView_def)
  then have "memory_step layout init p1 (MpTreemapView v') = Inl (TypeError ''children'')"
    using p1 assms(4) by (simp add: memory_dispatch_simple memory_commit_def treemap_emit_def on_view_def createTreemapValues_def)
  then show "run_reducer (memory_step layout init) p [MpGranularity g', MpTreemapView v'] = Inl (TypeError ''children'')"
    using p1(1) by (simp del: memory_step.simps)
  show "run_reducer (memory_step layout init) p [MpGranularity g', MpResize] = Inl (TypeError ''attr'')"
    using p1 by (simp add: redrawChart_def)
qed

definition sample_page :: memory_page where
  "sample_page = \<lparr>mp_state = \<lparr>mrs_resource = Some sample_root, mrs_activeResource = Some sample_child,
       mrs_breadcrumbs = [Some sample_root, Some sample_child], mrs_granularity = 512, mrs_treemapView = BINARY\<rparr>,
     mp_effects = \<lparr>me_pending = None, me_id = 3\<rparr>,
     mp_shown = \<lparr>sh_breadcrumbs = [Some sample_root, Some sample_child], sh_granularity = Some 512, sh_treemapView = Some BINARY\<rparr>,
     mp_treemap = \<lparr>tm_breadcrumbs = [Some sample_root, Some sample_child], tm_activeResource = Some sample_child, tm_isFirstTime = False,
       tm_lastClicked = Some sample_child, tm_baseResource = Some sample_root, tm_treemapView = Some BINARY, tm_svg = True,
       tm_treemap = Some (plain_layout sample_root), tm_drawn = Some (plain_layout sample_child)\<rparr>\<rparr>"

lemma sample_page_shows: "shows_path sample_page sample_root [sample_root, sample_child] (plain_layout sample_child)"
proof -
  have good: "good_tree sample_root" by (simp add: good_tree_def sample_root_def sample_child_def)
  have path: "path_from sample_root [sample_root, sample_child]" by (simp add: path_from_def sample_root_def)
  have data: "hn_data (plain_layout sample_child) = sample_child" using plain_layout_ok by (simp add: layout_ok_def)
  have "charted sample_root (plain_layout sample_root)" using plain_layout_ok good by (simp add: charted_def layout_ok_def good_tree_def)
  moreover have "plain_layout sample_child \<in> set (nodes_of (plain_layout sample_root))" by (simp add: sample_root_def)
  ultimately have dr: "draws sample_root (mp_treemap sample_page) (plain_layout sample_child)"
    by (simp add: draws_def sample_page_def data) (simp add: sample_child_def)
  have cp: "copied (mp_state sample_page) (mp_treemap sample_page)" by (simp add: copied_def sample_page_def)
  have kids: "mr_children sample_child \<noteq> []" by (simp add: sample_child_def)
  have "page_inv sample_page" using good path dr cp data kids
    by (auto simp: page_inv_def synced_def state_ok_def sample_page_def listenToActiveResource_def
      intro!: exI [of _ "[sample_root, sample_child]"])
  then show ?thesis using path dr cp data kids by (simp add: shows_path_def sample_page_def)
qed

theorem stale_back_then_row_throws_witness:
  "shows_path sample_page sample_root [sample_root, sample_child] (plain_layout sample_child)
   \<and> run_reducer (memory_step (\<lambda>v. plain_layout) (initial_memory_resources Null Null)) sample_page
       [MpGranularity 256, MpBack, MpRow 0] = Inl (TypeError ''id'')"
proof -
  have g: "mrs_granularity (mp_state sample_page) \<noteq> 256" by (simp add: sample_page_def)
  have "0 < length (mr_children sample_root)" "mr_children (mr_children sample_root ! 0) \<noteq> []"
    by (simp_all add: sample_root_def sample_child_def)
  from stale_back_then_row_throws [OF sample_page_shows g this] show ?thesis using sample_page_shows by blast
qed

section \<open>The tiles\<close>

definition within_rect :: "rect \<Rightarrow> rect \<Rightarrow> bool" where
  "within_rect outer inner \<longleftrightarrow> rc_x0 outer \<le> rc_x0 inner \<and> rc_x0 inner \<le> rc_x1 inner \<and> rc_x1 inner \<le> rc_x1 outer
     \<and> rc_y0 outer \<le> rc_y0 inner \<and> rc_y0 inner \<le> rc_y1 inner \<and> rc_y1 inner \<le> rc_y1 outer"

definition overlap :: "rect \<Rightarrow> rect \<Rightarrow> bool" where
  "overlap a b \<longleftrightarrow> rc_x0 a < rc_x1 b \<and> rc_x0 b < rc_x1 a \<and> rc_y0 a < rc_y1 b \<and> rc_y0 b < rc_y1 a"

definition area :: "rect \<Rightarrow> rat" where
  "area a = (rc_x1 a - rc_x0 a) * (rc_y1 a - rc_y0 a)"

lemma scaled_le: "0 < w \<Longrightarrow> p0 \<le> p1 \<Longrightarrow> x \<le> y \<Longrightarrow> p0 + (x / w) * (p1 - p0) \<le> p0 + (y / w) * (p1 - p0)" for w :: rat
  by (simp add: divide_right_mono mult_right_mono)

lemma scaled_less: "0 < w \<Longrightarrow> p0 \<le> p1 \<Longrightarrow> p0 + (x / w) * (p1 - p0) < p0 + (y / w) * (p1 - p0) \<Longrightarrow> x < y" for w :: rat
  using scaled_le [of w p0 p1 y x] by linarith

lemma scale_within:
  assumes "0 < w" "0 < h" "rc_x0 parent \<le> rc_x1 parent" "rc_y0 parent \<le> rc_y1 parent"
    and "within_rect \<lparr>rc_x0 = 0, rc_y0 = 0, rc_x1 = w, rc_y1 = h\<rparr> c"
  shows "within_rect parent (scale_rect w h parent c)"
proof -
  have "rc_x0 parent + (0 / w) * (rc_x1 parent - rc_x0 parent) = rc_x0 parent"
    "rc_x0 parent + (w / w) * (rc_x1 parent - rc_x0 parent) = rc_x1 parent"
    "rc_y0 parent + (0 / h) * (rc_y1 parent - rc_y0 parent) = rc_y0 parent"
    "rc_y0 parent + (h / h) * (rc_y1 parent - rc_y0 parent) = rc_y1 parent" using assms(1,2) by simp_all
  moreover note scaled_le [OF assms(1,3), of 0 "rc_x0 c"] scaled_le [OF assms(1,3), of "rc_x0 c" "rc_x1 c"]
    scaled_le [OF assms(1,3), of "rc_x1 c" w] scaled_le [OF assms(2,4), of 0 "rc_y0 c"]
    scaled_le [OF assms(2,4), of "rc_y0 c" "rc_y1 c"] scaled_le [OF assms(2,4), of "rc_y1 c" h]
  ultimately show ?thesis using assms(5) by (simp add: within_rect_def scale_rect_def)
qed

lemma scale_overlap:
  assumes "0 < w" "0 < h" "rc_x0 parent \<le> rc_x1 parent" "rc_y0 parent \<le> rc_y1 parent"
    and "overlap (scale_rect w h parent a) (scale_rect w h parent b)"
  shows "overlap a b"
  using assms(5) scaled_less [OF assms(1,3), of "rc_x0 a" "rc_x1 b"] scaled_less [OF assms(1,3), of "rc_x0 b" "rc_x1 a"]
    scaled_less [OF assms(2,4), of "rc_y0 a" "rc_y1 b"] scaled_less [OF assms(2,4), of "rc_y0 b" "rc_y1 a"]
  unfolding overlap_def scale_rect_def by (simp only: rect.select_convs simp_thms)

lemma scale_area: "0 < w \<Longrightarrow> 0 < h \<Longrightarrow> area (scale_rect w h parent c) * (w * h) = area c * area parent"
  by (simp add: area_def scale_rect_def field_simps)

text \<open>
  C38: The children of a node are placed inside its rectangle and do not overlap, and they fill of it
  the share that the tiling fills of the chart, whatever the view, provided that the tiling of d3
  places them so in the chart.
\<close>

theorem tile_fills_parent:
  assumes "0 < w" "0 < h" "rc_x0 parent \<le> rc_x1 parent" "rc_y0 parent \<le> rc_y1 parent"
    and "\<forall>c \<in> set (tiling_of d3 view node w h). within_rect \<lparr>rc_x0 = 0, rc_y0 = 0, rc_x1 = w, rc_y1 = h\<rparr> c"
    and "sorted_wrt (\<lambda>a b. \<not> overlap a b) (tiling_of d3 view node w h)"
  shows "\<exists>rs. tile d3 view w h node parent = Some rs \<and> (\<forall>c \<in> set rs. within_rect parent c) \<and> sorted_wrt (\<lambda>a b. \<not> overlap a b) rs
    \<and> sum_list (map area rs) * (w * h) = sum_list (map area (tiling_of d3 view node w h)) * area parent"
proof -
  let ?ts = "tiling_of d3 view node w h" and ?f = "scale_rect w h parent"
  have "\<forall>c \<in> set (map ?f ?ts). within_rect parent c" using scale_within [OF assms(1-4)] assms(5) by auto
  moreover have "sorted_wrt (\<lambda>a b. \<not> overlap a b) (map ?f ?ts)"
    unfolding sorted_wrt_map using assms(6) by (rule sorted_wrt_mono_rel [rotated]) (use scale_overlap [OF assms(1-4)] in blast)
  moreover have "sum_list (map area (map ?f ts)) * (w * h) = sum_list (map area ts) * area parent" for ts
    by (induction ts) (simp_all add: distrib_right scale_area [OF assms(1,2)])
  ultimately show ?thesis using assms(1,2) by (simp add: tile_def)
qed

definition halves :: "TreemapNode \<Rightarrow> rat \<Rightarrow> rat \<Rightarrow> rect list" where
  "halves node w h = [\<lparr>rc_x0 = 0, rc_y0 = 0, rc_x1 = w / 2, rc_y1 = h\<rparr>, \<lparr>rc_x0 = w / 2, rc_y0 = 0, rc_x1 = w, rc_y1 = h\<rparr>]"

theorem tile_fills_parent_witness:
  "\<exists>rs. tile \<lparr>tl_binary = halves, tl_squarify = halves, tl_slice = halves, tl_dice = halves\<rparr> SQUARE 8 4 (plain_layout sample_root)
      \<lparr>rc_x0 = 2, rc_y0 = 1, rc_x1 = 6, rc_y1 = 3\<rparr> = Some rs
    \<and> (\<forall>c \<in> set rs. within_rect \<lparr>rc_x0 = 2, rc_y0 = 1, rc_x1 = 6, rc_y1 = 3\<rparr> c) \<and> length rs = 2"
proof -
  let ?d3 = "\<lparr>tl_binary = halves, tl_squarify = halves, tl_slice = halves, tl_dice = halves\<rparr>"
    and ?p = "\<lparr>rc_x0 = 2, rc_y0 = 1, rc_x1 = 6, rc_y1 = 3\<rparr>"
  have "\<forall>c \<in> set (tiling_of ?d3 SQUARE (plain_layout sample_root) 8 4). within_rect \<lparr>rc_x0 = 0, rc_y0 = 0, rc_x1 = 8, rc_y1 = 4\<rparr> c"
    "sorted_wrt (\<lambda>a b. \<not> overlap a b) (tiling_of ?d3 SQUARE (plain_layout sample_root) 8 4)"
    by (simp_all add: halves_def within_rect_def overlap_def)
  from tile_fills_parent [OF _ _ _ _ this, of ?p] show ?thesis by (auto simp: tile_def halves_def)
qed

end
