(* ===== verification/NodesOverview.thy ===== *)
theory NodesOverview
  imports WonSlots
begin

text \<open>
  The overview of the nodes (\<open>features/nodes/overview\<close>): the service that turns a node's statistics of
  synchronization into a row with its ledgers and blocks, the slice with one row per node, and the
  effects that ask every node. The live and the bootstrap pages build on the same service.
\<close>

section \<open>The service\<close>

datatype NodesOverviewNodeBlockStatus = APPLIED | APPLYING | FETCHED | FETCHING | MISSING

datatype NodesOverviewLedgerStepState = PENDING | LOADING | SUCCESS

record raw_sync_block =
  rsb_global_slot :: "int option"
  rsb_height :: "int option"
  rsb_hash :: "string option"
  rsb_pred_hash :: "string option"
  rsb_status :: NodesOverviewNodeBlockStatus
  rsb_fetch_start :: "int option"
  rsb_fetch_end :: "int option"
  rsb_apply_start :: "int option"
  rsb_apply_end :: "int option"

record raw_snarked =
  rs_fetch_hashes_start :: "int option"
  rs_fetch_hashes_end :: "int option"
  rs_fetch_accounts_start :: "int option"
  rs_fetch_accounts_end :: "int option"

record raw_staged =
  rt_fetch_parts_start :: "int option"
  rt_fetch_parts_end :: "int option"
  rt_reconstruct_start :: "int option"
  rt_reconstruct_end :: "int option"

record raw_ledgers =
  rl_root :: "(raw_snarked \<times> raw_staged) option"
  rl_next_epoch :: "raw_snarked option"
  rl_staking_epoch :: "raw_snarked option"

record raw_tip =
  rp_kind :: string
  rp_synced :: jsval
  rp_best_tip_received :: int
  rp_ledgers :: "raw_ledgers option"
  rp_blocks :: "raw_sync_block list"

record node_details =
  nds_phase :: string
  nds_snarks :: int
  nds_transactions :: int

record NodesOverviewBlock =
  nb_globalSlot :: "int option"
  nb_height :: "int option"
  nb_hash :: "string option"
  nb_predHash :: "string option"
  nb_status :: NodesOverviewNodeBlockStatus
  nb_fetchStart :: "int option"
  nb_fetchEnd :: "int option"
  nb_applyStart :: "int option"
  nb_applyEnd :: "int option"
  nb_fetchDuration :: "int option"
  nb_applyDuration :: "int option"
  nb_isBestTip :: bool

record NodesOverviewSnarkedLedgerStep =
  sl_fetchHashesStart :: "int option"
  sl_fetchHashesEnd :: "int option"
  sl_fetchHashesDuration :: "int option"
  sl_fetchHashesPassedTime :: "int option"
  sl_fetchAccountsStart :: "int option"
  sl_fetchAccountsEnd :: "int option"
  sl_fetchAccountsDuration :: "int option"
  sl_fetchAccountsPassedTime :: "int option"

record NodesOverviewStagedLedgerStep =
  st_fetchPartsStart :: "int option"
  st_fetchPartsEnd :: "int option"
  st_fetchPartsDuration :: "int option"
  st_fetchPassedTime :: "int option"
  st_reconstructStart :: "int option"
  st_reconstructEnd :: "int option"
  st_reconstructDuration :: "int option"
  st_reconstructPassedTime :: "int option"

record NodesOverviewLedgerEpochStep =
  es_state :: NodesOverviewLedgerStepState
  es_snarked :: NodesOverviewSnarkedLedgerStep
  es_totalTime :: "int option"

record NodesOverviewRootStagedLedgerStep =
  rs_state :: NodesOverviewLedgerStepState
  rs_staged :: NodesOverviewStagedLedgerStep
  rs_totalTime :: "int option"

record NodesOverviewLedger =
  ld_stakingEpoch :: NodesOverviewLedgerEpochStep
  ld_nextEpoch :: NodesOverviewLedgerEpochStep
  ld_rootSnarked :: NodesOverviewLedgerEpochStep
  ld_rootStaged :: NodesOverviewRootStagedLedgerStep

text \<open>A row; the rows of the initial state have only a name, a kind and no blocks.\<close>

record NodesOverviewNode =
  no_name :: string
  no_kind :: string
  no_snarks :: "int option"
  no_transactions :: "int option"
  no_bestTipReceived :: "string option"
  no_bestTipReceivedTimestamp :: "rat option"
  no_bestTip :: "string option"
  no_height :: "int option"
  no_globalSlot :: "int option"
  no_appliedBlocks :: "nat option"
  no_applyingBlocks :: "nat option"
  no_missingBlocks :: "nat option"
  no_fetchingBlocks :: "nat option"
  no_fetchedBlocks :: "nat option"
  no_ledgers :: "NodesOverviewLedger option"
  no_blocks :: "NodesOverviewBlock list"

definition getDuration :: "int option \<Rightarrow> int option \<Rightarrow> int option" where
  "getDuration start end = (if \<not> (truthy_int end \<and> truthy_int start) then None
     else Some \<lceil>of_int (the end - the start) / ONE_BILLION\<rceil>)"

text \<open>The clock gives milliseconds.\<close>

definition getPassed :: "int \<Rightarrow> int option \<Rightarrow> int option" where
  "getPassed now start = (if \<not> truthy_int start then None
     else Some \<lceil>(of_int now / 1000 - of_int (the start) / ONE_BILLION :: rat)\<rceil>)"

definition noneOfStepsCompleted :: "raw_snarked \<Rightarrow> bool" where
  "noneOfStepsCompleted step \<longleftrightarrow> \<not> truthy_int (rs_fetch_hashes_start step) \<and> \<not> truthy_int (rs_fetch_accounts_start step)"

text \<open>\<open>a + b\<close> on two values each of which is a number or \<open>null\<close>, which counts as 0.\<close>

definition add_nullable :: "int option \<Rightarrow> int option \<Rightarrow> int" where
  "add_nullable a b = (case a of None \<Rightarrow> 0 | Some i \<Rightarrow> i) + (case b of None \<Rightarrow> 0 | Some j \<Rightarrow> j)"

definition no_snarked_times :: NodesOverviewSnarkedLedgerStep where
  "no_snarked_times = \<lparr>sl_fetchHashesStart = None, sl_fetchHashesEnd = None, sl_fetchHashesDuration = None,
     sl_fetchHashesPassedTime = None, sl_fetchAccountsStart = None, sl_fetchAccountsEnd = None,
     sl_fetchAccountsDuration = None, sl_fetchAccountsPassedTime = None\<rparr>"

definition getSnarkedLedgerStep :: "int \<Rightarrow> raw_snarked option \<Rightarrow> NodesOverviewLedgerEpochStep" where
  "getSnarkedLedgerStep now step = (case step of
      None \<Rightarrow> \<lparr>es_state = PENDING, es_snarked = no_snarked_times, es_totalTime = None\<rparr>
    | Some s \<Rightarrow> \<lparr>es_state = (if noneOfStepsCompleted s then PENDING else LOADING),
        es_snarked = \<lparr>sl_fetchHashesStart = rs_fetch_hashes_start s, sl_fetchHashesEnd = rs_fetch_hashes_end s,
          sl_fetchHashesDuration = getDuration (rs_fetch_hashes_start s) (rs_fetch_hashes_end s),
          sl_fetchHashesPassedTime = getPassed now (rs_fetch_hashes_start s),
          sl_fetchAccountsStart = rs_fetch_accounts_start s, sl_fetchAccountsEnd = rs_fetch_accounts_end s,
          sl_fetchAccountsDuration = getDuration (rs_fetch_accounts_start s) (rs_fetch_accounts_end s),
          sl_fetchAccountsPassedTime = getPassed now (rs_fetch_accounts_start s)\<rparr>,
        es_totalTime = None\<rparr>)"

definition step_succeeded :: "NodesOverviewLedgerEpochStep \<Rightarrow> NodesOverviewLedgerEpochStep" where
  "step_succeeded step = step\<lparr>es_state := SUCCESS,
     es_totalTime := Some (add_nullable (sl_fetchHashesDuration (es_snarked step)) (sl_fetchAccountsDuration (es_snarked step)))\<rparr>"

definition getRootStaged :: "int \<Rightarrow> raw_staged \<Rightarrow> NodesOverviewRootStagedLedgerStep" where
  "getRootStaged now s = \<lparr>rs_state = (if \<not> truthy_int (rt_fetch_parts_start s) \<and> \<not> truthy_int (rt_reconstruct_start s)
       then PENDING else LOADING),
     rs_staged = \<lparr>st_fetchPartsStart = rt_fetch_parts_start s, st_fetchPartsEnd = rt_fetch_parts_end s,
       st_fetchPartsDuration = getDuration (rt_fetch_parts_start s) (rt_fetch_parts_end s),
       st_fetchPassedTime = getPassed now (rt_fetch_parts_start s),
       st_reconstructStart = rt_reconstruct_start s, st_reconstructEnd = rt_reconstruct_end s,
       st_reconstructDuration = getDuration (rt_reconstruct_start s) (rt_reconstruct_end s),
       st_reconstructPassedTime = getPassed now (rt_reconstruct_start s)\<rparr>,
     rs_totalTime = None\<rparr>"

definition no_staged :: NodesOverviewRootStagedLedgerStep where
  "no_staged = \<lparr>rs_state = PENDING,
     rs_staged = \<lparr>st_fetchPartsStart = None, st_fetchPartsEnd = None, st_fetchPartsDuration = None, st_fetchPassedTime = None,
       st_reconstructStart = None, st_reconstructEnd = None, st_reconstructDuration = None, st_reconstructPassedTime = None\<rparr>,
     rs_totalTime = None\<rparr>"

text \<open>The two steps of the root ledger; a staged step that has begun completes the snarked one.\<close>

definition root_steps :: "int \<Rightarrow> (raw_snarked \<times> raw_staged) option \<Rightarrow> NodesOverviewLedgerEpochStep \<times> NodesOverviewRootStagedLedgerStep" where
  "root_steps now raw = (let epochLedger = getSnarkedLedgerStep now (map_option fst raw) in
     case raw of
       None \<Rightarrow> (epochLedger, no_staged)
     | Some (snarked, staged) \<Rightarrow> (let rootStaged = getRootStaged now staged in
         (if rs_state rootStaged \<noteq> PENDING then step_succeeded epochLedger else epochLedger,
          if truthy_int (st_reconstructEnd (rs_staged rootStaged))
          then rootStaged\<lparr>rs_state := SUCCESS, rs_totalTime := Some (add_nullable (st_fetchPartsDuration (rs_staged rootStaged))
            (st_reconstructDuration (rs_staged rootStaged)))\<rparr>
          else rootStaged)))"

definition getLedgers :: "int \<Rightarrow> raw_ledgers \<Rightarrow> NodesOverviewLedger" where
  "getLedgers now ledgers = (let (rootSnarked, rootStaged) = root_steps now (rl_root ledgers);
       next0 = getSnarkedLedgerStep now (rl_next_epoch ledgers);
       nextEpoch = (if es_state rootSnarked \<noteq> PENDING then step_succeeded next0 else next0);
       staking0 = getSnarkedLedgerStep now (rl_staking_epoch ledgers);
       stakingEpoch = (if es_state nextEpoch \<noteq> PENDING then step_succeeded staking0 else staking0)
     in \<lparr>ld_stakingEpoch = stakingEpoch, ld_nextEpoch = nextEpoch, ld_rootSnarked = rootSnarked, ld_rootStaged = rootStaged\<rparr>)"

definition overview_block :: "raw_sync_block \<Rightarrow> NodesOverviewBlock" where
  "overview_block b = \<lparr>nb_globalSlot = rsb_global_slot b, nb_height = rsb_height b, nb_hash = rsb_hash b,
     nb_predHash = rsb_pred_hash b, nb_status = rsb_status b, nb_fetchStart = rsb_fetch_start b, nb_fetchEnd = rsb_fetch_end b,
     nb_applyStart = rsb_apply_start b, nb_applyEnd = rsb_apply_end b,
     nb_fetchDuration = getDuration (rsb_fetch_start b) (rsb_fetch_end b),
     nb_applyDuration = getDuration (rsb_apply_start b) (rsb_apply_end b), nb_isBestTip = False\<rparr>"

definition mark_best_tip :: "NodesOverviewBlock list \<Rightarrow> NodesOverviewBlock list" where
  "mark_best_tip blocks = (case blocks of [] \<Rightarrow> [] | b # bs \<Rightarrow> b\<lparr>nb_isBestTip := True\<rparr> # bs)"

definition status_count :: "NodesOverviewNodeBlockStatus \<Rightarrow> raw_sync_block list \<Rightarrow> nat" where
  "status_count s blocks = length (filter (\<lambda>b. rsb_status b = s) blocks)"

definition first_block :: "(raw_sync_block \<Rightarrow> 'a option) \<Rightarrow> raw_sync_block list \<Rightarrow> 'a option" where
  "first_block f blocks = (case blocks of [] \<Rightarrow> None | b # _ \<Rightarrow> f b)"

definition map_tip ::
  "(rat \<Rightarrow> string) \<Rightarrow> int \<Rightarrow> string \<Rightarrow> node_details option \<Rightarrow> raw_tip \<Rightarrow> NodesOverviewNode result" where
  "map_tip rd now name nodeDetails node = (case rp_ledgers node of None \<Rightarrow> Inl (TypeError ''root'')
     | Some ledgers \<Rightarrow> (let blocks = rp_blocks node; received = of_int (rp_best_tip_received node) / of_int ONE_MILLION in
         Inr \<lparr>no_name = name,
           no_kind = (case nodeDetails of Some d \<Rightarrow> nds_phase d
             | None \<Rightarrow> if hasValue (rp_synced node) then ''Synced'' else rp_kind node),
           no_snarks = map_option nds_snarks nodeDetails, no_transactions = map_option nds_transactions nodeDetails,
           no_bestTipReceived = Some (rd received), no_bestTipReceivedTimestamp = Some received,
           no_bestTip = first_block rsb_hash blocks, no_height = first_block rsb_height blocks,
           no_globalSlot = first_block rsb_global_slot blocks,
           no_appliedBlocks = Some (status_count APPLIED blocks), no_applyingBlocks = Some (status_count APPLYING blocks),
           no_missingBlocks = Some (status_count MISSING blocks), no_fetchingBlocks = Some (status_count FETCHING blocks),
           no_fetchedBlocks = Some (status_count FETCHED blocks), no_ledgers = Some (getLedgers now ledgers),
           no_blocks = mark_best_tip (map overview_block blocks)\<rparr>))"

definition mapNodeTipsResponse ::
  "(rat \<Rightarrow> string) \<Rightarrow> int \<Rightarrow> raw_tip list \<times> node_details option \<Rightarrow> string \<Rightarrow> NodesOverviewNode list result" where
  "mapNodeTipsResponse rd now response name = (case response of (syncTips, nodeDetails) \<Rightarrow>
     if syncTips = [] then Inl (ErrorMsg ''Empty response'') else js_mapM (map_tip rd now name nodeDetails) syncTips)"

definition no_raw_ledgers :: raw_ledgers where
  "no_raw_ledgers = \<lparr>rl_root = None, rl_next_epoch = None, rl_staking_epoch = None\<rparr>"

definition mapNodeTipsErrorResponse :: "int \<Rightarrow> string \<Rightarrow> NodesOverviewNode list" where
  "mapNodeTipsErrorResponse now name = [\<lparr>no_name = name, no_kind = ''Offline'', no_snarks = Some 0, no_transactions = Some 0,
     no_bestTipReceived = Some ''-'', no_bestTipReceivedTimestamp = Some 0, no_bestTip = Some ''-'', no_height = None,
     no_globalSlot = Some 0, no_appliedBlocks = Some 0, no_applyingBlocks = Some 0, no_missingBlocks = Some 0,
     no_fetchingBlocks = Some 0, no_fetchedBlocks = Some 0, no_ledgers = Some (getLedgers now no_raw_ledgers), no_blocks = []\<rparr>]"

text \<open>\<open>getNodeTips\<close>: the two answers, or \<open>None\<close> when one of the requests failed. It never fails.\<close>

definition getNodeTips ::
  "(rat \<Rightarrow> string) \<Rightarrow> int \<Rightarrow> string \<Rightarrow> (raw_tip list \<times> node_details option) option \<Rightarrow> NodesOverviewNode list" where
  "getNodeTips rd now name answers = (case answers of None \<Rightarrow> mapNodeTipsErrorResponse now name
     | Some response \<Rightarrow> (case mapNodeTipsResponse rd now response name of
         Inl e \<Rightarrow> mapNodeTipsErrorResponse now name | Inr nodes \<Rightarrow> nodes))"

section \<open>The slice\<close>

datatype nodes_overview_col = NoName | NoKind | NoSnarks | NoTransactions | NoBestTipReceived | NoBestTipReceivedTimestamp
  | NoBestTip | NoHeight | NoGlobalSlot | NoAppliedBlocks | NoApplyingBlocks | NoMissingBlocks | NoFetchingBlocks
  | NoFetchedBlocks | NoLedgers | NoBlocks

fun get_overview_node :: "nodes_overview_col \<Rightarrow> NodesOverviewNode \<Rightarrow> jsval" where
  "get_overview_node NoName n = JStr (no_name n)"
| "get_overview_node NoKind n = JStr (no_kind n)"
| "get_overview_node NoSnarks n = of_int_opt (no_snarks n)"
| "get_overview_node NoTransactions n = of_int_opt (no_transactions n)"
| "get_overview_node NoBestTipReceived n = of_str (no_bestTipReceived n)"
| "get_overview_node NoBestTipReceivedTimestamp n = of_num (no_bestTipReceivedTimestamp n)"
| "get_overview_node NoBestTip n = of_str (no_bestTip n)"
| "get_overview_node NoHeight n = of_int_opt (no_height n)"
| "get_overview_node NoGlobalSlot n = of_int_opt (no_globalSlot n)"
| "get_overview_node NoAppliedBlocks n = of_int_opt (map_option int (no_appliedBlocks n))"
| "get_overview_node NoApplyingBlocks n = of_int_opt (map_option int (no_applyingBlocks n))"
| "get_overview_node NoMissingBlocks n = of_int_opt (map_option int (no_missingBlocks n))"
| "get_overview_node NoFetchingBlocks n = of_int_opt (map_option int (no_fetchingBlocks n))"
| "get_overview_node NoFetchedBlocks n = of_int_opt (map_option int (no_fetchedBlocks n))"
| "get_overview_node NoLedgers n = (if no_ledgers n = None then JUndefined else JObj)"
| "get_overview_node NoBlocks n = JObj"

record NodesOverviewState =
  nos_nodes :: "NodesOverviewNode list"
  nos_activeNode :: "NodesOverviewNode option"
  nos_sort :: "nodes_overview_col TableSort"

datatype NodesOverviewActions =
    NO_INIT
  | NO_GET_NODES
  | NO_GET_NODES_SUCCESS "NodesOverviewNode list"
  | NO_GET_NODE_STATUS string
  | NO_GET_NODE_STATUS_SUCCESS "NodesOverviewNode option"
  | NO_SORT_NODES "nodes_overview_col TableSort"
  | NO_SET_ACTIVE_NODE "NodesOverviewNode option"
  | NO_CLOSE

definition pending_node :: "string \<Rightarrow> NodesOverviewNode" where
  "pending_node name = \<lparr>no_name = name, no_kind = ''Pending'', no_snarks = None, no_transactions = None, no_bestTipReceived = None,
     no_bestTipReceivedTimestamp = None, no_bestTip = None, no_height = None, no_globalSlot = None, no_appliedBlocks = None,
     no_applyingBlocks = None, no_missingBlocks = None, no_fetchingBlocks = None, no_fetchedBlocks = None, no_ledgers = None,
     no_blocks = []\<rparr>"

text \<open>The initial state has a row for each configured node.\<close>

definition initial_nodes_overview :: "string list \<Rightarrow> NodesOverviewState" where
  "initial_nodes_overview configs = \<lparr>nos_nodes = map pending_node configs, nos_activeNode = None,
     nos_sort = \<lparr>sortBy = NoKind, sortDirection = DSC\<rparr>\<rparr>"

definition sort_overview_nodes ::
  "(string \<Rightarrow> string \<Rightarrow> rat) \<Rightarrow> NodesOverviewNode list \<Rightarrow> nodes_overview_col TableSort \<Rightarrow> NodesOverviewNode list" where
  "sort_overview_nodes lc nodes tableSort = ArrayHelper.sort lc get_overview_node nodes tableSort [NoKind, NoName, NoBestTip] False"

definition replace_node :: "NodesOverviewNode list \<Rightarrow> NodesOverviewNode option \<Rightarrow> NodesOverviewNode list" where
  "replace_node nodes currentNode = (case currentNode of None \<Rightarrow> nodes
     | Some current \<Rightarrow> (let nodeIndex = js_findIndex (\<lambda>node. no_name node = no_name current) nodes in
         if nodeIndex \<noteq> - 1 then nodes[nat nodeIndex := current] else nodes @ [current]))"

fun nodesOverviewReducer ::
  "(string \<Rightarrow> string \<Rightarrow> rat) \<Rightarrow> string list \<Rightarrow> NodesOverviewState \<Rightarrow> NodesOverviewActions \<Rightarrow> NodesOverviewState" where
  "nodesOverviewReducer lc configs state (NO_GET_NODE_STATUS_SUCCESS currentNode) =
     (let nodes = replace_node (nos_nodes state) currentNode in
      state\<lparr>nos_nodes := sort_overview_nodes lc nodes (nos_sort state),
        nos_activeNode := (case nos_activeNode state of None \<Rightarrow> None
          | Some a \<Rightarrow> find (\<lambda>node. no_name node = no_name a) nodes)\<rparr>)"
| "nodesOverviewReducer lc configs state (NO_SORT_NODES srt) = state\<lparr>nos_sort := srt,
     nos_nodes := sort_overview_nodes lc (nos_nodes state) srt\<rparr>"
| "nodesOverviewReducer lc configs state (NO_SET_ACTIVE_NODE node) = state\<lparr>nos_activeNode := node\<rparr>"
| "nodesOverviewReducer lc configs state NO_CLOSE = initial_nodes_overview configs"
| "nodesOverviewReducer lc configs state _ = state"

section \<open>The effects\<close>

text \<open>The flag of \<open>getNodes$\<close>, and the nodes whose answers \<open>getNodeStatus$\<close> waits for (\<open>mergeMap\<close>).\<close>

record nodes_overview_effects =
  noe_pendingRequest :: bool
  noe_asked :: "string list"

datatype nodes_overview_event =
    NoeAct NodesOverviewActions "string list"
  | NoeTips nat "(raw_tip list \<times> node_details option) option"

definition initial_overview_effects :: nodes_overview_effects where
  "initial_overview_effects = \<lparr>noe_pendingRequest = False, noe_asked = []\<rparr>"

text \<open>
  An action comes with the names of the application's nodes. The flag is lowered by each action that
  \<open>getNodes$\<close> emits.
\<close>

fun nodes_overview_effect ::
  "(rat \<Rightarrow> string) \<Rightarrow> int \<Rightarrow> nodes_overview_effects \<Rightarrow> nodes_overview_event \<Rightarrow> nodes_overview_effects \<times> NodesOverviewActions list" where
  "nodes_overview_effect rd now m (NoeAct NO_GET_NODES nodes) = (if noe_pendingRequest m then (m, [])
     else (m\<lparr>noe_pendingRequest := (nodes = [])\<rparr>, map NO_GET_NODE_STATUS nodes))"
| "nodes_overview_effect rd now m (NoeAct (NO_GET_NODE_STATUS name) nodes) = (m\<lparr>noe_asked := noe_asked m @ [name]\<rparr>, [])"
| "nodes_overview_effect rd now m (NoeAct _ nodes) = (m, [])"
| "nodes_overview_effect rd now m (NoeTips i answers) = (if i < length (noe_asked m)
     then (m\<lparr>noe_asked := take i (noe_asked m) @ drop (Suc i) (noe_asked m)\<rparr>,
       [NO_GET_NODE_STATUS_SUCCESS (js_nth (getNodeTips rd now (noe_asked m ! i) answers) 0)])
     else (m, []))"

section \<open>The ledgers are synchronized in order\<close>

text \<open>Steps in order: some have succeeded, at most one is under way, the others wait.\<close>

fun in_order :: "NodesOverviewLedgerStepState list \<Rightarrow> bool" where
  "in_order [] \<longleftrightarrow> True"
| "in_order (SUCCESS # xs) \<longleftrightarrow> in_order xs"
| "in_order (_ # xs) \<longleftrightarrow> list_all (\<lambda>s. s = PENDING) xs"

definition ledger_states :: "NodesOverviewLedger \<Rightarrow> NodesOverviewLedgerStepState list" where
  "ledger_states l = [es_state (ld_stakingEpoch l), es_state (ld_nextEpoch l), es_state (ld_rootSnarked l), rs_state (ld_rootStaged l)]"

text \<open>
  What a node reports: which of the four ledgers it has begun to fetch, and whether it has reconstructed
  the staged one. From these alone the states follow: a ledger is done when a later one has begun,
  under way when it has begun and no later one has, and waits otherwise.
\<close>

definition snarked_begun :: "raw_snarked option \<Rightarrow> bool" where
  "snarked_begun s \<longleftrightarrow> (case s of None \<Rightarrow> False
     | Some r \<Rightarrow> truthy_int (rs_fetch_hashes_start r) \<or> truthy_int (rs_fetch_accounts_start r))"

definition ledgers_begun :: "raw_ledgers \<Rightarrow> bool list" where
  "ledgers_begun ledgers = [snarked_begun (rl_staking_epoch ledgers), snarked_begun (rl_next_epoch ledgers),
     snarked_begun (map_option fst (rl_root ledgers)),
     (case rl_root ledgers of None \<Rightarrow> False
      | Some (_, st) \<Rightarrow> truthy_int (rt_fetch_parts_start st) \<or> truthy_int (rt_reconstruct_start st))]"

definition reconstructed :: "raw_ledgers \<Rightarrow> bool" where
  "reconstructed ledgers \<longleftrightarrow> (case rl_root ledgers of None \<Rightarrow> False | Some (_, st) \<Rightarrow> truthy_int (rt_reconstruct_end st))"

fun stage_states :: "bool list \<Rightarrow> NodesOverviewLedgerStepState list" where
  "stage_states [] = []"
| "stage_states (begun # later) =
    (if True \<in> set later then SUCCESS else if begun then LOADING else PENDING) # stage_states later"

lemma step_succeeded_state [simp]: "es_state (step_succeeded s) = SUCCESS"
  by (simp add: step_succeeded_def)

lemma snarked_state: "es_state (getSnarkedLedgerStep now s) = (if snarked_begun s then LOADING else PENDING)"
  by (simp add: getSnarkedLedgerStep_def snarked_begun_def noneOfStepsCompleted_def split: option.splits)

lemma root_states:
  assumes "root_steps now (rl_root ledgers) = (sn, st)"
  shows "es_state sn = (if ledgers_begun ledgers ! 3 then SUCCESS else if ledgers_begun ledgers ! 2 then LOADING else PENDING)
    \<and> rs_state st = (if reconstructed ledgers then SUCCESS else if ledgers_begun ledgers ! 3 then LOADING else PENDING)"
  using assms
  by (auto simp: root_steps_def ledgers_begun_def reconstructed_def getRootStaged_def no_staged_def snarked_state
    split: option.splits if_splits)

lemma stage_states_waiting: "True \<notin> set bs \<Longrightarrow> list_all (\<lambda>s. s = PENDING) (stage_states bs)"
  by (induction bs) auto

lemma stage_states_in_order: "in_order (stage_states bs)"
proof (induction bs)
  case (Cons b bs)
  then show ?case using stage_states_waiting [of bs] by auto
qed simp

lemma in_order_last_done: "in_order (xs @ [LOADING]) \<Longrightarrow> in_order (xs @ [SUCCESS])"
  by (induction xs rule: in_order.induct) auto

text \<open>
  C40: The states of the four ledgers of a node, those of the staking epoch, of the next epoch, the snarked
  and the staged one of the root, follow from which of them the node has begun to fetch: a ledger is done
  as soon as a later one has begun, under way when it is the last that has begun, and waits otherwise; the
  staged ledger is done when its reconstruction has ended. They are therefore shown in the order of the
  synchronization, done ones, at most one under way, waiting ones, provided that the staged ledger of a
  node that reports the end of its reconstruction has begun.
\<close>

theorem getLedgers_in_order:
  "ledger_states (getLedgers now ledgers)
     = (let states = stage_states (ledgers_begun ledgers) in if reconstructed ledgers then states[3 := SUCCESS] else states)
   \<and> ((reconstructed ledgers \<longrightarrow> ledgers_begun ledgers ! 3) \<longrightarrow> in_order (ledger_states (getLedgers now ledgers)))"
proof -
  obtain sn st where roots: "root_steps now (rl_root ledgers) = (sn, st)" by force
  obtain b0 b1 b2 b3 where bs: "ledgers_begun ledgers = [b0, b1, b2, b3]" by (simp add: ledgers_begun_def)
  then have begun: "b0 = snarked_begun (rl_staking_epoch ledgers)" "b1 = snarked_begun (rl_next_epoch ledgers)"
    by (simp_all add: ledgers_begun_def)
  have states: "ledger_states (getLedgers now ledgers)
      = (if reconstructed ledgers then (stage_states [b0, b1, b2, b3])[3 := SUCCESS] else stage_states [b0, b1, b2, b3])"
    using root_states [OF roots] by (simp add: ledger_states_def getLedgers_def roots snarked_state begun bs)
  have "in_order (ledger_states (getLedgers now ledgers))" if "reconstructed ledgers \<Longrightarrow> b3"
    using that stage_states_in_order [of "[b0, b1, b2, b3]"]
      in_order_last_done [of "butlast (stage_states [b0, b1, b2, b3])"] by (simp add: states split: if_splits)
  then show ?thesis using states by (simp add: bs)
qed

text \<open>A node that fetches its snarked root ledger, and one that has reconstructed the staged one.\<close>

definition sample_snarked :: raw_snarked where
  "sample_snarked = \<lparr>rs_fetch_hashes_start = Some 5, rs_fetch_hashes_end = None, rs_fetch_accounts_start = None,
     rs_fetch_accounts_end = None\<rparr>"

definition sample_ledgers :: "int option \<Rightarrow> raw_ledgers" where
  "sample_ledgers staged = \<lparr>rl_root = Some (sample_snarked, \<lparr>rt_fetch_parts_start = staged, rt_fetch_parts_end = staged,
       rt_reconstruct_start = staged, rt_reconstruct_end = staged\<rparr>),
     rl_next_epoch = Some sample_snarked, rl_staking_epoch = None\<rparr>"

theorem getLedgers_in_order_witness:
  "ledger_states (getLedgers 0 (sample_ledgers None)) = [SUCCESS, SUCCESS, LOADING, PENDING]
   \<and> ledger_states (getLedgers 0 (sample_ledgers (Some 9))) = [SUCCESS, SUCCESS, SUCCESS, SUCCESS]
   \<and> in_order (ledger_states (getLedgers 0 (sample_ledgers (Some 9))))"
proof -
  have begun: "ledgers_begun (sample_ledgers staged) = [False, True, True, truthy_int staged]"
    and rec: "reconstructed (sample_ledgers staged) = truthy_int staged" for staged
    by (simp_all add: sample_ledgers_def ledgers_begun_def snarked_begun_def sample_snarked_def reconstructed_def truthy_int_def)
  show ?thesis
    using getLedgers_in_order [of 0 "sample_ledgers None"] getLedgers_in_order [of 0 "sample_ledgers (Some 9)"]
    unfolding begun rec by (simp add: truthy_int_def)
qed

section \<open>The service always answers\<close>

lemma map_tip_name: "map_tip rd now name d t = Inr n \<Longrightarrow> no_name n = name"
  by (auto simp: map_tip_def split: option.splits)

lemma getNodeTips_total: "getNodeTips rd now name answers \<noteq> [] \<and> (\<forall>n \<in> set (getNodeTips rd now name answers). no_name n = name)"
proof -
  have err: "mapNodeTipsErrorResponse now name \<noteq> [] \<and> (\<forall>n \<in> set (mapNodeTipsErrorResponse now name). no_name n = name)"
    by (simp add: mapNodeTipsErrorResponse_def)
  have "nodes \<noteq> [] \<and> (\<forall>n \<in> set nodes. no_name n = name)" if "mapNodeTipsResponse rd now response name = Inr nodes" for response nodes
  proof -
    obtain tips d where r: "response = (tips, d)" by force
    have "tips \<noteq> []" "list_all2 (\<lambda>t n. map_tip rd now name d t = Inr n) tips nodes"
      using that r by (auto simp: mapNodeTipsResponse_def js_mapM_Inr split: if_splits)
    then show ?thesis using map_tip_name [of rd now name d] by (fastforce simp: list_all2_conv_all_nth in_set_conv_nth)
  qed
  then show ?thesis using err by (auto simp: getNodeTips_def split: option.splits sum.splits)
qed

text \<open>Every block of an answer is counted in exactly one of the five columns.\<close>

lemma status_counts: "status_count APPLIED bs + status_count APPLYING bs + status_count MISSING bs + status_count FETCHING bs
    + status_count FETCHED bs = length bs"
proof (induction bs)
  case (Cons b bs)
  then show ?case by (cases "rsb_status b") (simp_all add: status_count_def)
qed (simp add: status_count_def)

section \<open>One row per node, with its latest status\<close>

definition latest :: "NodesOverviewNode list \<Rightarrow> string \<Rightarrow> NodesOverviewNode option" where
  "latest nodes = map_of (map (\<lambda>n. (no_name n, n)) nodes)"

text \<open>The specification: a map from names to the last status reported.\<close>

fun status_step :: "string list \<Rightarrow> (string \<Rightarrow> NodesOverviewNode option) \<Rightarrow> NodesOverviewActions \<Rightarrow> string \<Rightarrow> NodesOverviewNode option" where
  "status_step configs m (NO_GET_NODE_STATUS_SUCCESS (Some n)) = m(no_name n \<mapsto> n)"
| "status_step configs m NO_CLOSE = (\<lambda>name. if name \<in> set configs then Some (pending_node name) else None)"
| "status_step configs m _ = m"

lemma latest_pending: "latest (map pending_node configs) = (\<lambda>name. if name \<in> set configs then Some (pending_node name) else None)"
  by (induction configs) (auto simp: latest_def pending_node_def)

lemma latest_sort:
  assumes "distinct (map no_name nodes)"
  shows "latest (sort_overview_nodes lc nodes srt) = latest nodes"
    and "distinct (map no_name (sort_overview_nodes lc nodes srt))"
proof -
  show d: "distinct (map no_name (sort_overview_nodes lc nodes srt))" using assms by (simp add: sort_overview_nodes_def)
  then show "latest (sort_overview_nodes lc nodes srt) = latest nodes"
    using assms unfolding latest_def by (subst map_of_inject_set) (simp_all add: comp_def sort_overview_nodes_def)
qed

lemma latest_Cons [simp]: "latest [] = Map.empty" "latest (x # xs) = (latest xs)(no_name x \<mapsto> x)"
  by (simp_all add: latest_def)

lemma latest_new: "\<forall>m \<in> set xs. no_name m \<noteq> no_name n \<Longrightarrow> latest (xs @ [n]) = (latest xs)(no_name n \<mapsto> n)"
  by (induction xs) (auto simp: fun_upd_twist)

lemma latest_update:
  "\<forall>x \<in> set xs. no_name x \<noteq> no_name n \<Longrightarrow> no_name m = no_name n \<Longrightarrow>
   latest (xs @ n # ys) = (latest (xs @ m # ys))(no_name n \<mapsto> n)"
  by (induction xs) (auto simp: fun_upd_twist)

lemma latest_replace:
  assumes "distinct (map no_name nodes)"
  shows "latest (replace_node nodes (Some n)) = (latest nodes)(no_name n \<mapsto> n)"
    and "distinct (map no_name (replace_node nodes (Some n)))"
proof -
  let ?i = "js_findIndex (\<lambda>node. no_name node = no_name n) nodes"
  have "latest (replace_node nodes (Some n)) = (latest nodes)(no_name n \<mapsto> n) \<and> distinct (map no_name (replace_node nodes (Some n)))"
  proof (cases "?i = - 1")
    case True
    then have new: "\<forall>m \<in> set nodes. no_name m \<noteq> no_name n" by (simp add: js_findIndex_neg_iff)
    moreover have "no_name n \<notin> no_name ` set nodes" using new by (metis imageE)
    ultimately show ?thesis using True assms latest_new [of nodes n] by (simp add: replace_node_def)
  next
    case False
    then have "\<exists>m \<in> set nodes. no_name m = no_name n" by (simp add: js_findIndex_neg_iff)
    then obtain xs m ys where nodes: "nodes = xs @ m # ys" "no_name m = no_name n" "\<forall>x \<in> set xs. no_name x \<noteq> no_name n"
      using split_list_first_prop [of nodes "\<lambda>m. no_name m = no_name n"] by blast
    have i: "?i = int (length xs)" using js_findIndex_append [of xs "\<lambda>node. no_name node = no_name n" m ys] nodes by simp
    have "replace_node nodes (Some n) = xs @ n # ys" using False i nodes(1) by (simp add: replace_node_def)
    then show ?thesis using assms nodes latest_update [of xs n m ys] by auto
  qed
  then show "latest (replace_node nodes (Some n)) = (latest nodes)(no_name n \<mapsto> n)" "distinct (map no_name (replace_node nodes (Some n)))"
    by blast+
qed

lemma overview_step_refines:
  assumes "distinct (map no_name (nos_nodes s))" "distinct configs"
  shows "distinct (map no_name (nos_nodes (nodesOverviewReducer lc configs s a)))
    \<and> latest (nos_nodes (nodesOverviewReducer lc configs s a)) = status_step configs (latest (nos_nodes s)) a"
proof (cases a)
  case (NO_GET_NODE_STATUS_SUCCESS x)
  then show ?thesis using assms latest_sort [of "nos_nodes s"] latest_replace [of "nos_nodes s"]
      latest_sort [of "replace_node (nos_nodes s) x"]
    by (cases x) (simp_all add: replace_node_def)
next
  case NO_CLOSE
  have "map (no_name \<circ> pending_node) configs = configs" by (induction configs) (simp_all add: pending_node_def)
  then show ?thesis using NO_CLOSE assms by (simp add: initial_nodes_overview_def latest_pending)
qed (use assms latest_sort in simp_all)

text \<open>
  C39: The table has one row per node, and the row of a node is the last status it reported, or the
  pending row it started with: the slice implements a map from names to statuses, whatever the order of
  the answers and of the changes of the sort.
\<close>

theorem nodes_overview_latest:
  assumes "distinct configs"
  shows "distinct (map no_name (nos_nodes (foldl (nodesOverviewReducer lc configs) (initial_nodes_overview configs) as)))
    \<and> latest (nos_nodes (foldl (nodesOverviewReducer lc configs) (initial_nodes_overview configs) as))
      = foldl (status_step configs) (latest (map pending_node configs)) as"
proof (induction as rule: rev_induct)
  case Nil
  have "map (no_name \<circ> pending_node) configs = configs" by (induction configs) (simp_all add: pending_node_def)
  then show ?case using assms by (simp add: initial_nodes_overview_def)
next
  case (snoc a as)
  then show ?case using overview_step_refines [OF conjunct1 [OF snoc] assms, of lc a] by simp
qed

theorem nodes_overview_latest_witness:
  "latest (nos_nodes (foldl (nodesOverviewReducer code_unit_compare [''a'', ''b'']) (initial_nodes_overview [''a'', ''b''])
      [NO_GET_NODE_STATUS_SUCCESS (Some (pending_node ''b'' \<lparr>no_kind := ''Synced''\<rparr>))])) ''b''
    = Some (pending_node ''b'' \<lparr>no_kind := ''Synced''\<rparr>)"
proof -
  have "distinct [''a'', ''b'']" by simp
  from conjunct2 [OF nodes_overview_latest [OF this, of code_unit_compare "[NO_GET_NODE_STATUS_SUCCESS (Some (pending_node ''b'' \<lparr>no_kind := ''Synced''\<rparr>))]"]]
  show ?thesis by (simp add: pending_node_def)
qed

section \<open>An empty list of nodes stops the polling\<close>

text \<open>
  If a poll finds no nodes, nothing is emitted, so nothing lowers the flag: no later poll asks a node,
  even when the application has nodes again.
\<close>

definition overview_blocked :: "nodes_overview_effects \<Rightarrow> bool" where
  "overview_blocked m \<longleftrightarrow> noe_pendingRequest m \<and> noe_asked m = []"

definition overview_poll :: "nodes_overview_event \<Rightarrow> bool" where
  "overview_poll e \<longleftrightarrow> (\<forall>name nodes. e \<noteq> NoeAct (NO_GET_NODE_STATUS name) nodes)"

interpretation overview_stop: blocked_effect "nodes_overview_effect rd now" overview_blocked overview_poll "\<lambda>_. True" for rd now
proof unfold_locales
  fix m e assume m: "overview_blocked m" and e: "overview_poll e"
  have step: "nodes_overview_effect rd now m e = (m, [])"
  proof (cases e)
    case (NoeAct a nodes)
    then show ?thesis using m e by (cases a) (auto simp: overview_blocked_def overview_poll_def)
  qed (use m in \<open>simp add: overview_blocked_def\<close>)
  show "overview_blocked (fst (nodes_overview_effect rd now m e))" using m step by simp
  show "\<not> True" if "out \<in> set (snd (nodes_overview_effect rd now m e))" for out using that step by simp
qed

lemma overview_empty_poll_stops:
  assumes "list_all overview_poll es"
  shows "snd (run_effect (nodes_overview_effect rd now) initial_overview_effects (NoeAct NO_GET_NODES [] # es)) = []"
proof -
  let ?m = "\<lparr>noe_pendingRequest = True, noe_asked = []\<rparr>"
  have "overview_blocked ?m" by (simp add: overview_blocked_def)
  from overview_stop.run_blocked [OF this assms, of rd now]
  have "snd (run_effect (nodes_overview_effect rd now) ?m es) = []" by (cases "snd (run_effect (nodes_overview_effect rd now) ?m es)") auto
  then show ?thesis by (simp add: initial_overview_effects_def split: prod.splits)
qed

text \<open>Each answer reports on the node that was asked.\<close>

lemma overview_answer_reports:
  "i < length (noe_asked m) \<Longrightarrow> \<exists>n. snd (nodes_overview_effect rd now m (NoeTips i answers)) = [NO_GET_NODE_STATUS_SUCCESS (Some n)]
     \<and> no_name n = noe_asked m ! i"
  using getNodeTips_total [of rd now "noe_asked m ! i" answers] by (auto simp: js_nth_def)

end
