(* ===== verification/Dashboard.thy ===== *)
theory Dashboard
  imports NodesOverview
begin

text \<open>
  The dashboard (\<open>features/dashboard\<close>): the service that reads the peers, the tips and the progress
  of the active node, the slice, the effect that polls the three, and the page they form with the
  component's timer and its reaction to a change of the active node. The views are in
  \<open>DashboardViews\<close>.
\<close>

section \<open>The service\<close>

datatype DashboardPeerStatus = CONNECTED | CONNECTING | DISCONNECTED

text \<open>An answer of \<open>/state/peers\<close>; what a peer has not told is \<open>null\<close>.\<close>

record PeersResponse =
  rpe_peer_id :: string
  rpe_best_tip :: "string option"
  rpe_time :: int
  rpe_best_tip_height :: "int option"
  rpe_best_tip_global_slot :: "int option"
  rpe_best_tip_timestamp :: "int option"
  rpe_connection_status :: DashboardPeerStatus
  rpe_address :: "string option"

record DashboardPeer =
  dp_peerId :: string
  dp_status :: DashboardPeerStatus
  dp_datetime :: string
  dp_timestamp :: int
  dp_address :: "string option"
  dp_bestTip :: "string option"
  dp_globalSlot :: "int option"
  dp_bestTipTimestamp :: "int option"
  dp_bestTipDatetime :: string
  dp_height :: "int option"
  dp_requests :: nat

definition dashboard_peer :: "(rat \<Rightarrow> string) \<Rightarrow> PeersResponse \<Rightarrow> DashboardPeer" where
  "dashboard_peer rd peer = \<lparr>dp_peerId = rpe_peer_id peer, dp_status = rpe_connection_status peer,
     dp_datetime = rd (of_int (rpe_time peer) / of_int ONE_MILLION), dp_timestamp = rpe_time peer,
     dp_address = rpe_address peer, dp_bestTip = rpe_best_tip peer, dp_globalSlot = rpe_best_tip_global_slot peer,
     dp_bestTipTimestamp = rpe_best_tip_timestamp peer,
     dp_bestTipDatetime = (if truthy_int (rpe_best_tip_timestamp peer)
       then rd (of_int (the (rpe_best_tip_timestamp peer)) / of_int ONE_MILLION) else ''-''),
     dp_height = rpe_best_tip_height peer, dp_requests = 0\<rparr>"

abbreviation getPeers :: "(rat \<Rightarrow> string) \<Rightarrow> PeersResponse list \<Rightarrow> DashboardPeer list" where
  "getPeers rd \<equiv> map (dashboard_peer rd)"

text \<open>
  \<open>getTips\<close> asks for one tip and shares the mapping of the overview, without the details of the
  node; every failure, of the request or of the mapping, gives the row of an offline node.
\<close>

definition getTips :: "(rat \<Rightarrow> string) \<Rightarrow> int \<Rightarrow> string \<Rightarrow> raw_tip list option \<Rightarrow> NodesOverviewNode list" where
  "getTips rd now name answer = getNodeTips rd now name (map_option (\<lambda>tips. (tips, None)) answer)"

text \<open>The counters are unsigned; a ledger that is not being fetched has no progress (\<open>null\<close>).\<close>

record DashboardLedgerStepStats =
  ls_fetched :: "nat option"
  ls_estimation :: "nat option"

text \<open>
  The answer of \<open>/state/message-progress\<close>: per peer the number of responses by the name of the call,
  in the order of the keys, and the three ledgers; the root ledger may carry its staged part.
\<close>

record MessageProgressResponse =
  mpr_messages_stats :: "(string \<times> (string \<times> nat) list) list"
  mpr_staking_ledger_sync :: "(nat \<times> nat) option"
  mpr_next_epoch_ledger_sync :: "(nat \<times> nat) option"
  mpr_root_ledger_sync :: "((nat \<times> nat) \<times> (nat \<times> nat) option) option"

record DashboardRpcStats =
  drs_peerResponses :: "(string \<times> nat) list"
  drs_stakingLedger :: "DashboardLedgerStepStats option"
  drs_nextLedger :: "DashboardLedgerStepStats option"
  drs_snarkedRootLedger :: "DashboardLedgerStepStats option"
  drs_stagedRootLedger :: "DashboardLedgerStepStats option"

definition step_stats :: "nat \<times> nat \<Rightarrow> DashboardLedgerStepStats" where
  "step_stats e = \<lparr>ls_fetched = Some (fst e), ls_estimation = Some (snd e)\<rparr>"

definition mapMessageProgressResponse :: "MessageProgressResponse \<Rightarrow> DashboardRpcStats" where
  "mapMessageProgressResponse prog =
    (let staged = Option.bind (mpr_root_ledger_sync prog) snd in
     \<lparr>drs_peerResponses = map (\<lambda>(peerId, responses). (peerId, foldl (\<lambda>sum curr. sum + snd curr) 0 responses))
        (mpr_messages_stats prog),
      drs_stakingLedger = map_option step_stats (mpr_staking_ledger_sync prog),
      drs_nextLedger = map_option step_stats (mpr_next_epoch_ledger_sync prog),
      drs_snarkedRootLedger = map_option (step_stats \<circ> fst) (mpr_root_ledger_sync prog),
      drs_stagedRootLedger = Some \<lparr>ls_fetched = map_option fst staged, ls_estimation = map_option snd staged\<rparr>\<rparr>)"

section \<open>The slice\<close>

datatype dashboard_peer_col = DpPeerId | DpStatus | DpDatetime | DpTimestamp | DpAddress | DpBestTip | DpGlobalSlot
  | DpBestTipTimestamp | DpBestTipDatetime | DpHeight | DpRequests

fun peer_status_text :: "DashboardPeerStatus \<Rightarrow> string" where
  "peer_status_text CONNECTED = ''Connected''"
| "peer_status_text CONNECTING = ''Connecting''"
| "peer_status_text DISCONNECTED = ''Disconnected''"

fun get_dashboard_peer :: "dashboard_peer_col \<Rightarrow> DashboardPeer \<Rightarrow> jsval" where
  "get_dashboard_peer DpPeerId p = JStr (dp_peerId p)"
| "get_dashboard_peer DpStatus p = JStr (peer_status_text (dp_status p))"
| "get_dashboard_peer DpDatetime p = JStr (dp_datetime p)"
| "get_dashboard_peer DpTimestamp p = of_i (dp_timestamp p)"
| "get_dashboard_peer DpAddress p = of_str (dp_address p)"
| "get_dashboard_peer DpBestTip p = of_str (dp_bestTip p)"
| "get_dashboard_peer DpGlobalSlot p = of_int_opt (dp_globalSlot p)"
| "get_dashboard_peer DpBestTipTimestamp p = of_int_opt (dp_bestTipTimestamp p)"
| "get_dashboard_peer DpBestTipDatetime p = JStr (dp_bestTipDatetime p)"
| "get_dashboard_peer DpHeight p = of_int_opt (dp_height p)"
| "get_dashboard_peer DpRequests p = of_i (int (dp_requests p))"

record DashboardPeersStats =
  dps_connected :: nat
  dps_connecting :: nat
  dps_disconnected :: nat

text \<open>
  Seven further counters of the state (percentage of bootstrapping, blocks, transactions and snarks
  received) are 0 in the initial state and written nowhere; they are left out.
\<close>

record DashboardState =
  das_peers :: "DashboardPeer list"
  das_peersStats :: DashboardPeersStats
  das_peersSort :: "dashboard_peer_col TableSort"
  das_nodes :: "NodesOverviewNode list"
  das_rpcStats :: DashboardRpcStats

datatype DashboardActions =
    DASHBOARD_INIT
  | DASHBOARD_GET_DATA bool
  | DASHBOARD_GET_DATA_SUCCESS "DashboardPeer list" "NodesOverviewNode list" DashboardRpcStats
  | DASHBOARD_PEERS_SORT "dashboard_peer_col TableSort"
  | DASHBOARD_CLOSE

definition no_rpc_stats :: DashboardRpcStats where
  "no_rpc_stats = \<lparr>drs_peerResponses = [], drs_stakingLedger = None, drs_nextLedger = None,
     drs_snarkedRootLedger = None, drs_stagedRootLedger = None\<rparr>"

definition initial_dashboard :: DashboardState where
  "initial_dashboard = \<lparr>das_peers = [], das_peersStats = \<lparr>dps_connected = 0, dps_connecting = 0, dps_disconnected = 0\<rparr>,
     das_peersSort = \<lparr>sortBy = DpHeight, sortDirection = DSC\<rparr>, das_nodes = [], das_rpcStats = no_rpc_stats\<rparr>"

definition sort_dashboard_peers ::
  "(string \<Rightarrow> string \<Rightarrow> rat) \<Rightarrow> DashboardPeer list \<Rightarrow> dashboard_peer_col TableSort \<Rightarrow> DashboardPeer list" where
  "sort_dashboard_peers lc node tableSort =
     ArrayHelper.sort lc get_dashboard_peer node tableSort [DpPeerId, DpStatus, DpBestTip, DpAddress] False"

definition requests_made :: "DashboardRpcStats \<Rightarrow> string \<Rightarrow> nat" where
  "requests_made stats peerId = (case find (\<lambda>r. fst r = peerId) (drs_peerResponses stats) of None \<Rightarrow> 0 | Some r \<Rightarrow> snd r)"

definition peers_with :: "DashboardPeerStatus \<Rightarrow> DashboardPeer list \<Rightarrow> nat" where
  "peers_with status peers = length (filter (\<lambda>peer. dp_status peer = status) peers)"

definition peers_stats :: "DashboardPeer list \<Rightarrow> DashboardPeersStats" where
  "peers_stats peers = \<lparr>dps_connected = peers_with CONNECTED peers, dps_connecting = peers_with CONNECTING peers,
     dps_disconnected = peers_with DISCONNECTED peers\<rparr>"

fun dashboardReducer ::
  "(string \<Rightarrow> string \<Rightarrow> rat) \<Rightarrow> DashboardState \<Rightarrow> DashboardActions \<Rightarrow> DashboardState" where
  "dashboardReducer lc state (DASHBOARD_GET_DATA force) =
     (if force then initial_dashboard\<lparr>das_peersSort := das_peersSort state\<rparr> else state)"
| "dashboardReducer lc state (DASHBOARD_PEERS_SORT srt) =
     state\<lparr>das_peersSort := srt, das_peers := sort_dashboard_peers lc (das_peers state) srt\<rparr>"
| "dashboardReducer lc state (DASHBOARD_GET_DATA_SUCCESS peers ledger rpcStats) =
     (let peers = sort_dashboard_peers lc (map (\<lambda>peer. peer\<lparr>dp_requests := requests_made rpcStats (dp_peerId peer)\<rparr>) peers)
        (das_peersSort state) in
      state\<lparr>das_peers := peers, das_peersStats := peers_stats peers, das_nodes := ledger, das_rpcStats := rpcStats\<rparr>)"
| "dashboardReducer lc state DASHBOARD_CLOSE = initial_dashboard"
| "dashboardReducer lc state DASHBOARD_INIT = state"

section \<open>The effect\<close>

text \<open>
  The three answers of a poll: \<open>combineLatest\<close> emits when all have arrived. The request for the tips
  may have failed (\<open>None\<close>); a failure of another one is a failure of the poll.
\<close>

record dashboard_answer =
  da_peers :: "PeersResponse list"
  da_tips :: "raw_tip list option"
  da_progress :: MessageProgressResponse

type_synonym dashboard_out = "ErrorPreviewActions + DashboardActions"

definition dashboard_failed :: "(int \<Rightarrow> string \<Rightarrow> string) \<Rightarrow> int \<Rightarrow> http_error \<Rightarrow> dashboard_out list" where
  "dashboard_failed fmt now err = catchErrorAndRepeat fmt now GENERIC (DASHBOARD_GET_DATA_SUCCESS [] [] no_rpc_stats) err"

text \<open>
  \<open>getData$\<close>, triggered by an action with the name of the active node: a forced poll passes while
  another is pending and replaces it (\<open>switchMap\<close>). Without an active node the property access
  throws, which the operator turns into a failure. The flag is lowered behind the handler of errors.
\<close>

fun dashboard_effect ::
  "(int \<Rightarrow> string \<Rightarrow> string) \<Rightarrow> (rat \<Rightarrow> string) \<Rightarrow> int \<Rightarrow> string gate
    \<Rightarrow> (DashboardActions \<times> string option, dashboard_answer) effect_event \<Rightarrow> string gate \<times> dashboard_out list" where
  "dashboard_effect fmt rd now g (Trigger (DASHBOARD_INIT, active)) = (g, [Inr (DASHBOARD_GET_DATA False)])"
| "dashboard_effect fmt rd now g (Trigger (DASHBOARD_GET_DATA force, active)) =
     (if \<not> force \<and> busy g then (g, [])
      else (case active of
          None \<Rightarrow> (idle_gate, dashboard_failed fmt now (plain_error ''url''))
        | Some name \<Rightarrow> (\<lparr>busy = True, inflight = Some name\<rparr>, [])))"
| "dashboard_effect fmt rd now g (Trigger (DASHBOARD_CLOSE, active)) = (if busy g then (g, []) else (g\<lparr>inflight := None\<rparr>, []))"
| "dashboard_effect fmt rd now g (Trigger _) = (g, [])"
| "dashboard_effect fmt rd now g (Reply answer) = (case inflight g of None \<Rightarrow> (g, [])
     | Some name \<Rightarrow> (idle_gate, [Inr (DASHBOARD_GET_DATA_SUCCESS (getPeers rd (da_peers answer))
         (getTips rd now name (da_tips answer)) (mapMessageProgressResponse (da_progress answer)))]))"
| "dashboard_effect fmt rd now g (Failure err) = (case inflight g of None \<Rightarrow> (g, [])
     | Some name \<Rightarrow> (idle_gate, dashboard_failed fmt now err))"

section \<open>The page\<close>

text \<open>
  The slices and the effect outlive the page: whether it is open is part of the state. Leaving it
  dispatches nothing, and the data and a pending poll stay.
\<close>

record dashboard_page =
  dpg_open :: bool
  dpg_active :: "string option"
  dpg_slice :: DashboardState
  dpg_gate :: "string gate"
  dpg_errors :: ErrorPreviewState

text \<open>The actions an effect emits reach the two slices; \<open>GET_DATA_SUCCESS\<close> triggers no effect.\<close>

definition dashboard_commit ::
  "(string \<Rightarrow> string \<Rightarrow> rat) \<Rightarrow> dashboard_page \<Rightarrow> string gate \<times> dashboard_out list \<Rightarrow> dashboard_page" where
  "dashboard_commit lc p r = foldl (\<lambda>p out. case out of
       Inl e \<Rightarrow> p\<lparr>dpg_errors := errorReducer (dpg_errors p) e\<rparr>
     | Inr a \<Rightarrow> p\<lparr>dpg_slice := dashboardReducer lc (dpg_slice p) a\<rparr>) (p\<lparr>dpg_gate := fst r\<rparr>) (snd r)"

record dashboard_env =
  de_lc :: "string \<Rightarrow> string \<Rightarrow> rat"
  de_fmt :: "int \<Rightarrow> string \<Rightarrow> string"
  de_rd :: "rat \<Rightarrow> string"

abbreviation dashboard_trigger :: "dashboard_env \<Rightarrow> int \<Rightarrow> dashboard_page \<Rightarrow> DashboardActions \<Rightarrow> dashboard_page" where
  "dashboard_trigger env now p a \<equiv> (let p = p\<lparr>dpg_slice := dashboardReducer (de_lc env) (dpg_slice p) a\<rparr> in
     dashboard_commit (de_lc env) p (dashboard_effect (de_fmt env) (de_rd env) now (dpg_gate p) (Trigger (a, dpg_active p))))"

text \<open>An action is reduced before the effects see it; \<open>init$\<close> answers with a poll.\<close>

definition dashboard_dispatch :: "dashboard_env \<Rightarrow> int \<Rightarrow> dashboard_page \<Rightarrow> DashboardActions \<Rightarrow> dashboard_page" where
  "dashboard_dispatch env now p a =
     (if a = DASHBOARD_INIT then dashboard_trigger env now p (DASHBOARD_GET_DATA False) else dashboard_trigger env now p a)"

text \<open>
  The events: the page is opened and left, another node becomes active, a tick of the timer, a click on
  a column, and the end of the pending poll. The open page reacts to every node but the first it
  sees (\<open>filter(Boolean), skip(1)\<close>); that is the active one when it is opened, if there is one.
\<close>

datatype dashboard_page_event = DpgEnter | DpgLeave | DpgNode string | DpgTick | DpgSort "dashboard_peer_col TableSort"
  | DpgAnswer dashboard_answer | DpgFailure http_error

fun dashboard_page_step :: "dashboard_env \<Rightarrow> dashboard_page \<Rightarrow> int \<times> dashboard_page_event \<Rightarrow> dashboard_page" where
  "dashboard_page_step env p (now, DpgEnter) =
     (if dpg_open p then p else dashboard_dispatch env now (p\<lparr>dpg_open := True\<rparr>) DASHBOARD_INIT)"
| "dashboard_page_step env p (now, DpgLeave) = p\<lparr>dpg_open := False\<rparr>"
| "dashboard_page_step env p (now, DpgNode name) =
     (let p' = p\<lparr>dpg_active := Some name\<rparr> in
      if dpg_open p \<and> dpg_active p \<noteq> None then dashboard_dispatch env now p' (DASHBOARD_GET_DATA True) else p')"
| "dashboard_page_step env p (now, DpgTick) =
     (if dpg_open p then dashboard_dispatch env now p (DASHBOARD_GET_DATA False) else p)"
| "dashboard_page_step env p (now, DpgSort srt) =
     (if dpg_open p then dashboard_dispatch env now p (DASHBOARD_PEERS_SORT srt) else p)"
| "dashboard_page_step env p (now, DpgAnswer answer) =
     dashboard_commit (de_lc env) p (dashboard_effect (de_fmt env) (de_rd env) now (dpg_gate p) (Reply answer))"
| "dashboard_page_step env p (now, DpgFailure err) =
     dashboard_commit (de_lc env) p (dashboard_effect (de_fmt env) (de_rd env) now (dpg_gate p) (Failure err))"


section \<open>The page shows the active node\<close>

interpretation dashboard_peers: table_columns get_dashboard_peer "[DpPeerId, DpStatus, DpBestTip, DpAddress]"
  by unfold_locales (auto simp: of_str_def split: option.splits)

interpretation dashboard_gate: request_gate "dashboard_effect fmt rd now"
  "\<lambda>(a, active). case a of DASHBOARD_GET_DATA _ \<Rightarrow> active | _ \<Rightarrow> None" for fmt rd now
proof unfold_locales
  fix g :: "string gate" and t :: "DashboardActions \<times> string option" and q
  assume "\<not> busy g" "(case t of (DASHBOARD_GET_DATA x, active) \<Rightarrow> active | (_, active) \<Rightarrow> None) = Some q"
  then show "fst (dashboard_effect fmt rd now g (Trigger t)) = \<lparr>busy = True, inflight = Some q\<rparr>"
    by (cases t; cases "fst t") auto
next
  fix g g' :: "string gate" and t :: "DashboardActions \<times> string option"
  assume "busy g = (inflight g \<noteq> None)" "g' = fst (dashboard_effect fmt rd now g (Trigger t))"
  then show "busy g' = (inflight g' \<noteq> None)"
    by (cases t; cases "fst t") (auto simp: idle_gate_def split: option.splits)
qed auto

text \<open>
  What the page promises, without slices and effects: the node of the pending poll, and whose answer is on
  the page, with the time it arrived, if any. The view is stale when the active node changed while the
  page was closed and data or a poll of another node is still there.
\<close>

record dashboard_view =
  dv_open :: bool
  dv_active :: "string option"
  dv_pending :: "string option"
  dv_data :: "(int \<times> string \<times> dashboard_answer) option"
  dv_stale :: bool

definition view_poll :: "dashboard_view \<Rightarrow> dashboard_view" where
  "view_poll v = (if dv_pending v \<noteq> None then v
     else if dv_active v = None then v\<lparr>dv_data := None, dv_stale := False\<rparr> else v\<lparr>dv_pending := dv_active v\<rparr>)"

fun view_step :: "dashboard_view \<Rightarrow> int \<times> dashboard_page_event \<Rightarrow> dashboard_view" where
  "view_step v (now, DpgEnter) = (if dv_open v then v else view_poll (v\<lparr>dv_open := True\<rparr>))"
| "view_step v (now, DpgLeave) = v\<lparr>dv_open := False\<rparr>"
| "view_step v (now, DpgNode name) =
    (if dv_open v \<and> dv_active v \<noteq> None
     then v\<lparr>dv_active := Some name, dv_pending := Some name, dv_data := None, dv_stale := False\<rparr>
     else v\<lparr>dv_active := Some name, dv_stale := dv_pending v \<noteq> None \<or> dv_data v \<noteq> None\<rparr>)"
| "view_step v (now, DpgTick) = (if dv_open v then view_poll v else v)"
| "view_step v (now, DpgSort srt) = v"
| "view_step v (now, DpgAnswer answer) = (case dv_pending v of None \<Rightarrow> v | Some name \<Rightarrow>
     v\<lparr>dv_pending := None, dv_data := Some (now, name, answer), dv_stale := dv_active v \<noteq> Some name\<rparr>)"
| "view_step v (now, DpgFailure err) = (case dv_pending v of None \<Rightarrow> v | Some name \<Rightarrow>
     v\<lparr>dv_pending := None, dv_data := None, dv_stale := False\<rparr>)"



text \<open>The slice has the data of the view: the rows in some order, each with its number of requests.\<close>

definition rows_of :: "dashboard_env \<Rightarrow> dashboard_answer \<Rightarrow> DashboardPeer list" where
  "rows_of env answer = map (\<lambda>peer. peer\<lparr>dp_requests :=
     requests_made (mapMessageProgressResponse (da_progress answer)) (dp_peerId peer)\<rparr>) (getPeers (de_rd env) (da_peers answer))"

definition shows_data :: "dashboard_env \<Rightarrow> (int \<times> string \<times> dashboard_answer) option \<Rightarrow> DashboardState \<Rightarrow> bool" where
  "shows_data env data s \<longleftrightarrow> (case data of
     None \<Rightarrow> das_peers s = [] \<and> das_nodes s = [] \<and> das_rpcStats s = no_rpc_stats
   | Some (t, name, answer) \<Rightarrow> mset (das_peers s) = mset (rows_of env answer)
       \<and> das_nodes s = getTips (de_rd env) t name (da_tips answer)
       \<and> das_rpcStats s = mapMessageProgressResponse (da_progress answer))
   \<and> das_peersStats s = peers_stats (das_peers s)"

definition page_shows :: "dashboard_env \<Rightarrow> dashboard_view \<Rightarrow> dashboard_page \<Rightarrow> bool" where
  "page_shows env v p \<longleftrightarrow> dpg_open p = dv_open v \<and> dpg_active p = dv_active v
     \<and> dpg_gate p = \<lparr>busy = (dv_pending v \<noteq> None), inflight = dv_pending v\<rparr> \<and> shows_data env (dv_data v) (dpg_slice p)"

lemma peers_with_mset: "mset ps = mset qs \<Longrightarrow> peers_with status ps = peers_with status qs"
  unfolding peers_with_def by (metis mset_filter size_mset)

lemma mset_sort_dashboard_peers [simp]: "mset (sort_dashboard_peers lc peers srt) = mset peers"
  by (simp add: sort_dashboard_peers_def)

lemma peers_with_sort [simp]: "peers_with status (sort_dashboard_peers lc peers srt) = peers_with status peers"
  by (rule peers_with_mset) simp

lemma peers_stats_sort [simp]: "peers_stats (sort_dashboard_peers lc peers srt) = peers_stats peers"
  by (simp add: peers_stats_def)

lemma sort_no_peers [simp]: "sort_dashboard_peers lc [] srt = []"
  by (metis mset_sort_dashboard_peers mset_zero_iff)


lemma initial_shows [simp]: "shows_data env None (initial_dashboard\<lparr>das_peersSort := srt\<rparr>)" "shows_data env None initial_dashboard"
  by (simp_all add: shows_data_def initial_dashboard_def peers_stats_def peers_with_def)

lemma sort_shows:
  "shows_data env data s \<Longrightarrow> shows_data env data (dashboardReducer lc s (DASHBOARD_PEERS_SORT srt))"
  by (auto simp: shows_data_def split: option.splits)

lemma answer_shows:
  "shows_data env (Some (t, name, answer)) (dashboardReducer lc s (DASHBOARD_GET_DATA_SUCCESS (getPeers (de_rd env) (da_peers answer))
     (getTips (de_rd env) t name (da_tips answer)) (mapMessageProgressResponse (da_progress answer))))"
  "shows_data env None (dashboardReducer lc s (DASHBOARD_GET_DATA_SUCCESS [] [] no_rpc_stats))"
  by (simp_all add: shows_data_def rows_of_def peers_stats_def)

lemma failed_shows:
  "page_shows env v p \<Longrightarrow> page_shows env (v\<lparr>dv_pending := None, dv_data := None, dv_stale := False\<rparr>)
     (dashboard_commit lc p (idle_gate, dashboard_failed fmt now err))"
  using answer_shows(2) [of env lc "dpg_slice p"]
  by (simp add: dashboard_commit_def dashboard_failed_def catchErrorAndRepeat_def page_shows_def idle_gate_def)

text \<open>A poll asks the active node unless one is pending; a forced one forgets what there is.\<close>

lemma poll_shows:
  assumes "page_shows env v p"
  shows "page_shows env (view_poll v) (dashboard_dispatch env now p (DASHBOARD_GET_DATA False))"
proof (cases "dv_pending v = None \<and> dv_active v = None")
  case True
  then have "view_poll v = v\<lparr>dv_pending := None, dv_data := None, dv_stale := False\<rparr>" by (simp add: view_poll_def)
  then show ?thesis using True assms failed_shows [OF assms, of "de_lc env" "de_fmt env" now "plain_error ''url''"]
    by (auto simp: dashboard_dispatch_def page_shows_def)
next
  case False
  then show ?thesis using assms
    by (auto simp: view_poll_def dashboard_dispatch_def dashboard_commit_def page_shows_def split: option.splits)
qed

lemma forced_shows:
  "dpg_active p = Some name \<Longrightarrow> dpg_open p = dv_open v \<Longrightarrow>
   page_shows env (v\<lparr>dv_active := Some name, dv_pending := Some name, dv_data := None, dv_stale := False\<rparr>)
     (dashboard_dispatch env now p (DASHBOARD_GET_DATA True))"
  by (simp add: dashboard_dispatch_def dashboard_commit_def page_shows_def)

lemma init_polls: "dashboard_dispatch env now p DASHBOARD_INIT = dashboard_dispatch env now p (DASHBOARD_GET_DATA False)"
  by (simp add: dashboard_dispatch_def)

lemma page_step_shows:
  assumes "page_shows env v p"
  shows "page_shows env (view_step v (now, ev)) (dashboard_page_step env p (now, ev))"
proof (cases ev)
  case DpgEnter
  have "page_shows env (v\<lparr>dv_open := True\<rparr>) (p\<lparr>dpg_open := True\<rparr>)" using assms by (simp add: page_shows_def)
  from poll_shows [OF this] show ?thesis using assms DpgEnter by (auto simp: init_polls page_shows_def)
next
  case (DpgNode name)
  then show ?thesis using assms forced_shows [of "p\<lparr>dpg_active := Some name\<rparr>" name v env now]
    by (auto simp: page_shows_def)
next
  case (DpgSort srt)
  then show ?thesis using assms sort_shows [of env "dv_data v" "dpg_slice p"]
    by (auto simp: page_shows_def dashboard_dispatch_def dashboard_commit_def)
next
  case (DpgAnswer answer)
  then show ?thesis using assms answer_shows(1) [of env now _ answer "de_lc env" "dpg_slice p"]
    by (auto simp: page_shows_def dashboard_commit_def idle_gate_def split: option.splits)
next
  case (DpgFailure err)
  then show ?thesis using assms failed_shows [OF assms]
    by (cases "dv_pending v") (auto simp: page_shows_def dashboard_commit_def)
qed (use assms poll_shows in \<open>auto simp: page_shows_def\<close>)











text \<open>
  A page that is left, whose node changes and which is opened again shows the rows of the node left
  behind, and goes on with a poll of that node if one is pending.
\<close>

lemma reopened_shows_old_node:
  assumes "page_shows env v p" "dv_open v" "dv_active v = Some old" "dv_data v = Some (t, old, answer)" "name \<noteq> old"
  shows "let q = foldl (dashboard_page_step env) p [(t1, DpgLeave), (t2, DpgNode name), (t3, DpgEnter)] in
    dpg_active q = Some name \<and> mset (das_peers (dpg_slice q)) = mset (rows_of env answer)
    \<and> das_nodes (dpg_slice q) = getTips (de_rd env) t old (da_tips answer)
    \<and> (dv_pending v = Some old \<longrightarrow> inflight (dpg_gate q) = Some old)"
proof -
  let ?es = "[(t1, DpgLeave), (t2, DpgNode name), (t3, DpgEnter)]"
  have "page_shows env (foldl view_step v ?es) (foldl (dashboard_page_step env) p ?es)"
    using assms(1) by (simp only: foldl.simps page_step_shows)
  moreover have "dv_active (foldl view_step v ?es) = Some name" "dv_data (foldl view_step v ?es) = Some (t, old, answer)"
    "dv_pending v = Some old \<longrightarrow> dv_pending (foldl view_step v ?es) = Some old"
    using assms(2-4) by (simp_all add: view_poll_def)
  ultimately show ?thesis unfolding Let_def by (simp add: page_shows_def shows_data_def del: foldl.simps)
qed

text \<open>A poll that ends, well or badly, lets the next tick of the open page ask again.\<close>

lemma dashboard_polls_again:
  assumes "page_shows env v p" "dv_open v" "dv_active v = Some name" "ev = DpgAnswer answer \<or> ev = DpgFailure err"
  shows "inflight (dpg_gate (dashboard_page_step env (dashboard_page_step env p (now, ev)) (now', DpgTick))) = Some name"
proof -
  have "page_shows env (view_step (view_step v (now, ev)) (now', DpgTick))
      (dashboard_page_step env (dashboard_page_step env p (now, ev)) (now', DpgTick))"
    using assms(1) by (intro page_step_shows)
  moreover have "dv_pending (view_step (view_step v (now, ev)) (now', DpgTick)) = Some name"
    using assms(2-4) by (auto simp: view_poll_def split: option.splits)
  ultimately show ?thesis by (simp add: page_shows_def del: dashboard_page_step.simps view_step.simps)
qed

end
