(* ===== verification/DashboardViews.thy ===== *)
theory DashboardViews
  imports Dashboard AppShell
begin

text \<open>
  The views of the dashboard: the progress of the ledgers with its estimates and the countdown of the
  reconstruction (\<open>dashboard-ledger\<close>), the progress of the blocks (\<open>dashboard-blocks-sync\<close>), and
  the three bars and the line of text of the page (\<open>dashboard.component.ts\<close>). Each view is a machine
  on its fields; the clock and the random numbers come with the events.
\<close>

section \<open>Percentages\<close>

text \<open>A number of at least 0, or \<open>Infinity\<close>, which a division by 0 gives.\<close>

datatype ratio = Ratio rat | Infinity

fun ratio_add :: "ratio \<Rightarrow> ratio \<Rightarrow> ratio" where
  "ratio_add (Ratio a) (Ratio b) = Ratio (a + b)"
| "ratio_add _ _ = Infinity"

fun ratio_scale :: "rat \<Rightarrow> ratio \<Rightarrow> ratio" where
  "ratio_scale c (Ratio a) = Ratio (c * a)"
| "ratio_scale c Infinity = Infinity"

text \<open>
  \<open>stats?.fetched / stats?.estimation * 100 || 0\<close>: what is missing gives \<open>NaN\<close>, and so does 0 / 0.
\<close>

definition ledger_percent :: "DashboardLedgerStepStats option \<Rightarrow> ratio" where
  "ledger_percent stats = (case (Option.bind stats ls_fetched, Option.bind stats ls_estimation) of
      (Some fetched, Some estimation) \<Rightarrow>
        if estimation \<noteq> 0 then Ratio (of_nat fetched / of_nat estimation * 100) else if fetched = 0 then Ratio 0 else Infinity
    | _ \<Rightarrow> Ratio 0)"

definition ratio_mean :: "ratio list \<Rightarrow> ratio" where
  "ratio_mean rs = ratio_scale (1 / 4) (foldl ratio_add (Ratio 0) rs)"

section \<open>How long ago\<close>

definition ago_text :: "int \<Rightarrow> string \<Rightarrow> rat \<Rightarrow> string" where
  "ago_text now action nanoseconds =
    (let timestamp = \<lceil>nanoseconds / of_int ONE_MILLION\<rceil>; millisecondsAgo = now - timestamp;
         minutesAgo = millisecondsAgo div 60000; hoursAgo = minutesAgo div 60; daysAgo = hoursAgo div 24
     in action @ '' '' @
       (if daysAgo > 0 then int_to_string daysAgo @ ''d ago''
        else if hoursAgo > 0 then int_to_string hoursAgo @ ''h ago''
        else if minutesAgo > 0 then int_to_string minutesAgo @ ''m ago''
        else ''<1m ago''))"

section \<open>The ledgers\<close>

datatype SecDurationConfig = emptyConfig | undefinedConfig

definition initialSnarked :: NodesOverviewLedgerEpochStep where
  "initialSnarked = \<lparr>es_state = PENDING, es_snarked = \<lparr>sl_fetchHashesStart = Some 0, sl_fetchHashesEnd = Some 0,
       sl_fetchHashesDuration = None, sl_fetchHashesPassedTime = None, sl_fetchAccountsStart = Some 0,
       sl_fetchAccountsEnd = Some 0, sl_fetchAccountsDuration = None, sl_fetchAccountsPassedTime = None\<rparr>, es_totalTime = None\<rparr>"

definition initialStaged :: NodesOverviewRootStagedLedgerStep where
  "initialStaged = \<lparr>rs_state = PENDING, rs_staged = \<lparr>st_fetchPartsStart = Some 0, st_fetchPartsEnd = Some 0,
       st_fetchPartsDuration = None, st_fetchPassedTime = None, st_reconstructStart = Some 0, st_reconstructEnd = Some 0,
       st_reconstructDuration = None, st_reconstructPassedTime = None\<rparr>, rs_totalTime = None\<rparr>"

text \<open>
  The fields of the component. A timer has its handle, which is never cleared, and runs until it is
  cleared. A download is the amount seen at the last update and the seconds estimated to remain.
\<close>

record DashboardLedger =
  dl_ledgers :: NodesOverviewLedger
  dl_progress :: "string option"
  dl_configMap :: "SecDurationConfig \<times> SecDurationConfig \<times> SecDurationConfig \<times> SecDurationConfig"
  dl_stakingProgress :: ratio
  dl_nextProgress :: ratio
  dl_rootSnarkedProgress :: ratio
  dl_rootStagedProgress :: ratio
  dl_totalProgress :: "ratio option"
  dl_isWebNode :: bool
  dl_fetchedParts :: "nat option \<times> nat"
  dl_staking :: "nat option \<times> int option"
  dl_next :: "nat option \<times> int option"
  dl_rootSnarked :: "nat option \<times> int option"
  dl_rootStaged :: "nat option \<times> int option"
  dl_remainingReconstruct :: int
  dl_reconstructTimer :: bool
  dl_ticking :: bool

definition initial_ledgers :: NodesOverviewLedger where
  "initial_ledgers = \<lparr>ld_stakingEpoch = initialSnarked, ld_nextEpoch = initialSnarked, ld_rootSnarked = initialSnarked,
     ld_rootStaged = initialStaged\<rparr>"

definition initial_ledger_view :: DashboardLedger where
  "initial_ledger_view = \<lparr>dl_ledgers = initial_ledgers, dl_progress = None,
     dl_configMap = (emptyConfig, emptyConfig, emptyConfig, emptyConfig), dl_stakingProgress = Ratio 0, dl_nextProgress = Ratio 0,
     dl_rootSnarkedProgress = Ratio 0, dl_rootStagedProgress = Ratio 0, dl_totalProgress = None, dl_isWebNode = False,
     dl_fetchedParts = (Some 0, 0), dl_staking = (None, None), dl_next = (None, None), dl_rootSnarked = (None, None),
     dl_rootStaged = (None, None), dl_remainingReconstruct = 20, dl_reconstructTimer = False, dl_ticking = False\<rparr>"

text \<open>A time that is \<open>null\<close> counts as 0 in a division.\<close>

definition nano_to_milli :: "int option \<Rightarrow> rat" where
  "nano_to_milli t = (case t of None \<Rightarrow> 0 | Some i \<Rightarrow> of_int i / of_int ONE_MILLION)"

definition truthy_nat :: "nat option \<Rightarrow> bool" where
  "truthy_nat n \<longleftrightarrow> n \<noteq> None \<and> n \<noteq> Some 0"

text \<open>
  The estimate the component makes for each of its four downloads: once two updates have seen some of
  it fetched, the rest is taken to need time in proportion.
\<close>

definition download_step ::
  "int \<Rightarrow> int option \<Rightarrow> DashboardLedgerStepStats option \<Rightarrow> nat option \<times> int option \<Rightarrow> nat option \<times> int option" where
  "download_step now start stats d = (case d of (previous, seconds) \<Rightarrow>
     let startTime = nano_to_milli start; current = Option.bind stats ls_fetched in
     (current,
      if truthy_nat previous \<and> truthy_nat current \<and> startTime < of_int now
      then map_option (\<lambda>estimation. let fetched = of_nat (the current); remaining = of_nat estimation - fetched
        in \<lfloor>remaining / fetched * (of_int now - startTime) / 1000\<rfloor>) (Option.bind stats ls_estimation)
      else seconds))"

definition set_progress_time :: "int \<Rightarrow> DashboardLedger \<Rightarrow> DashboardLedger" where
  "set_progress_time now v = (let staking = sl_fetchHashesStart (es_snarked (ld_stakingEpoch (dl_ledgers v)));
       staged = ld_rootStaged (dl_ledgers v) in
     if \<not> truthy_int staking then v
     else if rs_state staged = SUCCESS
       then v\<lparr>dl_progress := Some (ago_text now ''finished'' (case st_reconstructEnd (rs_staged staged) of None \<Rightarrow> 0 | Some t \<Rightarrow> of_int t))\<rparr>
     else v\<lparr>dl_progress := Some (ago_text now ''started'' (of_int (the staking)))\<rparr>)"

definition ledger_config :: "NodesOverviewLedgerStepState \<Rightarrow> SecDurationConfig" where
  "ledger_config state = (if state = LOADING then undefinedConfig else emptyConfig)"

definition ledger_downloads :: "int \<Rightarrow> DashboardRpcStats \<Rightarrow> DashboardLedger \<Rightarrow> DashboardLedger" where
  "ledger_downloads now stats v = (let l = dl_ledgers v in
     v\<lparr>dl_staking := download_step now (sl_fetchHashesStart (es_snarked (ld_stakingEpoch l))) (drs_stakingLedger stats) (dl_staking v),
       dl_next := download_step now (sl_fetchHashesStart (es_snarked (ld_nextEpoch l))) (drs_nextLedger stats) (dl_next v),
       dl_rootSnarked := download_step now (sl_fetchHashesStart (es_snarked (ld_rootSnarked l))) (drs_snarkedRootLedger stats) (dl_rootSnarked v),
       dl_rootStaged := (if dl_isWebNode v
         then download_step now (st_fetchPartsStart (rs_staged (ld_rootStaged l))) (drs_stagedRootLedger stats) (dl_rootStaged v)
         else dl_rootStaged v)\<rparr>)"

text \<open>The staged ledger is half done with its parts and done with its reconstruction.\<close>

definition staged_halves :: "NodesOverviewStagedLedgerStep \<Rightarrow> rat" where
  "staged_halves s = (if truthy_int (st_fetchPartsEnd s) then 50 else 0) + (if truthy_int (st_reconstructEnd s) then 50 else 0)"

definition ledger_timer :: "DashboardLedger \<Rightarrow> DashboardLedger" where
  "ledger_timer v = (let s = rs_staged (ld_rootStaged (dl_ledgers v)) in
     if staged_halves s < 100 \<and> dl_isWebNode v \<and> truthy_int (st_fetchPartsEnd s) \<and> \<not> dl_reconstructTimer v
     then v\<lparr>dl_reconstructTimer := True, dl_ticking := True\<rparr>
     else if staged_halves s = 100 then v\<lparr>dl_ticking := False\<rparr> else v)"

definition done_or :: "NodesOverviewLedgerStepState \<Rightarrow> ratio \<Rightarrow> ratio" where
  "done_or state r = (if state = SUCCESS then Ratio 100 else r)"

definition ledger_progress :: "DashboardRpcStats \<Rightarrow> DashboardLedger \<Rightarrow> DashboardLedger" where
  "ledger_progress stats v = (let l = dl_ledgers v;
       staking = done_or (es_state (ld_stakingEpoch l)) (ledger_percent (drs_stakingLedger stats));
       next_epoch = done_or (es_state (ld_nextEpoch l)) (ledger_percent (drs_nextLedger stats));
       snarked = done_or (es_state (ld_rootSnarked l)) (ledger_percent (drs_snarkedRootLedger stats));
       staged = done_or (rs_state (ld_rootStaged l)) (Ratio (staged_halves (rs_staged (ld_rootStaged l)))) in
     v\<lparr>dl_stakingProgress := staking, dl_nextProgress := next_epoch, dl_rootSnarkedProgress := snarked, dl_rootStagedProgress := staged,
       dl_totalProgress := Some (ratio_mean [staking, next_epoch, snarked, staged])\<rparr>)"

definition ledger_parts :: "DashboardRpcStats \<Rightarrow> DashboardLedger \<Rightarrow> DashboardLedger" where
  "ledger_parts stats v = (let estimation = Option.bind (drs_stagedRootLedger stats) ls_estimation in
     if truthy_nat estimation then v\<lparr>dl_fetchedParts := (Option.bind (drs_stagedRootLedger stats) ls_fetched, the estimation)\<rparr> else v)"

text \<open>
  The events: the active node, an update of the slice, a tick of the countdown with a random number
  of \<open>[0, 1)\<close>.
\<close>

datatype ledger_event = LeNode bool | LeUpdate int "NodesOverviewNode list" DashboardRpcStats | LeTick rat

definition ledger_reset :: "DashboardLedger \<Rightarrow> DashboardLedger" where
  "ledger_reset v = v\<lparr>dl_ledgers := initial_ledgers, dl_configMap := (emptyConfig, emptyConfig, emptyConfig, emptyConfig),
     dl_progress := None, dl_stakingProgress := Ratio 0, dl_nextProgress := Ratio 0, dl_rootSnarkedProgress := Ratio 0,
     dl_rootStagedProgress := Ratio 0, dl_totalProgress := Some (Ratio 0), dl_fetchedParts := (Some 0, 0)\<rparr>"

definition ledger_update :: "int \<Rightarrow> NodesOverviewLedger \<Rightarrow> DashboardRpcStats \<Rightarrow> DashboardLedger \<Rightarrow> DashboardLedger" where
  "ledger_update now ledgers stats v =
    (let v1 = set_progress_time now (v\<lparr>dl_ledgers := ledgers, dl_configMap := (ledger_config (es_state (ld_stakingEpoch ledgers)),
           ledger_config (es_state (ld_nextEpoch ledgers)), ledger_config (es_state (ld_rootSnarked ledgers)),
           ledger_config (rs_state (ld_rootStaged ledgers)))\<rparr>)
     in ledger_progress stats (ledger_timer (ledger_parts stats (ledger_downloads now stats v1))))"

fun dashboard_ledger_step :: "DashboardLedger \<Rightarrow> ledger_event \<Rightarrow> DashboardLedger result" where
  "dashboard_ledger_step v (LeNode isWebNode) = Inr (v\<lparr>dl_isWebNode := isWebNode\<rparr>)"
| "dashboard_ledger_step v (LeUpdate now [] stats) = Inr (ledger_reset v)"
| "dashboard_ledger_step v (LeUpdate now (n # _) stats) = (case no_ledgers n of
      None \<Rightarrow> Inl (TypeError ''stakingEpoch'') | Some ledgers \<Rightarrow> Inr (ledger_update now ledgers stats v))"
| "dashboard_ledger_step v (LeTick random) = Inr (if \<not> dl_ticking v then v
     else (let left = dl_remainingReconstruct v - 1 in
       v\<lparr>dl_remainingReconstruct := left, dl_ticking := (left \<noteq> \<lfloor>random * 2\<rfloor> + 2)\<rparr>))"

section \<open>The blocks\<close>

record BlocksSync =
  bs_fetched :: "nat option"
  bs_fetchedPercentage :: string
  bs_applied :: "nat option"
  bs_appliedPercentage :: "int option"
  bs_root :: "int option"
  bs_rootText :: string
  bs_bestTipBlock :: "int option"
  bs_bestTipBlockSyncedText :: string
  bs_targetBlock :: "int option"
  bs_syncProgress :: "string option"
  bs_remaining :: "int option"
  bs_lengthWithoutRoot :: "nat option"

definition initial_blocks_sync :: BlocksSync where
  "initial_blocks_sync = \<lparr>bs_fetched = None, bs_fetchedPercentage = ''-'', bs_applied = None, bs_appliedPercentage = None,
     bs_root = None, bs_rootText = ''Pending'', bs_bestTipBlock = None, bs_bestTipBlockSyncedText = ''Pending'',
     bs_targetBlock = None, bs_syncProgress = None, bs_remaining = None, bs_lengthWithoutRoot = None\<rparr>"

text \<open>\<open>calculateProgressTime\<close> of the blocks; a time that is missing or 0 is pending.\<close>

definition synced_text :: "int \<Rightarrow> rat option \<Rightarrow> string" where
  "synced_text now timestamp = (case timestamp of None \<Rightarrow> ''Pending''
     | Some t \<Rightarrow> if t = 0 then ''Pending'' else ago_text now ''Synced'' t)"

definition fetched_block :: "NodesOverviewBlock \<Rightarrow> bool" where
  "fetched_block b \<longleftrightarrow> nb_status b \<notin> {MISSING, FETCHING}"

definition applied_block :: "NodesOverviewBlock \<Rightarrow> bool" where
  "applied_block b \<longleftrightarrow> nb_status b = APPLIED"

text \<open>
  The seconds that remain, from the speed so far; an applied block weighs as much as five fetched ones.
  Without a start the least of no numbers is \<open>Infinity\<close> and the speed is not positive; a speed of
  \<open>Infinity\<close> leaves no time. The result \<open>None\<close> stands for a speed that is not positive.
\<close>

definition blocks_remaining :: "int \<Rightarrow> NodesOverviewBlock list \<Rightarrow> int option" where
  "blocks_remaining now blocks =
    (let starts = map (the \<circ> nb_fetchStart) (filter (truthy_int \<circ> nb_fetchStart) blocks);
         done_weight = of_nat (length (filter (truthy_int \<circ> nb_fetchEnd) blocks) + 5 * length (filter (truthy_int \<circ> nb_applyEnd) blocks)) :: rat
     in if starts = [] \<or> done_weight = 0 then None
        else (let secondsPassed = (of_int now - of_int (fold min (tl starts) (hd starts)) / of_int ONE_MILLION) / 1000 in
          if secondsPassed < 0 then None else Some \<lceil>(1746 - done_weight) / done_weight * secondsPassed\<rceil>))"

definition extractNodesData :: "int \<Rightarrow> NodesOverviewNode \<Rightarrow> BlocksSync \<Rightarrow> BlocksSync" where
  "extractNodesData now node v =
    (let blocks = no_blocks node;
         received = map_option (\<lambda>t. t * of_int ONE_MILLION) (no_bestTipReceivedTimestamp node);
         v1 = (case blocks of [] \<Rightarrow> v
           | tip # _ \<Rightarrow> (let synced = ''Fetched '' @ drop 7 (synced_text now received) in
               v\<lparr>bs_bestTipBlock := nb_height tip, bs_bestTipBlockSyncedText := synced,
                 bs_syncProgress := Some (if applied_block (last blocks) then drop 8 synced else ''Pending'')\<rparr>));
         v2 = (if length blocks = 291
           then v1\<lparr>bs_root := nb_height (last blocks), bs_rootText := synced_text now (map_option of_int (nb_applyEnd (last blocks))),
             bs_bestTipBlockSyncedText := (if applied_block (hd blocks) then ''Synced '' @ drop 7 (bs_bestTipBlockSyncedText v1)
               else bs_bestTipBlockSyncedText v1)\<rparr>
           else v1\<lparr>bs_root := None, bs_rootText := ''Pending''\<rparr>);
         rest = tl blocks; len = (if rest = [] then 100 else length rest);
         fetched = length (filter fetched_block rest); applied = length (filter applied_block rest)
     in v2\<lparr>bs_lengthWithoutRoot := Some (length rest), bs_fetched := Some fetched, bs_applied := Some applied,
          bs_fetchedPercentage := int_to_string (int (fetched * 100 div len)) @ ''%'',
          bs_appliedPercentage := Some (int (applied * 100 div len))\<rparr>)"

definition highest_peer :: "DashboardPeer list \<Rightarrow> int" where
  "highest_peer peers = foldl (\<lambda>acc peer. case dp_height peer of None \<Rightarrow> acc | Some h \<Rightarrow> if h > acc then h else acc) 0 peers"

text \<open>An update of the slice; the second result says whether the details of the node are asked for.\<close>

fun blocks_sync_step :: "int \<Rightarrow> BlocksSync \<Rightarrow> NodesOverviewNode list \<times> DashboardPeer list \<Rightarrow> BlocksSync \<times> bool" where
  "blocks_sync_step now v ([], peers) = (v\<lparr>bs_fetched := None, bs_fetchedPercentage := ''-'', bs_applied := None,
     bs_appliedPercentage := None, bs_root := None, bs_rootText := ''Pending'', bs_bestTipBlock := None,
     bs_bestTipBlockSyncedText := ''Pending'', bs_targetBlock := None, bs_syncProgress := None\<rparr>, False)"
| "blocks_sync_step now v (node # _, peers) =
    (let v1 = (if length (filter (truthy_int \<circ> nb_applyEnd) (no_blocks node)) < 291
           then (case blocks_remaining now (no_blocks node) of None \<Rightarrow> v | Some s \<Rightarrow> v\<lparr>bs_remaining := Some s\<rparr>)
           else v\<lparr>bs_remaining := None\<rparr>);
         v2 = (extractNodesData now node v1)\<lparr>bs_targetBlock := Some (highest_peer peers)\<rparr>
     in (v2, bs_appliedPercentage v2 = Some 100))"

section \<open>The page\<close>

record DashboardView =
  dv_updateAction :: string
  dv_connectedProgress :: rat
  dv_ledgerProgress :: ratio
  dv_blockSyncProgress :: rat
  dv_connected :: bool
  dv_lastStatus :: "AppNodeStatus option"
  dv_interval :: nat

definition timer_interval :: "AppNodeStatus option \<Rightarrow> nat" where
  "timer_interval status = (if status = Some SYNCED \<or> status = Some OFFLINE then 5000 else 1000)"

definition initial_dashboard_view :: DashboardView where
  "initial_dashboard_view = \<lparr>dv_updateAction = ''Connecting to peers'', dv_connectedProgress = 0, dv_ledgerProgress = Ratio 0,
     dv_blockSyncProgress = 0, dv_connected = False, dv_lastStatus = None, dv_interval = timer_interval None\<rparr>"

definition on_details :: "AppNodeStatus \<Rightarrow> DashboardView \<Rightarrow> DashboardView" where
  "on_details status v = (if dv_lastStatus v = Some status then v
     else v\<lparr>dv_lastStatus := Some status, dv_interval := timer_interval (Some status)\<rparr>)"

definition on_peers :: "DashboardPeersStats \<Rightarrow> DashboardView \<Rightarrow> DashboardView" where
  "on_peers stats v =
    (let v1 = (if dv_connected v \<and> dps_connected stats = 0 \<or> \<not> dv_connected v then
        (let v' = v\<lparr>dv_updateAction := (if dps_connected stats > 0 then ''Downloading Staking Epoch Ledger''
             else if dps_connecting stats > 0 then ''Connecting to '' @ nat_to_string (dps_connecting stats) @ '' peer''
               @ (if dps_connecting stats \<noteq> 1 then ''s'' else [])
             else ''Looking for peers'')\<rparr>
         in if dps_connected stats \<noteq> 0 then v'\<lparr>dv_connectedProgress := 33\<rparr>
            else v'\<lparr>dv_connectedProgress := 0, dv_ledgerProgress := Ratio 0, dv_blockSyncProgress := 0\<rparr>)
        else v)
     in v1\<lparr>dv_connected := dps_connected stats > 0\<rparr>)"

text \<open>\<open>Math.round(n * 100 / 291)\<close>.\<close>

definition of_291 :: "nat \<Rightarrow> int" where
  "of_291 n = \<lfloor>of_nat (n * 100) / 291 + 1 / 2 :: rat\<rfloor>"

text \<open>The text is that of the last ledger that is done, in the order of the page.\<close>

definition ledger_action :: "NodesOverviewLedger \<Rightarrow> string \<Rightarrow> string" where
  "ledger_action l action = (if rs_state (ld_rootStaged l) = SUCCESS then ''Fetching Blocks''
     else if es_state (ld_rootSnarked l) = SUCCESS then ''Downloading Root Staged Ledger''
     else if es_state (ld_nextEpoch l) = SUCCESS then ''Downloading Root Snarked Ledger''
     else if es_state (ld_stakingEpoch l) = SUCCESS then ''Downloading Next Epoch Ledger'' else action)"

definition ledgers_mean :: "NodesOverviewLedger \<Rightarrow> DashboardRpcStats \<Rightarrow> ratio" where
  "ledgers_mean l stats = ratio_mean [done_or (es_state (ld_stakingEpoch l)) (ledger_percent (drs_stakingLedger stats)),
     done_or (es_state (ld_nextEpoch l)) (ledger_percent (drs_nextLedger stats)),
     done_or (es_state (ld_rootSnarked l)) (ledger_percent (drs_snarkedRootLedger stats)),
     done_or (rs_state (ld_rootStaged l)) (ledger_percent (drs_stagedRootLedger stats))]"

definition on_nodes :: "NodesOverviewNode list \<Rightarrow> DashboardRpcStats \<Rightarrow> DashboardView \<Rightarrow> DashboardView result" where
  "on_nodes nodes stats v = (case nodes of [] \<Rightarrow> Inr (v\<lparr>dv_ledgerProgress := Ratio 0, dv_blockSyncProgress := 0\<rparr>)
     | node # _ \<Rightarrow> (case no_ledgers node of None \<Rightarrow> Inl (TypeError ''stakingEpoch'')
       | Some l \<Rightarrow> (let mean = ledgers_mean l stats;
             v1 = v\<lparr>dv_updateAction := ledger_action l (dv_updateAction v), dv_ledgerProgress := ratio_scale (33 / 100) mean\<rparr> in
           Inr (if mean \<noteq> Ratio 100 then v1\<lparr>dv_blockSyncProgress := 0\<rparr>
             else (let blocks = tl (no_blocks node); fetchedPercentage = of_291 (length (filter fetched_block blocks));
                 appliedPercentage = of_291 (length (filter applied_block blocks)) in
               v1\<lparr>dv_blockSyncProgress := of_int appliedPercentage * (34 / 100),
                 dv_updateAction := (if fetchedPercentage < 100 then ''Fetching Blocks ('' @ int_to_string fetchedPercentage @ ''%)''
                   else if appliedPercentage < 100 then ''Applying Blocks ('' @ int_to_string appliedPercentage @ ''%)'' else [])\<rparr>)))))"

datatype dashboard_view_event = DvDetails AppNodeStatus | DvPeers DashboardPeersStats | DvNodes "NodesOverviewNode list" DashboardRpcStats

fun dashboard_view_step :: "DashboardView \<Rightarrow> dashboard_view_event \<Rightarrow> DashboardView result" where
  "dashboard_view_step v (DvDetails status) = Inr (on_details status v)"
| "dashboard_view_step v (DvPeers stats) = Inr (on_peers stats v)"
| "dashboard_view_step v (DvNodes nodes stats) = on_nodes nodes stats v"

section \<open>The percentages stay between 0 and 100\<close>

fun percent_ok :: "ratio \<Rightarrow> bool" where
  "percent_ok (Ratio x) \<longleftrightarrow> 0 \<le> x \<and> x \<le> 100"
| "percent_ok Infinity \<longleftrightarrow> False"

text \<open>What the node promises of its progress: it has not fetched more than it estimates.\<close>

definition sane_step :: "DashboardLedgerStepStats option \<Rightarrow> bool" where
  "sane_step stats \<longleftrightarrow> (case (Option.bind stats ls_fetched, Option.bind stats ls_estimation) of
      (Some fetched, Some estimation) \<Rightarrow> fetched \<le> estimation | _ \<Rightarrow> True)"

definition sane_stats :: "DashboardRpcStats \<Rightarrow> bool" where
  "sane_stats stats \<longleftrightarrow> sane_step (drs_stakingLedger stats) \<and> sane_step (drs_nextLedger stats)
     \<and> sane_step (drs_snarkedRootLedger stats) \<and> sane_step (drs_stagedRootLedger stats)"

lemma ledger_percent_ok: "sane_step stats \<Longrightarrow> percent_ok (ledger_percent stats)"
  by (auto simp: sane_step_def ledger_percent_def field_simps split: option.splits)

lemma done_or_ok: "percent_ok r \<Longrightarrow> percent_ok (done_or state r)"
  by (simp add: done_or_def)

lemma ratio_mean_ok:
  assumes "percent_ok a" "percent_ok b" "percent_ok c" "percent_ok d"
  shows "percent_ok (ratio_mean [a, b, c, d])"
  using assms by (cases a; cases b; cases c; cases d) (simp_all add: ratio_mean_def)

lemma staged_halves_ok: "percent_ok (Ratio (staged_halves s))"
  by (simp add: staged_halves_def)

definition ledger_view_inv :: "DashboardLedger \<Rightarrow> bool" where
  "ledger_view_inv v \<longleftrightarrow> percent_ok (dl_stakingProgress v) \<and> percent_ok (dl_nextProgress v)
     \<and> percent_ok (dl_rootSnarkedProgress v) \<and> percent_ok (dl_rootStagedProgress v)
     \<and> (dl_totalProgress v = None \<or> dl_totalProgress v = Some (ratio_mean
         [dl_stakingProgress v, dl_nextProgress v, dl_rootSnarkedProgress v, dl_rootStagedProgress v]))"

fun served_update :: "ledger_event \<Rightarrow> bool" where
  "served_update (LeUpdate now nodes stats) \<longleftrightarrow> sane_stats stats \<and> (\<forall>n \<in> set nodes. no_ledgers n \<noteq> None)"
| "served_update _ \<longleftrightarrow> True"

lemma kept_ledgers [simp]:
  "dl_ledgers (set_progress_time now v) = dl_ledgers v" "dl_ledgers (ledger_downloads now stats v) = dl_ledgers v"
  "dl_ledgers (ledger_parts stats v) = dl_ledgers v" "dl_ledgers (ledger_timer v) = dl_ledgers v"
  by (simp_all add: set_progress_time_def ledger_downloads_def ledger_parts_def ledger_timer_def Let_def)

lemma ledger_update_inv: "sane_stats stats \<Longrightarrow> ledger_view_inv (ledger_update now ledgers stats v)"
  unfolding ledger_update_def ledger_progress_def ledger_view_inv_def Let_def
  by (simp add: done_or_ok ledger_percent_ok staged_halves_ok sane_stats_def del: percent_ok.simps)

interpretation ledger_view: safe_slice initial_ledger_view dashboard_ledger_step ledger_view_inv served_update
proof
  show "ledger_view_inv initial_ledger_view" by (simp add: ledger_view_inv_def initial_ledger_view_def)
next
  fix v e v'
  assume v: "ledger_view_inv v" and e: "served_update e" and step: "dashboard_ledger_step v e = Inr v'"
  show "ledger_view_inv v'"
  proof (cases e)
    case (LeNode x)
    then show ?thesis using v step by (auto simp: ledger_view_inv_def)
  next
    case (LeUpdate now nodes stats)
    then show ?thesis using e step ledger_update_inv [of stats]
      by (cases nodes) (auto simp: ledger_reset_def ledger_view_inv_def ratio_mean_def split: option.splits)
  next
    case (LeTick x)
    then show ?thesis using v step by (cases "dl_ticking v") (auto simp: ledger_view_inv_def Let_def)
  qed
next
  fix v e assume "served_update e"
  then show "\<exists>v'. dashboard_ledger_step v e = Inr v'"
  proof (cases e)
    case (LeUpdate now nodes stats)
    then show ?thesis using \<open>served_update e\<close> by (cases nodes) auto
  qed simp_all
qed

text \<open>
  As long as the node does not report more fetched than estimated, the four bars of the ledgers and
  their mean are percentages, after any sequence of updates, changes of the node and ticks of the
  countdown, and no update makes the component throw.
\<close>

theorem ledger_view_bounds:
  assumes "list_all served_update es"
  shows "\<exists>v. run_reducer dashboard_ledger_step initial_ledger_view es = Inr v
    \<and> percent_ok (dl_stakingProgress v) \<and> percent_ok (dl_nextProgress v) \<and> percent_ok (dl_rootSnarkedProgress v)
    \<and> percent_ok (dl_rootStagedProgress v) \<and> (\<forall>r. dl_totalProgress v = Some r \<longrightarrow> percent_ok r)"
proof -
  obtain v where "run_reducer dashboard_ledger_step initial_ledger_view es = Inr v" "ledger_view_inv v"
    using ledger_view.run_safe [OF assms] by blast
  then show ?thesis using ratio_mean_ok by (auto simp: ledger_view_inv_def)
qed

definition sample_progress :: DashboardRpcStats where
  "sample_progress = mapMessageProgressResponse \<lparr>mpr_messages_stats = [], mpr_staking_ledger_sync = Some (1, 2),
     mpr_next_epoch_ledger_sync = None, mpr_root_ledger_sync = None\<rparr>"

theorem ledger_view_bounds_witness:
  "\<exists>v. run_reducer dashboard_ledger_step initial_ledger_view [LeUpdate 5 (getTips (\<lambda>_. []) 5 ''a'' None) sample_progress] = Inr v
     \<and> percent_ok (dl_stakingProgress v)"
proof -
  have "list_all served_update [LeUpdate 5 (getTips (\<lambda>_. []) 5 ''a'' None) sample_progress]"
    by (simp add: sample_progress_def mapMessageProgressResponse_def step_stats_def sane_stats_def sane_step_def
        getTips_def getNodeTips_def mapNodeTipsErrorResponse_def)
  from ledger_view_bounds [OF this] show ?thesis by blast
qed

text \<open>When the staged ledger is done, so are all four, and the total is 100.\<close>

lemma ledgers_done_total:
  assumes "ledgers = getLedgers now0 raw" "rs_state (ld_rootStaged ledgers) = SUCCESS"
    and "\<And>snarked staged. rl_root raw = Some (snarked, staged) \<Longrightarrow> truthy_int (rt_reconstruct_end staged) \<Longrightarrow>
      truthy_int (rt_reconstruct_start staged)"
  shows "dl_totalProgress (ledger_update now ledgers stats v) = Some (Ratio 100)"
proof -
  obtain sn st where roots: "root_steps now0 (rl_root raw) = (sn, st)" by force
  have "rs_state st = SUCCESS" using assms(1,2) roots by (simp add: getLedgers_def)
  then have "es_state sn = SUCCESS" using roots assms(3)
    by (auto simp: root_steps_def getRootStaged_def no_staged_def split: option.splits if_splits)
  then have "es_state (ld_stakingEpoch ledgers) = SUCCESS" "es_state (ld_nextEpoch ledgers) = SUCCESS" "es_state (ld_rootSnarked ledgers) = SUCCESS"
    using assms(1) roots by (simp_all add: getLedgers_def)
  then show ?thesis using assms(2) by (simp add: ledger_progress_def ledger_update_def done_or_def ratio_mean_def Let_def)
qed

section \<open>The countdown of the reconstruction\<close>

definition random_number :: "rat \<Rightarrow> bool" where
  "random_number r \<longleftrightarrow> 0 \<le> r \<and> r < 1"

lemma draw_two_or_three: "random_number r \<Longrightarrow> \<lfloor>r * 2\<rfloor> = 0 \<or> \<lfloor>r * 2\<rfloor> = 1"
  unfolding random_number_def by linarith

text \<open>A countdown that a tick stops shows 2 or 3 seconds.\<close>

lemma countdown_stops_at:
  assumes "random_number r" "dl_ticking v" "dashboard_ledger_step v (LeTick r) = Inr v'" "\<not> dl_ticking v'"
  shows "dl_remainingReconstruct v' = 2 \<or> dl_remainingReconstruct v' = 3"
  using assms draw_two_or_three [OF assms(1)] by auto

lemma countdown_tick:
  assumes "dl_ticking v"
  obtains r v' where "random_number r" "dashboard_ledger_step v (LeTick r) = Inr v'" "dl_ticking v'"
    "dl_remainingReconstruct v' = dl_remainingReconstruct v - 1"
proof (cases "dl_remainingReconstruct v - 1 = 2")
  case True
  then show ?thesis using assms that [of "1 / 2"] by (simp add: random_number_def)
next
  case False
  then show ?thesis using assms that [of 0] by (simp add: random_number_def)
qed

text \<open>
  The countdown stops when it reaches a number that is drawn anew at each tick, 2 or 3; if the two
  draws miss, it passes them and goes on below zero: for every number of ticks there are draws with which
  a running countdown is still running and has lost that many seconds.
\<close>

theorem countdown_passes_zero:
  assumes "dl_ticking v"
  shows "\<exists>draws v'. length draws = n \<and> list_all random_number draws
    \<and> run_reducer dashboard_ledger_step v (map LeTick draws) = Inr v'
    \<and> dl_ticking v' \<and> dl_remainingReconstruct v' = dl_remainingReconstruct v - int n"
  using assms
proof (induction n arbitrary: v)
  case (Suc n)
  obtain r v1 where r: "random_number r" "dashboard_ledger_step v (LeTick r) = Inr v1" "dl_ticking v1"
    "dl_remainingReconstruct v1 = dl_remainingReconstruct v - 1" using countdown_tick [OF Suc.prems] .
  obtain draws v' where "length draws = n" "list_all random_number draws" "run_reducer dashboard_ledger_step v1 (map LeTick draws) = Inr v'"
    "dl_ticking v'" "dl_remainingReconstruct v' = dl_remainingReconstruct v1 - int n" using Suc.IH [OF r(3)] by blast
  then show ?case using r by (intro exI [of _ "r # draws"] exI [of _ v']) simp
qed simp

lemma countdown_kept:
  "dl_reconstructTimer (ledger_downloads now stats v) = dl_reconstructTimer v" "dl_ticking (ledger_downloads now stats v) = dl_ticking v"
  "dl_remainingReconstruct (ledger_downloads now stats v) = dl_remainingReconstruct v"
  "dl_reconstructTimer (ledger_parts stats v) = dl_reconstructTimer v" "dl_ticking (ledger_parts stats v) = dl_ticking v"
  "dl_remainingReconstruct (ledger_parts stats v) = dl_remainingReconstruct v"
  "dl_reconstructTimer (set_progress_time now v) = dl_reconstructTimer v" "dl_ticking (set_progress_time now v) = dl_ticking v"
  "dl_remainingReconstruct (set_progress_time now v) = dl_remainingReconstruct v"
  "dl_reconstructTimer (ledger_progress stats v) = dl_reconstructTimer v" "dl_ticking (ledger_progress stats v) = dl_ticking v"
  "dl_remainingReconstruct (ledger_progress stats v) = dl_remainingReconstruct v"
  "dl_isWebNode (ledger_downloads now stats v) = dl_isWebNode v" "dl_isWebNode (ledger_parts stats v) = dl_isWebNode v"
  "dl_isWebNode (set_progress_time now v) = dl_isWebNode v"
  by (simp_all add: ledger_downloads_def ledger_parts_def set_progress_time_def ledger_progress_def)

text \<open>The countdown of a web node starts when the parts are fetched.\<close>

lemma ledger_update_starts:
  assumes "dl_isWebNode v" "\<not> dl_reconstructTimer v" "truthy_int (st_fetchPartsEnd (rs_staged (ld_rootStaged l)))"
    and "\<not> truthy_int (st_reconstructEnd (rs_staged (ld_rootStaged l)))"
  shows "dl_ticking (ledger_update now l stats v) \<and> dl_remainingReconstruct (ledger_update now l stats v) = dl_remainingReconstruct v"
  using assms by (simp add: ledger_update_def countdown_kept ledger_timer_def staged_halves_def)

definition sample_web_view :: DashboardLedger where
  "sample_web_view = ledger_update 9 (getLedgers 9 \<lparr>rl_root = Some (
       \<lparr>rs_fetch_hashes_start = Some 1, rs_fetch_hashes_end = Some 2, rs_fetch_accounts_start = Some 2, rs_fetch_accounts_end = Some 3\<rparr>,
       \<lparr>rt_fetch_parts_start = Some 3, rt_fetch_parts_end = Some 4, rt_reconstruct_start = Some 4, rt_reconstruct_end = None\<rparr>),
     rl_next_epoch = None, rl_staking_epoch = None\<rparr>) sample_progress (initial_ledger_view\<lparr>dl_isWebNode := True\<rparr>)"

theorem countdown_passes_zero_witness:
  "\<exists>draws v'. length draws = 25 \<and> run_reducer dashboard_ledger_step sample_web_view (map LeTick draws) = Inr v'
     \<and> dl_remainingReconstruct v' = - 5"
proof -
  have "dl_ticking sample_web_view \<and> dl_remainingReconstruct sample_web_view = dl_remainingReconstruct (initial_ledger_view\<lparr>dl_isWebNode := True\<rparr>)"
    unfolding sample_web_view_def by (rule ledger_update_starts)
      (simp_all add: initial_ledger_view_def getLedgers_def root_steps_def getRootStaged_def)
  then have "dl_ticking sample_web_view" "dl_remainingReconstruct sample_web_view = 20" by (simp_all add: initial_ledger_view_def)
  with countdown_passes_zero [of sample_web_view 25] show ?thesis by auto
qed

text \<open>
  The handle of the timer is never cleared, and the countdown of one node is not reset for another:
  once it has stopped it never runs again.
\<close>

lemma stopped_timer:
  "dl_reconstructTimer v \<Longrightarrow> \<not> dl_ticking v \<Longrightarrow> dl_reconstructTimer (ledger_timer v) \<and> \<not> dl_ticking (ledger_timer v)
     \<and> dl_remainingReconstruct (ledger_timer v) = dl_remainingReconstruct v"
  by (simp add: ledger_timer_def)

lemma countdown_never_restarts:
  assumes "dl_reconstructTimer v" "\<not> dl_ticking v" "run_reducer dashboard_ledger_step v es = Inr v'"
  shows "dl_reconstructTimer v' \<and> \<not> dl_ticking v' \<and> dl_remainingReconstruct v' = dl_remainingReconstruct v"
  using assms
proof (induction es arbitrary: v)
  case (Cons e es)
  obtain v1 where step: "dashboard_ledger_step v e = Inr v1" "run_reducer dashboard_ledger_step v1 es = Inr v'"
    using Cons.prems(3) by (auto simp: js_bind_Inr_iff)
  have "dl_reconstructTimer v1 \<and> \<not> dl_ticking v1 \<and> dl_remainingReconstruct v1 = dl_remainingReconstruct v"
  proof (cases e)
    case (LeUpdate now nodes stats)
    then show ?thesis using Cons.prems(1,2) step(1) stopped_timer
      by (cases nodes) (auto simp: ledger_reset_def ledger_update_def countdown_kept split: option.splits)
  qed (use Cons.prems(1,2) step(1) in auto)
  then show ?case using Cons.IH [of v1] step(2) by auto
qed simp

section \<open>The bars of the page\<close>

lemma of_291_bounds: "n \<le> 291 \<Longrightarrow> 0 \<le> of_291 n \<and> of_291 n \<le> 100"
proof -
  assume "n \<le> 291"
  then have "(of_nat (n * 100) / 291 + 1 / 2 :: rat) < 101" by (simp add: field_simps)
  moreover have "(0 :: rat) \<le> of_nat (n * 100) / 291 + 1 / 2" by simp
  ultimately show ?thesis unfolding of_291_def by linarith
qed

text \<open>The part of the ledgers is full when the blocks count.\<close>

fun ledger_part :: "rat \<Rightarrow> ratio \<Rightarrow> bool" where
  "ledger_part blocks (Ratio x) \<longleftrightarrow> 0 \<le> x \<and> x \<le> 33 \<and> (blocks \<noteq> 0 \<longrightarrow> x = 33)"
| "ledger_part blocks Infinity \<longleftrightarrow> False"

definition view_inv :: "DashboardView \<Rightarrow> bool" where
  "view_inv v \<longleftrightarrow> (dv_connectedProgress v = 0 \<or> dv_connectedProgress v = 33)
     \<and> ledger_part (dv_blockSyncProgress v) (dv_ledgerProgress v)
     \<and> 0 \<le> dv_blockSyncProgress v \<and> dv_blockSyncProgress v \<le> 34"

text \<open>The answers the page gets: at most a tip and the 291 blocks below it.\<close>

fun served_view :: "dashboard_view_event \<Rightarrow> bool" where
  "served_view (DvNodes nodes stats) \<longleftrightarrow> sane_stats stats \<and> (\<forall>n \<in> set nodes. no_ledgers n \<noteq> None \<and> length (no_blocks n) \<le> 292)"
| "served_view _ \<longleftrightarrow> True"

lemma ledgers_mean_ok: "sane_stats stats \<Longrightarrow> percent_ok (ledgers_mean l stats)"
  unfolding ledgers_mean_def by (rule ratio_mean_ok) (auto intro!: done_or_ok ledger_percent_ok simp: sane_stats_def)

lemma on_nodes_inv:
  assumes "view_inv v" "served_view (DvNodes nodes stats)"
  shows "\<exists>v'. on_nodes nodes stats v = Inr v' \<and> view_inv v'"
proof (cases nodes)
  case Nil
  then show ?thesis using assms(1) by (simp add: on_nodes_def view_inv_def)
next
  case (Cons node ns)
  obtain l where l: "no_ledgers node = Some l" using assms(2) Cons by auto
  obtain x where x: "ledgers_mean l stats = Ratio x" "0 \<le> x" "x \<le> 100"
    using ledgers_mean_ok [of stats l] assms(2) by (cases "ledgers_mean l stats") auto
  let ?n = "length (filter applied_block (tl (no_blocks node)))"
  have "?n \<le> length (tl (no_blocks node))" by (rule length_filter_le)
  also have "\<dots> \<le> 291" using assms(2) Cons by auto
  finally have "0 \<le> of_291 ?n" "of_291 ?n \<le> 100" using of_291_bounds by auto
  then have n: "(0 :: rat) \<le> of_int (of_291 ?n) * (34 / 100)" "of_int (of_291 ?n) * (34 / 100) \<le> (34 :: rat)" by simp_all
  show ?thesis using assms(1) Cons l x n by (cases "x = 100") (auto simp: on_nodes_def view_inv_def)
qed

interpretation dashboard_view: safe_slice initial_dashboard_view dashboard_view_step view_inv served_view
proof
  show "view_inv initial_dashboard_view" by (simp add: view_inv_def initial_dashboard_view_def)
next
  fix v e v'
  assume v: "view_inv v" and e: "served_view e" and step: "dashboard_view_step v e = Inr v'"
  show "view_inv v'"
  proof (cases e)
    case (DvNodes nodes stats)
    then show ?thesis using on_nodes_inv [OF v, of nodes stats] e step by auto
  next
    case (DvDetails status)
    then show ?thesis using v step by (cases "dv_lastStatus v = Some status") (auto simp: view_inv_def on_details_def)
  next
    case (DvPeers stats)
    then have "v' = on_peers stats v" using step by simp
    then show ?thesis using v by (cases "dv_connected v"; cases "dps_connected stats = 0") (simp_all add: view_inv_def on_peers_def)
  qed
next
  fix v e assume "view_inv v" "served_view e"
  then show "\<exists>v'. dashboard_view_step v e = Inr v'" using on_nodes_inv [of v "case e of DvNodes nodes _ \<Rightarrow> nodes"] by (cases e) auto
qed

text \<open>
  C31: The three bars of the dashboard never exceed the whole: the parts of the connection, of the ledgers
  and of the blocks add up to a percentage, and the blocks count only once all four ledgers are done.
\<close>

theorem dashboard_bars_bounded:
  assumes "list_all served_view es"
  shows "\<exists>v x. run_reducer dashboard_view_step initial_dashboard_view es = Inr v \<and> dv_ledgerProgress v = Ratio x
    \<and> 0 \<le> dv_connectedProgress v + x + dv_blockSyncProgress v \<and> dv_connectedProgress v + x + dv_blockSyncProgress v \<le> 100
    \<and> (dv_blockSyncProgress v \<noteq> 0 \<longrightarrow> x = 33)"
proof -
  obtain v where "run_reducer dashboard_view_step initial_dashboard_view es = Inr v" "view_inv v"
    using dashboard_view.run_safe [OF assms] by blast
  then show ?thesis by (cases "dv_ledgerProgress v") (auto simp: view_inv_def)
qed

theorem dashboard_bars_bounded_witness:
  "\<exists>v x. run_reducer dashboard_view_step initial_dashboard_view [DvNodes (getTips (\<lambda>_. []) 5 ''a'' None) sample_progress] = Inr v
     \<and> dv_ledgerProgress v = Ratio x \<and> dv_connectedProgress v + x + dv_blockSyncProgress v \<le> 100"
proof -
  have "list_all served_view [DvNodes (getTips (\<lambda>_. []) 5 ''a'' None) sample_progress]"
    by (simp add: sample_progress_def mapMessageProgressResponse_def step_stats_def sane_stats_def sane_step_def
        getTips_def getNodeTips_def mapNodeTipsErrorResponse_def)
  from dashboard_bars_bounded [OF this] show ?thesis by blast
qed

section \<open>When the blocks are synchronized\<close>

lemma full_percentage:
  assumes "xs \<noteq> []"
  shows "length (filter P xs) * 100 div length xs = 100 \<longleftrightarrow> list_all P xs"
proof
  assume "length (filter P xs) * 100 div length xs = 100"
  then have "100 * length xs \<le> length (filter P xs) * 100" using div_times_less_eq_dividend [of "length (filter P xs) * 100" "length xs"] by simp
  then have "length (filter P xs) = length xs" using length_filter_le [of P xs] by simp
  then show "list_all P xs" by (metis length_filter_less less_irrefl list_all_iff)
next
  assume "list_all P xs"
  then have "filter P xs = xs" by (simp add: list_all_iff)
  then show "length (filter P xs) * 100 div length xs = 100" using assms by simp
qed

lemma applied_percentage:
  "bs_appliedPercentage (extractNodesData now node v) = (let rest = tl (no_blocks node) in
     Some (int (length (filter applied_block rest) * 100 div (if rest = [] then 100 else length rest))))"
  by (simp add: extractNodesData_def)

text \<open>
  The component takes a node for synchronized, and asks for its details, exactly when the blocks
  behind the first one are applied. The first block is the best tip, whose own status does not count,
  while the root, which is the last block and which the count means to leave out, does.
\<close>

theorem blocks_sync_complete_iff:
  "snd (blocks_sync_step now v (node # nodes, peers)) \<longleftrightarrow>
    tl (no_blocks node) \<noteq> [] \<and> list_all applied_block (tl (no_blocks node))"
proof (cases "tl (no_blocks node) = []")
  case True
  then show ?thesis by (simp add: applied_percentage)
next
  case False
  then show ?thesis using full_percentage [OF False, of applied_block] by (simp add: applied_percentage)
qed

end
