(* ===== verification/Fuzzing.thy ===== *)
theory Fuzzing
  imports AppShell
begin

text \<open>
  The reports of the fuzzer (\<open>features/fuzzing\<close>): the service that turns the counters of a source
  file into coloured lines, the slice with directories, files and the open file, its effects, and the
  coverage of the toolbar. Dates are read by the platform, a parameter.
\<close>

section \<open>The service\<close>

record FuzzingDirectory =
  fd_name :: string
  fd_date :: string
  fd_dateNumber :: "rat option"
  fd_fullName :: string

record FuzzingFile =
  ff_coverage :: rat
  ff_name :: string
  ff_path :: string

record FuzzingLineCounter =
  fc_colStart :: int
  fc_colEnd :: int
  fc_count :: int

text \<open>
  A line without counters gets itself, an object, for its colour (\<open>None\<close>); the type of the colour
  is a string.
\<close>

record FuzzingLine =
  fl_line :: string
  fl_counters :: "FuzzingLineCounter list"
  fl_lineColor :: "string option"
  fl_lineHits :: "int option"
  fl_html :: string

record FuzzingFileDetails =
  fx_filename :: string
  fx_lines :: "FuzzingLine list"
  fx_executedLines :: nat

text \<open>
  \<open>readDate\<close> is the formatting of the text before the first underscore followed by its parsing, with
  \<open>None\<close> when it throws; a date that is invalid has no number.
\<close>

definition newer_first :: "FuzzingDirectory \<Rightarrow> FuzzingDirectory \<Rightarrow> rat" where
  "newer_first a b = (case (fd_dateNumber a, fd_dateNumber b) of (Some x, Some y) \<Rightarrow> y - x | _ \<Rightarrow> 0)"

definition mapGetDirectoryNamesResponse :: "(string \<Rightarrow> (string \<times> rat option) option) \<Rightarrow> string list \<Rightarrow> FuzzingDirectory list" where
  "mapGetDirectoryNamesResponse readDate dirNames = js_sort newer_first (map (\<lambda>directory.
     let (date, dateNumber) = (case readDate (takeWhile (\<lambda>c. c \<noteq> CHR ''_'') directory) of
           Some d \<Rightarrow> d | None \<Rightarrow> (''-'', Some 0)) in
     \<lparr>fd_name = (if CHR ''_'' \<in> set directory then tl (dropWhile (\<lambda>c. c \<noteq> CHR ''_'') directory) else directory),
      fd_date = date, fd_dateNumber = dateNumber, fd_fullName = directory\<rparr>) dirNames)"

definition getFiles :: "(string \<times> rat \<times> string) list \<Rightarrow> FuzzingFile list" where
  "getFiles files = map (\<lambda>(name, coverage, path). \<lparr>ff_coverage = coverage, ff_name = name, ff_path = path\<rparr>) files"

text \<open>The loop over the counters, with the colour so far.\<close>

fun line_color_loop :: "string \<Rightarrow> int list \<Rightarrow> string" where
  "line_color_loop lineColor [] = lineColor"
| "line_color_loop lineColor (n # counts) =
    (if n > 0 then (if lineColor = ''warn'' then ''aware'' else line_color_loop ''success'' counts)
     else (if lineColor = ''success'' then ''aware'' else line_color_loop ''warn'' counts))"

definition getLineColor :: "int list \<Rightarrow> string option" where
  "getLineColor counts = (if counts = [] then None else Some (line_color_loop ''aware'' counts))"

text \<open>What the highlighter appends to its result: a tag of a counter, or the text of a character.\<close>

datatype piece = Open int | Shown char | Close

fun piece_html :: "piece \<Rightarrow> string" where
  "piece_html (Open n) = ''<span style=\"color:var(--base-primary);background:var(--''
     @ (if n = 0 then ''warn'' else ''success'') @ ''-secondary)\" h=\"'' @ int_to_string n @ ''\">''"
| "piece_html (Shown c) = (if c = CHR '' '' then ''&nbsp;'' else if c = CHR ''<'' then ''&lt;'' else if c = CHR ''>'' then ''&gt;'' else [c])"
| "piece_html Close = ''</span>''"

definition covering :: "FuzzingLineCounter list \<Rightarrow> int \<Rightarrow> FuzzingLineCounter option" where
  "covering counters column = find (\<lambda>counter. fc_colStart counter \<le> column \<and> fc_colEnd counter \<ge> column) counters"

definition column_pieces :: "FuzzingLineCounter list \<Rightarrow> int \<Rightarrow> char \<Rightarrow> piece list" where
  "column_pieces counters column c = (case covering counters column of
      None \<Rightarrow> [Shown c]
    | Some counter \<Rightarrow> (if column = fc_colStart counter then [Open (fc_count counter)] else []) @ [Shown c]
        @ (if column = fc_colEnd counter then [Close] else []))"

fun line_pieces :: "FuzzingLineCounter list \<Rightarrow> int \<Rightarrow> string \<Rightarrow> piece list" where
  "line_pieces counters i [] = []"
| "line_pieces counters i (c # line) = column_pieces counters i c @ line_pieces counters (i + 1) line"

definition colorLineCounters :: "string \<Rightarrow> FuzzingLineCounter list \<Rightarrow> string" where
  "colorLineCounters line counters =
    (if counters = [] then concat (map (\<lambda>c. if c = CHR ''<'' then ''&lt;'' else if c = CHR ''>'' then ''&gt;'' else [c]) line)
     else concat (map piece_html (line_pieces counters 0 line)))"

text \<open>A line of a report: its text and its counters as columns and count.\<close>

definition fuzzing_line :: "string \<times> (int \<times> int \<times> int) list \<Rightarrow> FuzzingLine" where
  "fuzzing_line raw = (case raw of (line, raw_counters) \<Rightarrow>
     let counters = map (\<lambda>(start, end, n). \<lparr>fc_colStart = start, fc_colEnd = end, fc_count = \<bar>n\<bar>\<rparr>) raw_counters in
     \<lparr>fl_line = line, fl_counters = counters, fl_lineColor = getLineColor (map (\<lambda>(_, _, n). n) raw_counters),
      fl_lineHits = (if counters = [] then None else Some (Max (set (map fc_count counters)))),
      fl_html = colorLineCounters line counters\<rparr>)"

definition getFileDetails :: "string \<Rightarrow> (string \<times> (int \<times> int \<times> int) list) list \<Rightarrow> FuzzingFileDetails" where
  "getFileDetails filename lines = \<lparr>fx_filename = filename, fx_lines = map fuzzing_line lines,
     fx_executedLines = length (filter (\<lambda>line. snd line \<noteq> []) lines)\<rparr>"

section \<open>The slice\<close>

datatype fuzzing_col = FfCoverage | FfName | FfPath

fun get_fuzzing_file :: "fuzzing_col \<Rightarrow> FuzzingFile \<Rightarrow> jsval" where
  "get_fuzzing_file FfCoverage f = JNum (ff_coverage f)"
| "get_fuzzing_file FfName f = JStr (ff_name f)"
| "get_fuzzing_file FfPath f = JStr (ff_path f)"

text \<open>The active file: none, a file, or the empty object that spreading none gives.\<close>

datatype active_file = NoFile | File FuzzingFile | EmptyFile

record FuzzingState =
  fz_directories :: "FuzzingDirectory list"
  fz_activeDirectory :: "FuzzingDirectory option"
  fz_files :: "FuzzingFile list"
  fz_filteredFiles :: "FuzzingFile list"
  fz_activeFile :: active_file
  fz_activeFileDetails :: "FuzzingFileDetails option"
  fz_sort :: "fuzzing_col TableSort"
  fz_filterText :: "string option"

datatype FuzzingActions =
    FUZZING_INIT
  | FUZZING_CLOSE
  | FUZZING_GET_DIRECTORIES
  | FUZZING_GET_DIRECTORIES_SUCCESS "FuzzingDirectory list"
  | FUZZING_SET_ACTIVE_DIRECTORY FuzzingDirectory
  | FUZZING_GET_FILES
  | FUZZING_GET_FILES_SUCCESS "FuzzingFile list"
  | FUZZING_GET_FILE_DETAILS active_file
  | FUZZING_GET_FILE_DETAILS_SUCCESS FuzzingFileDetails
  | FUZZING_SORT "fuzzing_col TableSort"
  | FUZZING_FILTER string

definition initial_fuzzing :: FuzzingState where
  "initial_fuzzing = \<lparr>fz_directories = [], fz_activeDirectory = None, fz_files = [], fz_filteredFiles = [], fz_activeFile = NoFile,
     fz_activeFileDetails = None, fz_sort = \<lparr>sortBy = FfPath, sortDirection = ASC\<rparr>, fz_filterText = None\<rparr>"

definition file_shown :: "string option \<Rightarrow> FuzzingFile \<Rightarrow> bool" where
  "file_shown filterText file \<longleftrightarrow> (case filterText of None \<Rightarrow> True | Some t \<Rightarrow> t = [] \<or> js_includes (js_toLowerCase (ff_path file)) t)"

definition filterFiles :: "FuzzingFile list \<Rightarrow> string option \<Rightarrow> FuzzingFile list" where
  "filterFiles files filterText = filter (file_shown filterText) files"

definition sortFiles :: "(string \<Rightarrow> string \<Rightarrow> rat) \<Rightarrow> FuzzingFile list \<Rightarrow> fuzzing_col TableSort \<Rightarrow> FuzzingFile list" where
  "sortFiles lc files tableSort = ArrayHelper.sort lc get_fuzzing_file files tableSort [FfPath] False"

text \<open>\<open>JSON.stringify\<close> tells the values of one type apart, so its equality is that of the values.\<close>

fun fuzzingReducer :: "(string \<Rightarrow> string \<Rightarrow> rat) \<Rightarrow> FuzzingState \<Rightarrow> FuzzingActions \<Rightarrow> FuzzingState" where
  "fuzzingReducer lc state (FUZZING_GET_DIRECTORIES_SUCCESS payload) =
     (if payload = fz_directories state then state else state\<lparr>fz_directories := payload\<rparr>)"
| "fuzzingReducer lc state (FUZZING_SET_ACTIVE_DIRECTORY payload) =
     (if Some (fd_fullName payload) = map_option fd_fullName (fz_activeDirectory state) then state
      else state\<lparr>fz_activeDirectory := Some payload, fz_activeFile := NoFile, fz_activeFileDetails := None\<rparr>)"
| "fuzzingReducer lc state (FUZZING_GET_FILES_SUCCESS payload) =
     (let files = sortFiles lc payload (fz_sort state); filteredFiles = filterFiles files (fz_filterText state) in
      if filteredFiles = fz_filteredFiles state then state else state\<lparr>fz_files := files, fz_filteredFiles := filteredFiles\<rparr>)"
| "fuzzingReducer lc state (FUZZING_GET_FILE_DETAILS payload) = state\<lparr>fz_activeFile := payload\<rparr>"
| "fuzzingReducer lc state (FUZZING_GET_FILE_DETAILS_SUCCESS payload) =
     (if Some payload = fz_activeFileDetails state then state
      else state\<lparr>fz_activeFile := (case fz_activeFile state of NoFile \<Rightarrow> EmptyFile | a \<Rightarrow> a), fz_activeFileDetails := Some payload\<rparr>)"
| "fuzzingReducer lc state (FUZZING_SORT srt) =
     state\<lparr>fz_filteredFiles := sortFiles lc (fz_filteredFiles state) srt, fz_sort := srt\<rparr>"
| "fuzzingReducer lc state (FUZZING_FILTER text) =
     state\<lparr>fz_filterText := Some text, fz_filteredFiles := sortFiles lc (filterFiles (fz_files state) (Some text)) (fz_sort state)\<rparr>"
| "fuzzingReducer lc state FUZZING_CLOSE = initial_fuzzing"
| "fuzzingReducer lc state _ = state"

section \<open>The effects\<close>

text \<open>The requests awaited: the directories, the files of a directory, and a file of a directory.\<close>

record fuzzing_requests =
  fr_directories :: bool
  fr_files :: "string option"
  fr_details :: "(string \<times> string) option"

datatype fuzzing_event =
    FzAct FuzzingActions
  | FzDirectories "string list"
  | FzFiles "(string \<times> rat \<times> string) list"
  | FzDetails string "(string \<times> (int \<times> int \<times> int) list) list"
  | FzFailed FuzzingActions http_error

type_synonym fuzzing_out = "ErrorPreviewActions + FuzzingActions"

definition no_details :: FuzzingFileDetails where
  "no_details = \<lparr>fx_filename = [], fx_lines = [], fx_executedLines = 0\<rparr>"

text \<open>The name a request for details is made with: the one of an empty object reads \<open>undefined\<close>.\<close>

fun file_name :: "active_file \<Rightarrow> string option" where
  "file_name NoFile = None"
| "file_name (File f) = Some (ff_name f)"
| "file_name EmptyFile = Some ''undefined''"

text \<open>
  The effects on an action, with the slice after its reduction: each request replaces the pending one
  of its kind. Without an active directory the access to its name throws, which is reported.
\<close>

definition fuzzing_report :: "(int \<Rightarrow> string \<Rightarrow> string) \<Rightarrow> int \<Rightarrow> http_error \<Rightarrow> FuzzingActions \<Rightarrow> fuzzing_out list" where
  "fuzzing_report fmt now err action = [Inl (addError fmt now err GENERIC), Inr action]"

definition no_requests :: fuzzing_requests where
  "no_requests = \<lparr>fr_directories = False, fr_files = None, fr_details = None\<rparr>"

definition request_files ::
  "(int \<Rightarrow> string \<Rightarrow> string) \<Rightarrow> int \<Rightarrow> FuzzingState \<Rightarrow> fuzzing_requests \<Rightarrow> fuzzing_requests \<times> fuzzing_out list" where
  "request_files fmt now s m = (case fz_activeDirectory s of
      None \<Rightarrow> (m\<lparr>fr_files := None\<rparr>, fuzzing_report fmt now (plain_error ''fullName'') (FUZZING_GET_FILES_SUCCESS []))
    | Some d \<Rightarrow> (m\<lparr>fr_files := Some (fd_fullName d)\<rparr>, []))"

fun fuzzing_request ::
  "(int \<Rightarrow> string \<Rightarrow> string) \<Rightarrow> int \<Rightarrow> FuzzingState \<Rightarrow> fuzzing_requests \<Rightarrow> FuzzingActions \<Rightarrow> fuzzing_requests \<times> fuzzing_out list" where
  "fuzzing_request fmt now s m FUZZING_GET_DIRECTORIES = (m\<lparr>fr_directories := True\<rparr>, [])"
| "fuzzing_request fmt now s m FUZZING_GET_FILES = request_files fmt now s m"
| "fuzzing_request fmt now s m (FUZZING_SET_ACTIVE_DIRECTORY d) = request_files fmt now s m"
| "fuzzing_request fmt now s m (FUZZING_GET_FILE_DETAILS file) = (case file_name file of
      None \<Rightarrow> (m, [])
    | Some name \<Rightarrow> (case fz_activeDirectory s of
          None \<Rightarrow> (m\<lparr>fr_details := None\<rparr>, fuzzing_report fmt now (plain_error ''fullName'') (FUZZING_GET_FILE_DETAILS_SUCCESS no_details))
        | Some d \<Rightarrow> (m\<lparr>fr_details := Some (fd_fullName d, name)\<rparr>, [])))"
| "fuzzing_request fmt now s m a = (m, [])"

text \<open>
  The effects on an answer. A failure drops the pending request of its kind; \<open>FzFailed\<close> carries the
  action that asked.
\<close>

fun fuzzing_answer ::
  "(string \<Rightarrow> (string \<times> rat option) option) \<Rightarrow> (int \<Rightarrow> string \<Rightarrow> string) \<Rightarrow> int \<Rightarrow> fuzzing_requests \<Rightarrow> fuzzing_event
    \<Rightarrow> fuzzing_requests \<times> fuzzing_out list" where
  "fuzzing_answer readDate fmt now m (FzDirectories names) = (if \<not> fr_directories m then (m, [])
     else (m\<lparr>fr_directories := False\<rparr>, [Inr (FUZZING_GET_DIRECTORIES_SUCCESS (mapGetDirectoryNamesResponse readDate names))]))"
| "fuzzing_answer readDate fmt now m (FzFiles files) = (if fr_files m = None then (m, [])
     else (m\<lparr>fr_files := None\<rparr>, [Inr (FUZZING_GET_FILES_SUCCESS (getFiles files))]))"
| "fuzzing_answer readDate fmt now m (FzDetails filename lines) = (if fr_details m = None then (m, [])
     else (m\<lparr>fr_details := None\<rparr>, [Inr (FUZZING_GET_FILE_DETAILS_SUCCESS (getFileDetails filename lines))]))"
| "fuzzing_answer readDate fmt now m (FzFailed FUZZING_GET_DIRECTORIES err) = (if \<not> fr_directories m then (m, [])
     else (m\<lparr>fr_directories := False\<rparr>, fuzzing_report fmt now err (FUZZING_GET_DIRECTORIES_SUCCESS [])))"
| "fuzzing_answer readDate fmt now m (FzFailed FUZZING_GET_FILES err) = (if fr_files m = None then (m, [])
     else (m\<lparr>fr_files := None\<rparr>, fuzzing_report fmt now err (FUZZING_GET_FILES_SUCCESS [])))"
| "fuzzing_answer readDate fmt now m (FzFailed (FUZZING_GET_FILE_DETAILS f) err) = (if fr_details m = None then (m, [])
     else (m\<lparr>fr_details := None\<rparr>, fuzzing_report fmt now err (FUZZING_GET_FILE_DETAILS_SUCCESS no_details)))"
| "fuzzing_answer readDate fmt now m _ = (m, [])"

text \<open>The page: an action is reduced, then the effects see it; their actions are reduced in turn.\<close>

definition fuzzing_step ::
  "(string \<Rightarrow> string \<Rightarrow> rat) \<Rightarrow> (string \<Rightarrow> (string \<times> rat option) option) \<Rightarrow> (int \<Rightarrow> string \<Rightarrow> string) \<Rightarrow> int
    \<Rightarrow> FuzzingState \<times> fuzzing_requests \<Rightarrow> fuzzing_event \<Rightarrow> FuzzingState \<times> fuzzing_requests" where
  "fuzzing_step lc readDate fmt now sm e = (case sm of (s, m) \<Rightarrow>
     let s1 = (case e of FzAct a \<Rightarrow> fuzzingReducer lc s a | _ \<Rightarrow> s);
         (m1, outs) = (case e of FzAct a \<Rightarrow> fuzzing_request fmt now s1 m a | _ \<Rightarrow> fuzzing_answer readDate fmt now m e)
     in (foldl (\<lambda>s out. case out of Inl _ \<Rightarrow> s | Inr a \<Rightarrow> fuzzingReducer lc s a) s1 outs, m1))"

section \<open>The toolbar\<close>

definition overallCoverage :: "FuzzingFile list \<Rightarrow> rat option" where
  "overallCoverage files = (if files = [] then None
     else Some (foldl (\<lambda>acc file. acc + ff_coverage file) 0 files / of_nat (length files)))"

definition coverageColor :: "rat option \<Rightarrow> string" where
  "coverageColor coverage = (case coverage of None \<Rightarrow> ''warn''
     | Some x \<Rightarrow> if x > 80 then ''success'' else if x > 50 then ''aware'' else ''warn'')"

section \<open>The highlighted line\<close>

text \<open>
  What a browser shows of such a fragment: tags are skipped, and the three entities the service writes
  are decoded.
\<close>

function html_text :: "string \<Rightarrow> string" where
  "html_text [] = []"
| "html_text (c # s) = (if c = CHR ''<'' then html_text (tl (dropWhile (\<lambda>d. d \<noteq> CHR ''>'') s))
     else if take 5 s = ''nbsp;'' \<and> c = CHR ''&'' then CHR '' '' # html_text (drop 5 s)
     else if take 3 s = ''lt;'' \<and> c = CHR ''&'' then CHR ''<'' # html_text (drop 3 s)
     else if take 3 s = ''gt;'' \<and> c = CHR ''&'' then CHR ''>'' # html_text (drop 3 s)
     else c # html_text s)"
  by pat_completeness auto
termination
proof (relation "measure length", goal_cases)
  case (2 c s)
  have "length (tl (dropWhile (\<lambda>d. d \<noteq> CHR ''>'') s)) \<le> length (dropWhile (\<lambda>d. d \<noteq> CHR ''>'') s)" by simp
  also have "\<dots> \<le> length s" by (rule length_dropWhile_le)
  finally show ?case by simp
qed simp_all

fun piece_text :: "piece \<Rightarrow> string" where
  "piece_text (Shown c) = [c]"
| "piece_text _ = []"

lemma html_text_tag: "CHR ''>'' \<notin> set t \<Longrightarrow> html_text (CHR ''<'' # t @ CHR ''>'' # s) = html_text s"
  by (induction t) auto

lemma digit_not_gt: "CHR ''>'' \<notin> set (nat_to_string n)"
proof
  assume "CHR ''>'' \<in> set (nat_to_string n)"
  then obtain d where "d < 10" "CHR ''>'' = char_of (48 + d :: nat)" using nat_to_string_digits by blast
  then have "(of_char CHR ''>'' :: nat) = (48 + d) mod 256" by simp
  then show False using \<open>d < 10\<close> by simp
qed

lemma int_to_string_chars: "CHR ''>'' \<notin> set (int_to_string i)"
  using digit_not_gt by (simp add: int_to_string_def)

lemma html_text_open: "html_text (piece_html (Open n) @ s) = html_text s"
proof -
  let ?t = "''span style=\"color:var(--base-primary);background:var(--'' @ (if n = 0 then ''warn'' else ''success'') @ ''-secondary)\" h=\"'' @ int_to_string n @ ''\"''"
  have "piece_html (Open n) @ s = CHR ''<'' # ?t @ CHR ''>'' # s" by simp
  moreover have "CHR ''>'' \<notin> set ?t" using int_to_string_chars [of n] by auto
  ultimately show ?thesis using html_text_tag by metis
qed

lemma html_text_piece: "p \<noteq> Shown CHR ''&'' \<Longrightarrow> html_text (piece_html p @ s) = piece_text p @ html_text s"
proof (cases p)
  case (Open n)
  then show ?thesis using html_text_open [of n s] by simp
next
  case (Shown c)
  moreover assume "p \<noteq> Shown CHR ''&''"
  ultimately show ?thesis by simp
next
  case Close
  then show ?thesis by simp
qed

lemma html_text_pieces: "Shown CHR ''&'' \<notin> set ps \<Longrightarrow> html_text (concat (map piece_html ps)) = concat (map piece_text ps)"
proof (induction ps)
  case (Cons p ps)
  then show ?case using html_text_piece [of p "concat (map piece_html ps)"] by auto
qed simp

lemma line_pieces_text: "concat (map piece_text (line_pieces counters i line)) = line"
  by (induction line arbitrary: i) (auto simp: column_pieces_def split: option.splits)

lemma shown_in_line: "Shown c \<in> set (line_pieces counters i line) \<Longrightarrow> c \<in> set line"
  by (induction line arbitrary: i) (auto simp: column_pieces_def split: option.splits if_splits)

lemma html_text_plain:
  "CHR ''&'' \<notin> set line \<Longrightarrow>
   html_text (concat (map (\<lambda>c. if c = CHR ''<'' then ''&lt;'' else if c = CHR ''>'' then ''&gt;'' else [c]) line)) = line"
  by (induction line) auto

text \<open>
  The characters of a list of pieces with the counts of the spans around them; \<open>None\<close> when the tags
  are not balanced.
\<close>

fun spans :: "int list \<Rightarrow> piece list \<Rightarrow> (char \<times> int list) list option" where
  "spans st [] = (if st = [] then Some [] else None)"
| "spans st (Open n # ps) = spans (n # st) ps"
| "spans st (Shown c # ps) = map_option (Cons (c, st)) (spans st ps)"
| "spans [] (Close # ps) = None"
| "spans (n # st) (Close # ps) = spans st ps"

text \<open>Counters as the compiler emits them: ranges within the line that do not overlap.\<close>

definition counter_ranges :: "nat \<Rightarrow> FuzzingLineCounter list \<Rightarrow> bool" where
  "counter_ranges len counters \<longleftrightarrow>
     (\<forall>c \<in> set counters. fc_colStart c \<le> fc_colEnd c \<and> fc_colEnd c < int len)
   \<and> (\<forall>c \<in> set counters. \<forall>d \<in> set counters. c = d \<or> fc_colEnd c < fc_colStart d \<or> fc_colEnd d < fc_colStart c)"

definition counts_at :: "FuzzingLineCounter list \<Rightarrow> int \<Rightarrow> int list" where
  "counts_at counters column = (case covering counters column of None \<Rightarrow> [] | Some c \<Rightarrow> [fc_count c])"

text \<open>The spans open in front of a column.\<close>

definition open_before :: "FuzzingLineCounter list \<Rightarrow> int \<Rightarrow> int list" where
  "open_before counters column = (case covering counters column of None \<Rightarrow> []
     | Some c \<Rightarrow> if fc_colStart c < column then [fc_count c] else [])"

lemma covering_SomeD: "covering counters i = Some c \<Longrightarrow> c \<in> set counters \<and> fc_colStart c \<le> i \<and> i \<le> fc_colEnd c"
  by (auto simp: covering_def find_Some_iff)

lemma covering_NoneD: "covering counters i = None \<Longrightarrow> c \<in> set counters \<Longrightarrow> \<not> (fc_colStart c \<le> i \<and> i \<le> fc_colEnd c)"
  by (auto simp: covering_def find_None_iff)

lemma covering_unique:
  assumes "counter_ranges len counters" "c \<in> set counters" "fc_colStart c \<le> i" "i \<le> fc_colEnd c"
  shows "covering counters i = Some c"
proof -
  obtain d where d: "covering counters i = Some d" using covering_NoneD assms by (cases "covering counters i") blast+
  then have "d \<in> set counters" "fc_colStart d \<le> i" "i \<le> fc_colEnd d" using covering_SomeD by blast+
  then have "d = c" using assms unfolding counter_ranges_def by (meson leD order.strict_trans1 order.trans)
  then show ?thesis using d by simp
qed

lemma open_before_next:
  assumes ranges: "counter_ranges len counters"
  shows "open_before counters (i + 1) = (case covering counters i of None \<Rightarrow> [] | Some c \<Rightarrow> if i = fc_colEnd c then [] else [fc_count c])"
proof (cases "\<exists>c \<in> set counters. fc_colStart c \<le> i \<and> i + 1 \<le> fc_colEnd c")
  case True
  then obtain c where c: "c \<in> set counters" "fc_colStart c \<le> i" "i + 1 \<le> fc_colEnd c" by blast
  have "covering counters (i + 1) = Some c" "covering counters i = Some c" using c by (auto intro!: covering_unique [OF ranges])
  then show ?thesis using c by (auto simp: open_before_def)
next
  case False
  have "open_before counters (i + 1) = []"
    using False covering_SomeD [of counters "i + 1"] by (force simp: open_before_def split: option.splits)
  moreover have "i = fc_colEnd c" if "covering counters i = Some c" for c
    using covering_SomeD [OF that] False by force
  ultimately show ?thesis by (auto split: option.splits)
qed

lemma spans_line:
  assumes ranges: "counter_ranges len counters" and "i + int (length line) = int len"
  shows "spans (open_before counters i) (line_pieces counters i line)
    = Some (map (\<lambda>k. (line ! k, counts_at counters (i + int k))) [0..<length line])"
  using assms(2)
proof (induction line arbitrary: i)
  case Nil
  have "covering counters i = None"
    using covering_SomeD [of counters i] ranges Nil by (cases "covering counters i") (auto simp: counter_ranges_def)
  then show ?case by (simp add: open_before_def)
next
  case (Cons c line)
  have IH: "spans (open_before counters (i + 1)) (line_pieces counters (i + 1) line)
    = Some (map (\<lambda>k. (line ! k, counts_at counters (i + 1 + int k))) [0..<length line])"
    using Cons.prems by (intro Cons.IH) simp
  have upt: "map (\<lambda>k. ((c # line) ! k, counts_at counters (i + int k))) [0..<length (c # line)]
    = (c, counts_at counters i) # map (\<lambda>k. (line ! k, counts_at counters (i + 1 + int k))) [0..<length line]"
    by (simp add: upt_conv_Cons map_Suc_upt [symmetric] ac_simps del: upt_Suc)
  show ?case
  proof (cases "covering counters i")
    case None
    then show ?thesis unfolding upt using IH open_before_next [OF ranges, of i]
      by (simp add: column_pieces_def open_before_def counts_at_def)
  next
    case (Some d)
    then have "fc_colStart d \<le> i" "i \<le> fc_colEnd d" using covering_SomeD by blast+
    with Some show ?thesis unfolding upt using IH open_before_next [OF ranges, of i]
      by (auto simp: column_pieces_def open_before_def counts_at_def)
  qed
qed

lemma open_before_0: "(\<forall>c \<in> set counters. 0 \<le> fc_colStart c) \<Longrightarrow> open_before counters 0 = []"
  using covering_SomeD [of counters 0] by (force simp: open_before_def split: option.splits)

text \<open>
  C13: The highlighted line shows the text of the line, character by character, and its spans are
  balanced: a character is inside a span exactly when a counter covers its column, and the span carries
  the count of that counter. This needs counters that lie within the line and do not overlap, and a
  line without ampersands, which the service does not escape.
\<close>

theorem highlighted_line:
  assumes "CHR ''&'' \<notin> set line" "counters \<noteq> []" "counter_ranges (length line) counters" "\<forall>c \<in> set counters. 0 \<le> fc_colStart c"
  shows "html_text (colorLineCounters line counters) = line
    \<and> colorLineCounters line counters = concat (map piece_html (line_pieces counters 0 line))
    \<and> spans [] (line_pieces counters 0 line) = Some (map (\<lambda>k. (line ! k, counts_at counters (int k))) [0..<length line])"
proof -
  have "Shown CHR ''&'' \<notin> set (line_pieces counters 0 line)" using shown_in_line assms(1) by blast
  then have "html_text (colorLineCounters line counters) = line"
    using html_text_pieces assms(2) by (simp add: colorLineCounters_def line_pieces_text)
  then show ?thesis using spans_line [OF assms(3), of 0 line] open_before_0 [OF assms(4)] assms(2) by (simp add: colorLineCounters_def)
qed

theorem highlighted_line_witness:
  "html_text (colorLineCounters ''if a < b'' [\<lparr>fc_colStart = 0, fc_colEnd = 1, fc_count = 4\<rparr>, \<lparr>fc_colStart = 3, fc_colEnd = 7, fc_count = 0\<rparr>])
     = ''if a < b''"
proof -
  let ?cs = "[\<lparr>fc_colStart = 0, fc_colEnd = 1, fc_count = 4\<rparr>, \<lparr>fc_colStart = 3, fc_colEnd = 7, fc_count = 0\<rparr>]"
  have "CHR ''&'' \<notin> set ''if a < b''" "counter_ranges (length ''if a < b'') ?cs" "\<forall>c \<in> set ?cs. 0 \<le> fc_colStart c"
    by (simp_all add: counter_ranges_def)
  from highlighted_line [OF this(1) list.distinct(2) this(2,3)] show ?thesis by (rule conjunct1)
qed

text \<open>An ampersand is not escaped, so two lines of code can be shown alike.\<close>

lemma highlight_ambiguous: "colorLineCounters ''a &lt; b'' [] = colorLineCounters ''a < b'' []"
  by (simp add: colorLineCounters_def)

section \<open>The colour of a line\<close>

lemma line_color_success: "line_color_loop ''success'' counts = (if list_all (\<lambda>n. n > 0) counts then ''success'' else ''aware'')"
  by (induction counts) auto

lemma line_color_warn: "line_color_loop ''warn'' counts = (if list_all (\<lambda>n. n \<le> 0) counts then ''warn'' else ''aware'')"
  by (induction counts) auto

text \<open>A line is marked as hit if all its counters are, as missed if none is, and otherwise as mixed.\<close>

lemma line_color:
  "counts \<noteq> [] \<Longrightarrow> getLineColor counts = Some (if list_all (\<lambda>n. n > 0) counts then ''success''
     else if list_all (\<lambda>n. n \<le> 0) counts then ''warn'' else ''aware'')"
  by (cases counts) (auto simp: getLineColor_def line_color_success line_color_warn)

text \<open>The lines shown as hit count every line with a counter, also where no counter was hit.\<close>

lemma hit_lines_unhit: "fx_executedLines (getFileDetails f [(line, [(0, 3, 0)])]) = 1"
  by (simp add: getFileDetails_def)

section \<open>The table of the files\<close>

interpretation fuzzing_columns: table_columns get_fuzzing_file "[FfPath]"
  by unfold_locales simp

definition fuzzing_inv :: "FuzzingState \<Rightarrow> bool" where
  "fuzzing_inv s \<longleftrightarrow> mset (fz_filteredFiles s) = filter_mset (file_shown (fz_filterText s)) (mset (fz_files s))"

interpretation fuzzing: slice initial_fuzzing "fuzzingReducer lc" fuzzing_inv "\<lambda>_. True" for lc
proof
  show "fuzzing_inv initial_fuzzing" by (simp add: fuzzing_inv_def initial_fuzzing_def)
  fix s a assume "fuzzing_inv s"
  then show "fuzzing_inv (fuzzingReducer lc s a)"
    by (cases a) (auto simp: fuzzing_inv_def initial_fuzzing_def sortFiles_def filterFiles_def)
qed

text \<open>
  After any sequence of actions the table shows each file of the loaded list that matches the search
  exactly once, and no other.
\<close>

theorem fuzzing_table:
  "mset (fz_filteredFiles (foldl (fuzzingReducer lc) initial_fuzzing as))
     = filter_mset (file_shown (fz_filterText (foldl (fuzzingReducer lc) initial_fuzzing as)))
         (mset (fz_files (foldl (fuzzingReducer lc) initial_fuzzing as)))"
  using fuzzing.foldl_inv [of as lc] by (simp add: fuzzing_inv_def list_all_iff)

text \<open>
  The loaded list may be that of another directory: files that leave the filtered list as it is are
  dropped, so that clearing the search shows the files loaded before.
\<close>

lemma stale_files:
  assumes "filterFiles (sortFiles lc payload (fz_sort s)) (fz_filterText s) = fz_filteredFiles s"
  shows "fz_filteredFiles (foldl (fuzzingReducer lc) s [FUZZING_GET_FILES_SUCCESS payload, FUZZING_FILTER []])
    = sortFiles lc (fz_files s) (fz_sort s)"
  using assms by (simp add: filterFiles_def file_shown_def)

section \<open>A late answer reopens the side panel\<close>

text \<open>
  When another directory is opened while the details of a file are on their way, the answer opens
  the side panel again: it shows the details of the file of the other directory, and the active file is
  an object without a name.
\<close>

theorem late_details_reopen:
  assumes "fr_details m = Some (dir, name)" "fz_activeDirectory s = Some d" "fd_fullName d' \<noteq> fd_fullName d"
  shows "\<exists>s' m'. foldl (fuzzing_step lc readDate fmt now) (s, m) [FzAct (FUZZING_SET_ACTIVE_DIRECTORY d'), FzDetails filename lines] = (s', m')
    \<and> fz_activeDirectory s' = Some d' \<and> fz_activeFile s' = EmptyFile \<and> fz_activeFileDetails s' = Some (getFileDetails filename lines)"
  using assms by (simp add: fuzzing_step_def request_files_def)

theorem late_details_reopen_witness:
  "\<exists>s' m'. foldl (fuzzing_step code_unit_compare (\<lambda>_. None) (\<lambda>_ _. []) 0)
      (initial_fuzzing\<lparr>fz_activeDirectory := Some \<lparr>fd_name = ''a'', fd_date = [], fd_dateNumber = None, fd_fullName = ''a''\<rparr>\<rparr>,
       no_requests\<lparr>fr_details := Some (''a'', ''f.rs'')\<rparr>)
      [FzAct (FUZZING_SET_ACTIVE_DIRECTORY \<lparr>fd_name = ''b'', fd_date = [], fd_dateNumber = None, fd_fullName = ''b''\<rparr>), FzDetails ''f.rs'' []] = (s', m')
    \<and> fz_activeFile s' = EmptyFile"
  using late_details_reopen [of "no_requests\<lparr>fr_details := Some (''a'', ''f.rs'')\<rparr>" "''a''" "''f.rs''"
      "initial_fuzzing\<lparr>fz_activeDirectory := Some \<lparr>fd_name = ''a'', fd_date = [], fd_dateNumber = None, fd_fullName = ''a''\<rparr>\<rparr>"
      "\<lparr>fd_name = ''a'', fd_date = [], fd_dateNumber = None, fd_fullName = ''a''\<rparr>"
      "\<lparr>fd_name = ''b'', fd_date = [], fd_dateNumber = None, fd_fullName = ''b''\<rparr>"
      code_unit_compare "\<lambda>_. None" "\<lambda>_ _. []" 0 "''f.rs''" "[]"]
  by auto

end
