(* ===== verification/WebNode.thy ===== *)
theory WebNode
  imports AppShell
begin

text \<open>
  The node that runs in the browser: the configuration it starts with and the calls that answer the
  requests of the pages (\<open>core/services/web-node.service.ts\<close>), the upload of a key
  (\<open>web-node-file-upload\<close>), the progress of the download (\<open>core/helpers/file-progress.helper.ts\<close>)
  and the page that shows the start in three steps (\<open>web-node-initialization\<close>). The WebAssembly
  module, the archive and base 64 decoding are not part of the program; what they return is an event
  or a parameter. The timers are events of the page.
\<close>

section \<open>The configuration\<close>

record PrivateStake =
  ps_publicKey :: string
  ps_password :: "string option"
  ps_stake :: string

datatype BlockProducerConfig = Observer | Uploaded PrivateStake | Auto

datatype private_key = Key string | Encrypted string string

record block_producer =
  bp_publicKey :: string
  bp_privateKey :: "private_key option"

record WebNodeConfiguration =
  wc_network :: string
  wc_blockProducer :: block_producer

record webnode_args =
  wa_network :: "string option"
  wa_blockProducer :: "block_producer option"

text \<open>
  The stored text, if any, is decoded by \<open>JSON.parse(atob(raw))\<close>, with \<open>None\<close> when that throws or
  gives no object.
\<close>

definition getWebnodeArgsFromStorage :: "(string \<Rightarrow> webnode_args option) \<Rightarrow> string option \<Rightarrow> webnode_args option" where
  "getWebnodeArgsFromStorage decode raw = Option.bind raw decode"

definition observer_keys :: block_producer where
  "observer_keys = \<lparr>bp_publicKey = [], bp_privateKey = None\<rparr>"

definition text_or :: "string option \<Rightarrow> string \<Rightarrow> string" where
  "text_or t alternative = (case t of None \<Rightarrow> alternative | Some s \<Rightarrow> if s = [] then alternative else s)"

definition getWebNodeConfiguration ::
  "(string \<Rightarrow> webnode_args option) \<Rightarrow> string option \<Rightarrow> BlockProducerConfig \<Rightarrow> WebNodeConfiguration" where
  "getWebNodeConfiguration decode raw config = (case config of
      Uploaded data \<Rightarrow> \<lparr>wc_network = ''devnet'', wc_blockProducer = \<lparr>bp_publicKey = ps_publicKey data,
        bp_privateKey = Some (if text_or (ps_password data) [] = [] then Key (ps_stake data)
          else Encrypted (ps_stake data) (text_or (ps_password data) []))\<rparr>\<rparr>
    | Observer \<Rightarrow> \<lparr>wc_network = ''devnet'', wc_blockProducer = observer_keys\<rparr>
    | Auto \<Rightarrow> (case getWebnodeArgsFromStorage decode raw of
          None \<Rightarrow> \<lparr>wc_network = ''devnet'', wc_blockProducer = observer_keys\<rparr>
        | Some args \<Rightarrow> \<lparr>wc_network = text_or (wa_network args) ''devnet'',
            wc_blockProducer = (case wa_blockProducer args of None \<Rightarrow> observer_keys | Some b \<Rightarrow> b)\<rparr>))"

text \<open>What \<open>startWasm$\<close> passes to the module: the key and the addresses of the seeds.\<close>

definition run_arguments :: "'seeds \<Rightarrow> 'boot \<Rightarrow> WebNodeConfiguration \<Rightarrow> private_key option \<times> 'seeds \<times> 'boot" where
  "run_arguments seedUrls fixedSeeds config = (bp_privateKey (wc_blockProducer config), seedUrls, fixedSeeds)"

section \<open>The upload of a key\<close>

record FileUpload =
  fu_validFiles :: bool
  fu_error :: bool
  fu_fileName :: "string option"
  fu_config :: BlockProducerConfig

definition ends_with :: "string \<Rightarrow> string \<Rightarrow> bool" where
  "ends_with s suffix \<longleftrightarrow> length suffix \<le> length s \<and> drop (length s - length suffix) s = suffix"

definition one_line :: "string \<Rightarrow> string" where
  "one_line = filter (\<lambda>c. c \<noteq> CHR 0x0A \<and> c \<noteq> CHR 0x0D)"

text \<open>
  \<open>onFileSelected\<close> with the files the archive gives, and whether reading it failed. \<open>parse\<close> is
  \<open>JSON.parse\<close>; when it throws, the promise is rejected and nothing changes any more.
\<close>

definition onFileSelected ::
  "(string \<Rightarrow> string option) \<Rightarrow> string \<Rightarrow> bool \<Rightarrow> (string \<times> string) list \<Rightarrow> FileUpload \<Rightarrow> FileUpload" where
  "onFileSelected parse fileName failed files v =
    (let v1 = v\<lparr>fu_fileName := Some fileName, fu_error := (fu_error v \<or> failed)\<rparr>;
         publicKey = text_or (map_option snd (find (\<lambda>f. ends_with (fst f) ''.pub'') files)) [];
         password = map_option (one_line \<circ> snd) (find (\<lambda>f. js_includes (fst f) ''password'') files);
         stake = text_or (map_option snd (find (\<lambda>f. \<not> js_includes (fst f) ''password'' \<and> \<not> ends_with (fst f) ''.pub'') files)) []
     in if fu_error v1 \<or> publicKey = [] \<or> stake = [] then v1\<lparr>fu_error := True\<rparr>
        else (case parse stake of None \<Rightarrow> v1
          | Some key \<Rightarrow> v1\<lparr>fu_config := Uploaded \<lparr>ps_publicKey = publicKey, ps_password = password, ps_stake = key\<rparr>, fu_validFiles := True\<rparr>))"

definition clearFiles :: "FileUpload \<Rightarrow> FileUpload" where
  "clearFiles v = v\<lparr>fu_validFiles := False, fu_fileName := None, fu_config := Auto, fu_error := False\<rparr>"

section \<open>The service\<close>

text \<open>The calls on the module behind the streams of the service.\<close>

definition webnode_calls :: "(string \<times> string list) list" where
  "webnode_calls = [(''status$'', [''status'']), (''blockProducerStats$'', [''stats'', ''block_producer'']),
     (''peers$'', [''state'', ''peers'']), (''messageProgress$'', [''state'', ''message_progress'']),
     (''sync$'', [''stats'', ''sync'']), (''accounts$'', [''ledger'', ''latest'', ''accounts'', ''all'']),
     (''bestChainUserCommands$'', [''transition_frontier'', ''best_chain'', ''user_commands'']),
     (''sendPayment$'', [''transaction_pool'', ''inject'', ''payment'']), (''transactionPool$'', [''transaction_pool'', ''get'']),
     (''envBuildDetails$'', [''build_env''])]"

text \<open>The text after the first occurrence of a pattern, and before it.\<close>

fun text_after :: "string \<Rightarrow> string \<Rightarrow> string option" where
  "text_after pat [] = (if pat = [] then Some [] else None)"
| "text_after pat (c # s) = (if take (length pat) (c # s) = pat then Some (drop (length pat) (c # s)) else text_after pat s)"

fun text_before :: "string \<Rightarrow> string \<Rightarrow> string" where
  "text_before pat [] = []"
| "text_before pat (c # s) = (if take (length pat) (c # s) = pat then [] else c # text_before pat s)"

datatype action_slot = SlotUndefined | SlotNumber rat | SlotText string

definition actions_slot :: "string \<Rightarrow> action_slot" where
  "actions_slot path = (case text_after ''?id='' path of None \<Rightarrow> SlotUndefined
     | Some rest \<Rightarrow> (let slot = text_before ''?id='' rest in
         case js_string_to_number slot of None \<Rightarrow> SlotText slot | Some n \<Rightarrow> SlotNumber n))"

datatype start_phase = NotStarted | Instantiating | Running | Up | Broken

record WebNodeService =
  wn_module :: bool
  wn_phase :: start_phase
  wn_firstPeerConnected :: bool

text \<open>
  The start: the module has been imported (\<open>window.webnode\<close>), \<open>startWasm$\<close> takes it, its memory is
  there, its \<open>run\<close> has returned, or one of them has failed, which ends it; and an answer of \<open>peers$\<close>,
  which says whether some peer is connected. A module is started once. The second result is what
  \<open>webnodeProgress$\<close> emits.
\<close>

datatype webnode_event = WnModule | WnStart | WnInstantiated | WnRunning | WnFailed | WnPeers bool

fun webnode_step :: "WebNodeService \<Rightarrow> webnode_event \<Rightarrow> WebNodeService \<times> string list" where
  "webnode_step s WnModule = (s\<lparr>wn_module := True\<rparr>, [])"
| "webnode_step s WnStart = (if wn_module s \<and> wn_phase s = NotStarted then (s\<lparr>wn_phase := Instantiating\<rparr>, []) else (s, []))"
| "webnode_step s WnInstantiated = (if wn_phase s = Instantiating then (s\<lparr>wn_phase := Running\<rparr>, [''Loaded'']) else (s, []))"
| "webnode_step s WnRunning = (if wn_phase s = Running then (s\<lparr>wn_phase := Up\<rparr>, [''Started'']) else (s, []))"
| "webnode_step s WnFailed =
    (if wn_phase s = Instantiating \<or> wn_phase s = Running then (s\<lparr>wn_phase := Broken\<rparr>, []) else (s, []))"
| "webnode_step s (WnPeers some_up) = (if wn_phase s = Up \<and> \<not> wn_firstPeerConnected s \<and> some_up
     then (s\<lparr>wn_firstPeerConnected := True\<rparr>, [''Connected'']) else (s, []))"

definition initial_service :: WebNodeService where
  "initial_service = \<lparr>wn_module = False, wn_phase = NotStarted, wn_firstPeerConnected = False\<rparr>"

definition isWebNodeLoaded :: "WebNodeService \<Rightarrow> bool" where
  "isWebNodeLoaded s = wn_module s"

section \<open>The progress of the download\<close>

definition WASM_FILE_SIZE :: nat where
  "WASM_FILE_SIZE = 31556926"

record download_info =
  di_progress :: rat
  di_status :: string
  di_received :: nat

datatype download_event = DlChunk nat | DlDone | DlError

definition initial_download :: download_info where
  "initial_download = \<lparr>di_progress = 0, di_status = ''pending'', di_received = 0\<rparr>"

fun download_step :: "download_info \<Rightarrow> download_event \<Rightarrow> download_info" where
  "download_step d (DlChunk n) = (let received = di_received d + n in
     d\<lparr>di_received := received, di_progress := of_nat received / of_nat WASM_FILE_SIZE * 100\<rparr>)"
| "download_step d DlDone = d\<lparr>di_status := ''complete''\<rparr>"
| "download_step d DlError = d\<lparr>di_status := ''error''\<rparr>"

text \<open>What \<open>emitProgress\<close> sends: the percentage with two digits, and the bytes.\<close>

definition emitProgress :: "download_info \<Rightarrow> rat \<times> rat" where
  "emitProgress d = (js_toFixed 2 (di_progress d), di_progress d * of_nat WASM_FILE_SIZE / 100)"

section \<open>The page of the start\<close>

datatype WebNodeStepStatus = DONE | LOADING | PENDING

text \<open>
  The fields of the page. An interval is \<open>None\<close> when it does not run. Those of the second and the
  third step count their ticks, each worth an eighth of a percent; the one of the end has its progress.
  The fast loop has the progress it began with, its index and its bound. \<open>wi_slow2\<close> and \<open>wi_slow3\<close> say
  that a timeout is pending, and \<open>wi_listening\<close> that the page has subscribed to the download, the errors
  and the progress of the node.
\<close>

record WebNodeInit =
  wi_listening :: bool
  wi_status :: "WebNodeStepStatus \<times> WebNodeStepStatus \<times> WebNodeStepStatus"
  wi_loaded :: "bool \<times> bool \<times> bool"
  wi_loadingMessage :: string
  wi_downloadingMessage :: string
  wi_ready :: bool
  wi_hasError :: bool
  wi_hasWarn :: bool
  wi_errors :: "string list"
  wi_percentages :: "int \<times> int \<times> int"
  wi_second :: "nat option"
  wi_fast :: "(rat \<times> nat \<times> rat) option"
  wi_third :: "nat option"
  wi_end :: "rat option"
  wi_slow2 :: bool
  wi_slow3 :: bool
  wi_progress :: rat
  wi_svg :: bool

text \<open>The weights of the steps, from two random numbers of \<open>[0, 1)\<close>.\<close>

definition getStepPercentages :: "rat \<Rightarrow> rat \<Rightarrow> int \<times> int \<times> int" where
  "getStepPercentages r1 r2 = (let first = \<lfloor>r1 * 15\<rfloor> + 65; second = \<lfloor>r2 * 2\<rfloor> + 15 in (first, second, 100 - first - second))"

abbreviation first_weight :: "WebNodeInit \<Rightarrow> rat" where
  "first_weight v \<equiv> of_int (fst (wi_percentages v))"

abbreviation second_weight :: "WebNodeInit \<Rightarrow> rat" where
  "second_weight v \<equiv> of_int (fst (snd (wi_percentages v)))"

abbreviation third_weight :: "WebNodeInit \<Rightarrow> rat" where
  "third_weight v \<equiv> of_int (snd (snd (wi_percentages v)))"

definition wi_fresh :: "rat \<Rightarrow> rat \<Rightarrow> WebNodeInit" where
  "wi_fresh r1 r2 = \<lparr>wi_listening = True, wi_status = (LOADING, PENDING, PENDING), wi_loaded = (False, False, False), wi_loadingMessage = [],
     wi_downloadingMessage = [], wi_ready = False, wi_hasError = False, wi_hasWarn = False, wi_errors = [],
     wi_percentages = getStepPercentages r1 r2, wi_second = None, wi_fast = None, wi_third = None, wi_end = None,
     wi_slow2 = False, wi_slow3 = False, wi_progress = 0, wi_svg = False\<rparr>"

text \<open>
  \<open>ngOnInit\<close>: without a web node in the configuration the page is left (\<open>None\<close>); with a module that is
  there already it is ready at once and subscribes to nothing.
\<close>

definition wi_open :: "bool \<Rightarrow> bool \<Rightarrow> rat \<Rightarrow> rat \<Rightarrow> WebNodeInit option" where
  "wi_open hasConfig isLoaded r1 r2 = (if \<not> hasConfig then None
     else Some (if isLoaded then (wi_fresh r1 r2)\<lparr>wi_loaded := (True, True, True), wi_status := (DONE, DONE, DONE), wi_ready := True,
         wi_listening := False\<rparr>
       else wi_fresh r1 r2))"

definition updateLoadingMessage :: "string \<Rightarrow> WebNodeInit \<Rightarrow> WebNodeInit" where
  "updateLoadingMessage message v = (if wi_hasError v \<or> wi_hasWarn v then v else v\<lparr>wi_loadingMessage := message\<rparr>)"

definition updateProgressBar :: "rat \<Rightarrow> WebNodeInit \<Rightarrow> WebNodeInit" where
  "updateProgressBar newProgress v = (if newProgress \<ge> 100 then v\<lparr>wi_ready := True, wi_progress := 100\<rparr> else v\<lparr>wi_progress := newProgress\<rparr>)"

text \<open>The third step first catches up in small steps; with nothing to catch up its interval starts at once.\<close>

definition advanceProgressFor3rdStep :: "WebNodeInit \<Rightarrow> WebNodeInit" where
  "advanceProgressFor3rdStep v = (let diff = first_weight v + second_weight v - 1 - wi_progress v in
     if diff > 0 then v\<lparr>wi_fast := Some (wi_progress v, 0, diff)\<rparr> else v\<lparr>wi_third := Some 0\<rparr>)"

definition on_progress_state :: "string \<Rightarrow> WebNodeInit \<Rightarrow> WebNodeInit" where
  "on_progress_state state v =
    (if state = ''Loaded'' then (updateLoadingMessage ''~5 seconds left'' v)\<lparr>wi_slow2 := True,
        wi_loaded := (True, fst (snd (wi_loaded v)), snd (snd (wi_loaded v))),
        wi_status := (DONE, LOADING, snd (snd (wi_status v))), wi_second := Some 0\<rparr>
     else if state = ''Started'' then advanceProgressFor3rdStep ((updateLoadingMessage ''~3 seconds left'' v)\<lparr>wi_slow3 := True,
        wi_second := None, wi_loaded := (True, True, snd (snd (wi_loaded v))), wi_status := (DONE, DONE, LOADING)\<rparr>)
     else if state = ''Connected'' then (updateLoadingMessage ''Web Node is ready'' v)\<lparr>wi_third := None,
        wi_status := (DONE, DONE, DONE), wi_loaded := (True, True, True), wi_end := Some (wi_progress v)\<rparr>
     else v)"

definition slower_than_usual :: "bool \<Rightarrow> WebNodeInit \<Rightarrow> WebNodeInit" where
  "slower_than_usual waits v = (if \<not> wi_hasError v \<and> waits then (updateLoadingMessage ''Slower than usual'' v)\<lparr>wi_hasWarn := True\<rparr> else v)"

definition one_digit :: "rat \<Rightarrow> string" where
  "one_digit r = (let t = nat \<lfloor>r * 10 + 1 / 2\<rfloor> in nat_to_string (t div 10) @ CHR ''.'' # nat_to_string (t mod 10))"

definition fetchProgress :: "rat \<times> rat \<Rightarrow> WebNodeInit \<Rightarrow> WebNodeInit" where
  "fetchProgress progress v = (let v1 = v\<lparr>wi_downloadingMessage := ''Downloading '' @ one_digit (snd progress / 10 ^ 6) @ '' of ''
       @ one_digit (of_nat WASM_FILE_SIZE / 10 ^ 6) @ '' MB''\<rparr> in
     if wi_svg v then updateProgressBar (fst progress * first_weight v / 100) v1 else v1)"

datatype wi_event = WiView | WiDownload download_info | WiState string | WiSlow2 | WiSlow3 | WiTick2 | WiFast | WiTick3 | WiTickEnd
  | WiError string

fun wi_step :: "WebNodeInit \<Rightarrow> wi_event \<Rightarrow> WebNodeInit" where
  "wi_step v WiView = v\<lparr>wi_svg := True\<rparr>"
| "wi_step v (WiDownload d) = (if wi_listening v then fetchProgress (emitProgress d) v else v)"
| "wi_step v (WiState state) = (if wi_listening v then on_progress_state state v else v)"
| "wi_step v WiSlow2 = (if wi_slow2 v then slower_than_usual (fst (snd (wi_status v)) \<noteq> DONE) (v\<lparr>wi_slow2 := False\<rparr>) else v)"
| "wi_step v WiSlow3 = (if wi_slow3 v then slower_than_usual (snd (snd (wi_status v)) \<noteq> DONE) (v\<lparr>wi_slow3 := False\<rparr>) else v)"
| "wi_step v WiTick2 = (case wi_second v of None \<Rightarrow> v
     | Some k \<Rightarrow> if of_nat k / 8 < second_weight v - 1
         then updateProgressBar (first_weight v + of_nat (k + 1) / 8) (v\<lparr>wi_second := Some (k + 1)\<rparr>) else v)"
| "wi_step v WiFast = (case wi_fast v of None \<Rightarrow> v
     | Some (current, i, diff) \<Rightarrow> (let v1 = updateProgressBar (current + of_nat i) v in
         if of_nat (i + 1) < diff then v1\<lparr>wi_fast := Some (current, i + 1, diff)\<rparr> else v1\<lparr>wi_fast := None, wi_third := Some 0\<rparr>))"
| "wi_step v WiTick3 = (case wi_third v of None \<Rightarrow> v
     | Some k \<Rightarrow> if of_nat k / 8 < third_weight v - 1
         then updateProgressBar (first_weight v + second_weight v + of_nat (k + 1) / 8) (v\<lparr>wi_third := Some (k + 1)\<rparr>) else v)"
| "wi_step v WiTickEnd = (case wi_end v of None \<Rightarrow> v
     | Some p \<Rightarrow> if p \<le> 100 then updateProgressBar (p + 1) (v\<lparr>wi_end := Some (p + 1)\<rparr>) else v\<lparr>wi_end := None\<rparr>)"
| "wi_step v (WiError err) = (if err = [] \<or> \<not> wi_listening v then v
     else v\<lparr>wi_errors := wi_errors v @ [err], wi_loadingMessage := err, wi_hasError := True\<rparr>)"

text \<open>The page and the service together: what the service emits reaches the page.\<close>

datatype start_event = SeNode webnode_event | SePage wi_event

fun start_step :: "WebNodeService \<times> WebNodeInit \<Rightarrow> start_event \<Rightarrow> WebNodeService \<times> WebNodeInit" where
  "start_step (s, v) (SeNode e) = (case webnode_step s e of (s', outs) \<Rightarrow> (s', foldl (\<lambda>v state. wi_step v (WiState state)) v outs))"
| "start_step (s, v) (SePage e) = (s, wi_step v e)"

section \<open>The bar\<close>

lemma eighths_step:
  assumes "(of_nat k / 8 :: rat) < of_int w - 1"
  shows "(of_nat (k + 1) / 8 :: rat) \<le> of_int w - 1"
proof -
  have "(of_int (int k) :: rat) < of_int (8 * w - 8)" using assms by simp
  then have "int k + 1 \<le> 8 * w - 8" by (simp only: of_int_less_iff)
  then have "(of_int (int k + 1) :: rat) \<le> of_int (8 * w - 8)" by (simp only: of_int_le_iff)
  then show ?thesis by simp
qed

lemma toFixed_percent: "0 \<le> p \<Longrightarrow> p \<le> 100 \<Longrightarrow> 0 \<le> js_toFixed 2 p \<and> js_toFixed 2 p \<le> 100"
proof -
  assume p: "0 \<le> p" "p \<le> 100"
  then have "p * 10 ^ 2 + 1 / 2 < of_int 10001" by simp
  then have "\<lfloor>p * 10 ^ 2 + 1 / 2\<rfloor> < 10001" by (simp only: floor_less_iff)
  moreover have "0 \<le> \<lfloor>p * 10 ^ 2 + 1 / 2\<rfloor>" using p by simp
  ultimately show ?thesis using p unfolding js_toFixed_def by (auto simp: field_simps)
qed

definition percent_download :: "download_info \<Rightarrow> bool" where
  "percent_download d \<longleftrightarrow> 0 \<le> di_progress d \<and> di_progress d \<le> 100"

text \<open>The download stays within the percentages as long as the file is not larger than the constant says.\<close>

lemma download_received: "di_received (foldl download_step d es) = di_received d + sum_list (map (\<lambda>e. case e of DlChunk n \<Rightarrow> n | _ \<Rightarrow> 0) es)
    \<and> (di_progress d = of_nat (di_received d) / of_nat WASM_FILE_SIZE * 100 \<longrightarrow>
       di_progress (foldl download_step d es) = of_nat (di_received (foldl download_step d es)) / of_nat WASM_FILE_SIZE * 100)"
proof (induction es arbitrary: d)
  case (Cons e es)
  then show ?case using Cons.IH [of "download_step d e"] by (cases e) auto
qed simp

lemma download_percent:
  assumes "sum_list (map (\<lambda>e. case e of DlChunk n \<Rightarrow> n | _ \<Rightarrow> 0) es) \<le> WASM_FILE_SIZE"
  shows "percent_download (foldl download_step initial_download es)"
proof -
  have "di_progress (foldl download_step initial_download es) = of_nat (sum_list (map (\<lambda>e. case e of DlChunk n \<Rightarrow> n | _ \<Rightarrow> 0) es)) / of_nat WASM_FILE_SIZE * 100"
    using download_received [of initial_download es] by (simp add: initial_download_def)
  moreover have "(of_nat (sum_list (map (\<lambda>e. case e of DlChunk n \<Rightarrow> n | _ \<Rightarrow> 0) es)) :: rat) \<le> of_nat WASM_FILE_SIZE"
    using assms by (simp only: of_nat_le_iff)
  ultimately show ?thesis by (simp add: percent_download_def WASM_FILE_SIZE_def)
qed

definition weights_ok :: "int \<times> int \<times> int \<Rightarrow> bool" where
  "weights_ok w \<longleftrightarrow> 65 \<le> fst w \<and> fst w \<le> 79 \<and> 15 \<le> fst (snd w) \<and> fst (snd w) \<le> 16 \<and> fst w + fst (snd w) + snd (snd w) = 100"

lemma getStepPercentages_ok:
  assumes "0 \<le> r1" "r1 < 1" "0 \<le> r2" "r2 < 1"
  shows "weights_ok (getStepPercentages r1 r2)"
proof -
  have "0 \<le> \<lfloor>r1 * 15\<rfloor>" "0 \<le> \<lfloor>r2 * 2\<rfloor>" using assms by simp_all
  moreover have "r1 * 15 < of_int 15" "r2 * 2 < of_int 2" using assms by simp_all
  then have "\<lfloor>r1 * 15\<rfloor> < 15" "\<lfloor>r2 * 2\<rfloor> < 2" by (simp_all only: floor_less_iff)
  ultimately show ?thesis by (simp add: weights_ok_def getStepPercentages_def)
qed

text \<open>What each running timer keeps, and that the page is ready only after a peer is connected.\<close>

fun ticks_ok :: "rat \<Rightarrow> nat option \<Rightarrow> bool" where
  "ticks_ok bound None \<longleftrightarrow> True"
| "ticks_ok bound (Some k) \<longleftrightarrow> of_nat k / 8 \<le> bound"

fun fast_ok :: "rat \<Rightarrow> (rat \<times> nat \<times> rat) option \<Rightarrow> bool" where
  "fast_ok target None \<longleftrightarrow> True"
| "fast_ok target (Some (c, i, d)) \<longleftrightarrow> 0 \<le> c \<and> of_nat i < d \<and> c + d = target"

definition timers_ok :: "WebNodeInit \<Rightarrow> bool" where
  "timers_ok v \<longleftrightarrow> weights_ok (wi_percentages v) \<and> 0 \<le> wi_progress v \<and> wi_progress v \<le> 100
   \<and> ticks_ok (second_weight v - 1) (wi_second v) \<and> fast_ok (first_weight v + second_weight v - 1) (wi_fast v)
   \<and> ticks_ok (third_weight v - 1) (wi_third v) \<and> pred_option (\<lambda>p. 0 \<le> p) (wi_end v)"

definition start_inv :: "WebNodeService \<times> WebNodeInit \<Rightarrow> bool" where
  "start_inv sv \<longleftrightarrow> (case sv of (s, v) \<Rightarrow> timers_ok v \<and> wi_listening v
     \<and> (wi_end v \<noteq> None \<or> wi_ready v \<longrightarrow> wn_firstPeerConnected s)
     \<and> (wn_firstPeerConnected s \<longrightarrow> wn_phase s = Up \<and> wi_status v = (DONE, DONE, DONE)))"

fun page_timer :: "start_event \<Rightarrow> bool" where
  "page_timer (SePage (WiState state)) \<longleftrightarrow> False"
| "page_timer (SePage (WiDownload d)) \<longleftrightarrow> percent_download d"
| "page_timer _ \<longleftrightarrow> True"

text \<open>Updates of the bar below the end.\<close>

lemma bar_below:
  "0 \<le> x \<Longrightarrow> x < 100 \<Longrightarrow> updateProgressBar x v = v\<lparr>wi_progress := x\<rparr>"
  by (simp add: updateProgressBar_def)

lemma weights_rat:
  assumes "weights_ok w"
  shows "(65 :: rat) \<le> of_int (fst w)" "of_int (fst w) \<le> (79 :: rat)" "(15 :: rat) \<le> of_int (fst (snd w))"
    "of_int (fst (snd w)) \<le> (16 :: rat)" "of_int (fst w) + of_int (fst (snd w)) + of_int (snd (snd w)) = (100 :: rat)"
proof -
  have "of_int (fst w + fst (snd w) + snd (snd w)) = (of_int 100 :: rat)" using assms unfolding weights_ok_def by metis
  then show "of_int (fst w) + of_int (fst (snd w)) + of_int (snd (snd w)) = (100 :: rat)" by simp
qed (use assms in \<open>simp_all add: weights_ok_def\<close>)

lemma bar_inv: "start_inv (s, v) \<Longrightarrow> 0 \<le> x \<Longrightarrow> x < 100 \<Longrightarrow> start_inv (s, updateProgressBar x v)"
  by (simp add: bar_below start_inv_def timers_ok_def)

lemma message_inv: "start_inv (s, v) \<Longrightarrow> start_inv (s, v\<lparr>wi_downloadingMessage := m\<rparr>)"
  by (simp add: start_inv_def timers_ok_def)

lemma tick2_inv:
  assumes "start_inv (s, v)"
  shows "start_inv (s, wi_step v WiTick2)"
proof (cases "wi_second v")
  case (Some k)
  note w = weights_rat [of "wi_percentages v"]
  show ?thesis
  proof (cases "of_nat k / 8 < second_weight v - 1")
    case True
    from eighths_step [OF this] have k: "of_nat (k + 1) / 8 \<le> second_weight v - 1" .
    have "weights_ok (wi_percentages v)" using assms by (simp add: start_inv_def timers_ok_def)
    from w [OF this] k have "0 \<le> first_weight v + of_nat (k + 1) / 8" "first_weight v + of_nat (k + 1) / 8 < 100"
      using of_nat_0_le_iff [of "k + 1", where 'a = rat] by linarith+
    moreover have "start_inv (s, v\<lparr>wi_second := Some (k + 1)\<rparr>)" using assms k by (simp add: start_inv_def timers_ok_def)
    ultimately show ?thesis using bar_inv Some True by simp
  qed (use assms Some in simp)
qed (use assms in simp)

lemma tick3_inv:
  assumes "start_inv (s, v)"
  shows "start_inv (s, wi_step v WiTick3)"
proof (cases "wi_third v")
  case (Some k)
  note w = weights_rat [of "wi_percentages v"]
  show ?thesis
  proof (cases "of_nat k / 8 < third_weight v - 1")
    case True
    from eighths_step [OF this] have k: "of_nat (k + 1) / 8 \<le> third_weight v - 1" .
    have "weights_ok (wi_percentages v)" using assms by (simp add: start_inv_def timers_ok_def)
    from w [OF this] k
    have "0 \<le> first_weight v + second_weight v + of_nat (k + 1) / 8" "first_weight v + second_weight v + of_nat (k + 1) / 8 < 100"
      using of_nat_0_le_iff [of "k + 1", where 'a = rat] by linarith+
    moreover have "start_inv (s, v\<lparr>wi_third := Some (k + 1)\<rparr>)" using assms k by (simp add: start_inv_def timers_ok_def)
    ultimately show ?thesis using bar_inv Some True by simp
  qed (use assms Some in simp)
qed (use assms in simp)

lemma fast_inv:
  assumes "start_inv (s, v)"
  shows "start_inv (s, wi_step v WiFast)"
proof (cases "wi_fast v")
  case (Some f)
  obtain c i d where f: "f = (c, i, d)" by (cases f)
  note w = weights_rat [of "wi_percentages v"]
  have ok: "weights_ok (wi_percentages v)" "0 \<le> c" "of_nat i < d" "c + d = first_weight v + second_weight v - 1"
    using assms Some f by (simp_all add: start_inv_def timers_ok_def)
  then have "0 \<le> c + of_nat i" "c + of_nat i < 100" using w by auto
  from bar_below [OF this] show ?thesis using assms Some f ok w by (auto simp: start_inv_def timers_ok_def)
qed (use assms in simp)

lemma end_inv:
  assumes "start_inv (s, v)"
  shows "start_inv (s, wi_step v WiTickEnd)"
proof (cases "wi_end v")
  case (Some p)
  then show ?thesis using assms by (cases "p \<le> 100") (auto simp: start_inv_def timers_ok_def updateProgressBar_def)
qed (use assms in simp)

lemma download_inv:
  assumes "start_inv (s, v)" "percent_download d"
  shows "start_inv (s, wi_step v (WiDownload d))"
proof -
  let ?p = "js_toFixed 2 (di_progress d)"
  have p: "0 \<le> ?p" "?p \<le> 100" using toFixed_percent assms(2) by (auto simp: percent_download_def)
  have w: "weights_ok (wi_percentages v)" using assms(1) by (simp add: start_inv_def timers_ok_def)
  have "?p * first_weight v \<le> 100 * 79" using p weights_rat(1,2) [OF w] by (intro mult_mono) auto
  then have "0 \<le> ?p * first_weight v / 100" "?p * first_weight v / 100 < 100" using p weights_rat(1) [OF w] by auto
  from bar_inv [OF message_inv [OF assms(1)] this] message_inv [OF assms(1)] assms(1) show ?thesis
    unfolding wi_step.simps fetchProgress_def emitProgress_def Let_def fst_conv by (cases "wi_svg v") simp_all
qed

lemma slower_inv: "start_inv (s, v) \<Longrightarrow> start_inv (s, slower_than_usual b v)"
  by (auto simp: slower_than_usual_def updateLoadingMessage_def start_inv_def timers_ok_def)

lemma page_inv:
  assumes "start_inv (s, v)" "page_timer (SePage e)"
  shows "start_inv (s, wi_step v e)"
proof (cases e)
  case WiSlow2
  then show ?thesis using assms(1) slower_inv [of s "v\<lparr>wi_slow2 := False\<rparr>"] by (simp add: start_inv_def timers_ok_def)
next
  case WiSlow3
  then show ?thesis using assms(1) slower_inv [of s "v\<lparr>wi_slow3 := False\<rparr>"] by (simp add: start_inv_def timers_ok_def)
next
  case WiView
  then show ?thesis using assms(1) by (simp add: start_inv_def timers_ok_def)
next
  case (WiError err)
  then show ?thesis using assms(1) by (simp add: start_inv_def timers_ok_def)
next
  case (WiDownload d)
  then show ?thesis using assms download_inv [of s v d] by simp
qed (use assms tick2_inv tick3_inv fast_inv end_inv in \<open>auto simp del: wi_step.simps\<close>)

lemma node_inv:
  assumes "start_inv (s, v)"
  shows "start_inv (start_step (s, v) (SeNode e))"
proof -
  have ok: "timers_ok v" using assms by (simp add: start_inv_def)
  then have w: "15 \<le> second_weight v" using weights_rat(3) by (simp add: timers_ok_def)
  have w3: "5 \<le> third_weight v" using ok weights_rat [of "wi_percentages v"] by (simp add: timers_ok_def)
  show ?thesis
  proof (cases e)
    case WnInstantiated
    then show ?thesis using assms w
      by (auto simp: start_inv_def timers_ok_def on_progress_state_def updateLoadingMessage_def)
  next
    case WnRunning
    then show ?thesis using assms w3
      by (auto simp: start_inv_def timers_ok_def on_progress_state_def updateLoadingMessage_def advanceProgressFor3rdStep_def)
  next
    case (WnPeers up)
    then show ?thesis using assms
      by (auto simp: start_inv_def timers_ok_def on_progress_state_def updateLoadingMessage_def)
  qed (use assms in \<open>auto simp: start_inv_def\<close>)
qed

definition random_draw :: "rat \<Rightarrow> bool" where
  "random_draw r \<longleftrightarrow> 0 \<le> r \<and> r < 1"

definition start_page :: "rat \<Rightarrow> rat \<Rightarrow> WebNodeService \<times> WebNodeInit" where
  "start_page r1 r2 = (initial_service, wi_fresh (r1 - of_int \<lfloor>r1\<rfloor>) (r2 - of_int \<lfloor>r2\<rfloor>))"

lemma frac_draw: "random_draw (r - of_int \<lfloor>r\<rfloor>)"
  unfolding random_draw_def by linarith

interpretation start: slice "start_page r1 r2" start_step start_inv page_timer for r1 r2
proof
  have "weights_ok (getStepPercentages (r1 - of_int \<lfloor>r1\<rfloor>) (r2 - of_int \<lfloor>r2\<rfloor>))"
    using getStepPercentages_ok frac_draw [of r1] frac_draw [of r2] by (simp add: random_draw_def)
  then show "start_inv (start_page r1 r2)"
    by (simp add: start_page_def start_inv_def timers_ok_def wi_fresh_def initial_service_def)
next
  fix sv e assume sv: "start_inv sv" "page_timer e"
  obtain s v where "sv = (s, v)" by force
  then show "start_inv (start_step sv e)" using sv page_inv [of s v] node_inv [of s v] by (cases e) auto
qed

lemma opened_start_page:
  assumes "random_draw r1" "random_draw r2"
  shows "start_page r1 r2 = (initial_service, wi_fresh r1 r2)"
proof -
  have "\<lfloor>r1\<rfloor> = 0" "\<lfloor>r2\<rfloor> = 0" using assms by (simp_all add: random_draw_def floor_eq_iff)
  then show ?thesis by (simp add: start_page_def)
qed

text \<open>Without a module nothing has started; a page opened with one stays as it was opened.\<close>

abbreviation service_after :: "webnode_event list \<Rightarrow> WebNodeService" where
  "service_after ns \<equiv> foldl (\<lambda>s e. fst (webnode_step s e)) initial_service ns"

lemma service_without_module: "\<not> wn_module (service_after ns) \<Longrightarrow> service_after ns = initial_service"
proof (induction ns rule: rev_induct)
  case (snoc e ns)
  let ?s = "service_after ns"
  have "wn_module ?s \<longrightarrow> wn_module (fst (webnode_step ?s e))" by (cases e) auto
  then have "?s = initial_service" using snoc by simp
  then show ?case using snoc.prems by (cases e) (simp_all add: initial_service_def)
qed simp

definition loaded_page :: "WebNodeInit \<Rightarrow> bool" where
  "loaded_page v \<longleftrightarrow> \<not> wi_listening v \<and> wi_ready v \<and> wi_status v = (DONE, DONE, DONE) \<and> wi_progress v = 0
     \<and> wi_second v = None \<and> wi_fast v = None \<and> wi_third v = None \<and> wi_end v = None \<and> \<not> wi_slow2 v \<and> \<not> wi_slow3 v"

lemma loaded_page_step: "loaded_page (snd sv) \<Longrightarrow> loaded_page (snd (start_step sv e))"
proof -
  assume v: "loaded_page (snd sv)"
  have "loaded_page (foldl (\<lambda>v state. wi_step v (WiState state)) w outs)" if "loaded_page w" for w outs
    using that by (induction outs arbitrary: w) (auto simp: loaded_page_def)
  moreover have "loaded_page (wi_step w ev)" if "loaded_page w" for w ev
    using that by (cases ev) (auto simp: loaded_page_def)
  ultimately show ?thesis using v by (cases sv; cases e) (auto split: prod.splits)
qed

lemma loaded_page_run: "loaded_page (snd sv) \<Longrightarrow> loaded_page (snd (foldl start_step sv es))"
  by (induction es arbitrary: sv) (simp_all add: loaded_page_step)

text \<open>
  C12: The page of the start is opened after any events of the node, and then anything happens, in any
  order, of timers, chunks of the download, errors and events of the node, whose module is started once
  and whose file is not larger than the size the page assumes. Then the bar shows a percentage at every
  moment, and the button to the dashboard is enabled only when all three steps are done, and only once
  a peer is connected, or if the module was there already when the page was opened: then it is enabled
  from the beginning, connected or not.
\<close>

theorem ready_when_connected:
  assumes "random_draw r1" "random_draw r2" "list_all page_timer es"
    and "wi_open True (isWebNodeLoaded (service_after ns)) r1 r2 = Some v0"
    and "foldl start_step (service_after ns, v0) es = (s, v)"
  shows "0 \<le> wi_progress v \<and> wi_progress v \<le> 100
    \<and> (wi_ready v \<longrightarrow> wi_status v = (DONE, DONE, DONE)
        \<and> (wn_firstPeerConnected s \<or> isWebNodeLoaded (service_after ns)))
    \<and> (isWebNodeLoaded (service_after ns) \<longrightarrow> wi_ready v)"
proof (cases "isWebNodeLoaded (service_after ns)")
  case True
  then have "loaded_page v0" using assms(4) by (auto simp: wi_open_def loaded_page_def wi_fresh_def)
  with loaded_page_run [of "(service_after ns, v0)" es] have "loaded_page v" by (simp add: assms(5))
  then show ?thesis using True by (simp add: loaded_page_def)
next
  case False
  then have "service_after ns = initial_service" by (intro service_without_module) (simp add: isWebNodeLoaded_def)
  moreover have "v0 = wi_fresh r1 r2" using assms(4) False by (simp add: wi_open_def)
  ultimately have "foldl start_step (start_page r1 r2) es = (s, v)"
    using assms(5) opened_start_page [OF assms(1,2)] by simp
  with start.foldl_inv [OF assms(3), of r1 r2] False show ?thesis by (simp add: start_inv_def timers_ok_def)
qed

definition sample_start :: "start_event list" where
  "sample_start = [SePage WiView, SeNode WnModule, SeNode WnStart, SeNode WnInstantiated, SePage WiTick2, SeNode WnRunning,
     SeNode (WnPeers True)]"

text \<open>A page opened before the module is there, and one opened after its start has failed.\<close>

theorem ready_when_connected_witness:
  "(\<exists>s v. foldl start_step (service_after [], wi_fresh 0 (1 / 2)) sample_start = (s, v)
      \<and> 0 \<le> wi_progress v \<and> wi_progress v \<le> 100 \<and> \<not> wi_ready v)
   \<and> (\<exists>s v v0. wi_open True True 0 (1 / 2) = Some v0
      \<and> foldl start_step (service_after [WnModule, WnStart, WnFailed], v0) [SePage WiView] = (s, v)
      \<and> wi_ready v \<and> \<not> wn_firstPeerConnected s)"
proof
  obtain s v where sv: "foldl start_step (service_after [], wi_fresh 0 (1 / 2)) sample_start = (s, v)" by force
  have r: "random_draw 0" "random_draw (1 / 2)" "list_all page_timer sample_start"
    by (simp_all add: random_draw_def sample_start_def)
  have "wi_open True (isWebNodeLoaded (service_after [])) 0 (1 / 2) = Some (wi_fresh 0 (1 / 2))"
    by (simp add: wi_open_def isWebNodeLoaded_def initial_service_def)
  from ready_when_connected [OF r this sv] have "0 \<le> wi_progress v" "wi_progress v \<le> 100" by auto
  moreover have "\<not> wi_ready v" using sv
    by (auto simp: sample_start_def initial_service_def wi_fresh_def getStepPercentages_def on_progress_state_def
      updateLoadingMessage_def advanceProgressFor3rdStep_def updateProgressBar_def)
  ultimately show "\<exists>s v. foldl start_step (service_after [], wi_fresh 0 (1 / 2)) sample_start = (s, v)
      \<and> 0 \<le> wi_progress v \<and> wi_progress v \<le> 100 \<and> \<not> wi_ready v" using sv by blast
next
  let ?ns = "[WnModule, WnStart, WnFailed]"
  have loaded: "isWebNodeLoaded (service_after ?ns)" "\<not> wn_firstPeerConnected (service_after ?ns)"
    by (simp_all add: isWebNodeLoaded_def initial_service_def)
  obtain v0 where v0: "wi_open True (isWebNodeLoaded (service_after ?ns)) 0 (1 / 2) = Some v0" by (simp add: wi_open_def)
  obtain s v where sv: "foldl start_step (service_after ?ns, v0) [SePage WiView] = (s, v)" by force
  then have "\<not> wn_firstPeerConnected s" using loaded by auto
  moreover have "random_draw 0" "random_draw (1 / 2)" "list_all page_timer [SePage WiView]" by (simp_all add: random_draw_def)
  from ready_when_connected [OF this v0 sv] have "wi_ready v" using loaded by blast
  ultimately show "\<exists>s v v0. wi_open True True 0 (1 / 2) = Some v0
      \<and> foldl start_step (service_after ?ns, v0) [SePage WiView] = (s, v) \<and> wi_ready v \<and> \<not> wn_firstPeerConnected s"
    using v0 sv loaded(1) by auto
qed

text \<open>A file so large that its share of the bar passes the end enables the button during the download.\<close>

lemma oversized_download_enables:
  assumes "wi_listening v" "wi_svg v" "100 \<le> js_toFixed 2 (di_progress d) * first_weight v / 100"
  shows "wi_ready (wi_step v (WiDownload d))"
  using assms by (simp add: fetchProgress_def emitProgress_def updateProgressBar_def)

section \<open>A connection during the catching up sets the bar back\<close>

lemma end_ticks:
  "wi_end v = Some p \<Longrightarrow> 100 < p + of_nat n \<Longrightarrow> p \<le> 100 \<Longrightarrow>
   \<exists>v'. foldl wi_step v (replicate n WiTickEnd) = v' \<and> wi_ready v' \<and> wi_fast v' = wi_fast v \<and> wi_percentages v' = wi_percentages v"
proof (induction n arbitrary: v p)
  case (Suc n)
  let ?v = "wi_step v WiTickEnd"
  have v: "wi_end ?v = Some (p + 1)" "wi_fast ?v = wi_fast v" "wi_percentages ?v = wi_percentages v" "99 < p \<Longrightarrow> wi_ready ?v"
    using Suc.prems by (auto simp: updateProgressBar_def)
  show ?case
  proof (cases "p + 1 \<le> 100")
    case True
    then show ?thesis using Suc.IH [OF v(1)] Suc.prems v by simp
  next
    case False
    have keep: "wi_ready (foldl wi_step w (replicate k WiTickEnd)) \<and> wi_fast (foldl wi_step w (replicate k WiTickEnd)) = wi_fast w
      \<and> wi_percentages (foldl wi_step w (replicate k WiTickEnd)) = wi_percentages w" if "wi_ready w" for w k
      using that by (induction k arbitrary: w) (auto simp: updateProgressBar_def split: option.splits)
    show ?thesis using keep [of ?v n] v False by simp
  qed
qed simp

text \<open>
  The interval of the third step is started at the end of the loop that catches up, even if the node
  has connected meanwhile, when there was nothing yet to stop: after the bar has reached its end and the
  button is enabled, it falls back and counts up to 99 again.
\<close>

theorem late_interval_sets_back:
  assumes "wi_listening v" "wi_fast v = Some (c, i, d)" "d \<le> of_nat (i + 1)" "weights_ok (wi_percentages v)" "0 \<le> wi_progress v" "wi_progress v \<le> 100"
  shows "\<exists>n v'. foldl wi_step v (WiState ''Connected'' # replicate n WiTickEnd @ [WiFast, WiTick3]) = v'
    \<and> wi_ready v' \<and> wi_progress v' = first_weight v + second_weight v + 1 / 8 \<and> wi_progress v' < 100"
proof -
  let ?v = "wi_step v (WiState ''Connected'')"
  have end0: "wi_end ?v = Some (wi_progress v)" "wi_fast ?v = wi_fast v" "wi_percentages ?v = wi_percentages v"
    using assms(1) by (simp_all add: on_progress_state_def updateLoadingMessage_def)
  have "100 < wi_progress v + of_nat 101" using assms(5) by simp
  from end_ticks [OF end0(1) this assms(6)] obtain v1 where v1: "foldl wi_step ?v (replicate 101 WiTickEnd) = v1" "wi_ready v1"
    "wi_fast v1 = wi_fast v" "wi_percentages v1 = wi_percentages v" using end0(2,3) by auto
  let ?v2 = "wi_step v1 WiFast"
  have v2: "wi_third ?v2 = Some 0" "wi_ready ?v2" "wi_percentages ?v2 = wi_percentages v"
    using v1 assms(2,3) by (auto simp: updateProgressBar_def)
  have w: "first_weight v + second_weight v + third_weight v = 100" "first_weight v \<le> 79" "second_weight v \<le> 16"
    using weights_rat [OF assms(4)] by auto
  then have below: "first_weight v + second_weight v + 1 / 8 < 100" and third: "(0 :: rat) < third_weight v - 1" by linarith+
  have "wi_ready (wi_step ?v2 WiTick3) \<and> wi_progress (wi_step ?v2 WiTick3) = first_weight v + second_weight v + 1 / 8"
    using v2 below third by (simp add: updateProgressBar_def)
  then show ?thesis using v1(1) below by (intro exI [of _ 101] exI [of _ "wi_step ?v2 WiTick3"]) simp
qed

theorem late_interval_sets_back_witness:
  "\<exists>n. wi_progress (foldl wi_step ((wi_fresh 0 0)\<lparr>wi_fast := Some (78, 0, 1), wi_progress := 78\<rparr>)
     (WiState ''Connected'' # replicate n WiTickEnd @ [WiFast, WiTick3])) = 80 + 1 / 8"
proof -
  let ?v = "(wi_fresh 0 0)\<lparr>wi_fast := Some (78, 0, 1), wi_progress := 78\<rparr>"
  have "wi_listening ?v" "wi_fast ?v = Some (78, 0, 1)" "(1 :: rat) \<le> of_nat (0 + 1)" "weights_ok (wi_percentages ?v)" "0 \<le> wi_progress ?v" "wi_progress ?v \<le> 100"
    by (simp_all add: wi_fresh_def getStepPercentages_def weights_ok_def)
  from late_interval_sets_back [OF this] show ?thesis by (auto simp: wi_fresh_def getStepPercentages_def)
qed

section \<open>Requests, keys and the network\<close>

text \<open>Every stream a request of a web node is routed to is answered by a call on the module.\<close>

lemma web_streams_served:
  "getFromWebNode path = Inr (WebStream s) \<or> postToWebNode path = Inr (WebStream s) \<Longrightarrow> map_of webnode_calls s \<noteq> None"
  by (auto simp: getFromWebNode_def postToWebNode_def web_streams_def webnode_calls_def split: if_splits option.splits)

text \<open>The slot of a path is a number when it reads as one; an empty one reads as 0.\<close>

lemma actions_slot_examples:
  "actions_slot ''/stats/actions?id=12'' = SlotNumber 12" "actions_slot ''/stats/actions?id=latest'' = SlotText ''latest''"
  "actions_slot ''/stats/actions?id='' = SlotNumber 0" "actions_slot ''/stats/actions'' = SlotUndefined"
  by code_simp+

text \<open>The network of the configuration reaches nothing: the arguments of the module do not depend on it.\<close>

lemma network_unused: "run_arguments seeds boot (cfg\<lparr>wc_network := n\<rparr>) = run_arguments seeds boot cfg"
  by (simp add: run_arguments_def)

text \<open>After a failed upload a correct archive is refused as well, until the files are cleared.\<close>

lemma failed_upload_sticks: "fu_error v \<Longrightarrow> fu_error (onFileSelected parse name failed files v)
    \<and> fu_config (onFileSelected parse name failed files v) = fu_config v"
  by (simp add: onFileSelected_def)

end
