(* ===== verification/NodesLive.thy ===== *)
theory NodesLive
  imports NodesOverview
begin

text \<open>
  The live page of a node (\<open>features/nodes/live\<close>): the events of the blocks of each best tip, the
  slice with the tips and the filtered events of the active one, its effect and the buttons of the
  toolbar. The tips come from the service of the overview.
\<close>

section \<open>The service\<close>

record NodesLiveBlockEvent =
  le_datetime :: string
  le_timestamp :: int
  le_height :: "int option"
  le_message :: NodesOverviewNodeBlockStatus
  le_status :: string
  le_elapsed :: "int option"
  le_isBestTip :: bool

record NodesLiveNode = NodesOverviewNode +
  nl_index :: nat
  nl_events :: "NodesLiveBlockEvent list"

text \<open>The event of a block at a time, if it has come to that time.\<close>

definition live_event ::
  "(rat \<Rightarrow> string) \<Rightarrow> bool \<Rightarrow> int option \<Rightarrow> int option \<Rightarrow> NodesOverviewNodeBlockStatus \<Rightarrow> string \<Rightarrow> int option \<Rightarrow> NodesLiveBlockEvent list" where
  "live_event rd isBestTip height time message status elapsed = (if \<not> truthy_int time then []
     else [\<lparr>le_datetime = rd (of_int (the time) / of_int ONE_MILLION), le_timestamp = the time, le_height = height,
       le_message = message, le_status = status, le_elapsed = elapsed, le_isBestTip = isBestTip\<rparr>])"

definition block_events :: "(rat \<Rightarrow> string) \<Rightarrow> bool \<Rightarrow> NodesOverviewBlock \<Rightarrow> NodesLiveBlockEvent list" where
  "block_events rd isBestTip block =
     live_event rd isBestTip (nb_height block) (nb_fetchStart block) FETCHING ''Started'' None
   @ live_event rd isBestTip (nb_height block) (nb_fetchEnd block) FETCHED ''Completed'' (nb_fetchDuration block)
   @ live_event rd isBestTip (nb_height block) (nb_applyStart block) APPLYING ''Started'' None
   @ live_event rd isBestTip (nb_height block) (nb_applyEnd block) APPLIED ''Completed'' (nb_applyDuration block)"

definition getEvents :: "(rat \<Rightarrow> string) \<Rightarrow> NodesOverviewNode \<Rightarrow> NodesLiveBlockEvent list" where
  "getEvents rd node = concat (map (\<lambda>(index, block). block_events rd (index = 0) block) (enumerate 0 (no_blocks node)))"

definition getLiveNodeTips ::
  "(rat \<Rightarrow> string) \<Rightarrow> int \<Rightarrow> string \<Rightarrow> (raw_tip list \<times> node_details option) option \<Rightarrow> NodesLiveNode list" where
  "getLiveNodeTips rd now name answers = map (\<lambda>(index, node). NodesOverviewNode.extend node (NodesLiveNode.fields index (getEvents rd node)))
     (enumerate 0 (rev (filter (\<lambda>n. no_kind n \<noteq> ''Offline'') (getNodeTips rd now name answers))))"

section \<open>The slice\<close>

datatype live_event_col = LeDatetime | LeTimestamp | LeHeight | LeMessage | LeStatus | LeElapsed | LeIsBestTip

fun block_status_text :: "NodesOverviewNodeBlockStatus \<Rightarrow> string" where
  "block_status_text APPLIED = ''Applied''"
| "block_status_text APPLYING = ''Applying''"
| "block_status_text FETCHED = ''Fetched''"
| "block_status_text FETCHING = ''Fetching''"
| "block_status_text MISSING = ''Missing''"

fun get_live_event :: "live_event_col \<Rightarrow> NodesLiveBlockEvent \<Rightarrow> jsval" where
  "get_live_event LeDatetime e = JStr (le_datetime e)"
| "get_live_event LeTimestamp e = of_i (le_timestamp e)"
| "get_live_event LeHeight e = of_int_opt (le_height e)"
| "get_live_event LeMessage e = JStr (block_status_text (le_message e))"
| "get_live_event LeStatus e = JStr (le_status e)"
| "get_live_event LeElapsed e = of_int_opt (le_elapsed e)"
| "get_live_event LeIsBestTip e = JBool (le_isBestTip e)"

record NodesLiveState =
  nls_nodes :: "NodesLiveNode list"
  nls_activeNode :: "NodesLiveNode option"
  nls_openSidePanel :: bool
  nls_sort :: "live_event_col TableSort"
  nls_filteredEvents :: "NodesLiveBlockEvent list"
  nls_filters :: "string list"

datatype NodesLiveActions =
    NL_INIT
  | NL_GET_NODES bool
  | NL_GET_NODES_SUCCESS "NodesLiveNode list"
  | NL_SORT_EVENTS "live_event_col TableSort"
  | NL_SET_ACTIVE_NODE string
  | NL_TOGGLE_SIDE_PANEL
  | NL_TOGGLE_FILTER string
  | NL_CLOSE

definition initial_nodes_live :: "bool \<Rightarrow> NodesLiveState" where
  "initial_nodes_live isDesktop = \<lparr>nls_nodes = [], nls_activeNode = None, nls_openSidePanel = isDesktop,
     nls_sort = \<lparr>sortBy = LeTimestamp, sortDirection = DSC\<rparr>, nls_filteredEvents = [], nls_filters = []\<rparr>"

definition sort_live_events ::
  "(string \<Rightarrow> string \<Rightarrow> rat) \<Rightarrow> NodesLiveBlockEvent list \<Rightarrow> live_event_col TableSort \<Rightarrow> NodesLiveBlockEvent list" where
  "sort_live_events lc events tableSort = ArrayHelper.sort lc get_live_event events tableSort [LeMessage, LeStatus] False"

definition block_statuses :: "string list" where
  "block_statuses = map block_status_text [APPLIED, APPLYING, FETCHED, FETCHING, MISSING]"

definition filterEvents :: "NodesLiveBlockEvent list \<Rightarrow> string list \<Rightarrow> NodesLiveBlockEvent list" where
  "filterEvents events filters = (if filters = [] then events
     else (let events = (if ''best tip'' \<in> set filters then filter le_isBestTip events else events) in
       if list_ex (\<lambda>f. f \<in> set block_statuses) filters
       then filter (\<lambda>event. block_status_text (le_message event) \<in> set filters) events else events))"

definition shown_events ::
  "(string \<Rightarrow> string \<Rightarrow> rat) \<Rightarrow> NodesLiveNode \<Rightarrow> live_event_col TableSort \<Rightarrow> string list \<Rightarrow> NodesLiveBlockEvent list" where
  "shown_events lc node srt filters = filterEvents (sort_live_events lc (nl_events node) srt) filters"

text \<open>Two actions read the events of the active node, which throws when there is none.\<close>

fun nodesLiveReducer ::
  "(string \<Rightarrow> string \<Rightarrow> rat) \<Rightarrow> bool \<Rightarrow> NodesLiveState \<Rightarrow> NodesLiveActions \<Rightarrow> NodesLiveState result" where
  "nodesLiveReducer lc d state (NL_GET_NODES_SUCCESS payload) =
     (let activeNode = (case nls_activeNode state of Some a \<Rightarrow> find (\<lambda>node. no_bestTip node = no_bestTip a) payload | None \<Rightarrow> lastItem payload) in
      Inr (state\<lparr>nls_nodes := payload, nls_activeNode := activeNode, nls_filteredEvents := (case activeNode of
        None \<Rightarrow> filterEvents (sort_live_events lc [] (nls_sort state)) (nls_filters state)
      | Some node \<Rightarrow> shown_events lc node (nls_sort state) (nls_filters state))\<rparr>))"
| "nodesLiveReducer lc d state (NL_SET_ACTIVE_NODE hash) = (case find (\<lambda>node. no_bestTip node = Some hash) (nls_nodes state) of
      None \<Rightarrow> Inr state
    | Some node \<Rightarrow> Inr (state\<lparr>nls_activeNode := Some node, nls_filteredEvents := shown_events lc node (nls_sort state) (nls_filters state)\<rparr>))"
| "nodesLiveReducer lc d state (NL_SORT_EVENTS srt) = (case nls_activeNode state of
      None \<Rightarrow> Inl (TypeError ''events'')
    | Some node \<Rightarrow> Inr (state\<lparr>nls_sort := srt, nls_filteredEvents := shown_events lc node srt (nls_filters state)\<rparr>))"
| "nodesLiveReducer lc d state NL_TOGGLE_SIDE_PANEL = Inr (state\<lparr>nls_openSidePanel := \<not> nls_openSidePanel state,
      nls_activeNode := (if nls_openSidePanel state then None else nls_activeNode state)\<rparr>)"
| "nodesLiveReducer lc d state (NL_TOGGLE_FILTER payload) = (let filters = toggle (nls_filters state) payload in
     case nls_activeNode state of
      None \<Rightarrow> Inl (TypeError ''events'')
    | Some node \<Rightarrow> Inr (state\<lparr>nls_filters := filters, nls_filteredEvents := shown_events lc node (nls_sort state) filters\<rparr>))"
| "nodesLiveReducer lc d state NL_CLOSE = Inr (initial_nodes_live d)"
| "nodesLiveReducer lc d state _ = Inr state"

section \<open>The effect and the toolbar\<close>

text \<open>
  \<open>getNodes$\<close>, with the name of the active node: the service always answers. A close passes only while
  no request is pending, when there is nothing to cancel.
\<close>

fun nodes_live_effect ::
  "(rat \<Rightarrow> string) \<Rightarrow> int \<Rightarrow> string gate \<Rightarrow> (NodesLiveActions \<times> string, (raw_tip list \<times> node_details option) option) effect_event
    \<Rightarrow> string gate \<times> NodesLiveActions list" where
  "nodes_live_effect rd now g (Trigger (NL_GET_NODES force, name)) =
     (if force \<or> \<not> busy g then (\<lparr>busy = True, inflight = Some name\<rparr>, []) else (g, []))"
| "nodes_live_effect rd now g (Trigger (NL_CLOSE, name)) = (if busy g then (g, []) else (g\<lparr>inflight := None\<rparr>, []))"
| "nodes_live_effect rd now g (Trigger _) = (g, [])"
| "nodes_live_effect rd now g (Reply answers) = (case inflight g of None \<Rightarrow> (g, [])
     | Some name \<Rightarrow> (idle_gate, [NL_GET_NODES_SUCCESS (getLiveNodeTips rd now name answers)]))"
| "nodes_live_effect rd now g (Failure err) = (case inflight g of None \<Rightarrow> (g, [])
     | Some name \<Rightarrow> (idle_gate, [NL_GET_NODES_SUCCESS (getLiveNodeTips rd now name None)]))"

text \<open>The tip the buttons of the toolbar select, next to that of the node shown.\<close>

definition neighbour_tip :: "int \<Rightarrow> NodesLiveNode list \<Rightarrow> NodesLiveNode \<Rightarrow> string option option" where
  "neighbour_tip step nodes node = (let index = js_findIndex (\<lambda>n. no_bestTip n = no_bestTip node) nodes in
     map_option no_bestTip (js_nth nodes (index + step)))"

section \<open>Every time of a block is an event\<close>

lemma block_events_times:
  "map le_timestamp (block_events rd best b) = map the (filter truthy_int [nb_fetchStart b, nb_fetchEnd b, nb_applyStart b, nb_applyEnd b])"
  by (simp add: block_events_def live_event_def)

lemma block_events_tip: "e \<in> set (block_events rd best b) \<Longrightarrow> le_isBestTip e = best"
  by (auto simp: block_events_def live_event_def split: if_splits)

lemma getEvents_enumerate:
  "map le_timestamp (concat (map (\<lambda>(i, b). block_events rd (i = 0) b) (enumerate k bs)))
     = concat (map (\<lambda>b. map the (filter truthy_int [nb_fetchStart b, nb_fetchEnd b, nb_applyStart b, nb_applyEnd b])) bs)"
  by (induction bs arbitrary: k) (simp_all add: block_events_times del: filter.simps)

text \<open>The events of a node are the times its blocks have come to, block by block and in the order of the steps.\<close>

lemma getEvents_times:
  "map le_timestamp (getEvents rd node)
     = concat (map (\<lambda>b. map the (filter truthy_int [nb_fetchStart b, nb_fetchEnd b, nb_applyStart b, nb_applyEnd b])) (no_blocks node))"
  unfolding getEvents_def by (rule getEvents_enumerate)

section \<open>The table of the events\<close>

interpretation live_columns: table_columns get_live_event "[LeMessage, LeStatus]"
  by unfold_locales auto

definition live_inv :: "(string \<Rightarrow> string \<Rightarrow> rat) \<Rightarrow> NodesLiveState \<Rightarrow> bool" where
  "live_inv lc s \<longleftrightarrow> (\<forall>node. nls_activeNode s = Some node \<longrightarrow>
     node \<in> set (nls_nodes s) \<and> nls_filteredEvents s = shown_events lc node (nls_sort s) (nls_filters s))"

lemma lastItem_in: "lastItem xs = Some x \<Longrightarrow> x \<in> set xs"
  unfolding lastItem_def by (rule js_nth_mem)

interpretation nodes_live: partial_slice "initial_nodes_live d" "nodesLiveReducer lc d" "live_inv lc" "\<lambda>_. True" for lc d
proof
  show "live_inv lc (initial_nodes_live d)" by (simp add: live_inv_def initial_nodes_live_def)
  fix s a s'
  assume s: "live_inv lc s" "nodesLiveReducer lc d s a = Inr s'"
  show "live_inv lc s'"
  proof (cases a)
    case (NL_GET_NODES_SUCCESS payload)
    then show ?thesis using s(2) by (auto simp: live_inv_def find_Some_iff lastItem_in split: option.splits)
  next
    case (NL_SET_ACTIVE_NODE hash)
    then show ?thesis using s by (auto simp: live_inv_def find_Some_iff split: option.splits)
  qed (use s in \<open>auto simp: live_inv_def initial_nodes_live_def split: option.splits if_splits\<close>)
qed

text \<open>
  C30: While a tip is active, it is one of the tips loaded last, and the table shows its events, sorted
  and filtered as the page says, after any sequence of actions that does not throw. An action throws
  exactly when it sorts or filters while no tip is active.
\<close>

theorem live_events_table:
  assumes "run_reducer (nodesLiveReducer lc d) (initial_nodes_live d) as = Inr s"
  shows "(\<forall>node. nls_activeNode s = Some node \<longrightarrow> node \<in> set (nls_nodes s)
      \<and> nls_filteredEvents s = filterEvents (sort_live_events lc (nl_events node) (nls_sort s)) (nls_filters s))
    \<and> ((\<exists>e. nodesLiveReducer lc d s a = Inl e) \<longleftrightarrow>
        nls_activeNode s = None \<and> ((\<exists>srt. a = NL_SORT_EVENTS srt) \<or> (\<exists>f. a = NL_TOGGLE_FILTER f)))"
proof -
  have "live_inv lc s" using nodes_live.run_inv [OF _ assms] by (simp add: list_all_iff)
  moreover have "(\<exists>e. nodesLiveReducer lc d s a = Inl e) \<longleftrightarrow>
      nls_activeNode s = None \<and> ((\<exists>srt. a = NL_SORT_EVENTS srt) \<or> (\<exists>f. a = NL_TOGGLE_FILTER f))"
    by (cases a) (auto split: option.splits)
  ultimately show ?thesis by (simp add: live_inv_def shown_events_def)
qed

theorem live_events_table_witness:
  "\<exists>e. nodesLiveReducer code_unit_compare True (initial_nodes_live True) (NL_TOGGLE_FILTER ''best tip'') = Inl e"
proof -
  have "run_reducer (nodesLiveReducer code_unit_compare True) (initial_nodes_live True) [] = Inr (initial_nodes_live True)" by simp
  from live_events_table [OF this, of "NL_TOGGLE_FILTER ''best tip''"] show ?thesis by (auto simp: initial_nodes_live_def)
qed

section \<open>A late answer fills a closed page\<close>

text \<open>The close of the page does not cancel a pending request: its answer still reaches the slice.\<close>

lemma live_close_keeps_request:
  "snd (run_effect (nodes_live_effect rd now) idle_gate [Trigger (NL_GET_NODES False, name), Trigger (NL_CLOSE, name), Reply answers])
     = [NL_GET_NODES_SUCCESS (getLiveNodeTips rd now name answers)]"
  by (simp add: idle_gate_def)

end
