(* ===== verification/NodeDht.thy ===== *)
theory NodeDht
  imports AppShell
begin

text \<open>
  The routing table of a node (\<open>features/network/node-dht\<close>): the service with the distances of the
  peers, the slice, its effect, and the line that places the peers by their distance.
\<close>

section \<open>The service\<close>

record dht_entry =
  de_peer_id :: string
  de_libp2p :: string
  de_key :: string
  de_dist :: string
  de_addrs :: "string list"
  de_connection :: string

record dht_bucket =
  db_max_dist :: string
  db_entries :: "dht_entry list"

text \<open>The distance from the node itself is shown as a dash (\<open>None\<close>).\<close>

record NetworkNodeDhtPeer =
  np_peerId :: string
  np_key :: string
  np_addressesLength :: nat
  np_addrs :: "string list"
  np_libp2p :: string
  np_connection :: string
  np_hexDistance :: string
  np_binaryDistance :: string
  np_xorDistance :: "nat option"
  np_bucketMaxHex :: string
  np_bucketIndex :: nat

record NetworkNodeDhtBucket =
  nk_peers :: nat
  nk_maxCapacity :: nat
  nk_bucketMaxHex :: string

definition hex_bigint :: "string \<Rightarrow> nat result" where
  "hex_bigint hex = (case read_digits 16 (drop 2 (js_trim (''0x'' @ hex))) of
      Some n \<Rightarrow> Inr n | None \<Rightarrow> Inl (SyntaxError (''0x'' @ hex)))"

text \<open>\<open>toString(2)\<close>.\<close>

fun binary_text :: "nat \<Rightarrow> string" where
  "binary_text n = (if n < 2 then [if n = 1 then CHR ''1'' else CHR ''0'']
     else binary_text (n div 2) @ [if n mod 2 = 1 then CHR ''1'' else CHR ''0''])"

declare binary_text.simps [simp del]

definition hexToBinary :: "string \<Rightarrow> string result" where
  "hexToBinary hex = js_bind (hex_bigint hex) (\<lambda>n. let b = binary_text n in Inr (replicate (256 - length b) (CHR ''0'') @ b))"

definition getNumberOfZerosUntilFirst1 :: "string \<Rightarrow> nat" where
  "getNumberOfZerosUntilFirst1 binaryString = length (takeWhile (\<lambda>c. c = CHR ''0'') binaryString)"

definition is_capital :: "char \<Rightarrow> bool" where
  "is_capital c \<longleftrightarrow> 65 \<le> char_code c \<and> char_code c \<le> 90"

definition convertConnectionType :: "string \<Rightarrow> string" where
  "convertConnectionType connection = js_trim (concat (map (\<lambda>c. if is_capital c then [CHR '' '', c] else [c]) connection))"

definition dht_peer :: "string \<Rightarrow> string \<Rightarrow> nat \<Rightarrow> dht_entry \<Rightarrow> NetworkNodeDhtPeer result" where
  "dht_peer this_key max_dist index entry = js_bind (hexToBinary (de_dist entry)) (\<lambda>binaryDistance.
     Inr \<lparr>np_peerId = de_peer_id entry, np_key = de_key entry, np_addressesLength = length (de_addrs entry), np_addrs = de_addrs entry,
       np_libp2p = de_libp2p entry, np_connection = convertConnectionType (de_connection entry), np_hexDistance = de_dist entry,
       np_binaryDistance = binaryDistance,
       np_xorDistance = (if de_key entry = this_key then None else Some (getNumberOfZerosUntilFirst1 binaryDistance)),
       np_bucketMaxHex = max_dist, np_bucketIndex = index\<rparr>)"

definition origin_first :: "string \<Rightarrow> NetworkNodeDhtPeer list \<Rightarrow> NetworkNodeDhtPeer list" where
  "origin_first this_key peers = (let i = js_findIndex (\<lambda>peer. np_key peer = this_key) peers in
     if i > 0 then peers ! nat i # take (nat i) peers @ drop (Suc (nat i)) peers else peers)"

record dht_answer =
  dr_peers :: "NetworkNodeDhtPeer list"
  dr_thisKey :: string
  dr_buckets :: "NetworkNodeDhtBucket list"

definition mapDhtPeers :: "string \<Rightarrow> dht_bucket list \<Rightarrow> dht_answer result" where
  "mapDhtPeers this_key buckets = js_bind
     (js_mapM (\<lambda>(index, bucket). js_mapM (dht_peer this_key (db_max_dist bucket) index) (db_entries bucket)) (enumerate 0 buckets))
     (\<lambda>peers. Inr \<lparr>dr_peers = origin_first this_key (concat peers), dr_thisKey = this_key,
        dr_buckets = map (\<lambda>bucket. \<lparr>nk_peers = length (db_entries bucket), nk_maxCapacity = 20, nk_bucketMaxHex = db_max_dist bucket\<rparr>) buckets\<rparr>)"

section \<open>The slice\<close>

record NetworkNodeDhtState =
  nd_peers :: "NetworkNodeDhtPeer list"
  nd_thisKey :: string
  nd_activePeer :: "NetworkNodeDhtPeer option"
  nd_buckets :: "NetworkNodeDhtBucket list"
  nd_sidePanelWidth :: int

datatype NetworkNodeDhtActions =
    DHT_INIT
  | DHT_CLOSE
  | DHT_GET_PEERS
  | DHT_GET_PEERS_SUCCESS dht_answer
  | DHT_SET_ACTIVE_PEER "NetworkNodeDhtPeer option"
  | DHT_SIDE_PANEL_RESIZE int

definition initial_dht :: NetworkNodeDhtState where
  "initial_dht = \<lparr>nd_peers = [], nd_thisKey = [], nd_activePeer = None, nd_buckets = [], nd_sidePanelWidth = -1\<rparr>"

definition same_peer :: "NetworkNodeDhtPeer \<Rightarrow> NetworkNodeDhtPeer \<Rightarrow> bool" where
  "same_peer peer p \<longleftrightarrow> np_peerId peer = np_peerId p \<and> np_addressesLength peer = np_addressesLength p
     \<and> list_all (\<lambda>i. js_nth (np_addrs p) (int i) = Some (np_addrs peer ! i)) [0..<length (np_addrs peer)]
     \<and> np_key peer = np_key p \<and> np_hexDistance peer = np_hexDistance p \<and> np_libp2p peer = np_libp2p p"

definition sameRecord :: "NetworkNodeDhtState \<Rightarrow> dht_answer \<Rightarrow> bool" where
  "sameRecord state payload \<longleftrightarrow> nd_thisKey state = dr_thisKey payload \<and> list_all2 same_peer (nd_peers state) (dr_peers payload)"

fun networkDhtReducer :: "NetworkNodeDhtState \<Rightarrow> NetworkNodeDhtActions \<Rightarrow> NetworkNodeDhtState" where
  "networkDhtReducer state (DHT_GET_PEERS_SUCCESS payload) = (if sameRecord state payload then state
     else state\<lparr>nd_peers := dr_peers payload, nd_thisKey := dr_thisKey payload, nd_buckets := dr_buckets payload\<rparr>)"
| "networkDhtReducer state (DHT_SET_ACTIVE_PEER peer) = state\<lparr>nd_activePeer := peer\<rparr>"
| "networkDhtReducer state (DHT_SIDE_PANEL_RESIZE width) = state\<lparr>nd_sidePanelWidth := width\<rparr>"
| "networkDhtReducer state DHT_CLOSE = initial_dht"
| "networkDhtReducer state _ = state"

section \<open>The effect\<close>

text \<open>
  The flag is lowered in front of the handler of errors, so an error, of the request or of the mapping,
  leaves it up; the close of the page lowers it.
\<close>

fun dht_effect ::
  "(int \<Rightarrow> string \<Rightarrow> string) \<Rightarrow> int \<Rightarrow> unit gate \<Rightarrow> (NetworkNodeDhtActions, string \<times> dht_bucket list) effect_event
    \<Rightarrow> unit gate \<times> (ErrorPreviewActions + NetworkNodeDhtActions) list" where
  "dht_effect fmt now g (Trigger DHT_INIT) = (g, [Inr DHT_GET_PEERS])"
| "dht_effect fmt now g (Trigger DHT_GET_PEERS) = (if busy g then (g, []) else (\<lparr>busy = True, inflight = Some ()\<rparr>, []))"
| "dht_effect fmt now g (Trigger DHT_CLOSE) = (idle_gate, [])"
| "dht_effect fmt now g (Trigger _) = (g, [])"
| "dht_effect fmt now g (Reply answer) = (if inflight g = None then (g, [])
     else (case mapDhtPeers (fst answer) (snd answer) of
         Inr payload \<Rightarrow> (idle_gate, [Inr (DHT_GET_PEERS_SUCCESS payload)])
       | Inl e \<Rightarrow> (g\<lparr>inflight := None\<rparr>, catchErrorAndRepeat fmt now RUST
           (DHT_GET_PEERS_SUCCESS \<lparr>dr_peers = [], dr_thisKey = [], dr_buckets = []\<rparr>) (plain_error ''BigInt''))))"
| "dht_effect fmt now g (Failure err) = (if inflight g = None then (g, [])
     else (g\<lparr>inflight := None\<rparr>, catchErrorAndRepeat fmt now RUST
       (DHT_GET_PEERS_SUCCESS \<lparr>dr_peers = [], dr_thisKey = [], dr_buckets = []\<rparr>) err))"

section \<open>The line\<close>

text \<open>The comparison of the peers shown with the new ones: an index beyond the new list throws.\<close>

fun distances_differ :: "NetworkNodeDhtPeer list \<Rightarrow> NetworkNodeDhtPeer list \<Rightarrow> bool result" where
  "distances_differ [] _ = Inr False"
| "distances_differ (p # ps) [] = Inl (TypeError ''hexDistance'')"
| "distances_differ (p # ps) (q # qs) = (if np_hexDistance p \<noteq> np_hexDistance q then Inr True else distances_differ ps qs)"

definition getMaxOfHex :: "NetworkNodeDhtBucket list \<Rightarrow> string" where
  "getMaxOfHex buckets = foldl (\<lambda>maxHex bucket. if code_unit_compare maxHex (nk_bucketMaxHex bucket) > 0 then maxHex else nk_bucketMaxHex bucket) ''0'' buckets"

text \<open>
  The points of the buckets, the farthest first, as percentages of the key space; and those of the
  peers, with whether it is the node itself and the peer.
\<close>

definition key_percent :: "nat \<Rightarrow> string \<Rightarrow> rat result" where
  "key_percent max_key hex = js_bind (hex_bigint hex) (\<lambda>n. Inr (of_nat n / of_nat max_key * 100))"

definition line_points ::
  "string \<Rightarrow> NetworkNodeDhtPeer list \<Rightarrow> NetworkNodeDhtBucket list \<Rightarrow> (rat list \<times> (rat \<times> bool \<times> string) list) result" where
  "line_points this_key peers buckets = js_bind (hex_bigint (getMaxOfHex buckets)) (\<lambda>max_key.
     js_bind (js_mapM (\<lambda>bucket. key_percent max_key (nk_bucketMaxHex bucket)) (rev buckets)) (\<lambda>bucketPoints.
     js_bind (js_mapM (\<lambda>peer. js_bind (key_percent max_key (np_hexDistance peer)) (\<lambda>left.
       Inr (left, np_key peer = this_key, np_peerId peer))) peers) (\<lambda>points. Inr (bucketPoints, points))))"

record dht_line =
  dn_peers :: "NetworkNodeDhtPeer list"
  dn_bucketPoints :: "rat list"
  dn_points :: "(rat \<times> bool \<times> string) list"

text \<open>An update of the slice, with a key that is not empty.\<close>

definition dht_line_update :: "dht_line \<Rightarrow> NetworkNodeDhtState \<Rightarrow> dht_line result" where
  "dht_line_update v s = (if nd_thisKey s = [] then Inr v
     else js_bind (if dn_peers v = [] then Inr True else distances_differ (dn_peers v) (nd_peers s)) (\<lambda>redraw.
       if redraw then js_bind (line_points (nd_thisKey s) (nd_peers s) (nd_buckets s)) (\<lambda>points.
         Inr \<lparr>dn_peers = nd_peers s, dn_bucketPoints = fst points, dn_points = snd points\<rparr>)
       else Inr v))"

section \<open>The distances\<close>

lemma read_binary: "read_base 2 0 (binary_text n) = Some n"
proof (induction n rule: less_induct)
  case (less n)
  show ?case
  proof (cases "n < 2")
    case True
    then show ?thesis by (cases "n = 0") (simp_all add: binary_text.simps [of 0] binary_text.simps [of n] digit_in_def char_code_def)
  next
    case False
    have "read_base 2 0 (binary_text (n div 2)) = Some (n div 2)" using less False by simp
    moreover have "n mod 2 = 1 \<Longrightarrow> Suc (n div 2 * 2) = n" "n mod 2 \<noteq> 1 \<Longrightarrow> n div 2 * 2 = n" by presburger+
    ultimately show ?thesis using False
      by (cases "n mod 2 = 1") (simp_all add: binary_text.simps [of n] read_base_append digit_in_def char_code_def)
  qed
qed

text \<open>The binary text of a positive number begins with a one and is as long as the number needs.\<close>

lemma binary_text_shape:
  "0 < n \<Longrightarrow> \<exists>t. binary_text n = CHR ''1'' # t \<and> 2 ^ length t \<le> n \<and> n < 2 ^ Suc (length t)"
proof (induction n rule: less_induct)
  case (less n)
  show ?case
  proof (cases "n < 2")
    case True
    then show ?thesis using less.prems by (simp add: binary_text.simps [of n])
  next
    case False
    then obtain t where t: "binary_text (n div 2) = CHR ''1'' # t" "2 ^ length t \<le> n div 2" "n div 2 < 2 ^ Suc (length t)"
      using less.IH [of "n div 2"] by auto
    let ?t = "t @ [if n mod 2 = 1 then CHR ''1'' else CHR ''0'']"
    have "binary_text n = CHR ''1'' # ?t" using False t(1) by (simp add: binary_text.simps [of n])
    moreover have "2 ^ length ?t \<le> n" "n < 2 ^ Suc (length ?t)" using t(2,3) by auto
    ultimately show ?thesis by blast
  qed
qed

lemma zeros_replicate: "getNumberOfZerosUntilFirst1 (replicate k (CHR ''0'') @ CHR ''1'' # t) = k"
  by (induction k) (simp_all add: getNumberOfZerosUntilFirst1_def)

lemma read_zeros_2: "read_base 2 0 (replicate k (CHR ''0'') @ s) = read_base 2 0 s"
  by (induction k) (simp_all add: digit_in_def char_code_def)

lemma zeros_all: "getNumberOfZerosUntilFirst1 (replicate k (CHR ''0'')) = k"
  by (induction k) (simp_all add: getNumberOfZerosUntilFirst1_def)

lemma hexToBinary_text:
  "hex_bigint hex = Inr n \<Longrightarrow> hexToBinary hex = Inr (replicate (256 - length (binary_text n)) (CHR ''0'') @ binary_text n)"
  by (simp add: hexToBinary_def)

lemma positive_distance:
  assumes "0 < n" "n < 2 ^ 256"
  defines "b \<equiv> replicate (256 - length (binary_text n)) (CHR ''0'') @ binary_text n"
  shows "length b = 256 \<and> getNumberOfZerosUntilFirst1 b < 256
    \<and> 2 ^ (255 - getNumberOfZerosUntilFirst1 b) \<le> n \<and> n < 2 ^ (256 - getNumberOfZerosUntilFirst1 b)"
proof -
  obtain t where t: "binary_text n = CHR ''1'' # t" "2 ^ length t \<le> n" "n < 2 ^ Suc (length t)"
    using binary_text_shape [OF assms(1)] by blast
  have "(2 :: nat) ^ length t < 2 ^ 256" using t(2) assms(2) by (rule le_less_trans)
  then have len: "length t < 256" by (rule power_less_imp_less_exp [rotated]) simp
  have z: "getNumberOfZerosUntilFirst1 b = 255 - length t" unfolding b_def t(1) zeros_replicate by simp
  have e: "255 - (255 - length t) = length t" "256 - (255 - length t) = Suc (length t)" using len by auto
  have "length b = 256" using t(1) len by (simp add: b_def)
  moreover have "2 ^ (255 - getNumberOfZerosUntilFirst1 b) \<le> n" "n < 2 ^ (256 - getNumberOfZerosUntilFirst1 b)"
    unfolding z e by (rule t(2), rule t(3))
  moreover have "getNumberOfZerosUntilFirst1 b < 256" unfolding z by simp
  ultimately show ?thesis by blast
qed

lemma zero_distance:
  "replicate (256 - length (binary_text 0)) (CHR ''0'') @ binary_text 0 = replicate 256 (CHR ''0'')"
  using replicate_add [of 255 1 "CHR ''0''"] by (simp add: binary_text.simps [of 0])

text \<open>
  C28: The binary distance of a peer whose reported distance is below \<open>2 ^ 256\<close> has 256 digits and denotes
  that distance, and the number \<open>z\<close> of zeros in front is the position of its highest bit: the distance is
  below \<open>2 ^ (256 - z)\<close>, and at least \<open>2 ^ (255 - z)\<close> unless it is zero, which is when and only when all
  256 digits are zeros.
\<close>

theorem dht_distance:
  assumes "hex_bigint hex = Inr n" "n < 2 ^ 256"
  shows "\<exists>b. hexToBinary hex = Inr b \<and> length b = 256 \<and> read_base 2 0 b = Some n
    \<and> n < 2 ^ (256 - getNumberOfZerosUntilFirst1 b)
    \<and> (n = 0 \<or> 2 ^ (255 - getNumberOfZerosUntilFirst1 b) \<le> n)
    \<and> (getNumberOfZerosUntilFirst1 b = 256 \<longleftrightarrow> n = 0)"
proof -
  let ?b = "replicate (256 - length (binary_text n)) (CHR ''0'') @ binary_text n"
  have r: "read_base 2 0 ?b = Some n" unfolding read_zeros_2 by (rule read_binary)
  show ?thesis
  proof (cases "n = 0")
    case True
    then show ?thesis using hexToBinary_text [OF assms(1)] r unfolding True zero_distance
      by (intro exI [of _ "replicate 256 (CHR ''0'')"]) (simp add: zeros_all)
  next
    case False
    then show ?thesis using hexToBinary_text [OF assms(1)] r positive_distance [of n] assms(2)
      by (intro exI [of _ ?b]) simp
  qed
qed

theorem dht_distance_witness:
  "(\<exists>b. hexToBinary ''2a'' = Inr b \<and> length b = 256 \<and> read_base 2 0 b = Some 42)
   \<and> (\<exists>b. hexToBinary ''00'' = Inr b \<and> length b = 256 \<and> getNumberOfZerosUntilFirst1 b = 256)"
proof -
  have "hex_bigint ''2a'' = Inr 42" "hex_bigint ''00'' = Inr 0" by code_simp+
  then show ?thesis using dht_distance [of "''2a''" 42] dht_distance [of "''00''" 0] by fastforce
qed

section \<open>The node itself comes first\<close>

lemma mset_origin_first: "mset (origin_first key peers) = mset peers"
proof (cases "js_findIndex (\<lambda>peer. np_key peer = key) peers > 0")
  case True
  let ?i = "nat (js_findIndex (\<lambda>peer. np_key peer = key) peers)"
  have "?i < length peers" using js_findIndex_bounds [of "\<lambda>peer. np_key peer = key" peers] True by auto
  then have "peers = take ?i peers @ peers ! ?i # drop (Suc ?i) peers" by (simp add: id_take_nth_drop)
  then have "mset peers = mset (take ?i peers) + add_mset (peers ! ?i) (mset (drop (Suc ?i) peers))"
    by (metis mset.simps(2) mset_append)
  then show ?thesis using True by (simp add: origin_first_def)
qed (simp add: origin_first_def)

lemma origin_first_hd:
  assumes "p \<in> set peers" "np_key p = key"
  shows "np_key (hd (origin_first key peers)) = key"
proof -
  let ?P = "\<lambda>peer. np_key peer = key"
  obtain xs q ys where split: "peers = xs @ q # ys" "np_key q = key" "\<forall>x \<in> set xs. np_key x \<noteq> key"
    using split_list_first_prop [of peers ?P] assms by blast
  have "js_findIndex ?P peers = int (length xs)" unfolding split(1) using split(2,3) by (intro js_findIndex_append) auto
  moreover have "peers ! length xs = q" "xs = [] \<Longrightarrow> hd peers = q" using split(1) by simp_all
  ultimately show ?thesis using split(2) by (cases "xs = []") (simp_all add: origin_first_def)
qed

text \<open>
  C29: The rows are the entries of all buckets, each once, and the node itself is the first row whenever
  it is among them.
\<close>

theorem dht_rows:
  assumes "mapDhtPeers key buckets = Inr r"
  shows "mset (map np_peerId (dr_peers r)) = mset (map de_peer_id (concat (map db_entries buckets)))
    \<and> ((\<exists>p \<in> set (dr_peers r). np_key p = key) \<longrightarrow> np_key (hd (dr_peers r)) = key)"
proof -
  obtain rows where rows: "js_mapM (\<lambda>(index, bucket). js_mapM (dht_peer key (db_max_dist bucket) index) (db_entries bucket)) (enumerate 0 buckets) = Inr rows"
    "dr_peers r = origin_first key (concat rows)" using assms by (auto simp: mapDhtPeers_def js_bind_Inr_iff)
  have entry: "map np_peerId ps = map de_peer_id es" if "js_mapM (dht_peer key m i) es = Inr ps" for m i es ps
    using that by (induction es arbitrary: ps) (auto simp: js_bind_Inr_iff dht_peer_def)
  have "map np_peerId (concat rows) = map de_peer_id (concat (map db_entries buckets))"
    if "js_mapM (\<lambda>(index, bucket). js_mapM (dht_peer key (db_max_dist bucket) index) (db_entries bucket)) (enumerate k buckets) = Inr rows" for k
    using that by (induction buckets arbitrary: k rows) (auto simp: js_bind_Inr_iff entry)
  from this [OF rows(1)] have "mset (map np_peerId (dr_peers r)) = mset (map de_peer_id (concat (map db_entries buckets)))"
    using mset_origin_first [of key "concat rows"] rows(2) by (metis mset_map)
  moreover have "set (dr_peers r) = set (concat rows)" using mset_origin_first [of key "concat rows"] rows(2) by (metis set_mset_mset)
  ultimately show ?thesis using origin_first_hd [of _ "concat rows" key] rows(2) by auto
qed

theorem dht_rows_witness:
  "\<exists>r. mapDhtPeers ''k'' [\<lparr>db_max_dist = ''ff'', db_entries = [\<lparr>de_peer_id = ''p'', de_libp2p = [], de_key = ''k'', de_dist = ''0'', de_addrs = [],
     de_connection = ''Connected''\<rparr>]\<rparr>] = Inr r \<and> mset (map np_peerId (dr_peers r)) = {#''p''#}"
proof -
  let ?b = "[\<lparr>db_max_dist = ''ff'', db_entries = [\<lparr>de_peer_id = ''p'', de_libp2p = [], de_key = ''k'', de_dist = ''0'', de_addrs = [], de_connection = ''Connected''\<rparr>]\<rparr>]"
  have "hex_bigint ''0'' = Inr 0" by code_simp
  then obtain r where "mapDhtPeers ''k'' ?b = Inr r" by (simp add: mapDhtPeers_def dht_peer_def hexToBinary_def)
  with dht_rows [OF this] show ?thesis by auto
qed

section \<open>What the page misses\<close>

text \<open>
  The comparison of the slice leaves out the connection of a peer and the buckets: an answer that
  differs only there is dropped.
\<close>

lemma same_peer_refl: "same_peer p p"
  by (simp add: same_peer_def js_nth_def list_all_iff)

lemma dht_stale_connection:
  assumes "dr_peers payload = map (\<lambda>p. p\<lparr>np_connection := f p\<rparr>) (nd_peers s)" "dr_thisKey payload = nd_thisKey s"
  shows "networkDhtReducer s (DHT_GET_PEERS_SUCCESS payload) = s"
proof -
  have "same_peer p (p\<lparr>np_connection := f p\<rparr>)" for p using same_peer_refl [of p] by (simp add: same_peer_def)
  then have "sameRecord s payload" using assms by (simp add: sameRecord_def list_all2_conv_all_nth)
  then show ?thesis by simp
qed

text \<open>The line is not drawn again when peers are added behind those shown, and throws when the last ones leave.\<close>

lemma line_ignores_added: "nd_thisKey s \<noteq> [] \<Longrightarrow> dn_peers v \<noteq> [] \<Longrightarrow> nd_peers s = dn_peers v @ new \<Longrightarrow> dht_line_update v s = Inr v"
proof -
  have "distances_differ ps (ps @ new) = Inr False" for ps by (induction ps) simp_all
  then show "nd_thisKey s \<noteq> [] \<Longrightarrow> dn_peers v \<noteq> [] \<Longrightarrow> nd_peers s = dn_peers v @ new \<Longrightarrow> dht_line_update v s = Inr v"
    by (simp add: dht_line_update_def)
qed

text \<open>
  When the last peers shown leave the routing table and the others stay, the line throws: it
  compares each peer it shows with the one at the same index of the shorter list.
\<close>

theorem line_throws_on_leave:
  assumes "nd_thisKey s \<noteq> []" "dn_peers v = nd_peers s @ gone" "gone \<noteq> []"
  shows "dht_line_update v s = Inl (TypeError ''hexDistance'')"
proof -
  have "distances_differ (ps @ gone) ps = Inl (TypeError ''hexDistance'')" for ps
    by (induction ps) (use assms(3) in \<open>auto simp: neq_Nil_conv\<close>)
  then show ?thesis using assms by (simp add: dht_line_update_def)
qed

theorem line_throws_on_leave_witness:
  "\<exists>p. dht_line_update \<lparr>dn_peers = [p], dn_bucketPoints = [], dn_points = []\<rparr> (initial_dht\<lparr>nd_thisKey := ''k''\<rparr>) = Inl (TypeError ''hexDistance'')"
  using line_throws_on_leave [of "initial_dht\<lparr>nd_thisKey := ''k''\<rparr>" "\<lparr>dn_peers = [undefined], dn_bucketPoints = [], dn_points = []\<rparr>" "[undefined]"]
  by (auto simp: initial_dht_def)

section \<open>An error stops the polling\<close>

definition dht_blocked :: "unit gate \<Rightarrow> bool" where
  "dht_blocked g \<longleftrightarrow> busy g \<and> inflight g = None"

interpretation dht_poll: blocked_effect "dht_effect fmt now" dht_blocked "\<lambda>e. e \<noteq> Trigger DHT_CLOSE" "\<lambda>out. \<exists>p. out = Inr (DHT_GET_PEERS_SUCCESS p)" for fmt now
proof
  fix g and e :: "(NetworkNodeDhtActions, string \<times> dht_bucket list) effect_event"
  assume g: "dht_blocked g" and e: "e \<noteq> Trigger DHT_CLOSE"
  have *: "dht_effect fmt now g e = (g, []) \<or> dht_effect fmt now g e = (g, [Inr DHT_GET_PEERS])"
  proof (cases e)
    case (Trigger a)
    then show ?thesis using g e by (cases a) (simp_all add: dht_blocked_def)
  qed (use g in \<open>simp_all add: dht_blocked_def\<close>)
  then show "dht_blocked (fst (dht_effect fmt now g e))" using g by auto
  show "\<not> (\<exists>p. out = Inr (DHT_GET_PEERS_SUCCESS p))" if "out \<in> set (snd (dht_effect fmt now g e))" for out using * that by auto
qed

lemma dht_error_stops_polling:
  assumes "list_all (\<lambda>e. e \<noteq> Trigger DHT_CLOSE) es" "out \<in> set (snd (run_effect (dht_effect fmt now)
      (fst (run_effect (dht_effect fmt now) idle_gate [Trigger DHT_GET_PEERS, Failure err])) es))"
  shows "out \<noteq> Inr (DHT_GET_PEERS_SUCCESS p)"
proof -
  let ?g = "fst (run_effect (dht_effect fmt now) idle_gate [Trigger DHT_GET_PEERS, Failure err])"
  have "dht_blocked ?g" by (simp add: dht_blocked_def idle_gate_def)
  from dht_poll.run_blocked [OF this assms(1)] assms(2) show ?thesis by blast
qed

end
