(* ===== verification/DhtGraph.thy ===== *)
theory DhtGraph
  imports NodeDht
begin

text \<open>
  The graph overview of the distributed hash table (\<open>features/network/dht-graph\<close>): the order of the
  peers by their binary distance and the binary tree that \<open>equal-distance-algorithm.ts\<close> builds from
  them. A node of the tree is a value here; the code updates it in place, and the only node it reads
  besides the current one is the first child of its parent, which is an argument. The peer with the
  distance \<open>'-'\<close> that marks an inner node is \<^const>\<open>None\<close>. The running number of a node, which
  nothing reads, is left out, and so is the drawing with d3.
\<close>

section \<open>Order of the peers\<close>

fun distance_cmp :: "string \<Rightarrow> string \<Rightarrow> rat" where
  "distance_cmp [] bs = 0"
| "distance_cmp (a # as) [] = (if a = CHR ''1'' then 1 else - 1)"
| "distance_cmp (a # as) (b # bs) = (if a = b then distance_cmp as bs else if a = CHR ''1'' then 1 else - 1)"

definition sortPeers :: "NetworkNodeDhtPeer \<Rightarrow> NetworkNodeDhtPeer \<Rightarrow> rat" where
  "sortPeers a b = distance_cmp (np_binaryDistance a) (np_binaryDistance b)"

section \<open>Inserting a peer\<close>

datatype dht_node = DNode (dn_peer: "NetworkNodeDhtPeer option") (dn_prevBranch: "nat option") (dn_children: "dht_node list")

definition direction :: "NetworkNodeDhtPeer \<Rightarrow> nat \<Rightarrow> nat" where
  "direction peer level = (if js_nth (np_binaryDistance peer) (int level) = Some (CHR ''0'') then 0 else 1)"

definition prefix_of :: "nat \<Rightarrow> NetworkNodeDhtPeer \<Rightarrow> string" where
  "prefix_of k peer = js_slice 0 (int k) (np_binaryDistance peer)"

text \<open>
  The condition under which a peer takes the empty node itself: it comes from the right, its sibling
  is a peer with the same prefix, and no later peer has that prefix. At the root the first conjunct
  reads the character at \<open>-1\<close>, which is \<open>undefined\<close>.
\<close>

definition takes_node :: "NetworkNodeDhtPeer list \<Rightarrow> dht_node option \<Rightarrow> nat \<Rightarrow> NetworkNodeDhtPeer \<Rightarrow> dht_node \<Rightarrow> bool" where
  "takes_node peers first_child level peer node \<longleftrightarrow>
     js_nth (np_binaryDistance peer) (int level - 1) = Some (CHR ''1'')
     \<and> (case first_child of None \<Rightarrow> False | Some c \<Rightarrow>
         dn_children c = [] \<and> (case dn_peer c of None \<Rightarrow> False | Some q \<Rightarrow>
           dn_children node = [] \<and> prefix_of (level - 1) q = prefix_of (level - 1) peer
           \<and> list_all (\<lambda>p. prefix_of (level - 1) p \<noteq> prefix_of (level - 1) peer)
               (js_slice_from (js_findIndex (\<lambda>p. p = peer) peers + 1) peers)))"

definition put_child :: "nat \<Rightarrow> dht_node \<Rightarrow> dht_node \<Rightarrow> dht_node list" where
  "put_child d c other = (if d = 0 then [c, other] else [other, c])"

text \<open>
  The children of a node are both there or both missing while peers are inserted. A peer that is
  already at the place moves down together with the new one; it is looked up by its distance, and
  a failing lookup would throw in the call.
\<close>

function insertPeer ::
  "NetworkNodeDhtPeer list \<Rightarrow> dht_node option \<Rightarrow> nat \<Rightarrow> NetworkNodeDhtPeer \<Rightarrow> dht_node \<Rightarrow> dht_node result" where
  "insertPeer peers first_child level peer node =
    (if level > length (np_binaryDistance peer) then Inr node
     else (let d = direction peer level in case dn_children node of
        [c0, c1] \<Rightarrow> (let c = (if d = 0 then c0 else c1); other = (if d = 0 then c1 else c0) in
          case dn_peer c of
            Some q \<Rightarrow> (case List.find (\<lambda>p. np_binaryDistance p = np_binaryDistance q) peers of
              None \<Rightarrow> Inl (TypeError ''binaryDistance'')
            | Some existing \<Rightarrow>
                (let fresh = DNode None (Some d) [] in
                 js_bind (insertPeer peers (Some (if d = 0 then fresh else c0)) (level + 1) existing fresh) (\<lambda>c'.
                 js_bind (insertPeer peers (Some (if d = 0 then c' else c0)) (level + 1) peer c') (\<lambda>c''.
                   Inr (DNode (dn_peer node) (dn_prevBranch node) (put_child d c'' other))))))
          | None \<Rightarrow> js_bind (insertPeer peers (Some c0) (level + 1) peer c) (\<lambda>c'.
              Inr (DNode (dn_peer node) (dn_prevBranch node) (put_child d c' other))))
      | _ \<Rightarrow> (if takes_node peers first_child level peer node then Inr (DNode (Some peer) (Some 1) [])
          else Inr (DNode (dn_peer node) (dn_prevBranch node)
            (put_child d (DNode (Some peer) (Some d) []) (DNode None (Some (1 - d)) []))))))"
  by pat_completeness auto

text \<open>A call reaches at most one level below the end of the longest distance.\<close>

definition levels_left :: "NetworkNodeDhtPeer list \<Rightarrow> nat \<Rightarrow> NetworkNodeDhtPeer \<Rightarrow> nat" where
  "levels_left peers level peer = Suc (Max (insert (length (np_binaryDistance peer))
     ((\<lambda>p. length (np_binaryDistance p)) ` set peers))) - level"

lemma levels_left_step:
  assumes "level \<le> length (np_binaryDistance peer)" "p = peer \<or> p \<in> set peers"
  shows "levels_left peers (Suc level) p < levels_left peers level peer"
proof -
  let ?M = "\<lambda>p. Max (insert (length (np_binaryDistance p)) ((\<lambda>p. length (np_binaryDistance p)) ` set peers))"
  have "?M p \<le> ?M peer" using assms(2) by (intro Max_mono) auto
  moreover have "level \<le> ?M peer" using assms(1) by (meson Max_ge finite.insertI finite_imageI finite_set insertI1 le_trans)
  ultimately show ?thesis unfolding levels_left_def by linarith
qed

termination insertPeer
  by (relation "measure (\<lambda>(peers, _, level, peer, _). levels_left peers level peer)")
    (auto intro!: levels_left_step simp: find_Some_iff dest!: nth_mem)

declare insertPeer.simps [simp del]

section \<open>The tree\<close>

fun cleanUpTree :: "dht_node \<Rightarrow> dht_node" where
  "cleanUpTree (DNode q pv [c0, c1]) =
    (if dn_peer c0 = None \<and> dn_peer c1 \<noteq> None then DNode (dn_peer c1) pv []
     else DNode q pv [cleanUpTree c0, cleanUpTree c1])"
| "cleanUpTree node = node"

fun findMaxDistance :: "dht_node \<Rightarrow> nat \<Rightarrow> nat \<Rightarrow> nat" where
  "findMaxDistance (DNode q pv [c0, c1]) distance maxDistance =
     findMaxDistance c1 (distance + 1) (findMaxDistance c0 (distance + 1) maxDistance)"
| "findMaxDistance node distance maxDistance = max maxDistance distance"

text \<open>
  \<open>makeEqualDistancesForAllNodes\<close>: a peer above the greatest distance moves down one level at a time,
  as long as its distance has a digit for that level; the branch of an inner node is its index.
\<close>

fun move_down :: "nat \<Rightarrow> NetworkNodeDhtPeer \<Rightarrow> nat \<Rightarrow> nat option \<Rightarrow> dht_node" where
  "move_down 0 peer distance pv = DNode (Some peer) pv []"
| "move_down (Suc k) peer distance pv = (case js_nth (np_binaryDistance peer) (int distance) of
     None \<Rightarrow> DNode (Some peer) pv []
   | Some c \<Rightarrow> if c = CHR ''0'' then DNode None pv [move_down k peer (distance + 1) (Some 0)]
       else if c = CHR ''1'' then DNode None pv [move_down k peer (distance + 1) (Some 1)]
       else DNode (Some peer) pv [])"

fun makeEqualDistancesForAllNodes :: "nat \<Rightarrow> nat option \<Rightarrow> nat \<Rightarrow> dht_node \<Rightarrow> dht_node" where
  "makeEqualDistancesForAllNodes maxDistance index distance (DNode q pv []) =
    (if distance < maxDistance then (case q of None \<Rightarrow> DNode q pv []
       | Some peer \<Rightarrow> move_down (maxDistance - distance) peer distance pv) else DNode q pv [])"
| "makeEqualDistancesForAllNodes maxDistance index distance (DNode q pv [c0, c1]) =
    (if distance = maxDistance then DNode q pv [c0, c1]
     else DNode q (if distance < maxDistance then index else pv)
       [makeEqualDistancesForAllNodes maxDistance (Some 0) (distance + 1) c0,
        makeEqualDistancesForAllNodes maxDistance (Some 1) (distance + 1) c1])"
| "makeEqualDistancesForAllNodes maxDistance index distance node = node"

definition empty_node :: "dht_node \<Rightarrow> bool" where
  "empty_node node \<longleftrightarrow> dn_children node = [] \<and> dn_peer node = None"

fun removeEmptyNodes :: "dht_node \<Rightarrow> dht_node" where
  "removeEmptyNodes (DNode q pv cs) =
     DNode q pv (concat (map (\<lambda>c. if empty_node c then [] else [removeEmptyNodes c]) cs))"

text \<open>
  \<open>maxDistance\<close> is a static member that no call resets, so it is part of the state. An empty root
  would be looked up in the children of a parent that is not there.
\<close>

definition createBinaryTree :: "nat \<Rightarrow> NetworkNodeDhtPeer list \<Rightarrow> (nat \<times> dht_node option) result" where
  "createBinaryTree maxDistance peers = (case peers of [] \<Rightarrow> Inr (maxDistance, None)
   | p # ps \<Rightarrow> js_bind (run_reducer (\<lambda>node peer. insertPeer peers None 0 peer node) (DNode (Some p) None []) ps) (\<lambda>tree.
       let root = cleanUpTree tree; m = findMaxDistance root 0 maxDistance;
           equal = makeEqualDistancesForAllNodes m None 0 root
       in if empty_node equal then Inl (TypeError ''children'') else Inr (m, Some (removeEmptyNodes equal))))"

definition dht_graph :: "nat \<Rightarrow> NetworkNodeDhtPeer list \<Rightarrow> (nat \<times> dht_node option) result" where
  "dht_graph maxDistance peers = createBinaryTree maxDistance (js_sort sortPeers peers)"

section \<open>The order\<close>

definition bits :: "string \<Rightarrow> bool" where
  "bits s \<longleftrightarrow> set s \<subseteq> {CHR ''0'', CHR ''1''}"

lemma distance_cmp_refl [simp]: "distance_cmp a a = 0"
  by (induction a) auto

lemma distance_cmp_neg:
  "length a = length b \<Longrightarrow> bits a \<Longrightarrow> bits b \<Longrightarrow> distance_cmp b a = - distance_cmp a b"
  by (induction a b rule: list_induct2) (auto simp: bits_def)

lemma distance_cmp_0: "length a = length b \<Longrightarrow> distance_cmp a b = 0 \<longleftrightarrow> a = b"
  by (induction a b rule: list_induct2) auto

lemma distance_cmp_at:
  "take k a = take k b \<Longrightarrow> k < length a \<Longrightarrow> k < length b \<Longrightarrow> a ! k \<noteq> b ! k
    \<Longrightarrow> distance_cmp a b = (if a ! k = CHR ''1'' then 1 else - 1)"
proof (induction k arbitrary: a b)
  case 0 thus ?case by (cases a; cases b) auto
next
  case (Suc k) thus ?case by (cases a; cases b) auto
qed

fun bits_value :: "string \<Rightarrow> nat" where
  "bits_value [] = 0"
| "bits_value (c # s) = (if c = CHR ''1'' then 2 ^ length s else 0) + bits_value s"

lemma bits_value_bound: "bits_value s < 2 ^ length s"
  by (induction s) auto

lemma distance_cmp_value:
  "length a = length b \<Longrightarrow> bits a \<Longrightarrow> bits b \<Longrightarrow> distance_cmp a b \<le> 0 \<longleftrightarrow> bits_value a \<le> bits_value b"
proof (induction a b rule: list_induct2)
  case (Cons x xs y ys)
  have "bits_value xs < 2 ^ length ys" "bits_value ys < 2 ^ length ys"
    using bits_value_bound [of xs] bits_value_bound [of ys] Cons.hyps by auto
  with Cons show ?case by (auto simp: bits_def)
qed simp

definition distances :: "nat \<Rightarrow> NetworkNodeDhtPeer set" where
  "distances n = {p. length (np_binaryDistance p) = n \<and> bits (np_binaryDistance p)}"

interpretation dg: key_comparator sortPeers "\<lambda>p. bits_value (np_binaryDistance p)" "distances n" for n
proof
  fix x y assume xy: "x \<in> distances n" "y \<in> distances n"
  hence len: "length (np_binaryDistance x) = length (np_binaryDistance y)" "bits (np_binaryDistance x)" "bits (np_binaryDistance y)"
    by (auto simp: distances_def)
  show "sortPeers x y \<le> 0 \<longleftrightarrow> bits_value (np_binaryDistance x) \<le> bits_value (np_binaryDistance y)"
    using distance_cmp_value [OF len] by (simp add: sortPeers_def)
  show "0 \<le> sortPeers x y \<longleftrightarrow> bits_value (np_binaryDistance y) \<le> bits_value (np_binaryDistance x)"
    using distance_cmp_value [of "np_binaryDistance y" "np_binaryDistance x"] distance_cmp_neg [of "np_binaryDistance x" "np_binaryDistance y"] len
    by (simp add: sortPeers_def)
qed

section \<open>Peers of a tree\<close>

fun real_peers :: "dht_node \<Rightarrow> NetworkNodeDhtPeer list" where
  "real_peers (DNode q pv cs) = (case q of None \<Rightarrow> [] | Some p \<Rightarrow> [p]) @ concat (map real_peers cs)"

text \<open>
  The shape while sorted peers are inserted, for a node at the place \<open>pre\<close>: a peer has no children and
  its distance starts with its place; an inner node has two children with a peer below one of them,
  and if only the right child is a peer, nothing is below the left one.
\<close>

fun tree_ok :: "nat \<Rightarrow> string \<Rightarrow> dht_node \<Rightarrow> bool" where
  "tree_ok n pre (DNode q pv []) \<longleftrightarrow>
     length pre \<le> n \<and> (case q of None \<Rightarrow> True | Some p \<Rightarrow> take (length pre) (np_binaryDistance p) = pre)"
| "tree_ok n pre (DNode q pv [c0, c1]) \<longleftrightarrow> q = None \<and> length pre < n
     \<and> tree_ok n (pre @ ''0'') c0 \<and> tree_ok n (pre @ ''1'') c1
     \<and> real_peers c0 @ real_peers c1 \<noteq> [] \<and> (dn_peer c0 = None \<and> dn_peer c1 \<noteq> None \<longrightarrow> dn_children c0 = [])"
| "tree_ok n pre _ \<longleftrightarrow> False"

definition children_ok :: "nat \<Rightarrow> string \<Rightarrow> dht_node list \<Rightarrow> bool" where
  "children_ok n pre cs \<longleftrightarrow> cs = [] \<and> length pre \<le> n \<or> tree_ok n pre (DNode None None cs) \<and> cs \<noteq> []"

lemma tree_ok_prevBranch: "tree_ok n pre (DNode q pv cs) \<longleftrightarrow> tree_ok n pre (DNode q pv' cs)"
  by (cases "(n, pre, DNode q pv cs)" rule: tree_ok.cases) auto

lemma tree_ok_inner: "tree_ok n pre (DNode None pv cs) \<longleftrightarrow> children_ok n pre cs"
  by (cases "cs = []") (auto simp: children_ok_def tree_ok_prevBranch [of n pre None pv cs None])

lemma tree_ok_peer: "tree_ok n pre (DNode (Some p) pv cs) \<Longrightarrow> cs = []"
  by (cases "(n, pre, DNode (Some p) pv cs)" rule: tree_ok.cases) auto

lemma take_prefix: "take (Suc (length pre)) s = pre @ [c] \<Longrightarrow> take (length pre) s = pre"
proof -
  assume "take (Suc (length pre)) s = pre @ [c]"
  hence "take (length pre) (take (Suc (length pre)) s) = take (length pre) (pre @ [c])" by (simp only:)
  thus ?thesis by (simp add: min_def)
qed

lemma tree_ok_prefix: "tree_ok n pre t \<Longrightarrow> p \<in> set (real_peers t) \<Longrightarrow> take (length pre) (np_binaryDistance p) = pre"
proof (induction n pre t rule: tree_ok.induct)
  case (1 n pre q pv) thus ?case by (auto split: option.splits)
next
  case (2 n pre q pv c0 c1)
  hence "take (Suc (length pre)) (np_binaryDistance p) \<in> {pre @ ''0'', pre @ ''1''}" by auto
  thus ?case by (auto dest: take_prefix)
qed auto

lemma js_slice_take: "js_slice 0 (int k) xs = take k xs"
  by (cases "k \<le> length xs") (simp_all add: js_slice_def js_slice_index_def min_def)

lemma prefix_of_take: "prefix_of k p = take k (np_binaryDistance p)"
  by (simp add: prefix_of_def js_slice_take)

section \<open>Inserting in order\<close>

definition peer_less :: "NetworkNodeDhtPeer \<Rightarrow> NetworkNodeDhtPeer \<Rightarrow> bool" where
  "peer_less a b \<longleftrightarrow> sortPeers a b < 0"

definition later :: "NetworkNodeDhtPeer \<Rightarrow> NetworkNodeDhtPeer list \<Rightarrow> NetworkNodeDhtPeer list" where
  "later peer peers = js_slice_from (js_findIndex (\<lambda>p. p = peer) peers + 1) peers"

definition ordered_peers :: "nat \<Rightarrow> NetworkNodeDhtPeer list \<Rightarrow> bool" where
  "ordered_peers n peers \<longleftrightarrow> set peers \<subseteq> distances n \<and> sorted_wrt peer_less peers"

lemma peer_less_asym:
  "a \<in> distances n \<Longrightarrow> b \<in> distances n \<Longrightarrow> peer_less a b \<Longrightarrow> \<not> peer_less b a"
  using distance_cmp_neg [of "np_binaryDistance a" "np_binaryDistance b"]
  by (auto simp: peer_less_def sortPeers_def distances_def)

lemma peer_less_same: "np_binaryDistance a = np_binaryDistance b \<Longrightarrow> \<not> peer_less a b"
  by (simp add: peer_less_def sortPeers_def)

lemma distance_digit: "p \<in> distances n \<Longrightarrow> k < n \<Longrightarrow> np_binaryDistance p ! k \<in> {CHR ''0'', CHR ''1''}"
proof -
  assume "p \<in> distances n" "k < n"
  hence "np_binaryDistance p ! k \<in> set (np_binaryDistance p)" "set (np_binaryDistance p) \<subseteq> {CHR ''0'', CHR ''1''}"
    by (auto simp: distances_def bits_def)
  thus ?thesis by blast
qed

lemma peer_less_digit:
  assumes "a \<in> distances n" "b \<in> distances n" "peer_less a b" "k < n"
    and "take k (np_binaryDistance a) = take k (np_binaryDistance b)" "np_binaryDistance a ! k \<noteq> np_binaryDistance b ! k"
  shows "np_binaryDistance a ! k = CHR ''0'' \<and> np_binaryDistance b ! k = CHR ''1''"
proof -
  have "distance_cmp (np_binaryDistance a) (np_binaryDistance b) = (if np_binaryDistance a ! k = CHR ''1'' then 1 else - 1)"
    by (rule distance_cmp_at) (use assms in \<open>simp_all add: distances_def\<close>)
  hence "np_binaryDistance a ! k \<noteq> CHR ''1''" using assms(3) by (auto simp: peer_less_def sortPeers_def)
  thus ?thesis using distance_digit [OF assms(1,4)] distance_digit [OF assms(2,4)] assms(6) by auto
qed

lemma findIndex_split: "x \<notin> set as \<Longrightarrow> js_findIndex (\<lambda>p. p = x) (as @ x # bs) = int (length as)"
  by (induction as) auto

lemma later_iff:
  assumes "ordered_peers n peers" "x \<in> set peers" "p \<in> set peers"
  shows "p \<in> set (later x peers) \<longleftrightarrow> peer_less x p"
proof -
  obtain as bs where peers: "peers = as @ x # bs" "x \<notin> set as" using split_list_first [OF assms(2)] by blast
  have "later x peers = bs"
    by (simp add: later_def peers findIndex_split js_slice_from_def js_slice_index_def nat_add_distrib)
  moreover have "peer_less x b" if "b \<in> set bs" for b using assms(1) that by (auto simp: ordered_peers_def peers sorted_wrt_append)
  moreover have "\<not> peer_less x a" if "a \<in> set as" for a
    using assms(1) that peer_less_asym [of a n x] by (auto simp: ordered_peers_def peers sorted_wrt_append)
  ultimately show ?thesis using assms(3) peer_less_same [of x x] by (auto simp: peers)
qed

definition below :: "dht_node list \<Rightarrow> NetworkNodeDhtPeer list" where
  "below cs = concat (map real_peers cs)"

lemma below_simps [simp]: "below [] = []" "below (c # cs) = real_peers c @ below cs"
  by (simp_all add: below_def)

lemma real_peers_inner: "real_peers (DNode None pv cs) = below cs"
  by (simp add: below_def)

lemma children_ok_pair:
  "children_ok n pre [c0, c1] \<longleftrightarrow> length pre < n \<and> tree_ok n (pre @ ''0'') c0 \<and> tree_ok n (pre @ ''1'') c1
     \<and> real_peers c0 @ real_peers c1 \<noteq> [] \<and> (dn_peer c0 = None \<and> dn_peer c1 \<noteq> None \<longrightarrow> dn_children c0 = [])"
  by (simp add: children_ok_def)

lemma children_ok_cases:
  assumes "children_ok n pre cs"
  obtains "cs = []" "length pre \<le> n" | c0 c1 where "cs = [c0, c1]" "children_ok n pre [c0, c1]"
  using assms by (cases "(n, pre, DNode None None cs)" rule: tree_ok.cases) (auto simp: children_ok_def)

text \<open>What an insertion does: the peer takes the empty node, or it ends up below the node.\<close>

definition inserted :: "nat \<Rightarrow> string \<Rightarrow> NetworkNodeDhtPeer list \<Rightarrow> dht_node option \<Rightarrow> NetworkNodeDhtPeer \<Rightarrow> dht_node \<Rightarrow> dht_node \<Rightarrow> bool" where
  "inserted n pre peers first_child peer t t' \<longleftrightarrow>
     dn_children t = [] \<and> takes_node peers first_child (length pre) peer t \<and> t' = DNode (Some peer) (Some 1) []
   \<or> (\<exists>cs. t' = DNode (dn_peer t) (dn_prevBranch t) cs \<and> cs \<noteq> [] \<and> children_ok n pre cs
        \<and> mset (below cs) = add_mset peer (mset (below (dn_children t))))"

lemma direction_digit:
  "p \<in> distances n \<Longrightarrow> k < n \<Longrightarrow> np_binaryDistance p ! k = (if direction p k = 0 then CHR ''0'' else CHR ''1'')
    \<and> direction p k \<in> {0, 1}"
  using distance_digit [of p n k] by (auto simp: direction_def js_nth_def distances_def)

lemma take_digit:
  "p \<in> distances n \<Longrightarrow> k < n \<Longrightarrow> take (Suc k) (np_binaryDistance p) = take k (np_binaryDistance p) @ [np_binaryDistance p ! k]"
  by (simp add: take_Suc_conv_app_nth distances_def)

lemma takes_node_digit: "takes_node peers first_child (Suc k) peer t \<Longrightarrow> direction peer k = 1"
  by (auto simp: takes_node_def direction_def)

lemma insert_fresh:
  assumes "peer \<in> distances n" "length pre < n" "take (length pre) (np_binaryDistance peer) = pre"
  shows "children_ok n pre (put_child (direction peer (length pre)) (DNode (Some peer) pv []) (DNode None pv' []))"
    and "below (put_child (direction peer (length pre)) (DNode (Some peer) pv []) (DNode None pv' [])) = [peer]"
  using direction_digit [OF assms(1,2)] take_digit [OF assms(1,2)] assms(2,3)
  by (auto simp: put_child_def children_ok_pair)

text \<open>No peer of the right child if the new peer belongs to the left one.\<close>

lemma right_empty:
  assumes "tree_ok n (pre @ ''1'') c1" "peer \<in> distances n" "length pre < n"
    and "take (length pre) (np_binaryDistance peer) = pre" "direction peer (length pre) = 0"
    and "\<forall>r \<in> set (real_peers c1). r \<in> distances n \<and> peer_less r peer"
  shows "real_peers c1 = []"
proof (rule ccontr)
  assume "real_peers c1 \<noteq> []"
  then obtain r where r: "r \<in> set (real_peers c1)" by (cases "real_peers c1") auto
  hence "take (Suc (length pre)) (np_binaryDistance r) = pre @ ''1''" using tree_ok_prefix [OF assms(1)] by simp
  moreover have rn: "r \<in> distances n" "peer_less r peer" using r assms(6) by auto
  ultimately have "take (length pre) (np_binaryDistance r) = pre" "np_binaryDistance r ! length pre = CHR ''1''"
    using take_digit [OF rn(1) assms(3)] by (auto dest: take_prefix)
  moreover have "np_binaryDistance peer ! length pre = CHR ''0''" using direction_digit [OF assms(2,3)] assms(5) by simp
  ultimately show False using peer_less_digit [OF rn(1) assms(2) rn(2) assms(3)] assms(4) by simp
qed

lemma dn_peer_real: "real_peers c = [] \<Longrightarrow> dn_peer c = None"
  by (cases c) (auto split: option.splits)

lemma ordered_find:
  assumes "ordered_peers n peers" "r \<in> set peers"
  shows "List.find (\<lambda>p. np_binaryDistance p = np_binaryDistance r) peers = Some r"
proof -
  have "sorted_wrt (\<lambda>a b. np_binaryDistance a \<noteq> np_binaryDistance b) peers"
    using assms(1) peer_less_same by (auto simp: ordered_peers_def elim!: sorted_wrt_mono_rel [rotated])
  hence "distinct (map np_binaryDistance peers)" by (induction peers) auto
  thus ?thesis using assms(2) by (rule find_by_key)
qed

lemma insert_leaf:
  assumes "peer \<in> distances n" "length pre \<le> n" "take (length pre) (np_binaryDistance peer) = pre" "dn_children t = []"
    and "length pre = n \<longrightarrow> takes_node peers fc n peer t"
  shows "\<exists>t'. insertPeer peers fc (length pre) peer t = Inr t' \<and> inserted n pre peers fc peer t t'"
proof (cases "takes_node peers fc (length pre) peer t")
  case True
  thus ?thesis using assms by (auto simp: insertPeer.simps [of peers fc] inserted_def distances_def)
next
  case False
  hence "length pre < n" using assms(2,5) by (cases "length pre = n") auto
  from insert_fresh [OF assms(1) this assms(3)] show ?thesis
    using False assms(1,2,4)
    by (auto simp: insertPeer.simps [of peers fc] inserted_def distances_def put_child_def)
qed

text \<open>At the end of the distances the new peer takes the place beside its only neighbour.\<close>

lemma last_level_takes:
  assumes ord: "ordered_peers n peers" and peer: "peer \<in> set peers" "take (length pre) (np_binaryDistance peer) = pre"
    and cs: "children_ok n pre [c0, c1]" "Suc (length pre) = n"
    and lt: "\<forall>r \<in> set (real_peers c0 @ real_peers c1). r \<in> set peers \<and> peer_less r peer"
    and c: "dn_peer (if direction peer (length pre) = 0 then c0 else c1) = None"
  shows "takes_node peers (Some c0) n peer (if direction peer (length pre) = 0 then c0 else c1)"
proof -
  have dist: "set peers \<subseteq> distances n" using ord by (simp add: ordered_peers_def)
  have pn: "peer \<in> distances n" "length pre < n" using dist peer(1) cs(2) by auto
  have leaf: "dn_children c = []" if "tree_ok n (pre @ [x]) c" for x c
    using that cs(2) by (cases "(n, pre @ [x], c)" rule: tree_ok.cases) auto
  have leaves: "dn_children c0 = []" "dn_children c1 = []" using cs(1) leaf by (auto simp: children_ok_pair)
  have none: "real_peers d = []" if "dn_peer d = None" "dn_children d = []" for d using that by (cases d) auto
  have dir: "direction peer (length pre) = 1"
  proof (rule ccontr)
    assume "direction peer (length pre) \<noteq> 1"
    hence d0: "direction peer (length pre) = 0" using direction_digit [OF pn] by auto
    hence "real_peers c1 = []"
      using right_empty [OF _ pn peer(2) d0, of c1] cs(1) lt dist by (auto simp: children_ok_pair)
    moreover have "real_peers c0 = []" using c d0 leaves(1) none by simp
    ultimately show False using cs(1) by (simp add: children_ok_pair)
  qed
  hence "real_peers c1 = []" using c leaves(2) none by simp
  hence "real_peers c0 \<noteq> []" using cs(1) by (simp add: children_ok_pair)
  then obtain q where q: "dn_peer c0 = Some q" "q \<in> set (real_peers c0)"
    using none [OF _ leaves(1)] by (cases c0) (auto split: option.splits)
  have "take (length pre) (np_binaryDistance q) = pre"
    using tree_ok_prefix [of n "pre @ ''0''" c0 q] q(2) cs(1) by (auto simp: children_ok_pair dest: take_prefix)
  moreover have "take (length pre) (np_binaryDistance p) \<noteq> pre" if "p \<in> set (later peer peers)" for p
  proof
    assume same: "take (length pre) (np_binaryDistance p) = pre"
    have pp: "p \<in> set peers" using that by (auto simp: later_def js_slice_from_def dest: in_set_dropD)
    hence less: "peer_less peer p" "p \<in> distances n" using that later_iff [OF ord peer(1)] dist by auto
    show False
    proof (cases "np_binaryDistance p ! length pre = np_binaryDistance peer ! length pre")
      case True
      hence "take n (np_binaryDistance p) = take n (np_binaryDistance peer)"
        using take_digit [OF less(2) pn(2)] take_digit [OF pn] same peer(2) cs(2) by simp
      thus False using less pn(1) peer_less_same [of peer p] by (simp add: distances_def)
    next
      case False
      hence "np_binaryDistance peer ! length pre = CHR ''0''"
        using peer_less_digit [OF pn(1) less(2,1) pn(2)] same peer(2) by simp
      thus False using direction_digit [OF pn] dir by simp
    qed
  qed
  moreover have "js_nth (np_binaryDistance peer) (int (length pre)) = Some (CHR ''1'')"
    using direction_digit [OF pn] dir pn by (simp add: js_nth_def distances_def)
  ultimately show ?thesis using q(1) leaves dir peer(2) cs(2)
    by (auto simp: takes_node_def prefix_of_take list_all_iff later_def [symmetric])
qed

lemma insert_child:
  assumes "children_ok n pre [c0, c1]" "d \<in> {0, 1}"
    and "tree_ok n (pre @ [if d = 0 then CHR ''0'' else CHR ''1'']) c'"
    and "mset (real_peers c') = add_mset peer (mset (real_peers (if d = 0 then c0 else c1)))"
    and "dn_peer c' = None \<or> d = 1 \<and> dn_peer c0 \<noteq> None" "d = 0 \<longrightarrow> dn_peer c1 = None"
  shows "children_ok n pre (put_child d c' (if d = 0 then c1 else c0))
    \<and> mset (below (put_child d c' (if d = 0 then c1 else c0))) = add_mset peer (mset (below [c0, c1]))"
proof -
  have "real_peers c' \<noteq> []" using assms(4) by auto
  thus ?thesis using assms by (auto simp: children_ok_pair put_child_def)
qed

text \<open>The child at the place of a new peer after an insertion.\<close>

lemma inserted_child:
  assumes "inserted n (pre @ [x]) peers (Some c0) peer c c'" "dn_peer c = None" "peer \<in> distances n"
    and "take (length pre) (np_binaryDistance peer) = pre" "length pre < n"
    and "x = (if direction peer (length pre) = 0 then CHR ''0'' else CHR ''1'')"
  shows "tree_ok n (pre @ [x]) c' \<and> mset (real_peers c') = add_mset peer (mset (real_peers c))
    \<and> (dn_peer c' = None \<or> direction peer (length pre) = 1 \<and> dn_peer c0 \<noteq> None)"
  using assms(1) unfolding inserted_def
proof (elim disjE exE conjE)
  assume leaf: "dn_children c = []" "takes_node peers (Some c0) (length (pre @ [x])) peer c" "c' = DNode (Some peer) (Some 1) []"
  hence dir: "direction peer (length pre) = 1" using takes_node_digit by simp
  have "take (Suc (length pre)) (np_binaryDistance peer) = pre @ [x]"
    using take_digit [OF assms(3,5)] direction_digit [OF assms(3,5)] assms(4,6) by simp
  moreover have "real_peers c = []" using leaf(1) assms(2) by (cases c) auto
  moreover have "dn_peer c0 \<noteq> None" using leaf(2) by (auto simp: takes_node_def split: option.splits)
  ultimately show ?thesis using leaf(3) dir assms(5) by simp
next
  fix cs assume "c' = DNode (dn_peer c) (dn_prevBranch c) cs" "children_ok n (pre @ [x]) cs"
    "mset (below cs) = add_mset peer (mset (below (dn_children c)))"
  thus ?thesis using assms(2) by (cases c) (simp add: tree_ok_inner real_peers_inner del: real_peers.simps)
qed

text \<open>A peer that moves down does not take the node: the new peer is later and has the same prefix.\<close>

lemma insert_moved:
  assumes "ordered_peers n peers" "q \<in> set peers" "peer \<in> set peers" "peer_less q peer"
    and "take (length pre - 1) (np_binaryDistance q) = take (length pre - 1) (np_binaryDistance peer)"
    and "inserted n pre peers fc q (DNode None pv []) c'"
  obtains cs where "c' = DNode None pv cs" "cs \<noteq> []" "children_ok n pre cs" "mset (below cs) = {#q#}"
proof -
  have "peer \<in> set (later q peers)" using later_iff [OF assms(1-3)] assms(4) by simp
  hence "\<not> takes_node peers fc (length pre) q (DNode None pv [])"
    using assms(5) by (force simp: takes_node_def prefix_of_take list_all_iff later_def split: option.splits)
  thus ?thesis using assms(6) that by (auto simp: inserted_def)
qed

text \<open>
  Inserting the next peer in order never throws, keeps the shape and adds that peer to the peers
  below the node, whatever is above it.
\<close>

lemma insertPeer_inserted:
  assumes ord: "ordered_peers n peers"
  shows "length pre \<le> n \<Longrightarrow> peer \<in> set peers \<Longrightarrow> take (length pre) (np_binaryDistance peer) = pre
    \<Longrightarrow> children_ok n pre (dn_children t) \<Longrightarrow> \<forall>r \<in> set (below (dn_children t)). r \<in> set peers \<and> peer_less r peer
    \<Longrightarrow> length pre = n \<longrightarrow> takes_node peers fc n peer t
    \<Longrightarrow> \<exists>t'. insertPeer peers fc (length pre) peer t = Inr t' \<and> inserted n pre peers fc peer t t'"
proof (induction "n - length pre" arbitrary: pre peer t fc rule: less_induct)
  case less
  have dist: "set peers \<subseteq> distances n" using ord by (simp add: ordered_peers_def)
  hence pd: "peer \<in> distances n" using less.prems by auto
  show ?case using less.prems(4)
  proof (cases rule: children_ok_cases)
    case 1 thus ?thesis using insert_leaf [OF pd less.prems(1,3)] less.prems(6) by simp
  next
    case (2 c0 c1)
    let ?d = "direction peer (length pre)"
    define x where "x = (if ?d = 0 then CHR ''0'' else CHR ''1'')"
    define c where "c = (if ?d = 0 then c0 else c1)"
    have ln: "length pre < n" using 2 by (simp add: children_ok_pair)
    note ih = less.hyps [of "pre @ [x]"]
    have digit: "np_binaryDistance peer ! length pre = x" "?d \<in> {0, 1}"
      using direction_digit [OF pd ln] by (auto simp: x_def)
    have px: "take (Suc (length pre)) (np_binaryDistance peer) = pre @ [x]"
      using take_digit [OF pd ln] less.prems(3) digit by simp
    have lt: "\<forall>r \<in> set (real_peers c0 @ real_peers c1). r \<in> set peers \<and> peer_less r peer" using less.prems(5) 2 by simp
    have "real_peers c1 = []" if "?d = 0"
      by (rule right_empty [OF _ pd ln less.prems(3) that]) (use 2 lt dist in \<open>auto simp: children_ok_pair\<close>)
    hence c1_empty: "?d = 0 \<longrightarrow> dn_peer c1 = None" by (simp add: dn_peer_real)
    have cok: "tree_ok n (pre @ [x]) c" using 2 by (auto simp: children_ok_pair x_def c_def)
    have unfold_insert: "insertPeer peers fc (length pre) peer t = (case dn_peer c of
        Some q \<Rightarrow> (case List.find (\<lambda>p. np_binaryDistance p = np_binaryDistance q) peers of
              None \<Rightarrow> Inl (TypeError ''binaryDistance'')
            | Some existing \<Rightarrow>
                (let fresh = DNode None (Some ?d) [] in
                 js_bind (insertPeer peers (Some (if ?d = 0 then fresh else c0)) (Suc (length pre)) existing fresh) (\<lambda>c'.
                 js_bind (insertPeer peers (Some (if ?d = 0 then c' else c0)) (Suc (length pre)) peer c') (\<lambda>c''.
                   Inr (DNode (dn_peer t) (dn_prevBranch t) (put_child ?d c'' (if ?d = 0 then c1 else c0)))))))
          | None \<Rightarrow> js_bind (insertPeer peers (Some c0) (Suc (length pre)) peer c) (\<lambda>c'.
              Inr (DNode (dn_peer t) (dn_prevBranch t) (put_child ?d c' (if ?d = 0 then c1 else c0)))))"
      using 2 less.prems(1) pd unfolding Suc_eq_plus1 c_def by (subst insertPeer.simps) (simp add: distances_def del: One_nat_def)
    have finish: ?thesis if "insertPeer peers fc (length pre) peer t
        = Inr (DNode (dn_peer t) (dn_prevBranch t) (put_child ?d c' (if ?d = 0 then c1 else c0)))"
      "tree_ok n (pre @ [x]) c'" "mset (real_peers c') = add_mset peer (mset (real_peers c))"
      "dn_peer c' = None \<or> ?d = 1 \<and> dn_peer c0 \<noteq> None" for c'
      using insert_child [of n pre c0 c1 ?d c' peer] that 2 digit c1_empty
      by (auto simp: inserted_def x_def c_def put_child_def)
    show ?thesis
    proof (cases "dn_peer c")
      case None
      have "\<exists>c'. insertPeer peers (Some c0) (length (pre @ [x])) peer c = Inr c' \<and> inserted n (pre @ [x]) peers (Some c0) peer c c'"
      proof (rule ih)
        show "children_ok n (pre @ [x]) (dn_children c)" using cok None by (cases c) (simp add: tree_ok_inner)
        show "\<forall>r \<in> set (below (dn_children c)). r \<in> set peers \<and> peer_less r peer"
          using lt None by (cases c) (auto simp: c_def below_def split: if_splits)
        show "length (pre @ [x]) = n \<longrightarrow> takes_node peers (Some c0) n peer c"
          using last_level_takes [OF ord less.prems(2,3), of c0 c1] 2 lt None by (simp add: c_def)
      qed (use ln less.prems(2) px in auto)
      then obtain c' where c': "insertPeer peers (Some c0) (Suc (length pre)) peer c = Inr c'"
        "inserted n (pre @ [x]) peers (Some c0) peer c c'" by auto
      from inserted_child [OF c'(2) None pd less.prems(3) ln x_def] show ?thesis
        by (intro finish [of c']) (simp_all add: unfold_insert None c'(1))
    next
      case (Some q)
      have leaf: "real_peers c = [q]" using cok Some by (cases c) (auto dest: tree_ok_peer)
      hence q: "q \<in> set peers" "peer_less q peer" "take (Suc (length pre)) (np_binaryDistance q) = pre @ [x]"
        using lt tree_ok_prefix [OF cok, of q] by (auto simp: c_def split: if_splits)
      have short: "length (pre @ [x]) < n"
        using q px ln dist pd peer_less_same [of q peer] by (cases "Suc (length pre) = n") (auto simp: distances_def)
      let ?fresh = "DNode None (Some ?d) []"
      obtain cs1 where cs1: "insertPeer peers (Some (if ?d = 0 then ?fresh else c0)) (Suc (length pre)) q ?fresh = Inr (DNode None (Some ?d) cs1)"
        "cs1 \<noteq> []" "children_ok n (pre @ [x]) cs1" "mset (below cs1) = {#q#}"
      proof -
        have "\<exists>c'. insertPeer peers (Some (if ?d = 0 then ?fresh else c0)) (length (pre @ [x])) q ?fresh = Inr c'
            \<and> inserted n (pre @ [x]) peers (Some (if ?d = 0 then ?fresh else c0)) q ?fresh c'"
          by (rule ih) (use short q in \<open>auto simp: children_ok_def\<close>)
        then obtain c' where c': "insertPeer peers (Some (if ?d = 0 then ?fresh else c0)) (length (pre @ [x])) q ?fresh = Inr c'"
          "inserted n (pre @ [x]) peers (Some (if ?d = 0 then ?fresh else c0)) q ?fresh c'" by blast
        have pfx: "take (length (pre @ [x]) - 1) (np_binaryDistance q) = take (length (pre @ [x]) - 1) (np_binaryDistance peer)"
          using take_prefix [OF q(3)] less.prems(3) by simp
        show thesis by (rule insert_moved [OF ord q(1) less.prems(2) q(2) pfx c'(2)]) (use c'(1) that in simp)
      qed
      have "\<exists>c''. insertPeer peers (Some (if ?d = 0 then DNode None (Some ?d) cs1 else c0)) (length (pre @ [x])) peer (DNode None (Some ?d) cs1) = Inr c''
          \<and> inserted n (pre @ [x]) peers (Some (if ?d = 0 then DNode None (Some ?d) cs1 else c0)) peer (DNode None (Some ?d) cs1) c''"
        by (rule ih) (use short less.prems(2) px cs1 q in \<open>auto dest!: mset_eq_setD\<close>)
      then obtain cs2 where cs2: "insertPeer peers (Some (if ?d = 0 then DNode None (Some ?d) cs1 else c0)) (Suc (length pre)) peer (DNode None (Some ?d) cs1)
          = Inr (DNode None (Some ?d) cs2)" "children_ok n (pre @ [x]) cs2" "mset (below cs2) = {#peer, q#}"
        using cs1(2,4) by (auto simp: inserted_def)
      show ?thesis
        by (rule finish [of "DNode None (Some ?d) cs2"])
          (use cs1 cs2 in \<open>simp_all add: unfold_insert Some ordered_find [OF ord q(1)] leaf tree_ok_inner real_peers_inner del: real_peers.simps\<close>)
    qed
  qed
qed

lemma run_insert:
  assumes ord: "ordered_peers n peers" and "0 < n"
  shows "set rest \<subseteq> set peers \<Longrightarrow> sorted_wrt peer_less rest \<Longrightarrow> children_ok n [] cs
    \<Longrightarrow> \<forall>r \<in> set (below cs). r \<in> set peers \<and> (\<forall>s \<in> set rest. peer_less r s)
    \<Longrightarrow> \<exists>cs'. run_reducer (\<lambda>node peer. insertPeer peers None 0 peer node) (DNode q pv cs) rest = Inr (DNode q pv cs')
      \<and> children_ok n [] cs' \<and> mset (below cs') = mset (below cs) + mset rest"
proof (induction rest arbitrary: cs)
  case (Cons p rest)
  have "\<exists>t'. insertPeer peers None 0 p (DNode q pv cs) = Inr t' \<and> inserted n [] peers None p (DNode q pv cs) t'"
    using insertPeer_inserted [OF ord, of "[]" p "DNode q pv cs" None] Cons.prems \<open>0 < n\<close> by auto
  then obtain cs1 where cs1: "insertPeer peers None 0 p (DNode q pv cs) = Inr (DNode q pv cs1)" "children_ok n [] cs1"
    "mset (below cs1) = add_mset p (mset (below cs))" by (auto simp: inserted_def takes_node_def)
  have "set (below cs1) = insert p (set (below cs))" using cs1(3) by (metis set_mset_add_mset_insert set_mset_mset)
  with Cons.IH [of cs1] Cons.prems cs1 show ?case by (auto simp: js_bind_def)
qed auto

section \<open>The finished tree\<close>

lemma cleanUp_peers: "tree_ok n pre t \<Longrightarrow> mset (real_peers (cleanUpTree t)) = mset (real_peers t)"
proof (induction n pre t rule: tree_ok.induct)
  case (2 n pre q pv c0 c1)
  have "real_peers c1 = [p]" "real_peers c0 = []" if "dn_peer c0 = None" "dn_peer c1 = Some p" for p
    using that 2 by (cases c0; cases c1; auto dest: tree_ok_peer)+
  thus ?case using 2 by auto
qed auto

lemma move_down_peers [simp]: "real_peers (move_down k peer distance pv) = [peer]"
  by (induction k arbitrary: distance pv) (auto split: option.splits)

lemma makeEqual_peers [simp]: "real_peers (makeEqualDistancesForAllNodes m i d t) = real_peers t"
  by (induction m i d t rule: makeEqualDistancesForAllNodes.induct) (auto split: option.splits)

lemma removeEmpty_peers [simp]: "real_peers (removeEmptyNodes t) = real_peers t"
proof (induction t)
  case (DNode q pv cs)
  have "concat (map real_peers (concat (map (\<lambda>c. if empty_node c then [] else [removeEmptyNodes c]) cs))) = concat (map real_peers cs)"
    using DNode
  proof (induction cs)
    case (Cons c cs)
    have "real_peers c = []" if "empty_node c" using that by (cases c) (auto simp: empty_node_def)
    thus ?case using Cons by simp
  qed simp
  thus ?case by simp
qed

lemma not_empty: "real_peers t \<noteq> [] \<Longrightarrow> \<not> empty_node t"
  by (cases t) (auto simp: empty_node_def split: option.splits)

lemma root_clean:
  assumes "children_ok n [] cs" "length (below cs) \<noteq> 1"
  shows "mset (real_peers (cleanUpTree (DNode (Some p) pv cs))) = add_mset p (mset (below cs))"
  using assms(1)
proof (cases rule: children_ok_cases)
  case (2 c0 c1)
  have "\<not> (dn_peer c0 = None \<and> dn_peer c1 \<noteq> None)"
  proof
    assume "dn_peer c0 = None \<and> dn_peer c1 \<noteq> None"
    hence "length (below cs) = 1" using 2 by (cases c0; cases c1) (auto simp: children_ok_pair dest: tree_ok_peer)
    thus False using assms(2) by simp
  qed
  thus ?thesis using 2 cleanUp_peers by (auto simp: children_ok_pair)
qed auto

section \<open>Depth of the peers\<close>

fun peer_depths :: "nat \<Rightarrow> dht_node \<Rightarrow> nat list" where
  "peer_depths d (DNode q pv cs) = (case q of None \<Rightarrow> [] | Some p \<Rightarrow> [d]) @ concat (map (peer_depths (Suc d)) cs)"

text \<open>Peers are leaves and inner nodes have two children.\<close>

fun binary :: "dht_node \<Rightarrow> bool" where
  "binary (DNode q pv []) = True"
| "binary (DNode q pv [c0, c1]) = (q = None \<and> binary c0 \<and> binary c1)"
| "binary node = False"

fun height :: "dht_node \<Rightarrow> nat" where
  "height (DNode q pv [c0, c1]) = Suc (max (height c0) (height c1))"
| "height node = 0"

lemma findMaxDistance_height: "findMaxDistance t d m = max m (d + height t)"
  by (induction t d m rule: findMaxDistance.induct) auto

lemma tree_ok_clean:
  "tree_ok n pre t \<Longrightarrow> binary (cleanUpTree t) \<and> length pre + height (cleanUpTree t) \<le> n"
  by (induction n pre t rule: tree_ok.induct) auto

lemma move_down_depths:
  "distance + k \<le> n \<Longrightarrow> p \<in> distances n \<Longrightarrow> peer_depths distance (move_down k p distance pv) = [distance + k]"
proof (induction k arbitrary: distance pv)
  case (Suc k)
  have "np_binaryDistance p ! distance \<in> {CHR ''0'', CHR ''1''}"
    by (rule distance_digit) (use Suc.prems in auto)
  thus ?case using Suc by (auto simp: js_nth_def distances_def)
qed simp

lemma makeEqual_depths:
  "binary t \<Longrightarrow> d + height t \<le> m \<Longrightarrow> m \<le> n \<Longrightarrow> set (real_peers t) \<subseteq> distances n
    \<Longrightarrow> set (peer_depths d (makeEqualDistancesForAllNodes m i d t)) \<subseteq> {m}"
proof (induction m i d t rule: makeEqualDistancesForAllNodes.induct)
  case (1 m i d q pv)
  thus ?case by (auto simp: move_down_depths [where n = n] split: option.splits)
qed auto

lemma removeEmpty_depths: "peer_depths d (removeEmptyNodes t) = peer_depths d t"
proof (induction t arbitrary: d)
  case (DNode q pv cs)
  have "concat (map (peer_depths e) (concat (map (\<lambda>c. if empty_node c then [] else [removeEmptyNodes c]) cs))) = concat (map (peer_depths e) cs)" for e
    using DNode
  proof (induction cs)
    case (Cons c cs)
    have "peer_depths e c = []" if "empty_node c" using that by (cases c) (auto simp: empty_node_def)
    thus ?case using Cons by simp
  qed simp
  thus ?case by simp
qed

lemma root_depths:
  assumes "cs = [] \<or> (\<exists>c0 c1. cs = [c0, c1] \<and> binary c0 \<and> binary c1)" "height (DNode q pv cs) \<le> m" "m \<le> n"
    and "set (real_peers (DNode q pv cs)) \<subseteq> distances n"
    and "c \<in> set (dn_children (removeEmptyNodes (makeEqualDistancesForAllNodes m None 0 (DNode q pv cs))))"
  shows "set (peer_depths 1 c) \<subseteq> {m}"
proof -
  have kept: "\<exists>c' \<in> set (dn_children t). c = removeEmptyNodes c'" if "c \<in> set (dn_children (removeEmptyNodes t))" for t
    using that by (cases t) (auto split: if_splits)
  then obtain c' where c': "c = removeEmptyNodes c'" "c' \<in> set (dn_children (makeEqualDistancesForAllNodes m None 0 (DNode q pv cs)))"
    using assms(5) by blast
  have "set (peer_depths 1 c') \<subseteq> {m}" using assms(1)
  proof (elim disjE exE conjE)
    assume leaf: "cs = []"
    show ?thesis
    proof (cases m)
      case (Suc k)
      with c' leaf obtain p where p: "q = Some p" "c' \<in> set (dn_children (move_down (Suc k) p 0 pv))"
        by (auto split: option.splits)
      moreover have "p \<in> distances n" using assms(4) p(1) by simp
      ultimately show ?thesis using move_down_depths [of 1 k n p] assms(3) Suc
        by (auto split: option.splits if_splits)
    qed (use c' leaf in simp)
  next
    fix c0 c1 assume cs: "cs = [c0, c1]" "binary c0" "binary c1"
    hence "1 + height c0 \<le> m" "1 + height c1 \<le> m" using assms(2) by auto
    thus ?thesis using c' cs assms(3,4) makeEqual_depths [of c0 1 m n "Some 0"] makeEqual_depths [of c1 1 m n "Some 1"]
      by (simp split: if_splits) blast
  qed
  thus ?thesis by (simp add: c'(1) removeEmpty_depths)
qed

section \<open>The graph\<close>

lemma sorted_strict:
  "sorted_wrt (\<lambda>x y. sortPeers x y \<le> 0) xs \<Longrightarrow> distinct (map np_binaryDistance xs) \<Longrightarrow> set xs \<subseteq> distances n
    \<Longrightarrow> sorted_wrt peer_less xs"
proof (induction xs)
  case (Cons x xs)
  have "peer_less x y" if "y \<in> set xs" for y
  proof -
    have "np_binaryDistance x \<noteq> np_binaryDistance y" using Cons.prems(2) that by force
    hence "sortPeers x y \<noteq> 0"
      using distance_cmp_0 [of "np_binaryDistance x" "np_binaryDistance y"] Cons.prems(3) that by (auto simp: sortPeers_def distances_def)
    moreover have "sortPeers x y \<le> 0" using Cons.prems(1) that by simp
    ultimately show ?thesis by (simp add: peer_less_def)
  qed
  thus ?case using Cons by simp
qed simp

lemma js_sort_ordered:
  assumes "set peers \<subseteq> distances n" "distinct (map np_binaryDistance peers)"
  shows "ordered_peers n (js_sort sortPeers peers)"
proof -
  have "distinct (map np_binaryDistance (js_sort sortPeers peers))"
    using assms(2) by (metis mset_eq_imp_distinct_iff mset_js_sort mset_map)
  thus ?thesis using sorted_strict [OF dg.js_sort_sorted [OF assms(1)]] assms(1) by (auto simp: ordered_peers_def)
qed

lemma clean_root_shape:
  assumes "children_ok n [] cs"
  shows "\<exists>q cs'. cleanUpTree (DNode (Some p) pv cs) = DNode q pv cs' \<and> height (DNode q pv cs') \<le> n
    \<and> (cs' = [] \<or> (\<exists>c0 c1. cs' = [c0, c1] \<and> binary c0 \<and> binary c1))"
  using assms
proof (cases rule: children_ok_cases)
  case (2 c0 c1)
  hence "binary (cleanUpTree c0)" "binary (cleanUpTree c1)" "Suc (height (cleanUpTree c0)) \<le> n" "Suc (height (cleanUpTree c1)) \<le> n"
    using tree_ok_clean [of n "''0''" c0] tree_ok_clean [of n "''1''" c1] by (auto simp: children_ok_pair)
  thus ?thesis using 2 by auto
qed auto

text \<open>The tree of peers in order: it is built, and it holds every peer unless there are two.\<close>

lemma createBinaryTree_ordered:
  assumes ord: "ordered_peers n (p # ps)" and "0 < n" "length ps \<noteq> 1" "m \<le> n"
  shows "\<exists>m' t. createBinaryTree m (p # ps) = Inr (m', Some t) \<and> mset (real_peers t) = mset (p # ps)
    \<and> m \<le> m' \<and> m' \<le> n \<and> (\<forall>c \<in> set (dn_children t). set (peer_depths 1 c) \<subseteq> {m'})"
proof -
  obtain cs where cs: "run_reducer (\<lambda>node peer. insertPeer (p # ps) None 0 peer node) (DNode (Some p) None []) ps = Inr (DNode (Some p) None cs)"
    "children_ok n [] cs" "mset (below cs) = mset ps"
    using run_insert [OF ord \<open>0 < n\<close>, of ps "[]" "Some p" None] ord by (auto simp: ordered_peers_def children_ok_def)
  have "length (below cs) = length ps" using cs(3) by (metis size_mset)
  hence real: "mset (real_peers (cleanUpTree (DNode (Some p) None cs))) = mset (p # ps)"
    using root_clean [OF cs(2)] assms(3) cs(3) by simp
  obtain q cs' where clean: "cleanUpTree (DNode (Some p) None cs) = DNode q None cs'" "height (DNode q None cs') \<le> n"
    "cs' = [] \<or> (\<exists>c0 c1. cs' = [c0, c1] \<and> binary c0 \<and> binary c1)"
    using clean_root_shape [OF cs(2), of p None] by blast
  let ?m = "max m (height (DNode q None cs'))"
  let ?e = "makeEqualDistancesForAllNodes ?m None 0 (DNode q None cs')"
  have peers: "mset (real_peers (DNode q None cs')) = mset (p # ps)" using real clean(1) by simp
  hence "set (real_peers (DNode q None cs')) = set (p # ps)" by (metis set_mset_mset)
  hence dist: "set (real_peers (DNode q None cs')) \<subseteq> distances n" "real_peers ?e \<noteq> []"
    using ord by (auto simp: ordered_peers_def simp del: real_peers.simps)
  have tree: "createBinaryTree m (p # ps) = Inr (?m, Some (removeEmptyNodes ?e))"
    using not_empty [OF dist(2)] by (simp add: createBinaryTree_def cs(1) clean(1) findMaxDistance_height js_bind_def)
  have depths: "set (peer_depths 1 c) \<subseteq> {?m}" if "c \<in> set (dn_children (removeEmptyNodes ?e))" for c
    by (rule root_depths [OF clean(3) _ _ dist(1) that]) (use clean(2) assms(4) in auto)
  show ?thesis
    by (intro exI [of _ ?m] exI [of _ "removeEmptyNodes ?e"] conjI ballI tree depths)
      (use peers clean(2) assms(4) in \<open>simp_all del: real_peers.simps\<close>)
qed

text \<open>
  C10: the graph of the hash table shows every peer. For peers with pairwise different distances of the
  same number of binary digits, unless there are exactly two, the tree is built without error and its
  peers are the given ones, each once; except for the origin at the root, all of them are at the
  depth the algorithm computes.
\<close>

theorem dht_graph_shows_all:
  assumes "set peers \<subseteq> distances n" "distinct (map np_binaryDistance peers)" "peers \<noteq> []" "length peers \<noteq> 2"
    and "0 < n" "m \<le> n"
  shows "\<exists>m' t. dht_graph m peers = Inr (m', Some t) \<and> mset (real_peers t) = mset peers
    \<and> m \<le> m' \<and> m' \<le> n \<and> (\<forall>c \<in> set (dn_children t). set (peer_depths 1 c) \<subseteq> {m'})"
proof -
  obtain p ps where sorted: "js_sort sortPeers peers = p # ps"
    using assms(3) by (metis list.exhaust mset_js_sort mset_zero_iff)
  hence len: "length ps \<noteq> 1" using assms(4) length_js_sort [of sortPeers peers] by simp
  have "ordered_peers n (p # ps)" using js_sort_ordered [OF assms(1,2)] sorted by simp
  from createBinaryTree_ordered [OF this assms(5) len assms(6)] show ?thesis
    using mset_js_sort [of sortPeers peers] by (simp add: dht_graph_def sorted)
qed

text \<open>With two peers the second takes the root if its distance starts with 1, and the origin is lost.\<close>

lemma two_peers_lose_origin:
  assumes "hd (np_binaryDistance b) = CHR ''1''" "np_binaryDistance b \<noteq> []"
  shows "\<exists>m' t. createBinaryTree m [a, b] = Inr (m', Some t) \<and> real_peers t = [b]"
proof -
  have d: "direction b 0 = 1" using assms by (cases "np_binaryDistance b") (auto simp: direction_def js_nth_def)
  have ins: "insertPeer [a, b] None 0 b (DNode (Some a) None [])
      = Inr (DNode (Some a) None [DNode None (Some 0) [], DNode (Some b) (Some 1) []])"
    by (subst insertPeer.simps) (simp add: d takes_node_def put_child_def)
  have ne: "\<not> empty_node (makeEqualDistancesForAllNodes k None 0 (DNode (Some b) None []))" for k
    by (rule not_empty) (simp only: makeEqual_peers, simp)
  show ?thesis by (simp add: createBinaryTree_def ins js_bind_def ne del: makeEqualDistancesForAllNodes.simps)
qed

definition sample_dht_peer :: "string \<Rightarrow> NetworkNodeDhtPeer" where
  "sample_dht_peer d = \<lparr>np_peerId = d, np_key = d, np_addressesLength = 0, np_addrs = [], np_libp2p = [],
     np_connection = [], np_hexDistance = [], np_binaryDistance = d, np_xorDistance = None, np_bucketMaxHex = [], np_bucketIndex = 0\<rparr>"

theorem dht_graph_shows_all_witness:
  "\<exists>m' t. dht_graph 0 (map sample_dht_peer [''000'', ''110'', ''100'', ''111'']) = Inr (m', Some t)
    \<and> mset (real_peers t) = mset (map sample_dht_peer [''000'', ''110'', ''100'', ''111''])
    \<and> 0 \<le> m' \<and> m' \<le> 3 \<and> (\<forall>c \<in> set (dn_children t). set (peer_depths 1 c) \<subseteq> {m'})"
  by (rule dht_graph_shows_all) (simp_all add: sample_dht_peer_def distances_def bits_def)

end
