(* ===== verification/NodeSwitcher.thy ===== *)
theory NodeSwitcher
  imports AppShell DateHelper
begin

text \<open>
  The part of the layout that switches nodes and pages: the node status with its overlays
  (\<open>layout/server-status\<close>), the node picker (\<open>layout/node-picker\<close>), the form for a new node
  (\<open>layout/new-node\<close>), the menu (\<open>layout/menu\<close>) and the tabs of the pages of a feature
  (\<open>layout/submenu-tabs\<close>). Elements are addressed by their position, node objects are the same
  object if they are equal, and times are whole milliseconds. The placement and animation of the
  overlays, the placeholders of the form and the theme are left out.
\<close>

section \<open>Form for a new node\<close>

record SubFeature =
  sf_name :: string
  sf_checked :: bool

record Feature =
  ft_name :: string
  ft_checked :: bool
  ft_subFeatures :: "SubFeature list"

definition all_checked :: "string \<Rightarrow> string list \<Rightarrow> Feature" where
  "all_checked name subs = \<lparr>ft_name = name, ft_checked = True,
     ft_subFeatures = map (\<lambda>s. \<lparr>sf_name = s, sf_checked = True\<rparr>) subs\<rparr>"

definition form_features :: "Feature list" where
  "form_features =
    [all_checked ''Dashboard'' [],
     all_checked ''Nodes'' [''overview'', ''live'', ''bootstrap''],
     all_checked ''State'' [''actions''],
     all_checked ''Network'' [''messages'', ''connections'', ''blocks'', ''topology'', ''node DHT'',
       ''graph overview'', ''bootstrap stats''],
     all_checked ''Snarks'' [''scan state'', ''work pool''],
     all_checked ''Resources'' [''memory''],
     all_checked ''Mempool'' [],
     all_checked ''Benchmarks'' []]"

record NewNodeForm =
  nn_features :: "Feature list"
  nn_name :: string
  nn_url :: string
  nn_memProfiler :: string
  nn_debugger :: string
  nn_touched :: bool

definition initForm :: NewNodeForm where
  "initForm = \<lparr>nn_features = form_features, nn_name = [], nn_url = [], nn_memProfiler = [],
     nn_debugger = [], nn_touched = False\<rparr>"

definition onFeatureCheck :: "Feature \<Rightarrow> Feature" where
  "onFeatureCheck feature = (let c = \<not> ft_checked feature in
     feature\<lparr>ft_checked := c, ft_subFeatures := map (\<lambda>s. s\<lparr>sf_checked := c\<rparr>) (ft_subFeatures feature)\<rparr>)"

definition onSubFeatureCheck :: "nat \<Rightarrow> Feature \<Rightarrow> Feature" where
  "onSubFeatureCheck j feature = (if j < length (ft_subFeatures feature)
     then (let sub = ft_subFeatures feature ! j;
               subs = (ft_subFeatures feature)[j := sub\<lparr>sf_checked := \<not> sf_checked sub\<rparr>]
       in feature\<lparr>ft_subFeatures := subs, ft_checked := list_ex sf_checked subs\<rparr>)
     else feature)"

text \<open>\<open>replace(' ', '-')\<close> replaces the first blank.\<close>

fun dash_first :: "string \<Rightarrow> string" where
  "dash_first [] = []"
| "dash_first (c # cs) = (if c = CHR '' '' then CHR ''-'' # cs else c # dash_first cs)"

definition route_name :: "string \<Rightarrow> string" where
  "route_name name = dash_first (js_toLowerCase name)"

definition featuresConfig :: "Feature list \<Rightarrow> FeaturesConfig" where
  "featuresConfig features = FeaturesObject (map (\<lambda>f. (route_name (ft_name f),
     Some (map (\<lambda>s. route_name (sf_name s)) (filter sf_checked (ft_subFeatures f))))) (filter ft_checked features))"

text \<open>The node of a valid form; an optional address that is left empty is the empty text.\<close>

definition form_node :: "NewNodeForm \<Rightarrow> MinaNode option" where
  "form_node form = (if nn_name form = [] \<or> nn_url form = [] then None
     else Some \<lparr>node_name = nn_name form, node_url = Some (nn_url form),
       node_memoryProfiler = Some (nn_memProfiler form), node_debugger = Some (nn_debugger form),
       node_features = Some (featuresConfig (nn_features form)), node_isCustom = Some True, node_isWebNode = None\<rparr>)"

section \<open>Node picker\<close>

record NodePicker =
  np_nodes :: "MinaNode list"
  np_filteredNodes :: "MinaNode list"
  np_activeNode :: "MinaNode option"

definition node_matches :: "string \<Rightarrow> MinaNode \<Rightarrow> bool" where
  "node_matches v n \<longleftrightarrow> js_includes (js_toLowerCase (node_name n)) v
     \<or> (case node_url n of None \<Rightarrow> False | Some u \<Rightarrow> js_includes (js_toLowerCase u) v)"

definition listenToNodeSearch :: "NodePicker \<Rightarrow> string \<Rightarrow> NodePicker" where
  "listenToNodeSearch p v = (if length v \<le> 1 then p\<lparr>np_filteredNodes := np_nodes p\<rparr>
     else p\<lparr>np_filteredNodes := filter (node_matches (js_toLowerCase v)) (np_nodes p)\<rparr>)"

definition selectNode :: "NodePicker \<Rightarrow> MinaNode \<Rightarrow> 'b AppActions list" where
  "selectNode p node = (if np_activeNode p \<noteq> Some node then [app_changeActiveNode node] else [])"

definition deleteCustomNode :: "NodePicker \<Rightarrow> MinaNode \<Rightarrow> NodePicker \<times> 'b AppActions list" where
  "deleteCustomNode p node =
    (p\<lparr>np_filteredNodes := filter (\<lambda>n. n \<noteq> node) (np_filteredNodes p)\<rparr>, [app_deleteNode node])"

section \<open>Node status\<close>

text \<open>The overlay of the picker and the form share one reference; \<open>NoOverlay\<close> also stands for a detached one.\<close>

datatype overlay = NoOverlay | PickerOverlay NodePicker | FormOverlay NewNodeForm

record ServerStatus =
  ss_switchForbidden :: bool
  ss_isMobile :: bool
  ss_nodes :: "MinaNode list"
  ss_activeNode :: "MinaNode option"
  ss_details :: "AppNodeDetails option"
  ss_isOnline :: bool
  ss_blockTimeAgo :: "string option"
  ss_tooltip :: bool
  ss_overlay :: overlay

definition initial_status :: ServerStatus where
  "initial_status = \<lparr>ss_switchForbidden = False, ss_isMobile = False, ss_nodes = [], ss_activeNode = None,
     ss_details = None, ss_isOnline = False, ss_blockTimeAgo = None, ss_tooltip = False, ss_overlay = NoOverlay\<rparr>"

datatype status_event =
  StatusMenu AppMenu
| StatusNodes "MinaNode list"
| StatusActiveNode "MinaNode option"
| StatusDetails AppNodeDetails
| StatusNavigated string
| OpenTooltip
| CloseTooltip
| OpenPicker
| PickerKeyup string
| PickerSelect MinaNode
| PickerAdd
| PickerDelete MinaNode
| PickerClickOutside
| FormFeature nat
| FormSubFeature nat nat
| FormText "NewNodeForm \<Rightarrow> NewNodeForm"
| FormAddNode
| FormClose

definition open_picker :: "ServerStatus \<Rightarrow> overlay" where
  "open_picker s = PickerOverlay \<lparr>np_nodes = ss_nodes s, np_filteredNodes = ss_nodes s, np_activeNode = ss_activeNode s\<rparr>"

definition on_details :: "int \<Rightarrow> ServerStatus \<Rightarrow> AppNodeDetails \<Rightarrow> ServerStatus" where
  "on_details now s d = s\<lparr>ss_details := Some d,
     ss_isOnline := nd_status d \<notin> {PENDING, OFFLINE},
     ss_blockTimeAgo := td_diff (getTimeDiff now (map_option (\<lambda>t. t div 1000000) (nd_blockTime d)) no_config)\<rparr>"

text \<open>The subscriptions and the buttons. A change of the nodes looks at the tooltip and closes the picker.\<close>

definition status_base :: "int \<Rightarrow> ServerStatus \<Rightarrow> status_event \<Rightarrow> ServerStatus" where
  "status_base now s e = (case e of
     StatusMenu m \<Rightarrow> if menu_isMobile m \<noteq> ss_isMobile s then s\<lparr>ss_isMobile := menu_isMobile m\<rparr> else s
   | StatusNodes ns \<Rightarrow> if ns = [] then s
       else s\<lparr>ss_nodes := ns, ss_overlay := (if ss_tooltip s then NoOverlay else ss_overlay s)\<rparr>
   | StatusActiveNode n \<Rightarrow> (case n of None \<Rightarrow> s | Some _ \<Rightarrow> s\<lparr>ss_activeNode := n\<rparr>)
   | StatusDetails d \<Rightarrow> on_details now s d
   | StatusNavigated path \<Rightarrow> s\<lparr>ss_switchForbidden := js_includes path ''nodes/overview''\<rparr>
   | OpenTooltip \<Rightarrow> if map_option nd_status (ss_details s) = Some PENDING then s else s\<lparr>ss_tooltip := True\<rparr>
   | CloseTooltip \<Rightarrow> s\<lparr>ss_tooltip := False\<rparr>
   | OpenPicker \<Rightarrow> s\<lparr>ss_overlay := (if ss_overlay s = NoOverlay then open_picker s else NoOverlay)\<rparr>
   | _ \<Rightarrow> s)"

text \<open>The events of an open picker; it is closed before the action of a selection.\<close>

fun picker_event :: "NodePicker \<Rightarrow> status_event \<Rightarrow> overlay \<times> 'b AppActions list" where
  "picker_event p (PickerKeyup v) = (PickerOverlay (listenToNodeSearch p v), [])"
| "picker_event p (PickerSelect node) = (NoOverlay, selectNode p node)"
| "picker_event p PickerAdd = (FormOverlay initForm, [])"
| "picker_event p (PickerDelete node) = (case deleteCustomNode p node of (p', as) \<Rightarrow> (PickerOverlay p', as))"
| "picker_event p PickerClickOutside = (NoOverlay, [])"
| "picker_event p _ = (PickerOverlay p, [])"

definition check_at :: "nat \<Rightarrow> (Feature \<Rightarrow> Feature) \<Rightarrow> NewNodeForm \<Rightarrow> NewNodeForm" where
  "check_at i f form = (if i < length (nn_features form)
     then form\<lparr>nn_features := (nn_features form)[i := f (nn_features form ! i)]\<rparr> else form)"

text \<open>The events of an open form; an edit of a text leaves the features as they are.\<close>

fun form_event :: "NewNodeForm \<Rightarrow> status_event \<Rightarrow> overlay \<times> 'b AppActions list" where
  "form_event form (FormFeature i) = (FormOverlay (check_at i onFeatureCheck form), [])"
| "form_event form (FormSubFeature i j) = (FormOverlay (check_at i (onSubFeatureCheck j) form), [])"
| "form_event form (FormText edit) = (FormOverlay ((edit form)\<lparr>nn_features := nn_features form\<rparr>), [])"
| "form_event form FormAddNode = (case form_node form of
     None \<Rightarrow> (FormOverlay (form\<lparr>nn_touched := True\<rparr>), [])
   | Some node \<Rightarrow> (NoOverlay, [app_addNode node]))"
| "form_event form FormClose = (NoOverlay, [])"
| "form_event form _ = (FormOverlay form, [])"

fun overlay_event :: "overlay \<Rightarrow> status_event \<Rightarrow> overlay \<times> 'b AppActions list" where
  "overlay_event NoOverlay e = (NoOverlay, [])"
| "overlay_event (PickerOverlay p) e = picker_event p e"
| "overlay_event (FormOverlay form) e = form_event form e"

definition server_status :: "int \<Rightarrow> ServerStatus \<Rightarrow> status_event \<Rightarrow> ServerStatus \<times> 'b AppActions list" where
  "server_status now s e = (case overlay_event (ss_overlay s) e of (ov, as) \<Rightarrow>
     (status_base now (s\<lparr>ss_overlay := ov\<rparr>) e, as))"

section \<open>Menu and tabs\<close>

record MenuItem =
  mi_name :: string
  mi_icon :: string

definition menu_item :: "string \<Rightarrow> string \<Rightarrow> MenuItem" where
  "menu_item name icon = \<lparr>mi_name = name, mi_icon = icon\<rparr>"

definition MENU_ITEMS :: "MenuItem list" where
  "MENU_ITEMS = [menu_item ''Dashboard'' ''dashboard'', menu_item ''Block Production'' ''library_add'',
     menu_item ''Nodes'' ''margin'', menu_item ''Resources'' ''analytics'', menu_item ''Mempool'' ''blur_circular'',
     menu_item ''Network'' ''account_tree'', menu_item ''State'' ''code_blocks'',
     menu_item ''SNARKs'' ''assignment_turned_in'', menu_item ''Benchmarks'' ''dynamic_form'',
     menu_item ''Fuzzing'' ''shuffle'']"

definition menu_route :: "MenuItem \<Rightarrow> string" where
  "menu_route item = js_join ''-'' (js_split (CHR '' '') (js_toLowerCase (mi_name item)))"

text \<open>\<open>this.activeNode || { features: {} }\<close>.\<close>

definition no_features_node :: MinaNode where
  "no_features_node = \<lparr>node_name = [], node_url = None, node_memoryProfiler = None, node_debugger = None,
     node_features = Some (FeaturesObject []), node_isCustom = None, node_isWebNode = None\<rparr>"

definition allowedMenuItems :: "MinaEnv \<Rightarrow> MinaNode option \<Rightarrow> MenuItem list" where
  "allowedMenuItems cfg activeNode =
    (let features = getAvailableFeatures cfg (Some (case activeNode of Some n \<Rightarrow> n | None \<Rightarrow> no_features_node))
     in filter (\<lambda>item. List.find (\<lambda>f. f = menu_route item) features \<notin> {None, Some []}) MENU_ITEMS)"

record 'b Menu =
  mn_menuItems :: "MenuItem list"
  mn_menu :: "AppMenu option"
  mn_activeNode :: "MinaNode option"
  mn_activeRoute :: "string option"
  mn_chainId :: "string option"
  mn_network :: "MinaNetwork option"
  mn_envBuild :: "'b option"

datatype 'b menu_event =
  MenuState AppMenu
| MenuNode "MinaNode option"
| MenuDetails AppNodeDetails
| MenuEnvBuild "'b option"
| MenuUrl string
| MenuItemClick
| MenuToggle

text \<open>\<open>collapseMenu\<close> for the wide layout, the opening and closing for the mobile one.\<close>

fun menu_component :: "MinaEnv \<Rightarrow> 'b Menu \<Rightarrow> 'b menu_event \<Rightarrow> ('b Menu \<times> 'b AppActions list) result" where
  "menu_component cfg m (MenuState s) = Inr (m\<lparr>mn_menu := Some s\<rparr>, [])"
| "menu_component cfg m (MenuNode n) = Inr (case n of None \<Rightarrow> m
     | Some _ \<Rightarrow> m\<lparr>mn_activeNode := n, mn_menuItems := allowedMenuItems cfg n\<rparr>, [])"
| "menu_component cfg m (MenuDetails d) = Inr (m\<lparr>mn_chainId := nd_chainId d, mn_network := nd_network d\<rparr>, [])"
| "menu_component cfg m (MenuEnvBuild b) = Inr (case b of None \<Rightarrow> m | Some _ \<Rightarrow> m\<lparr>mn_envBuild := b\<rparr>, [])"
| "menu_component cfg m (MenuUrl url) =
     Inr (m\<lparr>mn_activeRoute := js_nth (js_split (CHR ''/'') (removeParamsFromURL url)) 1\<rparr>, [])"
| "menu_component cfg m MenuItemClick = (case mn_menu m of None \<Rightarrow> Inl (TypeError ''isMobile'')
     | Some s \<Rightarrow> Inr (m, if menu_isMobile s then [app_toggleMenuOpening] else []))"
| "menu_component cfg m MenuToggle = (case mn_menu m of None \<Rightarrow> Inl (TypeError ''isMobile'')
     | Some s \<Rightarrow> Inr (m, if menu_isMobile s then [app_toggleMenuOpening]
         else [app_changeMenuCollapsing (\<not> menu_collapsed s)]))"

record SubMenu =
  sm_name :: string
  sm_route :: string

definition getSubMenusMap :: "string list \<Rightarrow> SubMenu list" where
  "getSubMenusMap features = map (\<lambda>f. \<lparr>sm_name = js_join '' '' (js_split (CHR ''-'') f), sm_route = f\<rparr>) features"

text \<open>
  With no feature found the key is \<open>'undefined'\<close>. Without features of the node the global features are
  read, and a configuration without them throws.
\<close>

definition setSubMenusOfActiveNodeForNewPage ::
  "MinaEnv \<Rightarrow> MinaNode option \<Rightarrow> string option \<Rightarrow> SubMenu list result" where
  "setSubMenusOfActiveNodeForNewPage cfg node baseRoute =
    (let feature = (case List.find (\<lambda>f. Some f = baseRoute) (getAvailableFeatures cfg node) of
          Some f \<Rightarrow> f | None \<Rightarrow> ''undefined'');
         entry = (\<lambda>fc. case feature_entry fc feature of None \<Rightarrow> [] | Some fs \<Rightarrow> getSubMenusMap fs)
     in case Option.bind node node_features of
          Some fc \<Rightarrow> Inr (entry fc)
        | None \<Rightarrow> (case env_globalFeatures cfg of None \<Rightarrow> Inl (TypeError feature) | Some fc \<Rightarrow> Inr (entry fc)))"

record SubmenuTabs =
  st_subMenus :: "SubMenu list"
  st_baseRoute :: "string option"
  st_activeSubMenu :: "string option"
  st_activeNodeName :: "string option"

definition submenu_route ::
  "MinaEnv \<Rightarrow> SubmenuTabs \<Rightarrow> MinaNode option \<Rightarrow> string \<Rightarrow> string option \<Rightarrow> SubmenuTabs result" where
  "submenu_route cfg t activeNode url nodeParam =
    (let parts = js_split (CHR ''/'') url; base = map_option removeParamsFromURL (js_nth parts 1)
     in js_bind (setSubMenusOfActiveNodeForNewPage cfg activeNode base) (\<lambda>subMenus.
          Inr (t\<lparr>st_baseRoute := base, st_activeSubMenu := map_option removeParamsFromURL (js_nth parts 2),
            st_activeNodeName := nodeParam, st_subMenus := subMenus\<rparr>)))"

section \<open>The form\<close>

text \<open>A feature with pages is checked exactly if one of its pages is; the names never change.\<close>

definition feature_ok :: "Feature \<Rightarrow> bool" where
  "feature_ok f \<longleftrightarrow> (ft_subFeatures f = [] \<or> ft_checked f = list_ex sf_checked (ft_subFeatures f))"

definition form_ok :: "NewNodeForm \<Rightarrow> bool" where
  "form_ok form \<longleftrightarrow> list_all feature_ok (nn_features form) \<and> map ft_name (nn_features form) = map ft_name form_features"

fun overlay_ok :: "overlay \<Rightarrow> bool" where
  "overlay_ok (FormOverlay form) = form_ok form"
| "overlay_ok _ = True"

lemma initForm_ok: "form_ok initForm"
  by (simp add: form_ok_def initForm_def feature_ok_def form_features_def all_checked_def)

lemma onFeatureCheck_ok: "feature_ok (onFeatureCheck f)" "ft_name (onFeatureCheck f) = ft_name f"
  by (cases "ft_subFeatures f"; auto simp: feature_ok_def onFeatureCheck_def list_ex_iff)+

lemma onSubFeatureCheck_ok:
  "feature_ok f \<Longrightarrow> feature_ok (onSubFeatureCheck j f)" "ft_name (onSubFeatureCheck j f) = ft_name f"
  by (auto simp: feature_ok_def onSubFeatureCheck_def)

lemma check_at_ok:
  assumes "form_ok form" "\<And>f. feature_ok f \<Longrightarrow> feature_ok (g f)" "\<And>f. ft_name (g f) = ft_name f"
  shows "form_ok (check_at i g form)"
proof (cases "i < length (nn_features form)")
  case True
  have "map ft_name ((nn_features form)[i := g (nn_features form ! i)]) = map ft_name (nn_features form)"
    using assms(3) True by (simp add: map_update list_update_id [of "map ft_name (nn_features form)" i, simplified nth_map [OF True]])
  moreover have "list_all feature_ok ((nn_features form)[i := g (nn_features form ! i)])"
    using assms(1,2) True by (auto simp: form_ok_def list_all_iff dest!: set_update_subset_insert [THEN subsetD])
  ultimately show ?thesis using assms(1) True by (simp add: check_at_def form_ok_def)
qed (use assms(1) in \<open>simp add: check_at_def\<close>)

lemma form_event_ok: "form_ok form \<Longrightarrow> overlay_ok (fst (form_event form e))"
  by (cases e) (auto simp: onFeatureCheck_ok onSubFeatureCheck_ok intro!: check_at_ok,
      auto simp: form_ok_def split: option.splits)

lemma picker_event_ok: "overlay_ok (fst (picker_event p e))"
  by (cases e) (auto simp: deleteCustomNode_def initForm_ok)

lemma overlay_event_ok: "overlay_ok ov \<Longrightarrow> overlay_ok (fst (overlay_event ov e))"
  by (cases ov) (simp_all add: form_event_ok picker_event_ok)

lemma overlay_run_ok: "overlay_ok ov \<Longrightarrow> overlay_ok (foldl (\<lambda>ov e. fst (overlay_event ov e)) ov es)"
  by (induction es arbitrary: ov) (simp_all add: overlay_event_ok)

section \<open>Pages of a new node\<close>

definition form_routes :: "string list" where
  "form_routes = [''dashboard'', ''nodes'', ''state'', ''network'', ''snarks'', ''resources'', ''mempool'', ''benchmarks'']"

lemma route_names: "map route_name (map ft_name form_features) = form_routes"
  by code_simp

lemma menu_routes: "map menu_route MENU_ITEMS = [''dashboard'', ''block-production'', ''nodes'', ''resources'',
    ''mempool'', ''network'', ''state'', ''snarks'', ''benchmarks'', ''fuzzing'']"
  by code_simp

lemma menu_route_nonempty: "item \<in> set MENU_ITEMS \<Longrightarrow> menu_route item \<noteq> []"
proof -
  assume "item \<in> set MENU_ITEMS"
  hence "menu_route item \<in> set (map menu_route MENU_ITEMS)" by simp
  thus ?thesis unfolding menu_routes by auto
qed

lemma find_eq: "List.find (\<lambda>x. x = y) xs = (if y \<in> set xs then Some y else None)"
  by (induction xs) auto

lemma allowed_iff:
  "item \<in> set MENU_ITEMS \<Longrightarrow> item \<in> set (allowedMenuItems cfg (Some n)) \<longleftrightarrow> menu_route item \<in> set (getAvailableFeatures cfg (Some n))"
  using menu_route_nonempty [of item] by (simp add: allowedMenuItems_def find_eq)

lemma form_node_features:
  "form_node form = Some node \<Longrightarrow> node_features node = Some (featuresConfig (nn_features form))"
  by (auto simp: form_node_def split: if_splits)

lemma form_available:
  assumes "form_node form = Some node" "env_configs cfg \<noteq> []"
  shows "getAvailableFeatures cfg (Some node) = map (\<lambda>f. route_name (ft_name f)) (filter ft_checked (nn_features form))"
  using form_node_features [OF assms(1)] assms(2)
  by (simp add: getAvailableFeatures_def getFeaturesConfig_def featuresConfig_def)

lemma form_entry:
  assumes "form_ok form" "f \<in> set (nn_features form)" "ft_checked f"
  shows "feature_entry (featuresConfig (nn_features form)) (route_name (ft_name f))
    = Some (map (\<lambda>s. route_name (sf_name s)) (filter sf_checked (ft_subFeatures f)))"
proof -
  have "map route_name (map ft_name (nn_features form)) = form_routes"
    using assms(1) unfolding form_ok_def by (simp only: route_names)
  hence "distinct (map (\<lambda>f. route_name (ft_name f)) (nn_features form))" by (simp add: form_routes_def comp_def)
  hence "distinct (map (\<lambda>f. route_name (ft_name f)) (filter ft_checked (nn_features form)))"
    by (rule distinct_map_filter)
  hence "map_of (map (\<lambda>f. (route_name (ft_name f), g f)) (filter ft_checked (nn_features form))) (route_name (ft_name f)) = Some (g f)"
    for g :: "Feature \<Rightarrow> string list option"
    using assms(2,3) by (intro map_of_is_SomeI) (auto simp: comp_def)
  thus ?thesis by (simp add: featuresConfig_def)
qed

text \<open>
  C15: the pages of a node added by hand are the ones checked in the form. However the form was used, once
  it gives a node, the menu for that node has an item exactly if the feature of that name is checked,
  and the tabs of a checked feature are its checked pages, at least one if the feature has any.
\<close>

theorem new_node_pages:
  assumes "foldl (\<lambda>ov e. fst (overlay_event ov e :: overlay \<times> unit AppActions list)) (FormOverlay initForm) es = FormOverlay form"
    and "form_node form = Some node" "env_configs cfg \<noteq> []"
  shows "(\<forall>item \<in> set MENU_ITEMS. item \<in> set (allowedMenuItems cfg (Some node))
        \<longleftrightarrow> (\<exists>f \<in> set (nn_features form). ft_checked f \<and> route_name (ft_name f) = menu_route item))
    \<and> (\<forall>f \<in> set (nn_features form). ft_checked f \<longrightarrow>
        (\<exists>tabs. setSubMenusOfActiveNodeForNewPage cfg (Some node) (Some (route_name (ft_name f))) = Inr tabs
          \<and> map sm_route tabs = map (\<lambda>s. route_name (sf_name s)) (filter sf_checked (ft_subFeatures f))
          \<and> (tabs = [] \<longleftrightarrow> ft_subFeatures f = [])))"
proof -
  have ok: "form_ok form"
    using overlay_run_ok [of "FormOverlay initForm" es, where ?'a = unit] assms(1) by (simp add: initForm_ok)
  have menu: "item \<in> set (allowedMenuItems cfg (Some node))
        \<longleftrightarrow> (\<exists>f \<in> set (nn_features form). ft_checked f \<and> route_name (ft_name f) = menu_route item)"
    if "item \<in> set MENU_ITEMS" for item
    using that by (auto simp: allowed_iff form_available [OF assms(2,3)] image_iff)
  have tabs: "\<exists>tabs. setSubMenusOfActiveNodeForNewPage cfg (Some node) (Some (route_name (ft_name f))) = Inr tabs
          \<and> map sm_route tabs = map (\<lambda>s. route_name (sf_name s)) (filter sf_checked (ft_subFeatures f))
          \<and> (tabs = [] \<longleftrightarrow> ft_subFeatures f = [])" if f: "f \<in> set (nn_features form)" "ft_checked f" for f
  proof -
    have "feature_ok f" using ok f(1) by (simp add: form_ok_def list_all_iff)
    hence some: "filter sf_checked (ft_subFeatures f) = [] \<longleftrightarrow> ft_subFeatures f = []"
      using f(2) by (auto simp: feature_ok_def filter_empty_conv list_ex_iff)
    have "route_name (ft_name f) \<in> set (getAvailableFeatures cfg (Some node))"
      using f by (auto simp: form_available [OF assms(2,3)])
    hence "setSubMenusOfActiveNodeForNewPage cfg (Some node) (Some (route_name (ft_name f)))
        = Inr (getSubMenusMap (map (\<lambda>s. route_name (sf_name s)) (filter sf_checked (ft_subFeatures f))))"
      by (simp add: setSubMenusOfActiveNodeForNewPage_def find_eq form_node_features [OF assms(2)] form_entry [OF ok f])
    thus ?thesis by (simp add: getSubMenusMap_def some comp_def)
  qed
  show ?thesis using menu tabs by blast
qed

section \<open>The picker\<close>

lemma deleted_node_reappears:
  assumes "ss_overlay s = PickerOverlay p" "\<not> ss_tooltip s" "node \<in> set (np_nodes p)" "length v \<le> 1"
  shows "\<exists>p'. ss_overlay (foldl (\<lambda>s e. fst (server_status now s e :: ServerStatus \<times> unit AppActions list)) s
      [PickerDelete node, StatusNodes ns, PickerKeyup v]) = PickerOverlay p' \<and> node \<in> set (np_filteredNodes p')"
  using assms by (simp add: server_status_def status_base_def deleteCustomNode_def listenToNodeSearch_def)

lemma tabs_without_features:
  "Option.bind node node_features = None \<Longrightarrow> env_globalFeatures cfg = None
    \<Longrightarrow> \<exists>e. submenu_route cfg t node url param = Inl e"
  by (simp add: submenu_route_def setSubMenusOfActiveNodeForNewPage_def js_bind_def)

section \<open>Witness\<close>

definition sample_form :: NewNodeForm where
  "sample_form = (check_at 2 onFeatureCheck initForm)\<lparr>nn_name := ''n'', nn_url := ''u''\<rparr>"

lemma sample_form_features: "nn_features sample_form = form_features
    [2 := \<lparr>ft_name = ''State'', ft_checked = False, ft_subFeatures = [\<lparr>sf_name = ''actions'', sf_checked = False\<rparr>]\<rparr>]"
  by (simp add: sample_form_def check_at_def initForm_def onFeatureCheck_def form_features_def all_checked_def)

lemma sample_form_routes:
  "set (map (\<lambda>f. route_name (ft_name f)) (filter ft_checked (nn_features sample_form)))
    = {''dashboard'', ''nodes'', ''network'', ''snarks'', ''resources'', ''mempool'', ''benchmarks''}"
  using route_names unfolding sample_form_features
  by (simp add: form_features_def all_checked_def form_routes_def)

lemma sample_items: "menu_route (MENU_ITEMS ! 2) = ''nodes''" "menu_route (MENU_ITEMS ! 6) = ''state''"
  using arg_cong [OF menu_routes, of "\<lambda>xs. (xs ! 2, xs ! 6)"] by (simp_all add: MENU_ITEMS_def)

theorem new_node_pages_witness:
  "\<exists>node. form_node sample_form = Some node
    \<and> MENU_ITEMS ! 2 \<in> set (allowedMenuItems (sample_env [sample_node ''a'']) (Some node))
    \<and> MENU_ITEMS ! 6 \<notin> set (allowedMenuItems (sample_env [sample_node ''a'']) (Some node))"
proof -
  let ?edit = "\<lambda>f. f\<lparr>nn_name := ''n'', nn_url := ''u''\<rparr>"
  obtain node where node: "form_node sample_form = Some node"
    by (simp add: form_node_def sample_form_def)
  have run: "foldl (\<lambda>ov e. fst (overlay_event ov e :: overlay \<times> unit AppActions list)) (FormOverlay initForm)
      [FormFeature 2, FormText ?edit] = FormOverlay sample_form"
    by (simp add: sample_form_def check_at_def initForm_def form_features_def)
  have "item \<in> set (allowedMenuItems (sample_env [sample_node ''a'']) (Some node))
      \<longleftrightarrow> (\<exists>f \<in> set (nn_features sample_form). ft_checked f \<and> route_name (ft_name f) = menu_route item)"
    if "item \<in> set MENU_ITEMS" for item
    using new_node_pages [OF run node, of "sample_env [sample_node ''a'']"] that by simp
  moreover have "MENU_ITEMS ! 2 \<in> set MENU_ITEMS" "MENU_ITEMS ! 6 \<in> set MENU_ITEMS" by (simp_all add: MENU_ITEMS_def)
  moreover have "(\<exists>f \<in> set (nn_features sample_form). ft_checked f \<and> route_name (ft_name f) = r)
      \<longleftrightarrow> r \<in> set (map (\<lambda>f. route_name (ft_name f)) (filter ft_checked (nn_features sample_form)))" for r
    by (auto simp: image_iff)
  ultimately show ?thesis using node by (auto simp: sample_items sample_form_routes simp del: set_map)
qed

end
