(* ===== verification/Spec2Isabelle.thy ===== *)
theory Spec2Isabelle
  imports AppShell MessagesFilters NetworkBlocks NetworkSplits WonSlots LedgerHelper BlockOverview
    ScanState WorkPool Mempool StateActions MemoryTreemap NodesOverview DashboardViews Fuzzing
    WebNode NodesLive DhtGraph NodeSwitcher
begin

text \<open>
  \<^bold>\<open>A verification library for the frontend of the Mina Rust node\<close>

  \<^bold>\<open>The program.\<close> The repository holds the Rust implementation of a Mina node and its web frontend
  (\<open>src/frontend\<close>, Angular with an NgRx store). This library is about the frontend's logic. Each page
  of it is a \<^emph>\<open>feature\<close> with the same four parts: a \<^emph>\<open>service\<close> that asks the node over HTTP and
  reshapes the answer, a \<^emph>\<open>slice\<close> of the store (a state and a reducer over actions), \<^emph>\<open>effects\<close> that
  turn actions into requests and answers into actions, and \<^emph>\<open>components\<close> that show the state. Beside
  the features there are the shared helpers and the shell of the application.

  \<^bold>\<open>How the code is modelled.\<close> Every state and every message is a record, every union of actions
  and every enum a datatype, every function a HOL function of the same name. A reducer that can
  throw returns \<open>jserror + state\<close>; an absent value (\<open>undefined\<close>, or \<open>null\<close> where the code does not
  tell them apart) is \<open>None\<close>; NaN is \<open>None\<close> of a number. Numbers are exact integers and rationals, so
  binary64 rounding is not modelled. What the program takes from outside is an argument: the clock,
  the formatting of dates, \<open>localeCompare\<close>, \<open>Math.random\<close> (a stream of draws, counted by the state),
  the width of the window and the answers of the server. Where a theorem needs a law of one of them
  it is a named hypothesis: \<open>collation\<close> for \<open>localeCompare\<close>, \<open>unit_draws\<close> for \<open>Math.random\<close>.

  \<^bold>\<open>The theories.\<close>
  \<^item> \<open>JsPrelude\<close>: JavaScript's values, exceptions, conversions between strings and numbers, array and
    string operations; the lemmas the other theories share.
  \<^item> \<open>JsSort\<close>: the language's stable sort with a comparator. The locale \<open>consistent_comparator\<close> is the
    contract of a comparator under which the result is sorted, stable and unique; \<open>key_comparator\<close> and
    \<open>collation\<close> give it from a key and from a comparison of strings.
  \<^item> \<open>ArrayHelper\<close> (\<open>vendor/mina-rust-shared/src/lib/helpers/array.helper.ts\<close>, \<open>values.helper.ts\<close>): the
    table sort behind every table, the toggling of filters. Its comparators are interpreted in the
    locales of the sort.
  \<^item> \<open>DateHelper\<close> (\<open>shared/helpers/date.helper.ts\<close>): durations as texts.
  \<^item> \<open>NgRx\<close>: slices and effects in general. The locales \<open>partial_slice\<close>, \<open>safe_slice\<close> and \<open>slice\<close>
    carry an invariant over all sequences of actions; \<open>request_gate\<close> and \<open>blocked_effect\<close> are two
    disciplines of effects that guard a request by a flag. The features interpret them on their own
    reducers and effects.
  \<^item> \<open>LoadingError\<close> (\<open>layout/toolbar/loading.reducer.ts\<close>, \<open>layout/error-preview\<close>,
    \<open>shared/constants/store-functions.ts\<close>): the loading indicator and the list of errors.
  \<^item> \<open>AppShell\<close> (\<open>app.reducer.ts\<close>, \<open>app.service.ts\<close>, \<open>app.effects.ts\<close>, \<open>shared/constants/config.ts\<close>,
    \<open>core/services/rust.service.ts\<close>): configuration and features, the nodes, the polling of the active
    node.
  \<^item> \<open>NodeSwitcher\<close> (\<open>layout/server-status\<close>, \<open>node-picker\<close>, \<open>new-node\<close>, \<open>menu\<close>, \<open>submenu-tabs\<close>): the
    overlays of the node status, the form for a node, and the menu and tabs that follow from it.
  \<^item> \<open>NetworkMessages\<close>, \<open>MessagesService\<close>, \<open>MessagesFilters\<close> (\<open>features/network/messages\<close>): the slice with
    its paging and filters; the service, the paging buttons and the effects; the filters on offer, the
    filter panel, the table and the links between them.
  \<^item> \<open>NetworkBlocks\<close> (\<open>features/network/blocks\<close>): exact timestamps and latencies, slice and effects.
  \<^item> \<open>SplitsGraph\<close>, \<open>SplitsService\<close>, \<open>SplitsLaws\<close>, \<open>NetworkSplits\<close> (\<open>features/network/splits\<close>): depth-first
    search and connectedness; the generator of the network, splitting and merging; their guarantees;
    the reducer with its breadth-first search, the effects, and the page as one machine.
  \<^item> \<open>NodeDht\<close>, \<open>DhtGraph\<close> (\<open>features/network/node-dht\<close>, \<open>dht-graph\<close>): distances, rows, slice and effects
    of the hash table; the binary tree of its peers.
  \<^item> \<open>WonSlots\<close>, \<open>BlockOverview\<close> (\<open>features/block-production\<close>): service, slice, effects, filter chips and
    cards of the slots that were won; epochs and their slots with the route and the side panel.
  \<^item> \<open>LedgerHelper\<close> (\<open>shared/helpers/ledger.helper.ts\<close>): the client of the hardware wallet, with the
    layout of the message it signs; its texts are UTF-16 code units, and its arguments distinguish
    \<open>undefined\<close>, \<open>null\<close>, \<open>NaN\<close> and numbers.
  \<^item> \<open>ScanState\<close>, \<open>WorkPool\<close> (\<open>features/snarks\<close>): the trees of jobs and who works on them; the pool of
    proofs. \<open>Mempool\<close> (\<open>features/mempool\<close>): memos, filters and search of the transactions.
  \<^item> \<open>StateActions\<close> (\<open>features/state/actions\<close>): the grouping of action names and their statistics.
  \<^item> \<open>MemoryResources\<close>, \<open>MemoryTreemap\<close> (\<open>features/resources/memory\<close>): the tree of allocations; navigation
    and tiling of the treemap, and both as one page.
  \<^item> \<open>NodesOverview\<close>, \<open>NodesLive\<close> (\<open>features/nodes\<close>): ledgers and blocks of every node; events of one.
  \<^item> \<open>Dashboard\<close>, \<open>DashboardViews\<close> (\<open>features/dashboard\<close>): peers, statistics and the page with its polling;
    the progress of ledgers and blocks with their timers.
  \<^item> \<open>Fuzzing\<close> (\<open>features/fuzzing\<close>): reports and the colouring of lines. \<open>WebNode\<close> (\<open>features/web-node\<close>,
    \<open>core/services/web-node.service.ts\<close>): start of the node in the browser and its progress page.

  \<^bold>\<open>What the theorems show.\<close> The splits theories prove the graph algorithms correct against one
  abstract specification, \<open>scan\<close>: both searches return the classes of connectedness, so they agree;
  splitting adds exactly one group, merging leaves one; the generator ends and gives a simple graph;
  and the whole page, for every sequence of user actions and answers, neither throws nor shows
  anything but the service's network. The slices of messages, blocks and won slots keep their tables
  consistent with their data for every sequence of actions, and so do those of the transactions, the
  events, the overview of nodes and the epochs. The polling of the active node never gets stuck on a
  failed request; those of messages and blocks do, which is proved as well. The sort theorems give
  order, stability and permutation of every table. Round trips are proved for timestamps, for the
  paging of messages, for the links of their filters and for the text of a coloured line. The pages
  that combine several parts are proved as machines: the dashboard refines a small view of it and shows
  the active node unless that changed behind a closed page, the treemap and the table of the memory page
  agree, the progress page of the web node is done when the node is connected or was there before, the
  pages of a new node are the ones checked in its form. The tree algorithms
  are proved against what they compute: levels of jobs, the tree of allocations, and the tree of the
  hash table, which holds every peer. Where the code does something else than it means to, the
  theorem states what it does.

  \<^bold>\<open>Loops and bounds.\<close> No definition uses fuel. The depth-first search ends because the set of
  addresses not visited shrinks or the list of neighbours does; the breadth-first search because the
  peers not in the current set do or the queue gets shorter; the loop of the generator because its
  attempts are bounded by twice the number of peers, which also bounds the draws. Inserting a peer into
  the tree of the hash table ends one level below the longest distance. The trees of jobs, the texts
  and the binary digits are built by recursion on their data. Timers and intervals are events of the
  machines, so no bound on their number is needed.

  \<^bold>\<open>Parameters.\<close> Code that is not part of the sources is an argument: the transport of the hardware
  wallet, its decoding of texts and the digits of fractions in its messages, base 58 and base 64, the
  parser of JSON and of URLs, the archive reader and the WebAssembly module of the web node, the layout and tilings of d3.

  \<^bold>\<open>Helpers.\<close> The manifest maps the definitions that model a type, a function or a part of one; small
  helpers and constants are covered by the definition that uses them.

  \<^bold>\<open>Not modelled.\<close> The Rust crates of the node, the website and the scripts are other programs. Of the
  frontend: templates and styles, drawing with d3, placement of overlays, routing and dependency
  injection are the framework's. The side panels and tables of the features subscribe to the modelled
  slices and forward clicks. The pages of the connections, of the bootstrap statistics and of the nodes'
  bootstrap have the shape of the modelled ones over other requests and are left out; the benchmarks
  build payments with a library that is not part of the sources. Rounding of binary64 numbers, the
  locale data of the runtime and the wire format of HTTP are outside the model.
\<close>

end
